(* ===== verification/Prelude.thy ===== *)
theory Prelude
  imports Complex_Main "HOL-Library.List_Lexorder" "HOL-Library.Char_ord"
begin

text \<open>
  Shared vocabulary of the development: the errors the Python code raises, results as sums,
  the operations of \<^verbatim>\<open>str\<close> and \<^verbatim>\<open>dict\<close> the modelled code uses, JSON values as the code
  receives them, and the lemma collections the component theories extend.

  Text is ASCII: a \<open>string\<close> is a list of 8-bit characters and case conversion and white space
  are those of the ASCII range. Dictionaries are association lists in insertion order with
  distinct keys, which is what CPython's \<^verbatim>\<open>dict\<close> and \<^verbatim>\<open>OrderedDict\<close> keep.
\<close>

named_theorems decimal_simps \<open>signs and bounds of rounded arithmetic\<close>
named_theorems store_simps \<open>reads after writes of the stores and dictionaries\<close>
named_theorems py_text_simps \<open>normal forms of Python text operations\<close>

section \<open>Errors and results\<close>

text \<open>The exceptions the modelled code raises, with their messages.\<close>

datatype py_error =
    ValueError string
  | RuntimeError string
  | TypeError string
  | KeyError string
  | AssertionError
  | OverflowError string
  | InvalidOperation        \<comment> \<open>decimal.InvalidOperation\<close>
  | ValidationError         \<comment> \<open>pydantic.ValidationError\<close>

type_synonym 'a result = "py_error + 'a"

text \<open>Sequencing: the first exception wins.\<close>

definition rbind :: "('e + 'a) \<Rightarrow> ('a \<Rightarrow> 'e + 'b) \<Rightarrow> 'e + 'b" where
  "rbind m f = (case m of Inl e \<Rightarrow> Inl e | Inr v \<Rightarrow> f v)"

lemma rbind_simps [simp]: "rbind (Inl e) f = Inl e" "rbind (Inr v) f = f v"
  by (simp_all add: rbind_def)

lemma rbind_Inr_iff: "rbind m f = Inr w \<longleftrightarrow> (\<exists>v. m = Inr v \<and> f v = Inr w)"
  by (cases m) auto

lemma rbind_cong [fundef_cong]:
  "m = m' \<Longrightarrow> (\<And>v. m' = Inr v \<Longrightarrow> f v = f' v) \<Longrightarrow> rbind m f = rbind m' f'"
  by (cases m') auto

text \<open>A chain of guarded \<^verbatim>\<open>raise\<close> statements: the first condition that holds raises.\<close>

fun first_error :: "(bool \<times> 'e) list \<Rightarrow> 'e option" where
  "first_error [] = None"
| "first_error ((c, e) # gs) = (if c then Some e else first_error gs)"

lemma first_error_None: "first_error gs = None \<longleftrightarrow> (\<forall>g \<in> set gs. \<not> fst g)"
  by (induction gs rule: first_error.induct) auto

text \<open>The guards of a list that raises nothing, one by one.\<close>

lemma no_error_iff: "first_error gs = None \<longleftrightarrow> list_all Not (map fst gs)"
  by (induction gs rule: first_error.induct) auto

lemmas guard_simps = no_error_iff Let_def list.map fst_conv list.pred_inject

definition guarded :: "(bool \<times> 'e) list \<Rightarrow> 'a \<Rightarrow> 'e + 'a" where
  "guarded gs v = (case first_error gs of None \<Rightarrow> Inr v | Some e \<Rightarrow> Inl e)"

lemma guarded_Inr: "guarded gs v = Inr w \<longleftrightarrow> w = v \<and> (\<forall>g \<in> set gs. \<not> fst g)"
  by (auto simp: guarded_def first_error_None [symmetric] split: option.splits)

section \<open>Text\<close>

abbreviation code_of :: "char \<Rightarrow> nat" where
  "code_of c \<equiv> of_char c"

definition is_space :: "char \<Rightarrow> bool" where
  "is_space c = ((9 \<le> code_of c \<and> code_of c \<le> 13) \<or> (28 \<le> code_of c \<and> code_of c \<le> 32))"

definition lower_char :: "char \<Rightarrow> char" where
  "lower_char c = (if 65 \<le> code_of c \<and> code_of c \<le> 90 then char_of (code_of c + 32) else c)"

definition upper_char :: "char \<Rightarrow> char" where
  "upper_char c = (if 97 \<le> code_of c \<and> code_of c \<le> 122 then char_of (code_of c - 32) else c)"

definition py_lower :: "string \<Rightarrow> string" where
  "py_lower = map lower_char"

definition py_upper :: "string \<Rightarrow> string" where
  "py_upper = map upper_char"

definition py_strip :: "string \<Rightarrow> string" where
  "py_strip s = rev (dropWhile is_space (rev (dropWhile is_space s)))"

text \<open>\<^verbatim>\<open>raw.split(c, 1)\<close> at the first occurrence of a character that is present.\<close>

definition split_once :: "char \<Rightarrow> string \<Rightarrow> string \<times> string" where
  "split_once c s = (takeWhile (\<lambda>x. x \<noteq> c) s, tl (dropWhile (\<lambda>x. x \<noteq> c) s))"

text \<open>\<^verbatim>\<open>sep.join(parts)\<close> for a one-character separator.\<close>

fun join_with :: "char \<Rightarrow> string list \<Rightarrow> string" where
  "join_with c [] = []"
| "join_with c [p] = p"
| "join_with c (p # q # ps) = p @ c # join_with c (q # ps)"

text \<open>\<^verbatim>\<open>sub in s\<close> for text: a contiguous occurrence.\<close>

fun starts_with :: "string \<Rightarrow> string \<Rightarrow> bool" where
  "starts_with [] s = True"
| "starts_with (c # p) [] = False"
| "starts_with (c # p) (d # s) = (c = d \<and> starts_with p s)"

fun contains_text :: "string \<Rightarrow> string \<Rightarrow> bool" where
  "contains_text p [] = (p = [])"
| "contains_text p (d # s) = (starts_with p (d # s) \<or> contains_text p s)"

text \<open>\<^verbatim>\<open>str(n)\<close> of an integer.\<close>

fun nat_text :: "nat \<Rightarrow> string" where
  "nat_text n = (if n < 10 then [char_of (48 + n)]
                 else nat_text (n div 10) @ [char_of (48 + n mod 10)])"

declare nat_text.simps [simp del]

definition int_text :: "int \<Rightarrow> string" where
  "int_text i = (if i < 0 then CHR ''-'' # nat_text (nat (- i)) else nat_text (nat i))"

lemma digit_char_inj: "a < 10 \<Longrightarrow> b < 10 \<Longrightarrow> (char_of (48 + a) :: char) = char_of (48 + b) \<longleftrightarrow> a = (b :: nat)"
proof
  assume ab: "a < 10" "b < 10" and "(char_of (48 + a) :: char) = char_of (48 + b)"
  then have "of_char (char_of (48 + a) :: char) = (of_char (char_of (48 + b) :: char) :: nat)" by simp
  then show "a = b" using ab by simp
qed simp

lemma nat_text_inj: "nat_text m = nat_text n \<Longrightarrow> m = n"
proof (induction m arbitrary: n rule: nat_text.induct)
  case (1 m)
  have len: "nat_text j \<noteq> []" for j by (subst nat_text.simps) simp
  have eq: "(if m < 10 then [char_of (48 + m)] else nat_text (m div 10) @ [char_of (48 + m mod 10)])
      = (if n < 10 then [char_of (48 + n)] else nat_text (n div 10) @ [char_of (48 + n mod 10)])"
    using "1.prems" by (simp add: nat_text.simps [of m] nat_text.simps [of n])
  show ?case
  proof (cases "m < 10 \<or> n < 10")
    case True
    then have "m < 10" "n < 10" using eq len [of "m div 10"] len [of "n div 10"]
      by (auto split: if_splits)
    then show ?thesis using eq digit_char_inj [of m n] by simp
  next
    case False
    then have "nat_text (m div 10) = nat_text (n div 10)" "m mod 10 = n mod 10"
      using eq digit_char_inj [of "m mod 10" "n mod 10"] by simp_all
    then show ?thesis using "1.IH" [of "n div 10"] False by (metis div_mult_mod_eq)
  qed
qed

lemma digit_char_no_minus: "m < 10 \<Longrightarrow> (char_of (48 + m :: nat) :: char) \<noteq> CHR ''-''"
proof
  assume "m < 10" and "(char_of (48 + m) :: char) = CHR ''-''"
  then have "of_char (char_of (48 + m) :: char) = (of_char CHR ''-'' :: nat)" by simp
  then show False using \<open>m < 10\<close> by (simp add: of_char_Char)
qed

lemma nat_text_no_minus: "CHR ''-'' \<notin> set (nat_text n)"
proof (induction n rule: nat_text.induct)
  case (1 n)
  then show ?case
    using digit_char_no_minus [of n] digit_char_no_minus [of "n mod 10"]
    by (subst nat_text.simps) (auto dest: sym)
qed

lemma int_text_inj [simp]: "int_text i = int_text j \<longleftrightarrow> i = j"
  using nat_text_inj [of "nat i" "nat j"] nat_text_inj [of "nat (-i)" "nat (-j)"] nat_text_no_minus
  by (auto simp: int_text_def) (metis list.set_intros(1))+

lemma code_of_lower_char:
  "code_of (lower_char c) =
     (if 65 \<le> code_of c \<and> code_of c \<le> 90 then code_of c + 32 else code_of c)"
  by (simp add: lower_char_def)

lemma code_of_upper_char:
  "code_of (upper_char c) =
     (if 97 \<le> code_of c \<and> code_of c \<le> 122 then code_of c - 32 else code_of c)"
  by (auto simp: upper_char_def)

lemma char_code_eqI: "code_of c = code_of d \<Longrightarrow> c = d"
  by simp

lemma lower_char_idem [simp]: "lower_char (lower_char c) = lower_char c"
  by (rule char_code_eqI) (simp add: code_of_lower_char)

lemma upper_char_idem [simp]: "upper_char (upper_char c) = upper_char c"
  by (rule char_code_eqI) (auto simp: code_of_upper_char)

lemma is_space_lower_char [simp]: "is_space (lower_char c) = is_space c"
  by (auto simp: is_space_def code_of_lower_char)

lemma is_space_upper_char [simp]: "is_space (upper_char c) = is_space c"
  by (auto simp: is_space_def code_of_upper_char)

lemma py_lower_idem [simp, py_text_simps]: "py_lower (py_lower s) = py_lower s"
  by (simp add: py_lower_def comp_def)

lemma py_upper_idem [simp, py_text_simps]: "py_upper (py_upper s) = py_upper s"
  by (simp add: py_upper_def comp_def)

lemma dropWhile_map_comp: "dropWhile p (map f s) = map f (dropWhile (p \<circ> f) s)"
  by (induction s) auto

lemma py_strip_map:
  assumes "\<And>c. is_space (f c) = is_space c"
  shows "py_strip (map f s) = map f (py_strip s)"
proof -
  have "is_space \<circ> f = is_space" using assms by auto
  then show ?thesis
    by (simp add: py_strip_def dropWhile_map_comp rev_map)
qed

lemma py_strip_lower: "py_strip (py_lower s) = py_lower (py_strip s)"
  unfolding py_lower_def by (rule py_strip_map) simp

lemma py_strip_upper: "py_strip (py_upper s) = py_upper (py_strip s)"
  unfolding py_upper_def by (rule py_strip_map) simp

text \<open>A stripped text neither starts nor ends with white space, and stripping is idempotent.\<close>

definition stripped :: "string \<Rightarrow> bool" where
  "stripped s = (s = [] \<or> (\<not> is_space (hd s) \<and> \<not> is_space (last s)))"

lemma dropWhile_id: "s = [] \<or> \<not> p (hd s) \<Longrightarrow> dropWhile p s = s"
  by (cases s) auto

lemma py_strip_stripped: "stripped s \<Longrightarrow> py_strip s = s"
  by (cases "s = []") (auto simp: stripped_def py_strip_def dropWhile_id hd_rev)

lemma last_dropWhile: "dropWhile p s \<noteq> [] \<Longrightarrow> last (dropWhile p s) = last s"
  by (induction s) auto

lemma stripped_py_strip: "stripped (py_strip s)"
proof -
  let ?u = "dropWhile is_space s"
  let ?v = "dropWhile is_space (rev ?u)"
  show ?thesis
  proof (cases "?v = []")
    case True
    then show ?thesis by (simp add: stripped_def py_strip_def)
  next
    case False
    then have u: "?u \<noteq> []" by (metis dropWhile.simps(1) rev.simps(1))
    have "\<not> is_space (hd ?v)" using False by (metis hd_dropWhile)
    moreover have "\<not> is_space (hd ?u)" using u by (metis hd_dropWhile)
    moreover have "last ?v = hd ?u"
      using False u by (simp add: last_dropWhile last_rev)
    ultimately show ?thesis
      using False by (simp add: stripped_def py_strip_def hd_rev last_rev)
  qed
qed

lemma py_strip_idem [simp, py_text_simps]: "py_strip (py_strip s) = py_strip s"
  by (rule py_strip_stripped) (rule stripped_py_strip)

section \<open>Dictionaries in insertion order\<close>

type_synonym ('k, 'v) dict = "('k \<times> 'v) list"

text \<open>\<^verbatim>\<open>d[k] = v\<close>: an existing key keeps its place, a new key goes to the end.\<close>

fun dict_put :: "'k \<Rightarrow> 'v \<Rightarrow> ('k, 'v) dict \<Rightarrow> ('k, 'v) dict" where
  "dict_put k v [] = [(k, v)]"
| "dict_put k v ((k', v') # d) = (if k = k' then (k, v) # d else (k', v') # dict_put k v d)"

text \<open>\<^verbatim>\<open>d.pop(k, None)\<close>.\<close>

definition dict_pop :: "'k \<Rightarrow> ('k, 'v) dict \<Rightarrow> ('k, 'v) dict" where
  "dict_pop k d = filter (\<lambda>e. fst e \<noteq> k) d"

abbreviation dict_get :: "('k, 'v) dict \<Rightarrow> 'k \<Rightarrow> 'v option" where
  "dict_get d k \<equiv> map_of d k"

abbreviation dict_keys :: "('k, 'v) dict \<Rightarrow> 'k list" where
  "dict_keys d \<equiv> map fst d"

lemma dict_get_put [simp, store_simps]:
  "dict_get (dict_put k v d) k' = (if k' = k then Some v else dict_get d k')"
  by (induction k v d rule: dict_put.induct) auto

lemma dict_keys_put: "set (dict_keys (dict_put k v d)) = insert k (set (dict_keys d))"
  by (induction k v d rule: dict_put.induct) auto

lemma distinct_dict_put: "distinct (dict_keys d) \<Longrightarrow> distinct (dict_keys (dict_put k v d))"
proof (induction k v d rule: dict_put.induct)
  case (2 k v k' v' d)
  then show ?case using dict_keys_put [of k v d] by auto
qed simp

lemma dict_get_pop [simp, store_simps]:
  "dict_get (dict_pop k d) k' = (if k' = k then None else dict_get d k')"
  unfolding dict_pop_def by (induction d) auto

lemma distinct_dict_pop: "distinct (dict_keys d) \<Longrightarrow> distinct (dict_keys (dict_pop k d))"
  unfolding dict_pop_def by (induction d) auto

lemma length_dict_put:
  "length (dict_put k v d) = (if k \<in> set (dict_keys d) then length d else Suc (length d))"
  by (induction k v d rule: dict_put.induct) auto

lemma length_dict_pop: "length (dict_pop k d) \<le> length d"
  by (simp add: dict_pop_def)

text \<open>Sums over a dictionary, after a new entry, a changed one, and a removed one.\<close>

lemma dict_put_new: "k \<notin> set (dict_keys d) \<Longrightarrow> dict_put k v d = d @ [(k, v)]"
  by (induction k v d rule: dict_put.induct) auto

lemma dict_put_all: "list_all P d \<Longrightarrow> P (k, v) \<Longrightarrow> list_all P (dict_put k v d)"
  by (induction k v d rule: dict_put.induct) auto

lemma dict_put_same: "distinct (dict_keys d) \<Longrightarrow> e \<in> set (dict_put k v d) \<Longrightarrow> fst e = k \<Longrightarrow> snd e = v"
  using map_of_is_SomeI [OF distinct_dict_put, of d "fst e" "snd e" k v] by (cases e) simp

lemma dict_put_other: "e \<in> set (dict_put k v d) \<Longrightarrow> fst e \<noteq> k \<Longrightarrow> e \<in> set d"
  by (induction k v d rule: dict_put.induct) (auto split: if_splits)

lemma dict_pop_all: "list_all P d \<Longrightarrow> list_all P (dict_pop k d)"
  by (auto simp: dict_pop_def list_all_iff)

lemma dict_get_all: "list_all P d \<Longrightarrow> dict_get d k = Some v \<Longrightarrow> P (k, v)"
  by (auto simp: list_all_iff dest: map_of_SomeD)

lemma dict_put_sum:
  fixes f :: "'k \<times> 'v \<Rightarrow> 'n::ab_group_add"
  shows "sum_list (map f (dict_put k v d)) =
    sum_list (map f d) - (case dict_get d k of None \<Rightarrow> 0 | Some w \<Rightarrow> f (k, w)) + f (k, v)"
  by (induction k v d rule: dict_put.induct) (auto simp: algebra_simps)

lemma dict_pop_absent: "k \<notin> set (dict_keys d) \<Longrightarrow> dict_pop k d = d"
  unfolding dict_pop_def by (induction d) auto

lemma dict_pop_sum:
  fixes f :: "'k \<times> 'v \<Rightarrow> 'n::ab_group_add"
  assumes "dict_get d k = Some w" "distinct (dict_keys d)"
  shows "sum_list (map f (dict_pop k d)) = sum_list (map f d) - f (k, w)"
  using assms
proof (induction d)
  case (Cons e d)
  then show ?case using dict_pop_absent [of k d]
    by (cases e) (auto simp: dict_pop_def split: if_splits)
qed simp

section \<open>JSON values\<close>

text \<open>
  Decoded JSON. A float is kept as the text of its \<^verbatim>\<open>repr\<close>, which determines it; the modelled
  code only ever prints floats or converts them through \<^verbatim>\<open>str\<close>.
\<close>

datatype json =
    JNull
  | JBool bool
  | JInt int
  | JFloat string
  | JStr string
  | JList "json list"
  | JObj "(string \<times> json) list"

text \<open>\<^verbatim>\<open>bool(v)\<close>.\<close>

fun truthy :: "json \<Rightarrow> bool" where
  "truthy JNull = False"
| "truthy (JBool b) = b"
| "truthy (JInt i) = (i \<noteq> 0)"
| "truthy (JFloat t) = (t \<notin> {''0.0'', ''-0.0''})"
| "truthy (JStr s) = (s \<noteq> [])"
| "truthy (JList xs) = (xs \<noteq> [])"
| "truthy (JObj d) = (d \<noteq> [])"

text \<open>\<^verbatim>\<open>payload.get(key, default)\<close>.\<close>

definition json_get :: "(string \<times> json) list \<Rightarrow> string \<Rightarrow> json \<Rightarrow> json" where
  "json_get d k dflt = (case dict_get d k of None \<Rightarrow> dflt | Some v \<Rightarrow> v)"

text \<open>\<^verbatim>\<open>a or b\<close>.\<close>

definition py_or :: "json \<Rightarrow> json \<Rightarrow> json" where
  "py_or a b = (if truthy a then a else b)"

text \<open>
  \<^verbatim>\<open>repr\<close> of a text: single quotes unless the text holds a single quote and no double quote;
  back slash, the chosen quote and control characters are escaped.
\<close>

definition hex_digit :: "nat \<Rightarrow> char" where
  "hex_digit n = (if n < 10 then char_of (48 + n) else char_of (87 + n))"

definition repr_char :: "char \<Rightarrow> char \<Rightarrow> string" where
  "repr_char q c =
     (if c = q \<or> code_of c = 92 then [char_of (92::nat), c]
      else if code_of c = 9 then [char_of (92::nat), CHR ''t'']
      else if code_of c = 10 then [char_of (92::nat), CHR ''n'']
      else if code_of c = 13 then [char_of (92::nat), CHR ''r'']
      else if code_of c < 32 \<or> code_of c = 127
        then [char_of (92::nat), CHR ''x'', hex_digit (code_of c div 16), hex_digit (code_of c mod 16)]
      else [c])"

definition repr_text :: "string \<Rightarrow> string" where
  "repr_text s =
     (let single = char_of (39::nat); double = char_of (34::nat);
          q = (if single \<in> set s \<and> double \<notin> set s then double else single)
      in q # concat (map (repr_char q) s) @ [q])"

fun comma_join :: "string list \<Rightarrow> string" where
  "comma_join [] = []"
| "comma_join [p] = p"
| "comma_join (p # q # ps) = p @ '', '' @ comma_join (q # ps)"

fun py_repr :: "json \<Rightarrow> string" where
  "py_repr JNull = ''None''"
| "py_repr (JBool b) = (if b then ''True'' else ''False'')"
| "py_repr (JInt i) = int_text i"
| "py_repr (JFloat t) = t"
| "py_repr (JStr s) = repr_text s"
| "py_repr (JList xs) = ''['' @ comma_join (map py_repr xs) @ '']''"
| "py_repr (JObj d) =
     ''{'' @ comma_join (map (\<lambda>e. repr_text (fst e) @ '': '' @ py_repr (snd e)) d) @ ''}''"

text \<open>\<^verbatim>\<open>str(v)\<close>: a text is itself, anything else prints as its \<^verbatim>\<open>repr\<close>.\<close>

definition py_str :: "json \<Rightarrow> string" where
  "py_str v = (case v of JStr s \<Rightarrow> s | _ \<Rightarrow> py_repr v)"

end
