(* ===== verification/Harness_Contracts.thy ===== *)
theory Harness_Contracts
  imports Prelude
begin

text \<open>
  The data contracts of the workflow harness
  (\<^verbatim>\<open>src/market_agent/workflow_harness_contracts.py\<close>): its enumerations, the frozen models as
  records, and their validators as Boolean checks. A model value exists only if its check holds;
  where the program validates a value again the model runs the check. Texts are taken as the
  contract stores them, that is stripped; a check rejects one that is not. Numbers of type
  \<^verbatim>\<open>StrictFloat\<close> are rationals (the contracts exclude infinities and NaN).
\<close>

section \<open>Field types\<close>

definition short_text :: "string \<Rightarrow> bool" where
  "short_text s = (py_strip s = s \<and> s \<noteq> [] \<and> length s \<le> 256)"

definition long_text :: "string \<Rightarrow> bool" where
  "long_text s = (py_strip s = s \<and> s \<noteq> [] \<and> length s \<le> 4000)"

definition digest_text :: "string \<Rightarrow> bool" where
  "digest_text s = (length s = 64 \<and> list_all (\<lambda>c. c \<in> set ''0123456789abcdef'') s)"

definition optional :: "('a \<Rightarrow> bool) \<Rightarrow> 'a option \<Rightarrow> bool" where
  "optional p x = (case x of None \<Rightarrow> True | Some v \<Rightarrow> p v)"

definition target_ids :: "string list \<Rightarrow> bool" where
  "target_ids xs = (length xs \<le> 64 \<and> list_all short_text xs)"

text \<open>\<^verbatim>\<open>_require_unique\<close>\<close>

definition require_unique :: "'a list \<Rightarrow> bool" where
  "require_unique values = (length values = length (remdups values))"

lemma require_unique_iff [simp]: "require_unique xs = distinct xs"
  by (simp add: require_unique_def length_remdups_card_conv card_distinct distinct_card [symmetric])
     (metis card_distinct distinct_card)

section \<open>Enumerations\<close>

datatype RunState =
    R_CREATED | R_ADMITTED | R_PLANNED | R_READY | R_RUNNING | R_RECONCILING | R_WAITING_APPROVAL
  | R_WAITING_RECONCILIATION | R_DEGRADING | R_SUMMARIZING | R_SUCCEEDED | R_DEGRADED | R_FAILED
  | R_CANCELLED

datatype WorkItemState =
    W_PENDING | W_READY | W_LEASED | W_RUNNING | W_VALIDATING | W_SUCCEEDED | W_RETRY_WAIT
  | W_BLOCKED | W_FAILED | W_CANCELLED

datatype AttemptState =
    A_RESERVED | A_DISPATCHED | A_STREAMING | A_VALIDATING | A_SETTLING | A_COMPLETED
  | A_TIMED_OUT | A_REJECTED | A_FAILED | A_STALE | A_CANCELLED

datatype OutcomeKind = O_ANSWER | O_NO_TRADE | O_UNKNOWN | O_NONE

datatype TaskKind =
    MARKET_CONTEXT | EVENT_FILTER | FUNDAMENTAL | TECHNICAL | DECISION_PLANNER | ESCALATION
  | RECONCILIATION | RISK_GATE | PLAYBOOK_ASSEMBLY | PRESENTATION_SYNTHESIS | LOCALE_RENDERING
  | AUDIT_FINALIZATION | INFORMATIONAL

datatype RiskClass = RC_INFORMATIONAL | RC_TRADING | RC_MANDATORY_EVIDENCE | RC_SIDE_EFFECTING

datatype WorkflowMode = PASSIVE | ACTIVE

datatype KnowledgeStatus = KNOWN | PARTIAL | KS_UNKNOWN | NOT_APPLICABLE

datatype EntityKind = K_run | K_work_item | K_attempt

definition run_states :: "(string \<times> RunState) list" where
  "run_states =
     [(''created'', R_CREATED), (''admitted'', R_ADMITTED), (''planned'', R_PLANNED),
      (''ready'', R_READY), (''running'', R_RUNNING), (''reconciling'', R_RECONCILING),
      (''waiting_approval'', R_WAITING_APPROVAL),
      (''waiting_reconciliation'', R_WAITING_RECONCILIATION), (''degrading'', R_DEGRADING),
      (''summarizing'', R_SUMMARIZING), (''succeeded'', R_SUCCEEDED), (''degraded'', R_DEGRADED),
      (''failed'', R_FAILED), (''cancelled'', R_CANCELLED)]"

definition work_item_states :: "(string \<times> WorkItemState) list" where
  "work_item_states =
     [(''pending'', W_PENDING), (''ready'', W_READY), (''leased'', W_LEASED),
      (''running'', W_RUNNING), (''validating'', W_VALIDATING), (''succeeded'', W_SUCCEEDED),
      (''retry_wait'', W_RETRY_WAIT), (''blocked'', W_BLOCKED), (''failed'', W_FAILED),
      (''cancelled'', W_CANCELLED)]"

definition attempt_states :: "(string \<times> AttemptState) list" where
  "attempt_states =
     [(''reserved'', A_RESERVED), (''dispatched'', A_DISPATCHED), (''streaming'', A_STREAMING),
      (''validating'', A_VALIDATING), (''settling'', A_SETTLING), (''completed'', A_COMPLETED),
      (''timed_out'', A_TIMED_OUT), (''rejected'', A_REJECTED), (''failed'', A_FAILED),
      (''stale'', A_STALE), (''cancelled'', A_CANCELLED)]"

text \<open>The value of a member, and the member of a value (none: the enumeration raises).\<close>

definition enum_value :: "(string \<times> 'e) list \<Rightarrow> 'e \<Rightarrow> string" where
  "enum_value members e = (case find (\<lambda>m. snd m = e) members of Some m \<Rightarrow> fst m | None \<Rightarrow> [])"

definition enum_of :: "(string \<times> 'e) list \<Rightarrow> string \<Rightarrow> 'e option" where
  "enum_of members text = dict_get members text"

section \<open>Outcomes\<close>

record HarnessOutcome =
  ho_terminal_state :: RunState
  ho_outcome_kind :: OutcomeKind
  ho_knowledge_status :: KnowledgeStatus
  ho_terminal_reason :: string

definition answer_reasons :: "string list" where
  "answer_reasons = [''completed'', ''fixed_seed_cache_hit'', ''compatible_semantic_cache_hit'']"

definition allowed_reasons :: "(RunState \<times> OutcomeKind \<times> KnowledgeStatus, string list) dict" where
  "allowed_reasons =
     [((R_SUCCEEDED, O_ANSWER, KNOWN), answer_reasons),
      ((R_SUCCEEDED, O_ANSWER, PARTIAL), answer_reasons),
      ((R_SUCCEEDED, O_NO_TRADE, KNOWN), [''strategy_no_trade'', ''risk_gate_no_trade'']),
      ((R_DEGRADED, O_ANSWER, KNOWN),
         [''lower_model_fallback'', ''verified_local_knowledge_fallback'']),
      ((R_DEGRADED, O_ANSWER, PARTIAL),
         [''lower_model_fallback'', ''verified_local_knowledge_fallback'']),
      ((R_DEGRADED, O_UNKNOWN, KS_UNKNOWN),
         [''insufficient_evidence'', ''confidence_recovery_exhausted'', ''dependency_unavailable'']),
      ((R_DEGRADED, O_NO_TRADE, KS_UNKNOWN), [''safe_no_trade_due_to_degradation'']),
      ((R_DEGRADED, O_NO_TRADE, PARTIAL), [''safe_no_trade_due_to_degradation'']),
      ((R_FAILED, O_NONE, NOT_APPLICABLE),
         [''permanent_policy'', ''integrity'', ''audit'', ''configuration_failure'']),
      ((R_CANCELLED, O_NONE, NOT_APPLICABLE), [''cancellation_completed''])]"

definition outcome_contract :: "HarnessOutcome \<Rightarrow> bool" where
  "outcome_contract x =
     (short_text (ho_terminal_reason x)
      \<and> (case dict_get allowed_reasons
             (ho_terminal_state x, ho_outcome_kind x, ho_knowledge_status x) of
           None \<Rightarrow> False
         | Some reasons \<Rightarrow> ho_terminal_reason x \<in> set reasons))"

section \<open>Plans\<close>

record PinnedVersions =
  pv_plan_template_version :: string
  pv_policy_version :: string
  pv_worker_registry_version :: string
  pv_source_registry_version :: string
  pv_prompt_bundle_hash :: string
  pv_tool_registry_hash :: string
  pv_output_schema_bundle_hash :: string
  pv_fingerprint_schema_version :: string

definition pinned_contract :: "PinnedVersions \<Rightarrow> bool" where
  "pinned_contract v =
     (list_all short_text [pv_plan_template_version v, pv_policy_version v,
        pv_worker_registry_version v, pv_source_registry_version v, pv_fingerprint_schema_version v]
      \<and> list_all digest_text [pv_prompt_bundle_hash v, pv_tool_registry_hash v,
           pv_output_schema_bundle_hash v])"

record StageSpec =
  ss_stage_id :: string
  ss_version :: string
  ss_entry_predicate :: string
  ss_completion_predicate :: string
  ss_allowed_task_kinds :: "TaskKind list"
  ss_dependencies :: "string list"
  ss_maximum_concurrency :: int
  ss_budget_policy_key :: string
  ss_failure_outcome :: OutcomeKind
  ss_degradation_outcome :: OutcomeKind
  ss_allows_side_effects :: bool
  ss_allows_reconciliation :: bool

definition stage_contract :: "StageSpec \<Rightarrow> bool" where
  "stage_contract x =
     (list_all short_text [ss_stage_id x, ss_version x, ss_entry_predicate x,
        ss_completion_predicate x, ss_budget_policy_key x]
      \<and> 1 \<le> length (ss_allowed_task_kinds x) \<and> length (ss_allowed_task_kinds x) \<le> 64
      \<and> target_ids (ss_dependencies x) \<and> 0 < ss_maximum_concurrency x
      \<and> require_unique (ss_allowed_task_kinds x) \<and> require_unique (ss_dependencies x)
      \<and> ss_stage_id x \<notin> set (ss_dependencies x))"

record WorkerSpec =
  ws_worker_id :: string
  ws_version :: string
  ws_supported_task_kinds :: "TaskKind list"
  ws_analysis_phases :: "string list"
  ws_input_schema_id :: string
  ws_input_schema_hash :: string
  ws_output_schema_id :: string
  ws_output_schema_hash :: string
  ws_prompt_release :: string
  ws_prompt_profile :: string
  ws_model_routing_policy_key :: string
  ws_context_selector :: string
  ws_context_token_budget :: int
  ws_readable_state_keys :: "string list"
  ws_writable_invocation_state_key :: string
  ws_allowed_tool_capabilities :: "string list"
  ws_cacheable :: bool
  ws_freshness_class :: string
  ws_maximum_turns :: int
  ws_maximum_tool_calls :: int
  ws_maximum_input_tokens :: int
  ws_maximum_output_tokens :: int
  ws_timeout_seconds :: rat
  ws_maximum_attempts :: int
  ws_maximum_cost :: rat
  ws_success_outcome :: OutcomeKind
  ws_failure_outcome :: OutcomeKind
  ws_degradation_outcome :: OutcomeKind

definition worker_contract :: "WorkerSpec \<Rightarrow> bool" where
  "worker_contract x =
     (list_all short_text [ws_worker_id x, ws_version x, ws_input_schema_id x,
        ws_output_schema_id x, ws_prompt_release x, ws_prompt_profile x,
        ws_model_routing_policy_key x, ws_context_selector x, ws_writable_invocation_state_key x,
        ws_freshness_class x]
      \<and> list_all digest_text [ws_input_schema_hash x, ws_output_schema_hash x]
      \<and> 1 \<le> length (ws_supported_task_kinds x) \<and> length (ws_supported_task_kinds x) \<le> 64
      \<and> 3 \<le> length (ws_analysis_phases x) \<and> length (ws_analysis_phases x) \<le> 5
      \<and> list_all short_text (ws_analysis_phases x)
      \<and> target_ids (ws_readable_state_keys x) \<and> target_ids (ws_allowed_tool_capabilities x)
      \<and> list_all (\<lambda>n. 0 < n) [ws_context_token_budget x, ws_maximum_turns x,
           ws_maximum_input_tokens x, ws_maximum_output_tokens x, ws_maximum_attempts x]
      \<and> 0 \<le> ws_maximum_tool_calls x \<and> 0 < ws_timeout_seconds x \<and> 0 \<le> ws_maximum_cost x
      \<and> require_unique (ws_supported_task_kinds x) \<and> require_unique (ws_analysis_phases x)
      \<and> require_unique (ws_readable_state_keys x) \<and> require_unique (ws_allowed_tool_capabilities x)
      \<and> ws_writable_invocation_state_key x \<notin> set (ws_readable_state_keys x))"

record ProgressTargetSet =
  pt_required_dependency_ids :: "string list"
  pt_required_output_field_paths :: "string list"
  pt_required_evidence_slot_ids :: "string list"
  pt_required_source_coverage_weights :: "(string \<times> rat) list"
  pt_known_conflict_slot_ids :: "string list"
  pt_risk_invariant_ids :: "string list"

definition progress_targets_contract :: "ProgressTargetSet \<Rightarrow> bool" where
  "progress_targets_contract x =
     (list_all (\<lambda>ids. target_ids ids \<and> require_unique ids)
        [pt_required_dependency_ids x, pt_required_output_field_paths x,
         pt_required_evidence_slot_ids x, pt_known_conflict_slot_ids x, pt_risk_invariant_ids x]
      \<and> length (pt_required_source_coverage_weights x) \<le> 64
      \<and> list_all (\<lambda>w. short_text (fst w) \<and> 0 < snd w \<and> snd w \<le> 1)
          (pt_required_source_coverage_weights x)
      \<and> require_unique (map fst (pt_required_source_coverage_weights x)))"

record WorkItemSpec =
  wi_work_item_id :: string
  wi_stage_id :: string
  wi_worker_id :: string
  wi_task_kind :: TaskKind
  wi_objective :: string
  wi_dependencies :: "string list"
  wi_progress_targets :: ProgressTargetSet

definition work_item_contract :: "WorkItemSpec \<Rightarrow> bool" where
  "work_item_contract x =
     (list_all short_text [wi_work_item_id x, wi_stage_id x, wi_worker_id x]
      \<and> long_text (wi_objective x) \<and> target_ids (wi_dependencies x)
      \<and> progress_targets_contract (wi_progress_targets x)
      \<and> require_unique (wi_dependencies x) \<and> wi_work_item_id x \<notin> set (wi_dependencies x)
      \<and> set (wi_dependencies x) = set (pt_required_dependency_ids (wi_progress_targets x)))"

section \<open>Dependency graphs\<close>

text \<open>
  \<^verbatim>\<open>_validate_dependency_graph\<close>: the depth-first search with its sets \<^verbatim>\<open>visiting\<close> and
  \<^verbatim>\<open>visited\<close>. The fuel bounds the depth of the recursion; the number of identifiers is enough
  because every call adds one to \<^verbatim>\<open>visiting\<close> (\<open>visit_enough_fuel\<close>).
\<close>

definition deps_of :: "(string, string list) dict \<Rightarrow> string \<Rightarrow> string list" where
  "deps_of deps identifier = (case dict_get deps identifier of None \<Rightarrow> [] | Some ds \<Rightarrow> ds)"

datatype search = Cycle | Out_of_fuel | Visited "string list"

fun visit ::
  "nat \<Rightarrow> (string, string list) dict \<Rightarrow> string list \<Rightarrow> string list \<Rightarrow> string \<Rightarrow> search"
and visit_all ::
  "nat \<Rightarrow> (string, string list) dict \<Rightarrow> string list \<Rightarrow> string list \<Rightarrow> string list \<Rightarrow> search"
where
  "visit fuel deps visiting visited identifier =
     (if identifier \<in> set visiting then Cycle
      else if identifier \<in> set visited then Visited visited
      else case fuel of
        0 \<Rightarrow> Out_of_fuel
      | Suc n \<Rightarrow>
          (case visit_all n deps (identifier # visiting) visited (deps_of deps identifier) of
             Visited v \<Rightarrow> Visited (identifier # v)
           | r \<Rightarrow> r))"
| "visit_all fuel deps visiting visited [] = Visited visited"
| "visit_all fuel deps visiting visited (identifier # rest) =
     (case visit fuel deps visiting visited identifier of
        Visited v \<Rightarrow> visit_all fuel deps visiting v rest
      | r \<Rightarrow> r)"

definition validate_dependency_graph ::
  "(string, string list) dict \<Rightarrow> string \<Rightarrow> unit result" where
  "validate_dependency_graph deps description =
     (if \<not> list_all (list_all (\<lambda>d. d \<in> set (dict_keys deps))) (map snd deps)
      then Inl (ValueError (description @ '' dependencies must reference declared identifiers''))
      else case visit_all (length deps) deps [] [] (dict_keys deps) of
        Visited _ \<Rightarrow> Inr ()
      | _ \<Rightarrow> Inl (ValueError (description @ '' dependencies must be acyclic'')))"

section \<open>The plan\<close>

record HarnessPlan =
  hp_plan_id :: string
  hp_run_id :: string
  hp_trace_id :: string
  hp_template_id :: string
  hp_revision :: int
  hp_mode :: WorkflowMode
  hp_task_kind :: TaskKind
  hp_risk_class :: RiskClass
  hp_pinned_versions :: PinnedVersions
  hp_stages :: "StageSpec list"
  hp_workers :: "WorkerSpec list"
  hp_work_items :: "WorkItemSpec list"
  hp_allows_side_effects :: bool

definition item_error :: "HarnessPlan \<Rightarrow> WorkItemSpec \<Rightarrow> string option" where
  "item_error p item =
     (case dict_get (map (\<lambda>st. (ss_stage_id st, st)) (hp_stages p)) (wi_stage_id item) of
        None \<Rightarrow> Some ''work items must reference a declared stage''
      | Some st \<Rightarrow>
        (case dict_get (map (\<lambda>w. (ws_worker_id w, w)) (hp_workers p)) (wi_worker_id item) of
           None \<Rightarrow> Some ''work items must reference a declared worker''
         | Some w \<Rightarrow>
             if wi_task_kind item \<notin> set (ss_allowed_task_kinds st)
               then Some ''work-item kind is not allowed by its stage''
             else if wi_task_kind item \<notin> set (ws_supported_task_kinds w)
               then Some ''work-item kind is not supported by its worker''
             else None))"

definition unique_error :: "'a list \<Rightarrow> string \<Rightarrow> unit result" where
  "unique_error values description =
     (if require_unique values then Inr () else Inl (ValueError (description @ '' must be unique'')))"

definition validate_graph :: "HarnessPlan \<Rightarrow> unit result" where
  "validate_graph p =
     rbind (unique_error (map ss_stage_id (hp_stages p)) ''stage identifiers'') (\<lambda>_.
     rbind (unique_error (map ws_worker_id (hp_workers p)) ''worker identifiers'') (\<lambda>_.
     rbind (unique_error (map wi_work_item_id (hp_work_items p)) ''work-item identifiers'') (\<lambda>_.
     rbind (validate_dependency_graph
              (map (\<lambda>st. (ss_stage_id st, ss_dependencies st)) (hp_stages p)) ''stage'') (\<lambda>_.
     rbind (validate_dependency_graph
              (map (\<lambda>i. (wi_work_item_id i, wi_dependencies i)) (hp_work_items p))
              ''work-item'') (\<lambda>_.
     case List.find (\<lambda>i. item_error p i \<noteq> None) (hp_work_items p) of
       Some i \<Rightarrow> Inl (ValueError (the (item_error p i)))
     | None \<Rightarrow>
         if list_ex ss_allows_side_effects (hp_stages p) \<and> \<not> hp_allows_side_effects p
           then Inl (ValueError ''side-effecting stages require a side-effecting plan'')
         else if hp_mode p = PASSIVE \<and> hp_allows_side_effects p
           then Inl (ValueError ''passive plans cannot allow side effects'')
         else Inr ())))))"

definition plan_fields :: "HarnessPlan \<Rightarrow> bool" where
  "plan_fields p =
     (list_all short_text [hp_plan_id p, hp_run_id p, hp_trace_id p, hp_template_id p]
      \<and> 0 \<le> hp_revision p \<and> pinned_contract (hp_pinned_versions p)
      \<and> 1 \<le> length (hp_stages p) \<and> length (hp_stages p) \<le> 64
      \<and> 1 \<le> length (hp_workers p) \<and> length (hp_workers p) \<le> 64
      \<and> 1 \<le> length (hp_work_items p) \<and> length (hp_work_items p) \<le> 256
      \<and> list_all stage_contract (hp_stages p) \<and> list_all worker_contract (hp_workers p)
      \<and> list_all work_item_contract (hp_work_items p))"

section \<open>Transitions and their authority\<close>

record HarnessTransition =
  ht_run_id :: string
  ht_trace_id :: string
  ht_entity_kind :: EntityKind
  ht_entity_id :: string
  ht_from_state :: string
  ht_to_state :: string
  ht_expected_state_revision :: int
  ht_plan_revision :: int
  ht_reason_code :: string
  ht_idempotency_key :: string
  ht_lease_epoch :: "int option"
  ht_fencing_token_digest :: "string option"

definition transition_contract :: "HarnessTransition \<Rightarrow> bool" where
  "transition_contract x =
     (list_all short_text [ht_run_id x, ht_trace_id x, ht_entity_id x, ht_from_state x,
        ht_to_state x, ht_reason_code x, ht_idempotency_key x]
      \<and> 0 \<le> ht_expected_state_revision x \<and> 0 \<le> ht_plan_revision x
      \<and> optional (\<lambda>n. 0 < n) (ht_lease_epoch x) \<and> optional digest_text (ht_fencing_token_digest x)
      \<and> (if ht_entity_kind x = K_run
         then ht_lease_epoch x = None \<and> ht_fencing_token_digest x = None
         else ht_lease_epoch x \<noteq> None \<and> ht_fencing_token_digest x \<noteq> None))"

record ProgressVector =
  pg_completed_dependency_count :: int
  pg_valid_required_field_count :: int
  pg_filled_required_evidence_slot_count :: int
  pg_fresh_authoritative_source_coverage :: rat
  pg_missing_evidence_count :: int
  pg_validation_error_count :: int
  pg_unresolved_conflict_count :: int
  pg_risk_invariant_failure_count :: int

record LeaseToken =
  lt_run_id :: string
  lt_work_item_id :: string
  lt_attempt_id :: string
  lt_lease_epoch :: int
  lt_fencing_token :: string
  lt_holder_id :: string
  lt_expires_at_monotonic :: rat

definition lease_contract :: "LeaseToken \<Rightarrow> bool" where
  "lease_contract x =
     (list_all short_text [lt_run_id x, lt_work_item_id x, lt_attempt_id x, lt_fencing_token x,
        lt_holder_id x]
      \<and> 0 < lt_lease_epoch x \<and> 0 < lt_expires_at_monotonic x)"

record TransitionAuthorityRecord =
  ta_run_id :: string
  ta_trace_id :: string
  ta_entity_kind :: EntityKind
  ta_entity_id :: string
  ta_from_state :: string
  ta_to_state :: string
  ta_expected_state_revision :: int
  ta_plan_revision :: int
  ta_reason_code :: string
  ta_idempotency_key :: string
  ta_dependency_versions :: "(string \<times> int) list"
  ta_reservation_id :: "string option"
  ta_grant_id :: "string option"
  ta_lease_epoch :: "int option"
  ta_fencing_token_digest :: "string option"

definition authority_contract :: "TransitionAuthorityRecord \<Rightarrow> bool" where
  "authority_contract x =
     (list_all short_text [ta_run_id x, ta_trace_id x, ta_entity_id x, ta_from_state x,
        ta_to_state x, ta_reason_code x, ta_idempotency_key x]
      \<and> 0 \<le> ta_expected_state_revision x \<and> 0 \<le> ta_plan_revision x
      \<and> list_all (\<lambda>d. short_text (fst d) \<and> 0 \<le> snd d) (ta_dependency_versions x)
      \<and> optional short_text (ta_reservation_id x) \<and> optional short_text (ta_grant_id x)
      \<and> optional (\<lambda>n. 0 < n) (ta_lease_epoch x) \<and> optional digest_text (ta_fencing_token_digest x)
      \<and> require_unique (map fst (ta_dependency_versions x))
      \<and> (if ta_entity_kind x = K_run
         then ta_reservation_id x = None \<and> ta_grant_id x = None \<and> ta_lease_epoch x = None
              \<and> ta_fencing_token_digest x = None
         else ta_reservation_id x \<noteq> None \<and> ta_grant_id x \<noteq> None \<and> ta_lease_epoch x \<noteq> None
              \<and> ta_fencing_token_digest x \<noteq> None))"

record AttemptWorkItemOwnershipRecord =
  ao_run_id :: string
  ao_trace_id :: string
  ao_attempt_id :: string
  ao_work_item_id :: string
  ao_plan_revision :: int

definition ownership_contract :: "AttemptWorkItemOwnershipRecord \<Rightarrow> bool" where
  "ownership_contract x =
     (list_all short_text [ao_run_id x, ao_trace_id x, ao_attempt_id x, ao_work_item_id x]
      \<and> 0 \<le> ao_plan_revision x)"

text \<open>The field \<^verbatim>\<open>side_effect_resolved\<close> is the literal \<^verbatim>\<open>True\<close> and is left out.\<close>

record ReconciliationResolutionRecord =
  rr_run_id :: string
  rr_trace_id :: string
  rr_reconciliation_id :: string
  rr_expected_state_revision :: int
  rr_plan_revision :: int
  rr_broker_observation_digest :: string

definition resolution_contract :: "ReconciliationResolutionRecord \<Rightarrow> bool" where
  "resolution_contract x =
     (list_all short_text [rr_run_id x, rr_trace_id x, rr_reconciliation_id x]
      \<and> 0 \<le> rr_expected_state_revision x \<and> 0 \<le> rr_plan_revision x
      \<and> digest_text (rr_broker_observation_digest x))"

definition semantic_authority_key ::
  "ReconciliationResolutionRecord \<Rightarrow> string \<times> string \<times> int \<times> int" where
  "semantic_authority_key x =
     (rr_run_id x, rr_trace_id x, rr_plan_revision x, rr_expected_state_revision x)"

section \<open>The session view\<close>

record HarnessSessionView =
  hv_sequence :: int
  hv_state_revision :: int
  hv_plan_revision :: int
  hv_run_id :: "string option"
  hv_trace_id :: "string option"
  hv_request_digest :: "string option"
  hv_prompt_release_digest :: "string option"
  hv_accepted_result_digest :: "string option"
  hv_run_state :: "RunState option"
  hv_outcome :: "HarnessOutcome option"
  hv_work_item_states :: "(string, WorkItemState) dict"
  hv_attempt_states :: "(string, AttemptState) dict"
  hv_dependency_versions :: "(string, int) dict"
  hv_transition_authorities :: "TransitionAuthorityRecord list"
  hv_attempt_work_item_owners :: "AttemptWorkItemOwnershipRecord list"
  hv_reconciliation_resolutions :: "ReconciliationResolutionRecord list"
  hv_applied_idempotency_keys :: "string list"
  hv_external_side_effect_unknown :: bool
  hv_last_event_hash :: "string option"

definition empty_view :: HarnessSessionView where
  "empty_view =
     \<lparr>hv_sequence = 0, hv_state_revision = 0, hv_plan_revision = 0, hv_run_id = None,
      hv_trace_id = None, hv_request_digest = None, hv_prompt_release_digest = None,
      hv_accepted_result_digest = None, hv_run_state = None, hv_outcome = None,
      hv_work_item_states = [], hv_attempt_states = [], hv_dependency_versions = [],
      hv_transition_authorities = [], hv_attempt_work_item_owners = [],
      hv_reconciliation_resolutions = [], hv_applied_idempotency_keys = [],
      hv_external_side_effect_unknown = False, hv_last_event_hash = None\<rparr>"

definition view_fields :: "HarnessSessionView \<Rightarrow> bool" where
  "view_fields v =
     (0 \<le> hv_sequence v \<and> 0 \<le> hv_state_revision v \<and> 0 \<le> hv_plan_revision v
      \<and> list_all (optional short_text) [hv_run_id v, hv_trace_id v]
      \<and> list_all (optional digest_text) [hv_request_digest v, hv_prompt_release_digest v,
           hv_accepted_result_digest v, hv_last_event_hash v]
      \<and> optional outcome_contract (hv_outcome v)
      \<and> list_all short_text (dict_keys (hv_work_item_states v))
      \<and> list_all short_text (dict_keys (hv_attempt_states v))
      \<and> list_all (\<lambda>d. short_text (fst d) \<and> 0 \<le> snd d) (hv_dependency_versions v)
      \<and> list_all authority_contract (hv_transition_authorities v)
      \<and> list_all ownership_contract (hv_attempt_work_item_owners v)
      \<and> list_all resolution_contract (hv_reconciliation_resolutions v)
      \<and> target_ids (hv_applied_idempotency_keys v))"

text \<open>\<^verbatim>\<open>validate_identity_and_terminal_outcome\<close>\<close>

definition view_consistent :: "HarnessSessionView \<Rightarrow> bool" where
  "view_consistent v =
     ((hv_run_id v = None) = (hv_trace_id v = None)
      \<and> (hv_external_side_effect_unknown v \<longrightarrow>
           hv_run_state v = Some R_WAITING_RECONCILIATION \<and> hv_outcome v = None)
      \<and> (case hv_outcome v of None \<Rightarrow> True | Some x \<Rightarrow> hv_run_state v = Some (ho_terminal_state x))
      \<and> require_unique (dict_keys (hv_work_item_states v))
      \<and> require_unique (dict_keys (hv_attempt_states v))
      \<and> require_unique (dict_keys (hv_dependency_versions v))
      \<and> require_unique (map (\<lambda>r. (ta_entity_kind r, ta_entity_id r, ta_expected_state_revision r))
                            (hv_transition_authorities v))
      \<and> require_unique (map ao_attempt_id (hv_attempt_work_item_owners v))
      \<and> require_unique (map semantic_authority_key (hv_reconciliation_resolutions v))
      \<and> require_unique (hv_applied_idempotency_keys v))"

definition view_contract :: "HarnessSessionView \<Rightarrow> bool" where
  "view_contract v = (view_fields v \<and> view_consistent v)"

section \<open>The search is right\<close>

definition edges :: "(string, string list) dict \<Rightarrow> (string \<times> string) set" where
  "edges deps = {(a, b). \<exists>ds. dict_get deps a = Some ds \<and> b \<in> set ds}"

text \<open>What is visited is closed under dependencies and has no cycle in it.\<close>

definition settled :: "(string, string list) dict \<Rightarrow> string list \<Rightarrow> bool" where
  "settled deps v = (\<forall>a \<in> set v. (a, a) \<notin> (edges deps)\<^sup>+ \<and> (\<forall>b. (a, b) \<in> edges deps \<longrightarrow> b \<in> set v))"

lemma settled_reach:
  assumes "(a, b) \<in> (edges deps)\<^sup>+" and "settled deps v" and "a \<in> set v"
  shows "b \<in> set v"
  using assms by (induction rule: trancl_induct) (auto simp: settled_def)

lemma settled_Cons:
  assumes "settled deps v" and "\<And>b. (x, b) \<in> edges deps \<Longrightarrow> b \<in> set v" and "x \<notin> set v"
  shows "settled deps (x # v)"
proof -
  have "(x, x) \<notin> (edges deps)\<^sup>+"
    using assms settled_reach by (metis converse_tranclE)
  then show ?thesis using assms by (auto simp: settled_def)
qed

lemma edge_iff: "(a, b) \<in> edges deps \<longleftrightarrow> b \<in> set (deps_of deps a)"
  by (cases "dict_get deps a") (auto simp: edges_def deps_of_def)

lemma visit_sound:
  "visit fuel deps visiting visited x = Visited v \<Longrightarrow> settled deps visited \<Longrightarrow> set visited \<inter> set visiting = {} \<Longrightarrow>
     settled deps v \<and> x \<in> set v \<and> set visited \<subseteq> set v \<and> set v \<inter> set visiting = {}"
  "visit_all fuel deps visiting visited xs = Visited v \<Longrightarrow> settled deps visited \<Longrightarrow> set visited \<inter> set visiting = {} \<Longrightarrow>
     settled deps v \<and> set xs \<subseteq> set v \<and> set visited \<subseteq> set v \<and> set v \<inter> set visiting = {}"
proof (induction fuel deps visiting visited x and fuel deps visiting visited xs
    arbitrary: v and v rule: visit_visit_all.induct)
  case (1 fuel deps visiting visited x)
  show ?case
  proof (cases "x \<in> set visited")
    case True
    then show ?thesis using 1(2-4) by (auto split: if_splits)
  next
    case False
    with 1(2) obtain n w where n: "fuel = Suc n" "x \<notin> set visiting" and v: "v = x # w"
      and w: "visit_all n deps (x # visiting) visited
                (deps_of deps x) = Visited w"
      by (auto split: if_splits nat.splits search.splits)
    have "settled deps w \<and> set (deps_of deps x) \<subseteq> set w
        \<and> set visited \<subseteq> set w \<and> set w \<inter> set (x # visiting) = {}"
      using 1(1) [OF n(2) False n(1) w 1(3)] 1(4) False by auto
    then show ?thesis using settled_Cons [of deps w x] n(2) by (auto simp: v edge_iff)
  qed
next
  case (2 fuel deps visiting visited)
  then show ?case by auto
next
  case (3 fuel deps visiting visited x xs)
  then obtain w where w: "visit fuel deps visiting visited x = Visited w"
    "visit_all fuel deps visiting w xs = Visited v"
    by (auto simp del: visit.simps split: search.splits)
  have 1: "settled deps w \<and> x \<in> set w \<and> set visited \<subseteq> set w \<and> set w \<inter> set visiting = {}"
    using 3(1) [OF w(1)] 3(4,5) by blast
  then have "settled deps v \<and> set xs \<subseteq> set v \<and> set w \<subseteq> set v \<and> set v \<inter> set visiting = {}"
    using 3(2) [OF w] by blast
  then show ?case using 1 by auto
qed

lemma visit_cycle:
  "visit fuel deps visiting visited x = Cycle \<Longrightarrow> (\<forall>y \<in> set visiting. (y, x) \<in> (edges deps)\<^sup>+) \<Longrightarrow>
     \<exists>a. (a, a) \<in> (edges deps)\<^sup>+"
  "visit_all fuel deps visiting visited xs = Cycle \<Longrightarrow> (\<forall>x \<in> set xs. \<forall>y \<in> set visiting. (y, x) \<in> (edges deps)\<^sup>+) \<Longrightarrow>
     \<exists>a. (a, a) \<in> (edges deps)\<^sup>+"
proof (induction fuel deps visiting visited x and fuel deps visiting visited xs rule: visit_visit_all.induct)
  case (1 fuel deps visiting visited x)
  show ?case
  proof (cases "x \<in> set visiting")
    case True then show ?thesis using 1(3) by blast
  next
    case False
    with 1(2) obtain n where n: "fuel = Suc n" "x \<notin> set visited" and w: "visit_all n deps (x # visiting) visited
                (deps_of deps x) = Cycle"
      by (auto split: if_splits nat.splits search.splits)
    show ?thesis
    proof (rule 1(1) [OF False n(2,1) w], intro ballI)
      fix z y assume "z \<in> set (deps_of deps x)" "y \<in> set (x # visiting)"
      then show "(y, z) \<in> (edges deps)\<^sup>+" using 1(3) by (auto simp: edge_iff [symmetric] intro: trancl_into_trancl)
    qed
  qed
next
  case (2 fuel deps visiting visited)
  then show ?case by simp
next
  case (3 fuel deps visiting visited x xs)
  then show ?case by (auto simp del: visit.simps split: search.splits)
qed

lemma visit_enough_fuel:
  "distinct visiting \<Longrightarrow> set visiting \<subseteq> K \<Longrightarrow> x \<in> K \<Longrightarrow> finite K \<Longrightarrow> card K \<le> fuel + length visiting \<Longrightarrow>
     (\<And>a b. (a, b) \<in> edges deps \<Longrightarrow> b \<in> K) \<Longrightarrow> visit fuel deps visiting visited x \<noteq> Out_of_fuel"
  "distinct visiting \<Longrightarrow> set visiting \<subseteq> K \<Longrightarrow> set xs \<subseteq> K \<Longrightarrow> finite K \<Longrightarrow> card K \<le> fuel + length visiting \<Longrightarrow>
     (\<And>a b. (a, b) \<in> edges deps \<Longrightarrow> b \<in> K) \<Longrightarrow> visit_all fuel deps visiting visited xs \<noteq> Out_of_fuel"
proof (induction fuel deps visiting visited x and fuel deps visiting visited xs rule: visit_visit_all.induct)
  case (1 fuel deps visiting visited x)
  show ?case
  proof (cases "x \<in> set visiting \<or> x \<in> set visited")
    case True then show ?thesis by auto
  next
    case False
    have "length (x # visiting) \<le> card K"
      using False 1(2-5) by (metis card_mono distinct_card distinct.simps(2) insert_subset list.simps(15))
    then obtain n where n: "fuel = Suc n" using 1(6) by (cases fuel) auto
    have "visit_all n deps (x # visiting) visited
        (deps_of deps x) \<noteq> Out_of_fuel"
      by (rule 1(1) [OF _ _ n]) (use False 1(2-7) n in \<open>auto simp: edge_iff [symmetric]\<close>)
    then show ?thesis using False n by (auto split: search.splits)
  qed
next
  case (2 fuel deps visiting visited)
  then show ?case by simp
next
  case (3 fuel deps visiting visited x xs)
  then show ?case by (auto simp del: visit.simps split: search.splits)
qed


lemma validate_dependency_graph_iff:
  assumes "distinct (dict_keys deps)"
  shows "validate_dependency_graph deps description = Inr () \<longleftrightarrow>
           (\<forall>(a, b) \<in> edges deps. b \<in> set (dict_keys deps)) \<and> acyclic (edges deps)"
proof -
  let ?K = "set (dict_keys deps)"
  have closed: "list_all (list_all (\<lambda>d. d \<in> ?K)) (map snd deps) \<longleftrightarrow> (\<forall>(a, b) \<in> edges deps. b \<in> ?K)"
    using assms by (auto simp: edges_def list_all_iff dest: map_of_SomeD) (metis map_of_eq_Some_iff)
  show ?thesis
  proof (cases "\<forall>(a, b) \<in> edges deps. b \<in> ?K")
    case False
    then show ?thesis using closed by (simp add: validate_dependency_graph_def)
  next
    case True
    let ?r = "visit_all (length deps) deps [] [] (dict_keys deps)"
    have "card ?K \<le> length deps" using card_length [of "dict_keys deps"] by simp
    then have fuel: "?r \<noteq> Out_of_fuel"
      using True by (intro visit_enough_fuel(2) [where K = ?K]) auto
    have "acyclic (edges deps)" if "?r = Visited v" for v
    proof -
      have v: "settled deps v" "?K \<subseteq> set v"
        using visit_sound(2) [OF that] by (auto simp: settled_def)
      have "a \<in> ?K" if "(a, b) \<in> (edges deps)\<^sup>+" for a b
        using that by (induction rule: trancl_induct) (auto simp: edges_def dest!: map_of_SomeD intro: rev_image_eqI)
      then show ?thesis using v unfolding acyclic_def settled_def by blast
    qed
    moreover have "\<not> acyclic (edges deps)" if "?r = Cycle"
      using visit_cycle(2) [OF that] by (auto simp: acyclic_def)
    ultimately show ?thesis using fuel closed True
      by (cases ?r) (auto simp: validate_dependency_graph_def)
  qed
qed

lemma validate_dependency_graph_ok:
  assumes "distinct (dict_keys deps)" and "validate_dependency_graph deps description = Inr ()"
  shows "acyclic (edges deps)" and "(a, b) \<in> edges deps \<Longrightarrow> b \<in> set (dict_keys deps)"
  using validate_dependency_graph_iff [OF assms(1), of description] assms(2) by auto



definition item_edges :: "HarnessPlan \<Rightarrow> (string \<times> string) set" where
  "item_edges p = edges (map (\<lambda>i. (wi_work_item_id i, wi_dependencies i)) (hp_work_items p))"

lemma unique_error_ok [simp]: "unique_error xs d = Inr () \<longleftrightarrow> distinct xs"
  by (simp add: unique_error_def)

lemma item_error_None:
  assumes "item_error p i = None"
  shows "\<exists>st \<in> set (hp_stages p). ss_stage_id st = wi_stage_id i
           \<and> wi_task_kind i \<in> set (ss_allowed_task_kinds st)"
    and "\<exists>w \<in> set (hp_workers p). ws_worker_id w = wi_worker_id i
           \<and> wi_task_kind i \<in> set (ws_supported_task_kinds w)"
proof -
  from assms obtain st w where
    "dict_get (map (\<lambda>st. (ss_stage_id st, st)) (hp_stages p)) (wi_stage_id i) = Some st"
    "dict_get (map (\<lambda>w. (ws_worker_id w, w)) (hp_workers p)) (wi_worker_id i) = Some w"
    and kinds: "wi_task_kind i \<in> set (ss_allowed_task_kinds st)"
      "wi_task_kind i \<in> set (ws_supported_task_kinds w)"
    unfolding item_error_def by (auto split: option.splits if_splits)
  then have "st \<in> set (hp_stages p) \<and> ss_stage_id st = wi_stage_id i"
    "w \<in> set (hp_workers p) \<and> ws_worker_id w = wi_worker_id i"
    by (auto dest!: map_of_SomeD)
  with kinds show "\<exists>st \<in> set (hp_stages p). ss_stage_id st = wi_stage_id i
           \<and> wi_task_kind i \<in> set (ss_allowed_task_kinds st)"
    and "\<exists>w \<in> set (hp_workers p). ws_worker_id w = wi_worker_id i
           \<and> wi_task_kind i \<in> set (ws_supported_task_kinds w)" by blast+
qed


definition example_item :: "string \<Rightarrow> string list \<Rightarrow> WorkItemSpec" where
  "example_item i ds =
     \<lparr>wi_work_item_id = i, wi_stage_id = ''evidence'', wi_worker_id = ''technical'',
      wi_task_kind = TECHNICAL, wi_objective = ''read the chart'', wi_dependencies = ds,
      wi_progress_targets =
        \<lparr>pt_required_dependency_ids = ds, pt_required_output_field_paths = [],
         pt_required_evidence_slot_ids = [], pt_required_source_coverage_weights = [],
         pt_known_conflict_slot_ids = [], pt_risk_invariant_ids = []\<rparr>\<rparr>"

definition example_plan :: HarnessPlan where
  "example_plan =
     \<lparr>hp_plan_id = ''plan'', hp_run_id = ''run'', hp_trace_id = ''trace'', hp_template_id = ''t'',
      hp_revision = 0, hp_mode = PASSIVE, hp_task_kind = TECHNICAL,
      hp_risk_class = RC_INFORMATIONAL,
      hp_pinned_versions =
        \<lparr>pv_plan_template_version = ''1'', pv_policy_version = ''1'',
         pv_worker_registry_version = ''1'', pv_source_registry_version = ''1'',
         pv_prompt_bundle_hash = replicate 64 CHR ''a'', pv_tool_registry_hash = replicate 64 CHR ''b'',
         pv_output_schema_bundle_hash = replicate 64 CHR ''c'', pv_fingerprint_schema_version = ''1''\<rparr>,
      hp_stages =
        [\<lparr>ss_stage_id = ''evidence'', ss_version = ''1'', ss_entry_predicate = ''always'',
          ss_completion_predicate = ''done'', ss_allowed_task_kinds = [TECHNICAL],
          ss_dependencies = [], ss_maximum_concurrency = 1, ss_budget_policy_key = ''b'',
          ss_failure_outcome = O_NONE, ss_degradation_outcome = O_UNKNOWN,
          ss_allows_side_effects = False, ss_allows_reconciliation = False\<rparr>],
      hp_workers =
        [\<lparr>ws_worker_id = ''technical'', ws_version = ''1'', ws_supported_task_kinds = [TECHNICAL],
          ws_analysis_phases = [''read'', ''weigh'', ''report''], ws_input_schema_id = ''i'',
          ws_input_schema_hash = replicate 64 CHR ''d'', ws_output_schema_id = ''o'',
          ws_output_schema_hash = replicate 64 CHR ''e'', ws_prompt_release = ''p'',
          ws_prompt_profile = ''p'', ws_model_routing_policy_key = ''m'',
          ws_context_selector = ''c'', ws_context_token_budget = 1000, ws_readable_state_keys = [],
          ws_writable_invocation_state_key = ''out'', ws_allowed_tool_capabilities = [],
          ws_cacheable = False, ws_freshness_class = ''f'', ws_maximum_turns = 1,
          ws_maximum_tool_calls = 0, ws_maximum_input_tokens = 1000,
          ws_maximum_output_tokens = 1000, ws_timeout_seconds = 30, ws_maximum_attempts = 2,
          ws_maximum_cost = 1, ws_success_outcome = O_ANSWER, ws_failure_outcome = O_NONE,
          ws_degradation_outcome = O_UNKNOWN\<rparr>],
      hp_work_items = [example_item ''chart'' [], example_item ''report'' [''chart'']],
      hp_allows_side_effects = False\<rparr>"

lemma example_plan_accepted: "validate_graph example_plan = Inr () \<and> plan_fields example_plan"
  by code_simp


end
