(* ===== verification/Loop_Guard.thy ===== *)
theory Loop_Guard
  imports Harness_Contracts
begin

text \<open>
  The loop guard of \<^verbatim>\<open>market_agent/workflow_loop_guard.py\<close>: fingerprints of observations, cycle
  signatures, the comparison of progress vectors, and the guard that judges action results,
  semantic checkpoints and recovery requests, per scope. The last sections show what its word
  functions compute: the least rotation, primitive words and the shortest repeated block.

  A fingerprint is its digest. SHA-256 of the canonical JSON of a value is the parameter
  \<open>digest\<close>; what is known of it is that it is 64 lower-case hexadecimal digits.
\<close>

section \<open>Fingerprints\<close>

definition FINGERPRINT_SCHEMA_VERSION :: string where "FINGERPRINT_SCHEMA_VERSION = ''v1''"
definition STATE_WINDOW_SIZE :: nat where "STATE_WINDOW_SIZE = 12"
definition ACTION_WINDOW_SIZE :: nat where "ACTION_WINDOW_SIZE = 5"
definition RECOVERY_SIGNATURE_CAPACITY :: nat where "RECOVERY_SIGNATURE_CAPACITY = 12"

datatype LoopScope = S_ATTEMPT | S_WORK_ITEM | S_STAGE | S_RUN

fun scope_value :: "LoopScope \<Rightarrow> string" where
  "scope_value S_ATTEMPT = ''attempt''"
| "scope_value S_WORK_ITEM = ''work_item''"
| "scope_value S_STAGE = ''stage''"
| "scope_value S_RUN = ''run''"

datatype ObservationKind = SEMANTIC_CHECKPOINT | HEARTBEAT | INFRASTRUCTURE

record ActionObservation =
  ob_digest :: string
  ob_scope :: LoopScope
  ob_action :: string
  ob_result :: string

definition observation_from_parts ::
  "(json \<Rightarrow> string) \<Rightarrow> string \<Rightarrow> string \<Rightarrow> LoopScope \<Rightarrow> ActionObservation" where
  "observation_from_parts digest action result scope =
     \<lparr>ob_digest = digest (JObj [(''scope'', JStr (scope_value scope)), (''action'', JStr action),
        (''result'', JStr result), (''fingerprint_schema_version'', JStr FINGERPRINT_SCHEMA_VERSION)]),
      ob_scope = scope, ob_action = action, ob_result = result\<rparr>"

definition observation_contract :: "(json \<Rightarrow> string) \<Rightarrow> ActionObservation \<Rightarrow> bool" where
  "observation_contract digest x =
     (list_all digest_text [ob_digest x, ob_action x, ob_result x]
      \<and> ob_digest x = ob_digest (observation_from_parts digest (ob_action x) (ob_result x) (ob_scope x)))"

text \<open>The least rotation, and whether a word is no repetition of a shorter one.\<close>

definition rotations :: "'a list \<Rightarrow> 'a list list" where
  "rotations xs = map (\<lambda>i. drop i xs @ take i xs) [0..<length xs]"

fun least_of :: "'a::linorder list \<Rightarrow> 'a list list \<Rightarrow> 'a list" where
  "least_of best [] = best"
| "least_of best (ys # rest) = least_of (if ys < best then ys else best) rest"

definition normalize_rotation :: "string list \<Rightarrow> string list" where
  "normalize_rotation period = least_of period (rotations period)"

definition is_primitive :: "'a list \<Rightarrow> bool" where
  "is_primitive xs =
     (\<not> list_ex (\<lambda>k. length xs mod k = 0 \<and> xs = concat (replicate (length xs div k) (take k xs)))
         [1..<length xs])"

record CycleSignature =
  cs_digest :: string
  cs_scope :: LoopScope
  cs_plan_revision :: int
  cs_schema_version :: string
  cs_period :: "string list"

definition signature_value :: "LoopScope \<Rightarrow> int \<Rightarrow> string \<Rightarrow> string list \<Rightarrow> json" where
  "signature_value scope plan version period =
     JObj [(''scope'', JStr (scope_value scope)), (''plan_revision'', JInt plan),
           (''fingerprint_schema_version'', JStr version), (''period'', JList (map JStr period))]"

definition signature_contract :: "(json \<Rightarrow> string) \<Rightarrow> CycleSignature \<Rightarrow> bool" where
  "signature_contract digest x =
     (digest_text (cs_digest x) \<and> 0 \<le> cs_plan_revision x \<and> short_text (cs_schema_version x)
      \<and> list_all digest_text (cs_period x) \<and> 1 \<le> length (cs_period x) \<and> length (cs_period x) \<le> 6
      \<and> cs_period x = normalize_rotation (cs_period x) \<and> is_primitive (cs_period x)
      \<and> cs_digest x = digest (signature_value (cs_scope x) (cs_plan_revision x) (cs_schema_version x)
            (cs_period x)))"

section \<open>Progress\<close>

definition POSITIVE_FIELDS :: "string list" where
  "POSITIVE_FIELDS = [''completed_dependency_count'', ''valid_required_field_count'',
     ''filled_required_evidence_slot_count'', ''fresh_authoritative_source_coverage'']"

definition NEGATIVE_FIELDS :: "string list" where
  "NEGATIVE_FIELDS = [''missing_evidence_count'', ''validation_error_count'',
     ''unresolved_conflict_count'', ''risk_invariant_failure_count'']"

definition progress_fields :: "ProgressVector \<Rightarrow> (string, rat) dict" where
  "progress_fields p =
     [(''completed_dependency_count'', of_int (pg_completed_dependency_count p)),
      (''valid_required_field_count'', of_int (pg_valid_required_field_count p)),
      (''filled_required_evidence_slot_count'', of_int (pg_filled_required_evidence_slot_count p)),
      (''fresh_authoritative_source_coverage'', pg_fresh_authoritative_source_coverage p),
      (''missing_evidence_count'', of_int (pg_missing_evidence_count p)),
      (''validation_error_count'', of_int (pg_validation_error_count p)),
      (''unresolved_conflict_count'', of_int (pg_unresolved_conflict_count p)),
      (''risk_invariant_failure_count'', of_int (pg_risk_invariant_failure_count p))]"

definition progress_field :: "ProgressVector \<Rightarrow> string \<Rightarrow> rat" where
  "progress_field p name = (case dict_get (progress_fields p) name of None \<Rightarrow> 0 | Some x \<Rightarrow> x)"

record SeverityPolicy =
  sp_policy_version :: string
  sp_critical_positive_regressions :: "string list"
  sp_critical_negative_regressions :: "string list"

definition severity_contract :: "SeverityPolicy \<Rightarrow> bool" where
  "severity_contract p =
     (short_text (sp_policy_version p)
      \<and> set (sp_critical_positive_regressions p) \<subseteq> set POSITIVE_FIELDS
      \<and> set (sp_critical_negative_regressions p) \<subseteq> set NEGATIVE_FIELDS
      \<and> require_unique (sp_critical_positive_regressions p)
      \<and> require_unique (sp_critical_negative_regressions p))"

definition default_severity :: "string \<Rightarrow> SeverityPolicy" where
  "default_severity version =
     \<lparr>sp_policy_version = version,
      sp_critical_positive_regressions =
        [''filled_required_evidence_slot_count'', ''fresh_authoritative_source_coverage''],
      sp_critical_negative_regressions = [''validation_error_count'', ''risk_invariant_failure_count'']\<rparr>"

record ProgressDecision =
  pd_advanced :: bool
  pd_critical_regression :: bool
  pd_worsened_fields :: "string list"

definition worsened_fields :: "ProgressVector \<Rightarrow> ProgressVector \<Rightarrow> string list" where
  "worsened_fields old new =
     filter (\<lambda>f. progress_field new f < progress_field old f) POSITIVE_FIELDS
     @ filter (\<lambda>f. progress_field old f < progress_field new f) NEGATIVE_FIELDS"

definition compare_progress ::
  "ProgressVector \<Rightarrow> ProgressVector \<Rightarrow> SeverityPolicy \<Rightarrow> ProgressDecision" where
  "compare_progress old new policy =
     (let worsened = worsened_fields old new;
          critical = list_ex (\<lambda>f. f \<in> set (sp_critical_positive_regressions policy)) worsened
                     \<or> list_ex (\<lambda>f. f \<in> set (sp_critical_negative_regressions policy)) worsened
      in if critical
         then \<lparr>pd_advanced = False, pd_critical_regression = True, pd_worsened_fields = worsened\<rparr>
         else \<lparr>pd_advanced = (worsened = []
                 \<and> list_ex (\<lambda>f. progress_field new f \<noteq> progress_field old f)
                      (POSITIVE_FIELDS @ NEGATIVE_FIELDS)),
               pd_critical_regression = False, pd_worsened_fields = worsened\<rparr>)"

definition decision_shape :: "ProgressDecision \<Rightarrow> bool" where
  "decision_shape d =
     (\<not> (pd_advanced d \<and> (pd_critical_regression d \<or> pd_worsened_fields d \<noteq> []))
      \<and> \<not> (pd_critical_regression d \<and> pd_worsened_fields d = []))"

section \<open>The guard\<close>

record SemanticCheckpoint =
  sc_scope :: LoopScope
  sc_observation_kind :: ObservationKind
  sc_state_fingerprint :: string
  sc_progress :: ProgressVector
  sc_plan_revision :: int
  sc_schema_version :: string
  sc_worker_id :: "string option"
  sc_normalized_failure :: "string option"
  sc_failure_context_hash :: "string option"
  sc_failure_dependency_hash :: "string option"
  sc_correction_ordinal :: int
  sc_model_route :: "string option"

text \<open>\<^verbatim>\<open>^[a-z][a-z0-9-]{0,31}$\<close>\<close>

definition worker_id_text :: "string \<Rightarrow> bool" where
  "worker_id_text s =
     (case s of
        [] \<Rightarrow> False
      | c # r \<Rightarrow> c \<in> set ''abcdefghijklmnopqrstuvwxyz'' \<and> length r \<le> 31
          \<and> list_all (\<lambda>c. c \<in> set ''abcdefghijklmnopqrstuvwxyz0123456789-'') r)"

definition checkpoint_failure_shape :: "SemanticCheckpoint \<Rightarrow> bool" where
  "checkpoint_failure_shape c =
     (let fields = [sc_failure_context_hash c, sc_failure_dependency_hash c, sc_model_route c]
      in (sc_normalized_failure c = None \<longrightarrow> sc_worker_id c = None \<and> list_all (\<lambda>x. x = None) fields)
         \<and> (sc_normalized_failure c \<noteq> None \<longrightarrow> sc_worker_id c \<noteq> None \<and> list_all (\<lambda>x. x \<noteq> None) fields)
         \<and> optional worker_id_text (sc_worker_id c))"

definition checkpoint_contract :: "SemanticCheckpoint \<Rightarrow> bool" where
  "checkpoint_contract c =
     (digest_text (sc_state_fingerprint c) \<and> 0 \<le> sc_plan_revision c \<and> short_text (sc_schema_version c)
      \<and> list_all (optional short_text) [sc_worker_id c, sc_normalized_failure c, sc_model_route c]
      \<and> list_all (optional digest_text) [sc_failure_context_hash c, sc_failure_dependency_hash c]
      \<and> 0 \<le> sc_correction_ordinal c \<and> checkpoint_failure_shape c)"

record LoopDecision =
  ld_allowed :: bool
  ld_ignored :: bool
  ld_stop_reason :: "string option"
  ld_cycle_signature :: "CycleSignature option"

definition loop_decision_shape :: "LoopDecision \<Rightarrow> bool" where
  "loop_decision_shape d =
     ((ld_ignored d \<longrightarrow> ld_allowed d \<and> ld_stop_reason d = None \<and> ld_cycle_signature d = None)
      \<and> \<not> (ld_allowed d \<and> \<not> ld_ignored d \<and> ld_stop_reason d \<noteq> None)
      \<and> \<not> (\<not> ld_allowed d \<and> ld_stop_reason d = None))"

definition allowed_decision :: LoopDecision where
  "allowed_decision =
     \<lparr>ld_allowed = True, ld_ignored = False, ld_stop_reason = None, ld_cycle_signature = None\<rparr>"

definition ignored_decision :: LoopDecision where
  "ignored_decision = allowed_decision\<lparr>ld_ignored := True\<rparr>"

definition stopped :: "string \<Rightarrow> CycleSignature option \<Rightarrow> LoopDecision" where
  "stopped reason signature =
     \<lparr>ld_allowed = False, ld_ignored = False, ld_stop_reason = Some reason,
      ld_cycle_signature = signature\<rparr>"

type_synonym failure_fact =
  "string option \<times> string option \<times> string option \<times> string option \<times> int \<times> string option"

record LoopGuard =
  lg_severity_policy :: SeverityPolicy
  lg_actions :: "LoopScope \<Rightarrow> ActionObservation list"
  lg_states :: "LoopScope \<Rightarrow> string list"
  lg_progress :: "LoopScope \<Rightarrow> ProgressVector option"
  lg_no_progress :: "LoopScope \<Rightarrow> nat"
  lg_failures :: "LoopScope \<Rightarrow> failure_fact list"
  lg_observed_cycles :: "LoopScope \<Rightarrow> (string, CycleSignature) dict"
  lg_recoveries :: "LoopScope \<Rightarrow> (string, CycleSignature) dict"

definition new_guard :: "SeverityPolicy \<Rightarrow> LoopGuard" where
  "new_guard policy =
     \<lparr>lg_severity_policy = policy, lg_actions = (\<lambda>_. []), lg_states = (\<lambda>_. []),
      lg_progress = (\<lambda>_. None), lg_no_progress = (\<lambda>_. 0), lg_failures = (\<lambda>_. []),
      lg_observed_cycles = (\<lambda>_. []), lg_recoveries = (\<lambda>_. [])\<rparr>"

text \<open>\<^verbatim>\<open>deque(maxlen=n).append\<close>, and the last n elements of a sequence.\<close>

definition last_n :: "nat \<Rightarrow> 'a list \<Rightarrow> 'a list" where
  "last_n n xs = drop (length xs - n) xs"

definition push :: "nat \<Rightarrow> 'a \<Rightarrow> 'a list \<Rightarrow> 'a list" where
  "push n x xs = last_n n (xs @ [x])"

definition detect_cycle :: "string list \<Rightarrow> string list option" where
  "detect_cycle states =
     (let recent = last_n STATE_WINDOW_SIZE states
      in case find (\<lambda>k. take k (last_n (2 * k) recent) = last_n k recent)
                [1..<Suc (min 6 (length recent div 2))] of
           None \<Rightarrow> None
         | Some k \<Rightarrow> Some (normalize_rotation (last_n k recent)))"

definition observe_action_result :: "ActionObservation \<Rightarrow> LoopGuard \<Rightarrow> LoopDecision \<times> LoopGuard" where
  "observe_action_result x g =
     (let actions = push ACTION_WINDOW_SIZE x (lg_actions g (ob_scope x));
          g' = g\<lparr>lg_actions := (lg_actions g)(ob_scope x := actions)\<rparr>
      in if 3 \<le> length (filter (\<lambda>y. ob_digest y = ob_digest x) actions)
           then (stopped ''repeated_action_result'' None, g')
         else if 3 \<le> length (filter (\<lambda>y. ob_action y = ob_action x) actions)
           then (stopped ''repeated_action'' None, g')
         else (allowed_decision, g'))"

definition register_cycle ::
  "(json \<Rightarrow> string) \<Rightarrow> SemanticCheckpoint \<Rightarrow> string list \<Rightarrow> LoopGuard \<Rightarrow> CycleSignature option \<times> LoopGuard" where
  "register_cycle digest c states g =
     (case detect_cycle states of
        None \<Rightarrow> (None, g)
      | Some period \<Rightarrow>
          let signature =
                \<lparr>cs_digest = digest (signature_value (sc_scope c) (sc_plan_revision c)
                    (sc_schema_version c) period),
                 cs_scope = sc_scope c, cs_plan_revision = sc_plan_revision c,
                 cs_schema_version = sc_schema_version c, cs_period = period\<rparr>;
              observed = lg_observed_cycles g (sc_scope c)
          in (Some signature,
              if cs_digest signature \<notin> set (dict_keys observed)
                 \<and> length observed < RECOVERY_SIGNATURE_CAPACITY
              then g\<lparr>lg_observed_cycles := (lg_observed_cycles g)
                       (sc_scope c := dict_put (cs_digest signature) signature observed)\<rparr>
              else g))"

definition failure_check :: "SemanticCheckpoint \<Rightarrow> LoopGuard \<Rightarrow> LoopDecision option \<times> LoopGuard" where
  "failure_check c g =
     (if sc_normalized_failure c = None
      then (None, g\<lparr>lg_failures := (lg_failures g)(sc_scope c := [])\<rparr>)
      else
        let failures = push 3 (sc_worker_id c, sc_normalized_failure c, sc_failure_context_hash c,
              sc_failure_dependency_hash c, sc_correction_ordinal c, sc_model_route c)
              (lg_failures g (sc_scope c));
            g' = g\<lparr>lg_failures := (lg_failures g)(sc_scope c := failures)\<rparr>;
            workers = map fst failures; facts = map snd failures
        in if length failures < 3 then (None, g')
           else if workers ! 0 = workers ! 2 \<and> workers ! 2 \<noteq> workers ! 1
                   \<and> length (remdups facts) = 1
             then (Some (stopped ''cross_worker_failure_oscillation'' None), g')
           else (None, g'))"

text \<open>
  \<^verbatim>\<open>observe_checkpoint\<close> in the order of its statements: the comparison with the previous progress
  of the scope, what is recorded of it, and the judgement of the state, the failures and the
  count of checkpoints without progress.
\<close>

definition progress_comparison :: "SemanticCheckpoint \<Rightarrow> LoopGuard \<Rightarrow> ProgressDecision" where
  "progress_comparison c g =
     (case lg_progress g (sc_scope c) of
        Some previous \<Rightarrow> compare_progress previous (sc_progress c) (lg_severity_policy g)
      | None \<Rightarrow> \<lparr>pd_advanced = False, pd_critical_regression = False, pd_worsened_fields = []\<rparr>)"

definition record_progress :: "SemanticCheckpoint \<Rightarrow> LoopGuard \<Rightarrow> LoopGuard" where
  "record_progress c g =
     (let scope = sc_scope c;
          advanced = pd_advanced (progress_comparison c g);
          previous = lg_progress g scope
      in g\<lparr>lg_progress := (lg_progress g)(scope := Some (sc_progress c)),
           lg_states := (lg_states g)(scope := if advanced then [] else lg_states g scope),
           lg_no_progress := (lg_no_progress g)(scope :=
             if advanced then 0
             else if previous \<noteq> None then min 2 (lg_no_progress g scope + 1)
             else lg_no_progress g scope)\<rparr>)"

definition judge_state ::
  "(json \<Rightarrow> string) \<Rightarrow> bool \<Rightarrow> SemanticCheckpoint \<Rightarrow> LoopGuard \<Rightarrow> LoopDecision \<times> LoopGuard" where
  "judge_state digest advanced c g =
     (let scope = sc_scope c;
          duplicate = (sc_state_fingerprint c \<in> set (lg_states g scope) \<and> \<not> advanced);
          states = push STATE_WINDOW_SIZE (sc_state_fingerprint c) (lg_states g scope)
      in case register_cycle digest c states (g\<lparr>lg_states := (lg_states g)(scope := states)\<rparr>) of
           (Some s, g') \<Rightarrow>
             (if duplicate \<and> length (cs_period s) = 1
                then stopped ''duplicate_state_no_progress'' None
              else if cs_digest s \<in> set (dict_keys (lg_recoveries g' scope))
                then stopped ''recovered_cycle_returned'' (Some s)
              else stopped ''state_cycle'' (Some s), g')
         | (None, g') \<Rightarrow>
             if duplicate then (stopped ''duplicate_state_no_progress'' None, g')
             else (case failure_check c g' of
                     (Some d, g'') \<Rightarrow> (d, g'')
                   | (None, g'') \<Rightarrow>
                       (if 2 \<le> lg_no_progress g'' scope then stopped ''no_progress'' None
                        else allowed_decision, g'')))"

definition observe_checkpoint ::
  "(json \<Rightarrow> string) \<Rightarrow> SemanticCheckpoint \<Rightarrow> LoopGuard \<Rightarrow> LoopDecision \<times> LoopGuard" where
  "observe_checkpoint digest c g =
     (if sc_observation_kind c \<noteq> SEMANTIC_CHECKPOINT then (ignored_decision, g)
      else
        let comparison = progress_comparison c g; g' = record_progress c g
        in if pd_critical_regression comparison
             then (stopped ''critical_progress_regression'' None, g')
           else judge_state digest (pd_advanced comparison) c g')"

definition authorize_recovery :: "CycleSignature \<Rightarrow> LoopGuard \<Rightarrow> LoopDecision \<times> LoopGuard" where
  "authorize_recovery s g =
     (let scope = cs_scope s; recoveries = lg_recoveries g scope
      in if dict_get (lg_observed_cycles g scope) (cs_digest s) \<noteq> Some s
           then (stopped ''unregistered_cycle_signature'' (Some s), g)
         else if cs_digest s \<in> set (dict_keys recoveries)
           then (stopped ''recovery_exhausted'' (Some s), g)
         else if RECOVERY_SIGNATURE_CAPACITY \<le> length recoveries
           then (stopped ''recovery_capacity_exhausted'' (Some s), g)
         else (allowed_decision,
               g\<lparr>lg_recoveries := (lg_recoveries g)(scope := dict_put (cs_digest s) s recoveries)\<rparr>))"

section \<open>Rotations and primitive words\<close>

lemma set_rotations: "set (rotations xs) = {rotate i xs | i. i < length xs}"
proof -
  have "rotate i xs = drop i xs @ take i xs" if "i < length xs" for i
    using that by (simp add: rotate_drop_take)
  then show ?thesis by (force simp: rotations_def)
qed

lemma set_rotations_all:
  assumes "xs \<noteq> []"
  shows "set (rotations xs) = range (\<lambda>i. rotate i xs)"
proof -
  have "\<exists>j < length xs. rotate i xs = rotate j xs" for i
    using assms by (intro exI [of _ "i mod length xs"]) (simp add: rotate_conv_mod [symmetric])
  then show ?thesis by (auto simp: set_rotations)
qed

lemma set_rotations_rotate:
  assumes "xs \<noteq> []"
  shows "set (rotations (rotate j xs)) = set (rotations xs)"
proof -
  have "\<exists>k. rotate i xs = rotate k (rotate j xs)" for i
  proof
    let ?n = "length xs"
    have "j mod ?n < ?n" using assms by simp
    then have "i + (?n - j mod ?n) + j mod ?n = i + ?n" by linarith
    then have "(i + (?n - j mod ?n) + j) mod ?n = i mod ?n"
      by (metis mod_add_right_eq mod_add_self2)
    then show "rotate i xs = rotate (i + (?n - j mod ?n)) (rotate j xs)"
      by (metis rotate_conv_mod rotate_rotate)
  qed
  then show ?thesis using assms by (auto simp: set_rotations_all rotate_rotate)
qed

lemma least_of_Min: "least_of best yss = Min (set (best # yss))"
proof (induction best yss rule: least_of.induct)
  case (2 best ys rest)
  then show ?case
    by (cases "rest = []") (auto simp: min_def not_less insert_commute)
qed simp

lemma normalize_rotation_Min: "p \<noteq> [] \<Longrightarrow> normalize_rotation p = Min (set (rotations p))"
proof -
  assume p: "p \<noteq> []"
  then have "p \<in> set (rotations p)" by (auto simp: set_rotations intro: exI [of _ 0])
  then have "set (p # rotations p) = set (rotations p)" by auto
  then show ?thesis by (simp add: normalize_rotation_def least_of_Min del: set_simps)
qed

lemma normalize_rotation_is_rotation:
  assumes "p \<noteq> []"
  obtains i where "normalize_rotation p = rotate i p"
proof -
  have "rotations p \<noteq> []" using assms by (simp add: rotations_def)
  then have "Min (set (rotations p)) \<in> set (rotations p)" by simp
  then show thesis using that assms by (auto simp: normalize_rotation_Min set_rotations)
qed

lemma normalize_rotation_rotate: "p \<noteq> [] \<Longrightarrow> normalize_rotation (rotate i p) = normalize_rotation p"
  by (simp add: normalize_rotation_Min set_rotations_rotate)

lemma normalize_rotation_idem: "normalize_rotation (normalize_rotation p) = normalize_rotation p"
proof (cases "p = []")
  case False
  then obtain i where "normalize_rotation p = rotate i p" by (rule normalize_rotation_is_rotation)
  then show ?thesis using False by (simp add: normalize_rotation_rotate)
qed (simp add: normalize_rotation_def rotations_def)

text \<open>A word is a power of its prefix exactly when it is invariant under rotation by that length.\<close>

lemma commuting_power:
  assumes "u @ v = v @ u" "length v = m * length u" "u \<noteq> []"
  shows "v = concat (replicate m u)"
  using assms
proof (induction m arbitrary: v)
  case (Suc m)
  have "take (length u) v = u"
    using Suc.prems by (metis append_eq_append_conv2 append_eq_conv_conj le_add1 length_take min.absorb2
        mult_Suc take_append take_all diff_is_0_eq take0 append_Nil2)
  then obtain w where w: "v = u @ w" by (metis append_take_drop_id)
  then have "w = concat (replicate m u)" using Suc by auto
  then show ?case using w by simp
qed simp

lemma power_iff_rotate:
  assumes "k dvd length xs" "0 < k" "k \<le> length xs"
  shows "xs = concat (replicate (length xs div k) (take k xs)) \<longleftrightarrow> rotate k xs = xs"
proof -
  let ?u = "take k xs" let ?v = "drop k xs"
  obtain m where m: "length xs = Suc m * k" using assms
    by (metis dvd_def mult.commute not0_implies_Suc mult_0_right not_le)
  have rot: "rotate k xs = ?v @ ?u"
    using assms rotate_append [of ?u ?v] by simp
  have pow: "length xs div k = Suc m" using m assms by simp
  have split: "xs = ?u @ ?v" by simp
  have swap: "concat (replicate m ?u) @ ?u = ?u @ concat (replicate m ?u)"
    by (induction m) auto
  show ?thesis
  proof
    assume "xs = concat (replicate (length xs div k) (take k xs))"
    then have "?u @ ?v = ?u @ concat (replicate m ?u)" using pow split by simp
    then show "rotate k xs = xs" using rot swap split by (metis append_same_eq same_append_eq)
  next
    assume "rotate k xs = xs"
    then have "?u @ ?v = ?v @ ?u" using rot split by metis
    then have "?v = concat (replicate m ?u)"
      by (rule commuting_power) (use m assms in auto)
    then show "xs = concat (replicate (length xs div k) (take k xs))"
      using pow split by (metis concat.simps(2) replicate_Suc)
  qed
qed

lemma is_primitive_rotation:
  "is_primitive xs \<longleftrightarrow> (\<forall>k. 0 < k \<and> k < length xs \<and> k dvd length xs \<longrightarrow> rotate k xs \<noteq> xs)"
proof -
  have "length xs mod k = 0 \<and> xs = concat (replicate (length xs div k) (take k xs))
      \<longleftrightarrow> k dvd length xs \<and> rotate k xs = xs" if "0 < k" "k < length xs" for k
    using power_iff_rotate [of k xs] that unfolding dvd_eq_mod_eq_0 by force
  then show ?thesis unfolding is_primitive_def list_ex_iff by (auto simp: Suc_le_eq)
qed

lemma rotate_inj: "rotate i xs = rotate i ys \<longleftrightarrow> xs = ys"
proof (induction i)
  case (Suc i)
  have "rotate1 as = rotate1 bs \<longleftrightarrow> as = bs" for as bs :: "'a list"
    by (cases as; cases bs) auto
  then show ?case using Suc by simp
qed simp

lemma is_primitive_rotate: "is_primitive (rotate i xs) = is_primitive xs"
  by (simp add: is_primitive_rotation rotate_rotate add.commute [of _ i])
     (simp add: rotate_rotate [symmetric] rotate_inj)

lemma is_primitive_normalize: "is_primitive (normalize_rotation p) = is_primitive p"
proof (cases "p = []")
  case False
  then obtain i where "normalize_rotation p = rotate i p" by (rule normalize_rotation_is_rotation)
  then show ?thesis by (simp add: is_primitive_rotate)
qed (simp add: normalize_rotation_def rotations_def)

lemma length_normalize_rotation [simp]: "length (normalize_rotation p) = length p"
proof (cases "p = []")
  case False
  then obtain i where "normalize_rotation p = rotate i p" by (rule normalize_rotation_is_rotation)
  then show ?thesis by simp
qed (simp add: normalize_rotation_def rotations_def)

lemma set_normalize_rotation [simp]: "set (normalize_rotation p) = set p"
proof (cases "p = []")
  case False
  then obtain i where "normalize_rotation p = rotate i p" by (rule normalize_rotation_is_rotation)
  then show ?thesis by simp
qed (simp add: normalize_rotation_def rotations_def)

section \<open>The shortest repeated block\<close>

lemma length_last_n [simp]: "length (last_n n xs) = min n (length xs)"
  by (simp add: last_n_def)

lemma last_n_append [simp]: "length w = n \<Longrightarrow> last_n n (pre @ w) = w"
  by (simp add: last_n_def)

lemma last_n_last_n [simp]: "last_n n (last_n m xs) = last_n (min n m) xs"
  by (cases "length xs \<le> m"; cases "n \<le> m") (auto simp: last_n_def min_def)

lemma last_n_split: "n \<le> length xs \<Longrightarrow> \<exists>pre. xs = pre @ last_n n xs"
  unfolding last_n_def by (metis append_take_drop_id)

lemma last_n_short: "length xs \<le> n \<Longrightarrow> last_n n xs = xs"
  by (simp add: last_n_def)

lemma set_last_n: "set (last_n n xs) \<subseteq> set xs"
  by (simp add: last_n_def set_drop_subset)

lemma push_last_n [simp]: "0 < n \<Longrightarrow> push n x (last_n n xs) = last_n n (xs @ [x])"
  by (cases "n \<le> length xs") (auto simp: push_def last_n_def Suc_diff_le)

lemma length_push [simp]: "length (push n x xs) = min n (Suc (length xs))"
  by (simp add: push_def)

text \<open>A list ends with a word of length k written twice.\<close>

definition ends_twice :: "nat \<Rightarrow> 'a list \<Rightarrow> bool" where
  "ends_twice k xs = (2 * k \<le> length xs \<and> take k (last_n (2 * k) xs) = last_n k xs)"

lemma ends_twice_iff: "ends_twice k xs \<longleftrightarrow> (\<exists>pre w. xs = pre @ w @ w \<and> length w = k)"
proof
  assume e: "ends_twice k xs"
  then obtain pre where pre: "xs = pre @ last_n (2 * k) xs"
    using last_n_split [of "2 * k" xs] by (auto simp: ends_twice_def)
  have "drop k (last_n (2 * k) xs) = last_n k xs"
    using e by (simp add: last_n_def ends_twice_def mult_2)
  then have "last_n (2 * k) xs = last_n k xs @ last_n k xs"
    using e unfolding ends_twice_def by (metis append_take_drop_id)
  moreover have "length (last_n k xs) = k" using e by (simp add: ends_twice_def)
  ultimately show "\<exists>pre w. xs = pre @ w @ w \<and> length w = k" using pre by metis
next
  assume "\<exists>pre w. xs = pre @ w @ w \<and> length w = k"
  then obtain pre w where w: "xs = pre @ w @ w" "length w = k" by blast
  moreover have "last_n k (pre @ w @ w) = w" using w(2) last_n_append [of w k "pre @ w"] by simp
  moreover have "last_n (2 * k) (pre @ w @ w) = w @ w" using w(2) by simp
  ultimately show "ends_twice k xs" by (simp add: ends_twice_def)
qed

lemma last_n_ends_twice: "ends_twice (length w) (pre @ w @ w)"
  by (auto simp: ends_twice_iff)

lemma find_upt_Some:
  "find P [a..<b] = Some k \<longleftrightarrow> a \<le> k \<and> k < b \<and> P k \<and> (\<forall>j. a \<le> j \<and> j < k \<longrightarrow> \<not> P j)"
proof -
  have "find P [a..<b] = Some k \<longleftrightarrow>
      (\<exists>i < b - a. P (a + i) \<and> k = a + i \<and> (\<forall>j < i. \<not> P (a + j)))"
    by (auto simp: find_Some_iff)
  also have "\<dots> \<longleftrightarrow> a \<le> k \<and> k < b \<and> P k \<and> (\<forall>j. a \<le> j \<and> j < k \<longrightarrow> \<not> P j)"
  proof
    assume "\<exists>i < b - a. P (a + i) \<and> k = a + i \<and> (\<forall>j < i. \<not> P (a + j))"
    then obtain i where i: "i < b - a" "P (a + i)" "k = a + i" "\<forall>j < i. \<not> P (a + j)" by blast
    have "\<not> P j" if "a \<le> j" "j < k" for j using i(3,4) that by (metis le_Suc_ex nat_add_left_cancel_less)
    then show "a \<le> k \<and> k < b \<and> P k \<and> (\<forall>j. a \<le> j \<and> j < k \<longrightarrow> \<not> P j)" using i by auto
  next
    assume h: "a \<le> k \<and> k < b \<and> P k \<and> (\<forall>j. a \<le> j \<and> j < k \<longrightarrow> \<not> P j)"
    show "\<exists>i < b - a. P (a + i) \<and> k = a + i \<and> (\<forall>j < i. \<not> P (a + j))"
      by (rule exI [of _ "k - a"]) (use h in auto)
  qed
  finally show ?thesis .
qed

lemma find_append_None: "find P ys = None \<Longrightarrow> find P (xs @ ys) = find P xs"
  by (induction xs) auto

lemma window_ends_twice:
  assumes "k \<le> 6"
  shows "ends_twice k (last_n STATE_WINDOW_SIZE states) = ends_twice k states"
  using assms by (auto simp: ends_twice_def STATE_WINDOW_SIZE_def min_def)

lemma detect_cycle_find:
  "detect_cycle states = map_option (\<lambda>k. normalize_rotation (last_n k states)) (find (\<lambda>k. ends_twice k states) [1..<7])"
proof -
  let ?r = "last_n STATE_WINDOW_SIZE states"
  let ?m = "min 6 (length ?r div 2)"
  let ?P = "\<lambda>k. take k (last_n (2 * k) ?r) = last_n k ?r"
  have P: "?P k = ends_twice k states" if "1 \<le> k" "k \<le> ?m" for k
  proof -
    have "2 * k \<le> length ?r" using that by auto
    then have "?P k = ends_twice k ?r" by (simp only: ends_twice_def simp_thms)
    then show ?thesis using window_ends_twice [of k states] that by simp
  qed
  have out: "\<not> ends_twice k states" if "?m < k" "k < 7" for k
    using that by (auto simp: ends_twice_def STATE_WINDOW_SIZE_def)
  have split: "[1..<7] = [1..<Suc ?m] @ [Suc ?m..<7]"
  proof -
    have "1 + (6 - 0) = (7::nat)" by simp
    show ?thesis using upt_add_eq_append [of 1 "Suc ?m" "6 - ?m"] by simp
  qed
  have "find ?P [1..<Suc ?m] = find (\<lambda>k. ends_twice k states) [1..<Suc ?m]"
    by (rule find_cong [OF refl], rule P) (simp_all only: set_upt atLeastLessThan_iff less_Suc_eq_le)
  also have "\<dots> = find (\<lambda>k. ends_twice k states) [1..<7]"
    unfolding split by (rule find_append_None [symmetric]) (use out in \<open>auto simp: find_None_iff\<close>)
  finally have f: "find ?P [1..<Suc ?m] = find (\<lambda>k. ends_twice k states) [1..<7]" .
  show ?thesis
  proof (cases "find (\<lambda>k. ends_twice k states) [1..<7]")
    case None
    then show ?thesis unfolding detect_cycle_def Let_def f by simp
  next
    case (Some k)
    then have "last_n k ?r = last_n k states" by (auto simp: find_upt_Some STATE_WINDOW_SIZE_def min_def)
    then show ?thesis unfolding detect_cycle_def Let_def f Some by simp
  qed
qed

lemma detect_cycle_Some:
  "detect_cycle states = Some p \<longleftrightarrow>
     (\<exists>k. 1 \<le> k \<and> k \<le> 6 \<and> ends_twice k states \<and> (\<forall>j. 1 \<le> j \<and> j < k \<longrightarrow> \<not> ends_twice j states)
        \<and> p = normalize_rotation (last_n k states))"
  by (auto simp: detect_cycle_find find_upt_Some)

lemma detect_cycle_None:
  "detect_cycle states = None \<longleftrightarrow> (\<forall>k. 1 \<le> k \<and> k \<le> 6 \<longrightarrow> \<not> ends_twice k states)"
  by (auto simp: detect_cycle_find find_None_iff)

text \<open>The shortest repeated block is no power of a shorter one.\<close>

lemma power_ends_twice:
  assumes "xs = pre @ concat (replicate m u)" "2 \<le> m"
  shows "ends_twice (length u) xs"
proof -
  obtain n where n: "m = Suc (Suc n)" using assms(2) by (metis add_2_eq_Suc le_Suc_ex)
  have swap: "u @ concat (replicate n u) = concat (replicate n u) @ u" by (induction n) auto
  have "xs = (pre @ concat (replicate n u)) @ u @ u"
    using assms(1) n swap by simp
  then show ?thesis unfolding ends_twice_iff by blast
qed

lemma shortest_block_primitive:
  assumes "ends_twice k states" "\<forall>j. 1 \<le> j \<and> j < k \<longrightarrow> \<not> ends_twice j states"
  shows "is_primitive (last_n k states)"
proof (rule ccontr)
  let ?w = "last_n k states"
  have k: "length ?w = k" using assms(1) by (simp add: ends_twice_def)
  assume "\<not> is_primitive ?w"
  then obtain j where j: "1 \<le> j" "j < k" "k mod j = 0"
      "?w = concat (replicate (k div j) (take j ?w))"
    unfolding is_primitive_def list_ex_iff k by auto
  have "2 \<le> k div j" using j by (auto simp: mod_eq_0_iff_dvd elim!: dvdE)
  moreover obtain pre where "states = pre @ ?w"
    using last_n_split [of k states] assms(1) by (auto simp: ends_twice_def)
  ultimately have "ends_twice (length (take j ?w)) states"
    using power_ends_twice [of states pre "k div j" "take j ?w"] j(4) by metis
  then show False using assms(2) j k by simp
qed

end
