(* ===== verification/Scoped_Runs.thy ===== *)
theory Scoped_Runs
  imports Prelude
begin

text \<open>
  Sequences of calls on a component that keeps separate state per part: the loop guard per scope,
  the circuit breaker per model and task kind. A run gives every call with its answer and the
  final state; the locale states when such a component keeps its parts apart, and shows that each
  part then sees exactly the calls made to it.
\<close>

fun run_calls :: "('c \<Rightarrow> 's \<Rightarrow> 'r \<times> 's) \<Rightarrow> 'c list \<Rightarrow> 's \<Rightarrow> ('c \<times> 'r) list \<times> 's" where
  "run_calls step [] s = ([], s)"
| "run_calls step (c # cs) s =
     (let (r, s') = step c s; (es, s'') = run_calls step cs s' in ((c, r) # es, s''))"

lemma run_calls_Cons [simp]:
  "fst (run_calls step (c # cs) s) = (c, fst (step c s)) # fst (run_calls step cs (snd (step c s)))"
  "snd (run_calls step (c # cs) s) = snd (run_calls step cs (snd (step c s)))"
  by (simp_all add: split_def Let_def)

declare run_calls.simps(2) [simp del]

lemma run_calls_append:
  "fst (run_calls step (xs @ ys) s) = fst (run_calls step xs s) @ fst (run_calls step ys (snd (run_calls step xs s)))"
  "snd (run_calls step (xs @ ys) s) = snd (run_calls step ys (snd (run_calls step xs s)))"
  by (induction xs arbitrary: s) simp_all

text \<open>What every call keeps, a run keeps; what every call answers, a run answers throughout.\<close>

lemma run_calls_inv:
  assumes "\<And>c s. I s \<Longrightarrow> ok c \<Longrightarrow> I (snd (step c s)) \<and> good c (fst (step c s))"
    "I s" "list_all ok cs"
  shows "I (snd (run_calls step cs s)) \<and> list_all (\<lambda>(c, r). good c r) (fst (run_calls step cs s))"
  using assms(2,3)
proof (induction cs arbitrary: s)
  case (Cons c cs)
  then show ?case using assms(1) [of s c] by simp
qed simp

locale scoped_component =
  fixes step :: "'c \<Rightarrow> 's \<Rightarrow> 'r \<times> 's"
    and scope_of :: "'c \<Rightarrow> 'p"
    and same :: "'p \<Rightarrow> 's \<Rightarrow> 's \<Rightarrow> bool"
  assumes same_refl: "same p s s"
    and same_trans: "same p s t \<Longrightarrow> same p t u \<Longrightarrow> same p s u"
    and step_elsewhere: "scope_of c \<noteq> p \<Longrightarrow> same p (snd (step c s)) s"
    and step_local: "same (scope_of c) s t \<Longrightarrow>
      fst (step c s) = fst (step c t) \<and> same (scope_of c) (snd (step c s)) (snd (step c t))"
begin

lemma run_local:
  "same p s t \<Longrightarrow>
     filter (\<lambda>(c, r). scope_of c = p) (fst (run_calls step cs s))
       = fst (run_calls step (filter (\<lambda>c. scope_of c = p) cs) t)
   \<and> same p (snd (run_calls step cs s)) (snd (run_calls step (filter (\<lambda>c. scope_of c = p) cs) t))"
proof (induction cs arbitrary: s t)
  case (Cons c cs)
  show ?case
  proof (cases "scope_of c = p")
    case True
    then have "fst (step c s) = fst (step c t)" "same p (snd (step c s)) (snd (step c t))"
      using step_local [of c s t] Cons.prems by simp_all
    then show ?thesis using Cons.IH True by simp
  next
    case False
    then have "same p (snd (step c s)) t"
      using step_elsewhere [OF False] Cons.prems same_trans by blast
    then show ?thesis using Cons.IH False by simp
  qed
qed simp

text \<open>The answers of a part, among calls to any parts, are those to its own calls alone.\<close>

lemma answers_local:
  "filter (\<lambda>(c, r). scope_of c = p) (fst (run_calls step cs s)) =
     fst (run_calls step (filter (\<lambda>c. scope_of c = p) cs) s)"
  using run_local [OF same_refl] by blast

text \<open>Calls to other parts leave a part as it is.\<close>

lemma run_elsewhere:
  "list_all (\<lambda>c. scope_of c \<noteq> p) cs \<Longrightarrow> same p (snd (run_calls step cs s)) s"
proof (induction cs arbitrary: s)
  case (Cons c cs)
  then show ?case using step_elsewhere [of c p s] same_trans by fastforce
qed (simp add: same_refl)

end

end
