(* ===== verification/Loop_Guard_Runs.thy ===== *)
theory Loop_Guard_Runs
  imports Loop_Guard Scoped_Runs
begin

text \<open>
  Histories of a loop guard: sequences of action results, checkpoints and recovery requests. Shown
  here: the scopes do not interfere, every value the guard builds is valid and its windows stay
  bounded, stalled checkpoints and repeated actions are stopped, recoveries are granted once, and
  progress is a strict order.
\<close>

section \<open>Sequences of observations\<close>

datatype guard_op =
    Observe_Action ActionObservation
  | Observe_Checkpoint SemanticCheckpoint
  | Authorize_Recovery CycleSignature

fun op_scope :: "guard_op \<Rightarrow> LoopScope" where
  "op_scope (Observe_Action x) = ob_scope x"
| "op_scope (Observe_Checkpoint c) = sc_scope c"
| "op_scope (Authorize_Recovery s) = cs_scope s"

fun guard_step :: "(json \<Rightarrow> string) \<Rightarrow> guard_op \<Rightarrow> LoopGuard \<Rightarrow> LoopDecision \<times> LoopGuard" where
  "guard_step digest (Observe_Action x) g = observe_action_result x g"
| "guard_step digest (Observe_Checkpoint c) g = observe_checkpoint digest c g"
| "guard_step digest (Authorize_Recovery s) g = authorize_recovery s g"

abbreviation guard_run ::
  "(json \<Rightarrow> string) \<Rightarrow> guard_op list \<Rightarrow> LoopGuard \<Rightarrow> (guard_op \<times> LoopDecision) list \<times> LoopGuard" where
  "guard_run digest \<equiv> run_calls (guard_step digest)"

section \<open>Scopes do not interfere\<close>

text \<open>Two guards that hold the same of one scope.\<close>

definition same_scope :: "LoopScope \<Rightarrow> LoopGuard \<Rightarrow> LoopGuard \<Rightarrow> bool" where
  "same_scope sc g h =
     (lg_severity_policy g = lg_severity_policy h \<and> lg_actions g sc = lg_actions h sc
      \<and> lg_states g sc = lg_states h sc \<and> lg_progress g sc = lg_progress h sc
      \<and> lg_no_progress g sc = lg_no_progress h sc \<and> lg_failures g sc = lg_failures h sc
      \<and> lg_observed_cycles g sc = lg_observed_cycles h sc \<and> lg_recoveries g sc = lg_recoveries h sc)"

lemma same_scope_refl [simp]: "same_scope sc g g"
  by (simp add: same_scope_def)

lemma same_scope_trans: "same_scope sc f g \<Longrightarrow> same_scope sc g h \<Longrightarrow> same_scope sc f h"
  by (simp add: same_scope_def)

lemma record_progress_other: "sc_scope c \<noteq> sc \<Longrightarrow> same_scope sc (record_progress c g) g"
  by (simp add: same_scope_def record_progress_def Let_def)

lemma register_cycle_other:
  "sc_scope c \<noteq> sc \<Longrightarrow> same_scope sc (snd (register_cycle digest c states g)) g"
  by (simp add: same_scope_def register_cycle_def Let_def split: option.splits)

lemma failure_check_other: "sc_scope c \<noteq> sc \<Longrightarrow> same_scope sc (snd (failure_check c g)) g"
  by (simp add: same_scope_def failure_check_def Let_def)

lemma judge_state_other:
  assumes "sc_scope c \<noteq> sc"
  shows "same_scope sc (snd (judge_state digest advanced c g)) g"
proof -
  let ?states = "push STATE_WINDOW_SIZE (sc_state_fingerprint c) (lg_states g (sc_scope c))"
  let ?g1 = "g\<lparr>lg_states := (lg_states g)(sc_scope c := ?states)\<rparr>"
  obtain s g2 where r: "register_cycle digest c ?states ?g1 = (s, g2)" by fastforce
  obtain f g3 where f: "failure_check c g2 = (f, g3)" by fastforce
  have "same_scope sc ?g1 g" using assms by (simp add: same_scope_def)
  moreover have "same_scope sc g2 ?g1" using register_cycle_other [OF assms] r by (metis snd_conv)
  moreover have "same_scope sc g3 g2" using failure_check_other [OF assms] f by (metis snd_conv)
  ultimately have "same_scope sc g2 g" "same_scope sc g3 g" by (blast intro: same_scope_trans)+
  then show ?thesis unfolding judge_state_def Let_def r
    by (simp add: f split: option.splits)
qed

lemma guard_step_other:
  assumes "op_scope x \<noteq> sc"
  shows "same_scope sc (snd (guard_step digest x g)) g"
proof (cases x)
  case (Observe_Action a)
  then show ?thesis using assms by (simp add: observe_action_result_def same_scope_def Let_def)
next
  case (Observe_Checkpoint c)
  then have c: "sc_scope c \<noteq> sc" using assms by simp
  have "same_scope sc (snd (judge_state digest b c (record_progress c g))) g" for b
    using judge_state_other [OF c] record_progress_other [OF c] by (blast intro: same_scope_trans)
  then show ?thesis using record_progress_other [OF c] Observe_Checkpoint
    by (simp add: observe_checkpoint_def Let_def)
next
  case (Authorize_Recovery s)
  then show ?thesis using assms by (simp add: authorize_recovery_def same_scope_def Let_def)
qed

text \<open>What an operation decides and what it leaves in its scope depends on that scope only.\<close>

lemma record_progress_same:
  assumes "same_scope (sc_scope c) g h"
  shows "progress_comparison c g = progress_comparison c h"
    and "same_scope (sc_scope c) (record_progress c g) (record_progress c h)"
proof -
  show eq: "progress_comparison c g = progress_comparison c h"
    using assms by (simp add: progress_comparison_def same_scope_def split: option.splits)
  show "same_scope (sc_scope c) (record_progress c g) (record_progress c h)"
    using assms by (simp add: record_progress_def same_scope_def Let_def eq)
qed

lemma register_cycle_same:
  assumes "same_scope (sc_scope c) g h"
  shows "fst (register_cycle digest c states g) = fst (register_cycle digest c states h)"
    and "same_scope (sc_scope c) (snd (register_cycle digest c states g)) (snd (register_cycle digest c states h))"
  using assms by (simp_all add: register_cycle_def same_scope_def Let_def split: option.splits)

lemma failure_check_same:
  assumes "same_scope (sc_scope c) g h"
  shows "fst (failure_check c g) = fst (failure_check c h)"
    and "same_scope (sc_scope c) (snd (failure_check c g)) (snd (failure_check c h))"
  using assms by (simp_all add: failure_check_def same_scope_def Let_def)

lemma judge_state_same:
  assumes "same_scope (sc_scope c) g h"
  shows "fst (judge_state digest advanced c g) = fst (judge_state digest advanced c h)
       \<and> same_scope (sc_scope c) (snd (judge_state digest advanced c g)) (snd (judge_state digest advanced c h))"
proof -
  let ?states = "\<lambda>g. push STATE_WINDOW_SIZE (sc_state_fingerprint c) (lg_states g (sc_scope c))"
  let ?g1 = "\<lambda>g. g\<lparr>lg_states := (lg_states g)(sc_scope c := ?states g)\<rparr>"
  have st: "lg_states g (sc_scope c) = lg_states h (sc_scope c)" using assms by (simp add: same_scope_def)
  have g1: "same_scope (sc_scope c) (?g1 g) (?g1 h)" using assms by (simp add: same_scope_def)
  obtain s g2 where r: "register_cycle digest c (?states g) (?g1 g) = (s, g2)" by fastforce
  obtain s' h2 where r': "register_cycle digest c (?states h) (?g1 h) = (s', h2)" by fastforce
  have s: "s' = s" and g2: "same_scope (sc_scope c) g2 h2"
    using register_cycle_same [OF g1, of digest "?states g"] r r' st by simp_all
  obtain f g3 where f: "failure_check c g2 = (f, g3)" by fastforce
  obtain f' h3 where f': "failure_check c h2 = (f', h3)" by fastforce
  have e: "f' = f" and g3: "same_scope (sc_scope c) g3 h3"
    using failure_check_same [OF g2] f f' by simp_all
  have "lg_recoveries g2 (sc_scope c) = lg_recoveries h2 (sc_scope c)"
       "lg_no_progress g3 (sc_scope c) = lg_no_progress h3 (sc_scope c)"
    using g2 g3 by (simp_all add: same_scope_def)
  then show ?thesis unfolding judge_state_def Let_def r r' s
    using g2 g3 by (cases s; cases f) (auto simp: f f' e st)
qed

lemma guard_step_same:
  assumes "same_scope (op_scope x) g h"
  shows "fst (guard_step digest x g) = fst (guard_step digest x h)
       \<and> same_scope (op_scope x) (snd (guard_step digest x g)) (snd (guard_step digest x h))"
proof (cases x)
  case (Observe_Action a)
  then show ?thesis using assms by (simp add: observe_action_result_def same_scope_def Let_def)
next
  case (Observe_Checkpoint c)
  then have c: "same_scope (sc_scope c) g h" using assms by simp
  show ?thesis
    using Observe_Checkpoint c record_progress_same [OF c]
      judge_state_same [OF record_progress_same(2) [OF c], of digest "pd_advanced (progress_comparison c h)"]
    by (simp add: observe_checkpoint_def Let_def)
next
  case (Authorize_Recovery s)
  then show ?thesis using assms by (simp add: authorize_recovery_def same_scope_def Let_def)
qed

interpretation guard: scoped_component "guard_step digest" op_scope same_scope
proof
  show "same_scope p s u" if "same_scope p s t" "same_scope p t u" for p s t u
    using that by (rule same_scope_trans)
qed (simp_all add: guard_step_other guard_step_same)

section \<open>What a guard keeps\<close>

text \<open>
  What holds of every guard: the windows are bounded, the fingerprints kept are digests, every
  registered signature is a valid one of its own scope, filed under its digest, and the recovered
  signatures are among the registered ones.
\<close>

definition filed :: "(json \<Rightarrow> string) \<Rightarrow> LoopScope \<Rightarrow> (string, CycleSignature) dict \<Rightarrow> bool" where
  "filed digest sc d =
     (distinct (dict_keys d) \<and> length d \<le> RECOVERY_SIGNATURE_CAPACITY
      \<and> list_all (\<lambda>(k, s). cs_digest s = k \<and> cs_scope s = sc \<and> signature_contract digest s) d)"

definition scope_inv :: "(json \<Rightarrow> string) \<Rightarrow> LoopScope \<Rightarrow> LoopGuard \<Rightarrow> bool" where
  "scope_inv digest sc g =
     (length (lg_actions g sc) \<le> ACTION_WINDOW_SIZE \<and> length (lg_states g sc) \<le> STATE_WINDOW_SIZE
      \<and> length (lg_failures g sc) \<le> 3 \<and> lg_no_progress g sc \<le> 2
      \<and> list_all digest_text (lg_states g sc)
      \<and> filed digest sc (lg_observed_cycles g sc) \<and> filed digest sc (lg_recoveries g sc)
      \<and> set (lg_recoveries g sc) \<subseteq> set (lg_observed_cycles g sc))"

definition op_contract :: "(json \<Rightarrow> string) \<Rightarrow> guard_op \<Rightarrow> bool" where
  "op_contract digest x =
     (case x of
        Observe_Action a \<Rightarrow> observation_contract digest a
      | Observe_Checkpoint c \<Rightarrow> checkpoint_contract c
      | Authorize_Recovery s \<Rightarrow> signature_contract digest s)"

lemma filed_put:
  assumes "filed digest sc d" "cs_digest s \<notin> set (dict_keys d)" "cs_scope s = sc"
    "signature_contract digest s" "length d < RECOVERY_SIGNATURE_CAPACITY"
  shows "filed digest sc (dict_put (cs_digest s) s d)"
  using assms by (simp add: filed_def dict_put_new)

lemma filed_get: "filed digest sc d \<Longrightarrow> (k, s) \<in> set d \<Longrightarrow> dict_get d k = Some s"
  by (simp add: filed_def)

lemma scope_inv_new: "scope_inv digest sc (new_guard policy)"
  by (simp add: scope_inv_def new_guard_def filed_def)

text \<open>The signature of a detected cycle is valid: its constructor raises nothing.\<close>

lemma cycle_signature_contract:
  assumes "detect_cycle states = Some p" "list_all digest_text states" "checkpoint_contract c"
    "\<And>v. digest_text (digest v)"
  shows "signature_contract digest
      \<lparr>cs_digest = digest (signature_value (sc_scope c) (sc_plan_revision c) (sc_schema_version c) p),
       cs_scope = sc_scope c, cs_plan_revision = sc_plan_revision c,
       cs_schema_version = sc_schema_version c, cs_period = p\<rparr>"
proof -
  obtain k where k: "1 \<le> k" "k \<le> 6" "ends_twice k states"
      "\<forall>j. 1 \<le> j \<and> j < k \<longrightarrow> \<not> ends_twice j states" "p = normalize_rotation (last_n k states)"
    using assms(1) unfolding detect_cycle_Some by blast
  have len: "length (last_n k states) = k" using k(3) by (simp add: ends_twice_def)
  have "list_all digest_text (last_n k states)"
    using assms(2) set_last_n [of k states] by (auto simp: list_all_iff)
  then have "list_all digest_text p" using k(5) by (simp add: list_all_iff)
  then show ?thesis
    using k len assms(3,4) shortest_block_primitive [OF k(3,4)]
    by (simp add: signature_contract_def normalize_rotation_idem is_primitive_normalize checkpoint_contract_def)
qed

lemma register_cycle_inv:
  assumes "scope_inv digest sc g" "sc = sc_scope c" "checkpoint_contract c" "list_all digest_text states"
    "\<And>v. digest_text (digest v)"
  shows "scope_inv digest sc (snd (register_cycle digest c states g))
       \<and> optional (signature_contract digest) (fst (register_cycle digest c states g))"
proof (cases "detect_cycle states")
  case None
  then show ?thesis using assms(1) by (simp add: register_cycle_def optional_def)
next
  case (Some p)
  let ?s = "\<lparr>cs_digest = digest (signature_value (sc_scope c) (sc_plan_revision c) (sc_schema_version c) p),
       cs_scope = sc_scope c, cs_plan_revision = sc_plan_revision c,
       cs_schema_version = sc_schema_version c, cs_period = p\<rparr>"
  have valid: "signature_contract digest ?s"
    by (rule cycle_signature_contract [OF Some assms(4,3,5)])
  have put: "filed digest sc d \<Longrightarrow> cs_digest ?s \<notin> set (dict_keys d)
      \<Longrightarrow> length d < RECOVERY_SIGNATURE_CAPACITY \<Longrightarrow> filed digest sc (dict_put (cs_digest ?s) ?s d)" for d
    by (rule filed_put) (simp_all add: valid assms(2))
  show ?thesis using assms(1,2) Some valid put
    by (auto simp: register_cycle_def scope_inv_def optional_def Let_def dict_put_new)
qed

lemma failure_check_inv:
  assumes "scope_inv digest (sc_scope c) g"
  shows "scope_inv digest (sc_scope c) (snd (failure_check c g))"
  using assms by (auto simp: failure_check_def scope_inv_def Let_def min_def split: if_splits)

lemma record_progress_inv:
  assumes "scope_inv digest (sc_scope c) g"
  shows "scope_inv digest (sc_scope c) (record_progress c g)"
  using assms by (simp add: record_progress_def scope_inv_def Let_def)

definition good_decision :: "(json \<Rightarrow> string) \<Rightarrow> LoopDecision \<Rightarrow> bool" where
  "good_decision digest d =
     (loop_decision_shape d \<and> optional (signature_contract digest) (ld_cycle_signature d))"

lemma good_decision_simps [simp]:
  "good_decision digest allowed_decision" "good_decision digest ignored_decision"
  "good_decision digest (stopped r None)"
  "good_decision digest (stopped r (Some s)) = signature_contract digest s"
  by (simp_all add: good_decision_def loop_decision_shape_def allowed_decision_def ignored_decision_def
      stopped_def optional_def)

lemma failure_check_good: "fst (failure_check c g) = Some d \<Longrightarrow> good_decision digest d"
  by (auto simp: failure_check_def Let_def split: if_splits)

lemma judge_state_inv:
  assumes inv: "scope_inv digest (sc_scope c) g" and c: "checkpoint_contract c"
    and digest: "\<And>v. digest_text (digest v)"
  shows "scope_inv digest (sc_scope c) (snd (judge_state digest advanced c g))
       \<and> good_decision digest (fst (judge_state digest advanced c g))"
proof -
  let ?states = "push STATE_WINDOW_SIZE (sc_state_fingerprint c) (lg_states g (sc_scope c))"
  let ?g1 = "g\<lparr>lg_states := (lg_states g)(sc_scope c := ?states)\<rparr>"
  have "set ?states \<subseteq> insert (sc_state_fingerprint c) (set (lg_states g (sc_scope c)))"
    unfolding push_def using set_last_n [of STATE_WINDOW_SIZE "lg_states g (sc_scope c) @ [sc_state_fingerprint c]"] by simp
  then have states: "list_all digest_text ?states"
    using inv c by (auto simp: list_all_iff scope_inv_def checkpoint_contract_def)
  then have g1: "scope_inv digest (sc_scope c) ?g1" using inv by (simp add: scope_inv_def)
  obtain s g2 where r: "register_cycle digest c ?states ?g1 = (s, g2)" by fastforce
  have g2: "scope_inv digest (sc_scope c) g2" and s: "optional (signature_contract digest) s"
    using register_cycle_inv [OF g1 refl c states digest] r by simp_all
  obtain f g3 where f: "failure_check c g2 = (f, g3)" by fastforce
  have g3: "scope_inv digest (sc_scope c) g3" using failure_check_inv [OF g2] f by simp
  have d: "f = Some d \<Longrightarrow> good_decision digest d" for d using failure_check_good [of c g2 d] f by simp
  show ?thesis unfolding judge_state_def Let_def r
    using g2 g3 s d by (cases s; cases f) (simp_all add: f optional_def)
qed

lemma authorize_recovery_inv:
  assumes "scope_inv digest (cs_scope s) g" "signature_contract digest s"
  shows "scope_inv digest (cs_scope s) (snd (authorize_recovery s g))
       \<and> good_decision digest (fst (authorize_recovery s g))"
proof -
  have "(cs_digest s, s) \<in> set (lg_observed_cycles g (cs_scope s))"
    if "dict_get (lg_observed_cycles g (cs_scope s)) (cs_digest s) = Some s"
    using that by (rule map_of_SomeD)
  then show ?thesis using assms filed_put [of digest "cs_scope s" "lg_recoveries g (cs_scope s)" s]
    by (auto simp: authorize_recovery_def scope_inv_def Let_def dict_put_new)
qed

lemma same_scope_inv: "same_scope sc g h \<Longrightarrow> scope_inv digest sc g = scope_inv digest sc h"
  by (simp add: same_scope_def scope_inv_def)

lemma guard_step_inv:
  assumes inv: "\<And>sc. scope_inv digest sc g" and x: "op_contract digest x"
    and digest: "\<And>v. digest_text (digest v)"
  shows "scope_inv digest sc (snd (guard_step digest x g)) \<and> good_decision digest (fst (guard_step digest x g))"
proof -
  have own: "scope_inv digest (op_scope x) (snd (guard_step digest x g))
      \<and> good_decision digest (fst (guard_step digest x g))"
  proof (cases x)
    case (Observe_Action a)
    then show ?thesis using inv [of "ob_scope a"]
      by (simp add: observe_action_result_def scope_inv_def Let_def)
  next
    case (Observe_Checkpoint c)
    then show ?thesis
      using record_progress_inv [OF inv [of "sc_scope c"]] x inv
        judge_state_inv [OF record_progress_inv [OF inv [of "sc_scope c"]] _ digest]
      by (simp add: observe_checkpoint_def Let_def op_contract_def)
  next
    case (Authorize_Recovery s)
    then show ?thesis using authorize_recovery_inv [OF inv] x by (simp add: op_contract_def)
  qed
  show ?thesis
    using own same_scope_inv [OF guard_step_other, of x sc digest] inv by (cases "op_scope x = sc") auto
qed

lemma guard_run_inv:
  assumes "\<And>v. digest_text (digest v)" "list_all (op_contract digest) xs"
  shows "(\<forall>sc. scope_inv digest sc (snd (guard_run digest xs (new_guard policy))))
       \<and> list_all (\<lambda>(x, d). good_decision digest d) (fst (guard_run digest xs (new_guard policy)))"
proof (rule run_calls_inv [where I = "\<lambda>g. \<forall>sc. scope_inv digest sc g" and ok = "op_contract digest"])
  show "(\<forall>sc. scope_inv digest sc (snd (guard_step digest c s))) \<and> good_decision digest (fst (guard_step digest c s))"
    if "\<forall>sc. scope_inv digest sc s" "op_contract digest c" for c s
    using guard_step_inv [OF _ that(2) assms(1)] that(1) by blast
qed (simp_all add: assms scope_inv_new)

section \<open>Progress is a strict order\<close>

definition improves :: "ProgressVector \<Rightarrow> ProgressVector \<Rightarrow> bool" where
  "improves old new =
     (list_all (\<lambda>f. progress_field old f \<le> progress_field new f) POSITIVE_FIELDS
      \<and> list_all (\<lambda>f. progress_field new f \<le> progress_field old f) NEGATIVE_FIELDS
      \<and> list_ex (\<lambda>f. progress_field new f \<noteq> progress_field old f) (POSITIVE_FIELDS @ NEGATIVE_FIELDS))"

lemma worsened_fields_Nil:
  "worsened_fields old new = [] \<longleftrightarrow>
     list_all (\<lambda>f. progress_field old f \<le> progress_field new f) POSITIVE_FIELDS
   \<and> list_all (\<lambda>f. progress_field new f \<le> progress_field old f) NEGATIVE_FIELDS"
  by (simp add: worsened_fields_def filter_empty_conv list_all_iff not_less)

lemma compare_progress_advanced:
  "pd_advanced (compare_progress old new policy) = improves old new"
proof (cases "worsened_fields old new = []")
  case True
  then show ?thesis using worsened_fields_Nil [of old new]
    by (simp add: compare_progress_def Let_def improves_def)
next
  case False
  then show ?thesis
    by (auto simp: compare_progress_def Let_def improves_def worsened_fields_Nil)
qed

lemma compare_progress_shape: "decision_shape (compare_progress old new policy)"
  by (cases "worsened_fields old new") (auto simp: compare_progress_def decision_shape_def Let_def)

lemma improves_irrefl: "\<not> improves p p"
  by (simp add: improves_def list_ex_iff)

lemma improves_trans:
  assumes "improves p q" "improves q r"
  shows "improves p r"
proof -
  have pos: "progress_field p f \<le> progress_field q f" "progress_field q f \<le> progress_field r f"
    if "f \<in> set POSITIVE_FIELDS" for f using assms that by (auto simp: improves_def list_all_iff)
  have neg: "progress_field q f \<le> progress_field p f" "progress_field r f \<le> progress_field q f"
    if "f \<in> set NEGATIVE_FIELDS" for f using assms that by (auto simp: improves_def list_all_iff)
  obtain f where f: "f \<in> set POSITIVE_FIELDS \<union> set NEGATIVE_FIELDS"
      "progress_field q f \<noteq> progress_field p f"
    using assms(1) by (auto simp: improves_def list_ex_iff)
  then have "progress_field r f \<noteq> progress_field p f"
    using pos [of f] neg [of f] by fastforce
  moreover have "progress_field p f \<le> progress_field r f" if "f \<in> set POSITIVE_FIELDS" for f
    using pos [OF that] by (rule order_trans)
  moreover have "progress_field r f \<le> progress_field p f" if "f \<in> set NEGATIVE_FIELDS" for f
    using neg [OF that] by simp
  ultimately show ?thesis using f(1) unfolding improves_def list_all_iff list_ex_iff set_append by blast
qed

lemma improves_transp: "transp improves"
  by (rule transpI) (rule improves_trans)

section \<open>Checkpoints without progress\<close>

text \<open>The operations that are no semantic checkpoint of a scope.\<close>

fun quiet_op :: "LoopScope \<Rightarrow> guard_op \<Rightarrow> bool" where
  "quiet_op sc (Observe_Checkpoint c) = (sc_scope c \<noteq> sc \<or> sc_observation_kind c \<noteq> SEMANTIC_CHECKPOINT)"
| "quiet_op sc x = True"

lemma register_cycle_keeps [simp]:
  "lg_progress (snd (register_cycle digest c states g)) = lg_progress g"
  "lg_no_progress (snd (register_cycle digest c states g)) = lg_no_progress g"
  "lg_recoveries (snd (register_cycle digest c states g)) = lg_recoveries g"
  "lg_actions (snd (register_cycle digest c states g)) = lg_actions g"
  "lg_severity_policy (snd (register_cycle digest c states g)) = lg_severity_policy g"
  by (simp_all add: register_cycle_def Let_def split: option.splits)

lemma failure_check_keeps [simp]:
  "lg_progress (snd (failure_check c g)) = lg_progress g"
  "lg_no_progress (snd (failure_check c g)) = lg_no_progress g"
  "lg_recoveries (snd (failure_check c g)) = lg_recoveries g"
  "lg_actions (snd (failure_check c g)) = lg_actions g"
  "lg_observed_cycles (snd (failure_check c g)) = lg_observed_cycles g"
  "lg_severity_policy (snd (failure_check c g)) = lg_severity_policy g"
  by (simp_all add: failure_check_def Let_def)

lemma ld_allowed_simps [simp]:
  "\<not> ld_allowed (stopped r s)" "ld_allowed allowed_decision" "ld_allowed ignored_decision"
  by (simp_all add: stopped_def allowed_decision_def ignored_decision_def)

lemma failure_check_stops: "fst (failure_check c g) = Some d \<Longrightarrow> d = stopped ''cross_worker_failure_oscillation'' None"
  by (auto simp: failure_check_def Let_def split: if_splits)

text \<open>The guard a judgement leaves is the one its two parts leave.\<close>

lemma judge_state_guard:
  obtains g' where
    "snd (judge_state digest advanced c g) = g' \<or> snd (judge_state digest advanced c g) = snd (failure_check c g')"
    "g' = snd (register_cycle digest c
       (push STATE_WINDOW_SIZE (sc_state_fingerprint c) (lg_states g (sc_scope c)))
       (g\<lparr>lg_states := (lg_states g)(sc_scope c :=
          push STATE_WINDOW_SIZE (sc_state_fingerprint c) (lg_states g (sc_scope c)))\<rparr>))"
proof (rule that [OF _ refl])
  let ?states = "push STATE_WINDOW_SIZE (sc_state_fingerprint c) (lg_states g (sc_scope c))"
  let ?g1 = "g\<lparr>lg_states := (lg_states g)(sc_scope c := ?states)\<rparr>"
  obtain s g2 where r: "register_cycle digest c ?states ?g1 = (s, g2)" by fastforce
  obtain f g3 where f: "failure_check c g2 = (f, g3)" by fastforce
  show "snd (judge_state digest advanced c g) = snd (register_cycle digest c ?states ?g1)
      \<or> snd (judge_state digest advanced c g) = snd (failure_check c (snd (register_cycle digest c ?states ?g1)))"
    unfolding judge_state_def Let_def r by (cases s; cases f) (simp_all add: f)
qed

lemma judge_state_keeps [simp]:
  "lg_progress (snd (judge_state digest advanced c g)) = lg_progress g"
  "lg_no_progress (snd (judge_state digest advanced c g)) = lg_no_progress g"
  "lg_recoveries (snd (judge_state digest advanced c g)) = lg_recoveries g"
  "lg_actions (snd (judge_state digest advanced c g)) = lg_actions g"
  "lg_severity_policy (snd (judge_state digest advanced c g)) = lg_severity_policy g"
  by (rule judge_state_guard [of digest advanced c g]; elim disjE; simp)+

lemma record_progress_keeps [simp]:
  "lg_recoveries (record_progress c g) = lg_recoveries g"
  "lg_actions (record_progress c g) = lg_actions g"
  "lg_observed_cycles (record_progress c g) = lg_observed_cycles g"
  "lg_severity_policy (record_progress c g) = lg_severity_policy g"
  by (simp_all add: record_progress_def Let_def)

lemma judge_state_allowed:
  assumes "ld_allowed (fst (judge_state digest advanced c g))"
  shows "lg_no_progress g (sc_scope c) < 2"
proof -
  let ?states = "push STATE_WINDOW_SIZE (sc_state_fingerprint c) (lg_states g (sc_scope c))"
  let ?g1 = "g\<lparr>lg_states := (lg_states g)(sc_scope c := ?states)\<rparr>"
  obtain s g2 where r: "register_cycle digest c ?states ?g1 = (s, g2)" by fastforce
  obtain f g3 where f: "failure_check c g2 = (f, g3)" by fastforce
  have "lg_no_progress g3 = lg_no_progress g"
    using register_cycle_keeps(2) [of digest c ?states ?g1] failure_check_keeps(2) [of c g2] r f by simp
  moreover have "f = Some d \<Longrightarrow> \<not> ld_allowed d" for d
    using failure_check_stops [of c g2 d] f by simp
  ultimately show ?thesis using assms unfolding judge_state_def Let_def r
    by (cases s; cases f) (simp_all add: f if_distrib [of fst] if_distrib [of ld_allowed] split: if_splits)
qed

lemma quiet_step:
  assumes "quiet_op sc x"
  shows "lg_progress (snd (guard_step digest x g)) sc = lg_progress g sc
       \<and> lg_no_progress (snd (guard_step digest x g)) sc = lg_no_progress g sc
       \<and> lg_severity_policy (snd (guard_step digest x g)) = lg_severity_policy g"
  using assms
  by (cases x) (auto simp: observe_action_result_def authorize_recovery_def observe_checkpoint_def
      record_progress_def Let_def)

lemma quiet_run:
  "list_all (quiet_op sc) xs \<Longrightarrow>
     lg_progress (snd (guard_run digest xs g)) sc = lg_progress g sc
   \<and> lg_no_progress (snd (guard_run digest xs g)) sc = lg_no_progress g sc
   \<and> lg_severity_policy (snd (guard_run digest xs g)) = lg_severity_policy g"
proof (induction xs arbitrary: g)
  case (Cons x xs)
  then show ?case using quiet_step [of sc x digest g] by simp
qed simp

lemma record_progress_stall:
  assumes "lg_progress g (sc_scope c) = Some p" "\<not> improves p (sc_progress c)"
  shows "lg_progress (record_progress c g) (sc_scope c) = Some (sc_progress c)
       \<and> lg_no_progress (record_progress c g) (sc_scope c) = min 2 (lg_no_progress g (sc_scope c) + 1)"
  using assms by (simp add: record_progress_def Let_def progress_comparison_def compare_progress_advanced)

lemma observe_checkpoint_stall:
  assumes "sc_observation_kind c = SEMANTIC_CHECKPOINT"
    "lg_progress g (sc_scope c) = Some p" "\<not> improves p (sc_progress c)"
  shows "lg_progress (snd (observe_checkpoint digest c g)) (sc_scope c) = Some (sc_progress c)
       \<and> lg_no_progress (snd (observe_checkpoint digest c g)) (sc_scope c) = min 2 (lg_no_progress g (sc_scope c) + 1)
       \<and> (ld_allowed (fst (observe_checkpoint digest c g)) \<longrightarrow> lg_no_progress g (sc_scope c) = 0)"
proof -
  note rec = record_progress_stall [OF assms(2,3)]
  have "lg_no_progress g (sc_scope c) = 0"
    if "ld_allowed (fst (judge_state digest b c (record_progress c g)))" for b
    using judge_state_allowed [OF that] rec by simp
  then show ?thesis using rec assms(1) by (simp add: observe_checkpoint_def Let_def stopped_def)
qed

section \<open>Recoveries\<close>

fun granted :: "LoopScope \<Rightarrow> (guard_op \<times> LoopDecision) list \<Rightarrow> CycleSignature list" where
  "granted sc [] = []"
| "granted sc ((Authorize_Recovery s, d) # es) =
     (if cs_scope s = sc \<and> ld_allowed d then s # granted sc es else granted sc es)"
| "granted sc (_ # es) = granted sc es"

definition recovery_inv :: "LoopScope \<Rightarrow> LoopGuard \<Rightarrow> bool" where
  "recovery_inv sc g =
     (distinct (dict_keys (lg_recoveries g sc)) \<and> length (lg_recoveries g sc) \<le> RECOVERY_SIGNATURE_CAPACITY
      \<and> (\<forall>(k, s) \<in> set (lg_recoveries g sc). cs_digest s = k \<and> dict_get (lg_observed_cycles g sc) k = Some s))"

lemma register_cycle_observed:
  "dict_get (lg_observed_cycles g sc) k = Some s
   \<Longrightarrow> dict_get (lg_observed_cycles (snd (register_cycle digest c states g)) sc) k = Some s"
  by (auto simp: register_cycle_def Let_def dict_put_new map_add_def split: option.splits)

lemma judge_state_observed:
  "dict_get (lg_observed_cycles g sc) k = Some s
   \<Longrightarrow> dict_get (lg_observed_cycles (snd (judge_state digest advanced c g)) sc) k = Some s"
  by (rule judge_state_guard [of digest advanced c g]; elim disjE)
     (simp_all add: register_cycle_observed)

lemma checkpoint_recoveries:
  "lg_recoveries (snd (observe_checkpoint digest c g)) = lg_recoveries g"
  "dict_get (lg_observed_cycles g sc) k = Some s
   \<Longrightarrow> dict_get (lg_observed_cycles (snd (observe_checkpoint digest c g)) sc) k = Some s"
  by (simp_all add: observe_checkpoint_def Let_def judge_state_observed)

lemma guard_step_recoveries:
  assumes "recovery_inv sc g"
  shows "recovery_inv sc (snd (guard_step digest x g))
       \<and> lg_recoveries (snd (guard_step digest x g)) sc =
           lg_recoveries g sc @ map (\<lambda>s. (cs_digest s, s)) (granted sc [(x, fst (guard_step digest x g))])"
proof (cases x)
  case (Observe_Action a)
  then show ?thesis using assms by (simp add: observe_action_result_def recovery_inv_def Let_def)
next
  case (Observe_Checkpoint c)
  have "dict_get (lg_observed_cycles (snd (observe_checkpoint digest c g)) sc) k = Some s"
    if "(k, s) \<in> set (lg_recoveries g sc)" for k s
    using assms that by (intro checkpoint_recoveries(2)) (auto simp: recovery_inv_def)
  then show ?thesis using assms Observe_Checkpoint
    by (auto simp: recovery_inv_def checkpoint_recoveries(1))
next
  case (Authorize_Recovery s)
  then show ?thesis using assms
    by (auto simp: authorize_recovery_def recovery_inv_def Let_def dict_put_new stopped_def allowed_decision_def)
qed

lemma stopped_inject [simp]: "stopped r s = stopped r' s' \<longleftrightarrow> r = r' \<and> s = s'"
  by (auto simp: stopped_def)

lemma stopped_not_allowed [simp]: "allowed_decision \<noteq> stopped r s" "ignored_decision \<noteq> stopped r s"
  by (simp_all add: stopped_def allowed_decision_def ignored_decision_def)

lemma judge_state_fresh:
  assumes "fst (judge_state digest advanced c g) = stopped ''state_cycle'' (Some s)"
  shows "cs_digest s \<notin> set (dict_keys (lg_recoveries g (sc_scope c)))"
proof -
  let ?states = "push STATE_WINDOW_SIZE (sc_state_fingerprint c) (lg_states g (sc_scope c))"
  let ?g1 = "g\<lparr>lg_states := (lg_states g)(sc_scope c := ?states)\<rparr>"
  obtain t g2 where r: "register_cycle digest c ?states ?g1 = (t, g2)" by fastforce
  obtain f g3 where f: "failure_check c g2 = (f, g3)" by fastforce
  have g2: "lg_recoveries g2 = lg_recoveries g"
    using register_cycle_keeps(3) [of digest c ?states ?g1] r by simp
  have "f \<noteq> Some (stopped ''state_cycle'' (Some s))"
    using failure_check_stops [of c g2 "stopped ''state_cycle'' (Some s)"] f by auto
  then show ?thesis using assms unfolding judge_state_def Let_def r
    by (cases t; cases f) (auto simp: f g2 if_distrib [of fst] split: if_splits)
qed

lemma fresh_cycle_not_recovered:
  assumes "fst (observe_checkpoint digest c g) = stopped ''state_cycle'' (Some s)"
  shows "cs_digest s \<notin> set (dict_keys (lg_recoveries g (sc_scope c)))"
proof -
  have "fst (judge_state digest (pd_advanced (progress_comparison c g)) c (record_progress c g))
      = stopped ''state_cycle'' (Some s)"
    using assms by (simp add: observe_checkpoint_def Let_def split: if_splits)
  then show ?thesis using judge_state_fresh record_progress_keeps(1) by metis
qed

lemma granted_append: "granted sc (xs @ ys) = granted sc xs @ granted sc ys"
  by (induction sc xs rule: granted.induct) auto

lemma guard_run_recoveries:
  "recovery_inv sc g \<Longrightarrow>
     recovery_inv sc (snd (guard_run digest xs g))
   \<and> lg_recoveries (snd (guard_run digest xs g)) sc =
       lg_recoveries g sc @ map (\<lambda>s. (cs_digest s, s)) (granted sc (fst (guard_run digest xs g)))"
proof (induction xs arbitrary: g)
  case (Cons x xs)
  let ?g = "snd (guard_step digest x g)" let ?e = "(x, fst (guard_step digest x g))"
  note step = guard_step_recoveries [OF Cons.prems, of digest x]
  have "granted sc (?e # fst (guard_run digest xs ?g)) = granted sc [?e] @ granted sc (fst (guard_run digest xs ?g))"
    using granted_append [of sc "[?e]"] by (metis append_Cons append_Nil)
  then show ?case using step Cons.IH [of ?g] by (simp only: run_calls_Cons map_append append_assoc simp_thms)
qed simp

section \<open>Actions\<close>

fun acts :: "LoopScope \<Rightarrow> guard_op list \<Rightarrow> ActionObservation list" where
  "acts sc [] = []"
| "acts sc (Observe_Action x # xs) = (if ob_scope x = sc then x # acts sc xs else acts sc xs)"
| "acts sc (_ # xs) = acts sc xs"

lemma guard_step_actions:
  "lg_actions (snd (guard_step digest x g)) sc = foldl (\<lambda>ys y. push ACTION_WINDOW_SIZE y ys) (lg_actions g sc) (acts sc [x])"
  by (cases x) (auto simp: observe_action_result_def authorize_recovery_def observe_checkpoint_def Let_def)

lemma guard_run_actions:
  "lg_actions g sc = last_n ACTION_WINDOW_SIZE ys \<Longrightarrow>
     lg_actions (snd (guard_run digest xs g)) sc = last_n ACTION_WINDOW_SIZE (ys @ acts sc xs)"
proof (induction xs arbitrary: g ys)
  case (Cons x xs)
  have pos: "0 < ACTION_WINDOW_SIZE" by (simp add: ACTION_WINDOW_SIZE_def)
  have "lg_actions (snd (guard_step digest x g)) sc = last_n ACTION_WINDOW_SIZE (ys @ acts sc [x])"
    unfolding guard_step_actions Cons.prems by (cases x) (simp_all add: pos)
  from Cons.IH [OF this] show ?case by (cases x) simp_all
qed simp

section \<open>Properties\<close>

text \<open>
  C27. A cycle is reported exactly when the states end with a block of at most six states written
  twice, and what is reported is the least rotation of the shortest such block.
\<close>

theorem detect_cycle_exact:
  "detect_cycle states = Some p \<longleftrightarrow>
     (\<exists>pre w. states = pre @ w @ w \<and> w \<noteq> [] \<and> length w \<le> 6 \<and> p = normalize_rotation w
        \<and> \<not> (\<exists>pre' w'. states = pre' @ w' @ w' \<and> w' \<noteq> [] \<and> length w' < length w))"
proof -
  have short: "(\<forall>j. 1 \<le> j \<and> j < k \<longrightarrow> \<not> ends_twice j states) \<longleftrightarrow>
      \<not> (\<exists>pre' w'. states = pre' @ w' @ w' \<and> w' \<noteq> [] \<and> length w' < k)" for k
    unfolding ends_twice_iff by (auto simp: Suc_le_eq)
  have block: "ends_twice k states \<and> p = normalize_rotation (last_n k states) \<longleftrightarrow>
      (\<exists>pre w. states = pre @ w @ w \<and> length w = k \<and> p = normalize_rotation w)" for k
  proof -
    have "last_n k (pre @ w @ w) = w" if "length w = k" for pre w :: "string list"
      using that last_n_append [of w k "pre @ w"] by simp
    then show ?thesis unfolding ends_twice_iff by metis
  qed
  have "detect_cycle states = Some p \<longleftrightarrow>
     (\<exists>k. 1 \<le> k \<and> k \<le> 6 \<and> (ends_twice k states \<and> p = normalize_rotation (last_n k states))
        \<and> \<not> (\<exists>pre' w'. states = pre' @ w' @ w' \<and> w' \<noteq> [] \<and> length w' < k))"
    unfolding detect_cycle_Some short by blast
  then show ?thesis unfolding block by (auto simp: Suc_le_eq)
qed

text \<open>
  Whatever valid observations and recovery requests a new guard is given, every value it
  builds is valid: the cycle signatures are primitive, rotation-normalized and bind their digest,
  the decisions have a legal shape, and the windows of every scope stay within their bounds.
\<close>

theorem guard_builds_valid_values:
  assumes "\<And>v. digest_text (digest v)" "list_all (op_contract digest) ops"
  shows "list_all (\<lambda>(x, d). loop_decision_shape d
             \<and> (case ld_cycle_signature d of None \<Rightarrow> True | Some s \<Rightarrow> signature_contract digest s))
           (fst (guard_run digest ops (new_guard policy)))
       \<and> scope_inv digest sc (snd (guard_run digest ops (new_guard policy)))"
  using guard_run_inv [OF assms, of policy]
  by (auto simp: good_decision_def optional_def list_all_iff)

text \<open>
  Two semantic checkpoints of a scope in a row that do not advance over the one before them
  are not both let through: the second is stopped, whatever happens in between.
\<close>

theorem second_stalled_checkpoint_stops:
  assumes "lg_progress g sc = Some p"
    "sc_scope c = sc" "sc_observation_kind c = SEMANTIC_CHECKPOINT"
    "\<not> pd_advanced (compare_progress p (sc_progress c) (lg_severity_policy g))"
    "list_all (quiet_op sc) between"
    "sc_scope c' = sc" "sc_observation_kind c' = SEMANTIC_CHECKPOINT"
    "\<not> pd_advanced (compare_progress (sc_progress c) (sc_progress c') (lg_severity_policy g))"
  shows "\<not> ld_allowed (snd (last (fst (guard_run digest
            (Observe_Checkpoint c # between @ [Observe_Checkpoint c']) g))))"
proof -
  let ?g = "snd (observe_checkpoint digest c g)"
  let ?h = "snd (guard_run digest between ?g)"
  have g: "lg_progress ?g sc = Some (sc_progress c)" "lg_no_progress ?g sc \<noteq> 0"
    using observe_checkpoint_stall [of c g p digest] assms(1-4) by (simp_all add: compare_progress_advanced)
  then have h: "lg_progress ?h (sc_scope c') = Some (sc_progress c)" "lg_no_progress ?h (sc_scope c') \<noteq> 0"
    using quiet_run [OF assms(5), of digest ?g] assms(6) by simp_all
  then have "\<not> ld_allowed (fst (observe_checkpoint digest c' ?h))"
    using observe_checkpoint_stall [OF assms(7) h(1), of digest] assms(8)
    by (simp add: compare_progress_advanced)
  then show ?thesis by (simp add: run_calls_append)
qed

text \<open>
  Over any history of a guard, an action result is judged by the last five of its scope, itself
  included: the third with the same digest stops as a repeated result, the third with the same
  action stops as a repeated action, and any other is let through.
\<close>

theorem actions_judged_by_last_five:
  "fst (observe_action_result x (snd (guard_run digest ops (new_guard policy)))) =
     (let recent = last_n 5 (acts (ob_scope x) ops @ [x])
      in if 3 \<le> length (filter (\<lambda>y. ob_digest y = ob_digest x) recent)
           then stopped ''repeated_action_result'' None
         else if 3 \<le> length (filter (\<lambda>y. ob_action y = ob_action x) recent)
           then stopped ''repeated_action'' None
         else allowed_decision)"
proof -
  let ?g = "snd (guard_run digest ops (new_guard policy))"
  have "lg_actions ?g (ob_scope x) = last_n ACTION_WINDOW_SIZE (acts (ob_scope x) ops)"
    using guard_run_actions [of "new_guard policy" "ob_scope x" "[]" digest ops]
    by (simp add: new_guard_def last_n_def)
  then have "push ACTION_WINDOW_SIZE x (lg_actions ?g (ob_scope x)) = last_n 5 (acts (ob_scope x) ops @ [x])"
    by (simp add: ACTION_WINDOW_SIZE_def)
  then show ?thesis by (simp add: observe_action_result_def Let_def)
qed

text \<open>
  C28. Over any history of a guard and in each scope, recovery is granted at most once per cycle,
  for at most twelve cycles, only for registered ones, and a cycle that was granted one is never
  again reported as a fresh cycle.
\<close>

theorem recoveries_granted_once:
  "let (es, g) = guard_run digest ops (new_guard policy)
   in distinct (map cs_digest (granted sc es)) \<and> length (granted sc es) \<le> 12
      \<and> list_all (\<lambda>s. dict_get (lg_observed_cycles g sc) (cs_digest s) = Some s) (granted sc es)
      \<and> \<not> (\<exists>c s. sc_scope c = sc \<and> cs_digest s \<in> set (map cs_digest (granted sc es))
            \<and> fst (observe_checkpoint digest c g) = stopped ''state_cycle'' (Some s))"
proof -
  obtain es g where run: "guard_run digest ops (new_guard policy) = (es, g)" by fastforce
  have "recovery_inv sc (new_guard policy)" by (simp add: recovery_inv_def new_guard_def)
  from guard_run_recoveries [OF this, of digest ops]
  have inv: "recovery_inv sc g" and rec: "lg_recoveries g sc = map (\<lambda>s. (cs_digest s, s)) (granted sc es)"
    by (simp_all add: run) (simp add: new_guard_def)
  have "distinct (map cs_digest (granted sc es))" "length (granted sc es) \<le> 12"
    "list_all (\<lambda>s. dict_get (lg_observed_cycles g sc) (cs_digest s) = Some s) (granted sc es)"
    using inv by (auto simp: recovery_inv_def rec comp_def RECOVERY_SIGNATURE_CAPACITY_def list_all_iff)
  moreover have "cs_digest s \<notin> set (map cs_digest (granted sc es))"
    if "sc_scope c = sc" "fst (observe_checkpoint digest c g) = stopped ''state_cycle'' (Some s)" for c s
    using fresh_cycle_not_recovered [OF that(2)] that(1) by (simp add: rec comp_def)
  ultimately show ?thesis by (auto simp: run)
qed

text \<open>
  Advance is a strict order, whatever severity policies the comparisons use: along a chain of
  advances every later progress vector improves over every earlier one, so none comes back.
\<close>

theorem advancing_never_returns:
  assumes "successively (\<lambda>p q. \<exists>policy. pd_advanced (compare_progress p q policy)) ps"
    "i < j" "j < length ps"
  shows "pd_advanced (compare_progress (ps ! i) (ps ! j) policy) \<and> ps ! i \<noteq> ps ! j"
proof -
  have "successively improves ps" using assms(1) by (simp add: compare_progress_advanced)
  then have "sorted_wrt improves ps" by (simp add: successively_conv_sorted_wrt [OF improves_transp])
  then have "improves (ps ! i) (ps ! j)" using assms(2,3) by (rule sorted_wrt_nth_less)
  then show ?thesis using improves_irrefl by (metis compare_progress_advanced)
qed

text \<open>
  Scopes do not interfere: the decisions a guard gives in one scope, among operations of any
  scopes, are those it gives when only the operations of that scope are run.
\<close>

theorem scopes_do_not_interfere:
  "filter (\<lambda>(x, d). op_scope x = sc) (fst (guard_run digest ops g)) =
     fst (guard_run digest (filter (\<lambda>x. op_scope x = sc) ops) g)"
  by (rule guard.answers_local)

section \<open>Witnesses\<close>

definition example_progress :: "int \<Rightarrow> ProgressVector" where
  "example_progress n =
     \<lparr>pg_completed_dependency_count = n, pg_valid_required_field_count = 2,
      pg_filled_required_evidence_slot_count = 1, pg_fresh_authoritative_source_coverage = 1,
      pg_missing_evidence_count = 0, pg_validation_error_count = 0, pg_unresolved_conflict_count = 0,
      pg_risk_invariant_failure_count = 0\<rparr>"

definition example_checkpoint :: "char \<Rightarrow> int \<Rightarrow> SemanticCheckpoint" where
  "example_checkpoint state n =
     \<lparr>sc_scope = S_RUN, sc_observation_kind = SEMANTIC_CHECKPOINT,
      sc_state_fingerprint = replicate 64 state, sc_progress = example_progress n,
      sc_plan_revision = 0, sc_schema_version = FINGERPRINT_SCHEMA_VERSION, sc_worker_id = None,
      sc_normalized_failure = None, sc_failure_context_hash = None, sc_failure_dependency_hash = None,
      sc_correction_ordinal = 0, sc_model_route = None\<rparr>"

definition example_digest :: "json \<Rightarrow> string" where
  "example_digest v = replicate 64 CHR ''f''"

lemma example_digest_text: "digest_text (example_digest v)"
  by (simp add: example_digest_def digest_text_def list_all_iff)

lemma example_checkpoint_contract:
  "checkpoint_contract (example_checkpoint CHR ''a'' n)" "checkpoint_contract (example_checkpoint CHR ''b'' n)"
proof -
  have "short_text FINGERPRINT_SCHEMA_VERSION" by code_simp
  then show "checkpoint_contract (example_checkpoint CHR ''a'' n)" "checkpoint_contract (example_checkpoint CHR ''b'' n)"
    by (simp_all add: checkpoint_contract_def example_checkpoint_def digest_text_def list_all_iff
        checkpoint_failure_shape_def optional_def Let_def)
qed

lemma guard_builds_valid_values_witness:
  "scope_inv example_digest S_RUN (snd (guard_run example_digest
     (map (\<lambda>s. Observe_Checkpoint (example_checkpoint s 0)) ''abab'') (new_guard (default_severity ''v1''))))"
  using guard_builds_valid_values [of example_digest
      "map (\<lambda>s. Observe_Checkpoint (example_checkpoint s 0)) ''abab''" "default_severity ''v1''" S_RUN]
  by (simp add: example_digest_text op_contract_def example_checkpoint_contract)

lemma example_progress_advanced:
  "pd_advanced (compare_progress (example_progress m) (example_progress n) policy) = (m < n)"
  by (auto simp: compare_progress_advanced improves_def POSITIVE_FIELDS_def NEGATIVE_FIELDS_def
      progress_field_def progress_fields_def example_progress_def)

text \<open>A guard that has seen one checkpoint.\<close>

definition example_guard :: LoopGuard where
  "example_guard = snd (observe_checkpoint example_digest (example_checkpoint CHR ''a'' 3)
     (new_guard (default_severity ''v1'')))"

lemma example_guard_progress: "lg_progress example_guard S_RUN = Some (example_progress 3)"
  by (simp add: example_guard_def observe_checkpoint_def record_progress_def example_checkpoint_def Let_def)

lemma second_stalled_checkpoint_stops_witness:
  "\<not> ld_allowed (snd (last (fst (guard_run example_digest
       [Observe_Checkpoint (example_checkpoint CHR ''b'' 3), Observe_Checkpoint (example_checkpoint CHR ''c'' 3)]
       example_guard))))"
  using second_stalled_checkpoint_stops [of example_guard S_RUN "example_progress 3"
      "example_checkpoint CHR ''b'' 3" "[]" "example_checkpoint CHR ''c'' 3" example_digest]
  by (simp add: example_checkpoint_def example_progress_advanced example_guard_progress)

lemma advancing_never_returns_witness:
  "example_progress 1 \<noteq> example_progress 3"
  using advancing_never_returns [of "[example_progress 1, example_progress 2, example_progress 3]" 0 2]
  by (simp add: example_progress_advanced)

end
