(* ===== verification/Provider_Resilience.thy ===== *)
theory Provider_Resilience
  imports Scoped_Runs
begin

text \<open>
  What keeps provider calls bounded: the circuit breaker of
  \<^verbatim>\<open>market_agent/workflow_circuit_breaker.py\<close>, the retry schedule of
  \<^verbatim>\<open>market_agent/workflow_retry_policy.py\<close> and the fallback order of
  \<^verbatim>\<open>market_agent/workflow_fallback.py\<close>.

  Seconds are floats in the code. The model only compares them, so it works over any linear
  order with a zero; the sum of two floats and the doubling of the base delay are the parameters
  \<open>fadd\<close> and \<open>backoff\<close>, with no assumption on how they round.
\<close>

section \<open>The circuit breaker\<close>

datatype CircuitDecision = D_allow | D_probe | D_reject

datatype circuit_status = Cs_closed | Cs_open | Cs_half_open

record 't CircuitState =
  ct_status :: circuit_status
  ct_failures :: int
  ct_opened_at :: "'t option"

definition fresh_circuit :: "'t CircuitState" where
  "fresh_circuit = \<lparr>ct_status = Cs_closed, ct_failures = 0, ct_opened_at = None\<rparr>"

type_synonym circuit_key = "string \<times> string"

record 't CircuitBreaker =
  cb_failure_threshold :: int
  cb_cooldown :: 't
  cb_states :: "(circuit_key, 't CircuitState) dict"

definition new_breaker :: "int \<Rightarrow> 't::{linorder,zero} \<Rightarrow> 't CircuitBreaker result" where
  "new_breaker failure_threshold cooldown =
     (if failure_threshold < 1 \<or> cooldown < 0
      then Inl (ValueError ''breaker threshold must be positive and cooldown non-negative'')
      else Inr \<lparr>cb_failure_threshold = failure_threshold, cb_cooldown = cooldown, cb_states = []\<rparr>)"

text \<open>\<^verbatim>\<open>setdefault\<close> files a fresh circuit under a new key.\<close>

definition circuit_of :: "circuit_key \<Rightarrow> 't CircuitBreaker \<Rightarrow> 't CircuitState" where
  "circuit_of k b = (case dict_get (cb_states b) k of None \<Rightarrow> fresh_circuit | Some s \<Rightarrow> s)"

definition put_circuit :: "circuit_key \<Rightarrow> 't CircuitState \<Rightarrow> 't CircuitBreaker \<Rightarrow> 't CircuitBreaker" where
  "put_circuit k s b = b\<lparr>cb_states := dict_put k s (cb_states b)\<rparr>"

definition state_for :: "circuit_key \<Rightarrow> 't CircuitBreaker \<Rightarrow> ('t CircuitState \<times> 't CircuitBreaker) result" where
  "state_for k b =
     (if fst k = [] \<or> snd k = [] then Inl (ValueError ''model and task_kind must be non-empty'')
      else Inr (circuit_of k b, put_circuit k (circuit_of k b) b))"

definition acquire ::
  "('t \<Rightarrow> 't \<Rightarrow> 't) \<Rightarrow> circuit_key \<Rightarrow> 't::linorder \<Rightarrow> 't CircuitBreaker \<Rightarrow> CircuitDecision result \<times> 't CircuitBreaker" where
  "acquire fadd k now b =
     (case state_for k b of
        Inl e \<Rightarrow> (Inl e, b)
      | Inr (s, b') \<Rightarrow>
          (case ct_status s of
             Cs_closed \<Rightarrow> (Inr D_allow, b')
           | Cs_half_open \<Rightarrow> (Inr D_reject, b')
           | Cs_open \<Rightarrow>
               (case ct_opened_at s of
                  None \<Rightarrow> (Inl AssertionError, b')
                | Some t \<Rightarrow>
                    if now < fadd t (cb_cooldown b) then (Inr D_reject, b')
                    else (Inr D_probe, put_circuit k (s\<lparr>ct_status := Cs_half_open\<rparr>) b'))))"

definition circuit_after :: "int \<Rightarrow> bool \<Rightarrow> 't \<Rightarrow> 't CircuitState \<Rightarrow> 't CircuitState" where
  "circuit_after threshold success now s =
     (if success then s\<lparr>ct_status := Cs_closed, ct_failures := 0, ct_opened_at := None\<rparr>
      else if ct_status s = Cs_half_open then s\<lparr>ct_status := Cs_open, ct_opened_at := Some now\<rparr>
      else if threshold \<le> ct_failures s + 1
        then s\<lparr>ct_failures := ct_failures s + 1, ct_status := Cs_open, ct_opened_at := Some now\<rparr>
      else s\<lparr>ct_failures := ct_failures s + 1\<rparr>)"

definition record_outcome ::
  "circuit_key \<Rightarrow> bool \<Rightarrow> 't \<Rightarrow> 't CircuitBreaker \<Rightarrow> unit result \<times> 't CircuitBreaker" where
  "record_outcome k success now b =
     (case state_for k b of
        Inl e \<Rightarrow> (Inl e, b)
      | Inr (s, b') \<Rightarrow> (Inr (), put_circuit k (circuit_after (cb_failure_threshold b) success now s) b'))"

section \<open>Retries\<close>

text \<open>
  What the policy reads of an exception: whether it is a timeout or a connection error, and its
  attributes \<^verbatim>\<open>code\<close>, \<^verbatim>\<open>status_code\<close> (when an integer) and \<^verbatim>\<open>retry_after\<close> (when a number).
\<close>

record 't provider_failure =
  pf_is_timeout_or_connection :: bool
  pf_code :: "string option"
  pf_status_code :: "int option"
  pf_retry_after :: "'t option"

definition PERMANENT_PROVIDER_CODES :: "string list" where
  "PERMANENT_PROVIDER_CODES =
     [''authentication'', ''authorization'', ''validation'', ''schema'', ''safety'', ''malformed_output'']"

datatype 't RetryDecision = Retry_In 't | Terminal string

record 't RetryPolicy =
  rp_base_delay :: 't
  rp_max_delay :: 't
  rp_max_attempts :: int
  rp_retry_cost :: 't

definition new_retry_policy :: "'t::{linorder,zero} \<Rightarrow> 't \<Rightarrow> int \<Rightarrow> 't \<Rightarrow> 't RetryPolicy result" where
  "new_retry_policy base_delay max_delay max_attempts retry_cost =
     (if base_delay < 0 \<or> max_delay < 0 \<or> max_attempts < 1 \<or> retry_cost < 0
      then Inl (ValueError ''retry policy configuration must be non-negative and allow an attempt'')
      else Inr \<lparr>rp_base_delay = base_delay, rp_max_delay = max_delay, rp_max_attempts = max_attempts,
                rp_retry_cost = retry_cost\<rparr>)"

definition is_retryable :: "'t provider_failure \<Rightarrow> bool" where
  "is_retryable e =
     (if (case pf_code e of None \<Rightarrow> False | Some c \<Rightarrow> c \<in> set PERMANENT_PROVIDER_CODES) then False
      else if pf_is_timeout_or_connection e then True
      else (case pf_status_code e of
              None \<Rightarrow> False
            | Some n \<Rightarrow> n \<in> {408, 409, 429} \<or> (500 \<le> n \<and> n \<le> 599)))"

definition retry_after :: "'t::{linorder,zero} provider_failure \<Rightarrow> 't option" where
  "retry_after e = (case pf_retry_after e of None \<Rightarrow> None | Some v \<Rightarrow> if 0 \<le> v then Some v else None)"

definition checked_sample :: "'t::{linorder,zero} \<Rightarrow> 't \<Rightarrow> 't result" where
  "checked_sample sample bound =
     (if \<not> (0 \<le> sample \<and> sample \<le> bound)
      then Inl (ValueError ''random source returned a value outside the full-jitter range'')
      else Inr sample)"

definition decide ::
  "('t \<Rightarrow> 't \<Rightarrow> 't) \<Rightarrow> ('t \<Rightarrow> int \<Rightarrow> 't) \<Rightarrow> ('t \<Rightarrow> 't \<Rightarrow> 't) \<Rightarrow> 't::{linorder,zero} RetryPolicy
   \<Rightarrow> 't provider_failure \<Rightarrow> int \<Rightarrow> 't \<Rightarrow> 't \<Rightarrow> 't \<Rightarrow> 't RetryDecision result" where
  "decide fadd backoff random p error attempt deadline remaining_cost now =
     (if \<not> is_retryable error then Inr (Terminal ''non_retryable'')
      else if attempt < 0 \<or> rp_max_attempts p \<le> attempt then Inr (Terminal ''attempt_limit'')
      else if remaining_cost < rp_retry_cost p then Inr (Terminal ''cost'')
      else
        let bound = min (rp_max_delay p) (backoff (rp_base_delay p) attempt)
        in rbind (checked_sample (random 0 bound) bound) (\<lambda>sample.
             let delay = (case retry_after error of None \<Rightarrow> sample | Some v \<Rightarrow> max sample v)
             in if deadline \<le> fadd now delay then Inr (Terminal ''deadline'')
                else Inr (Retry_In delay)))"

section \<open>Fallback\<close>

datatype ModelTier = LUNA | TERRA | SOL

datatype fallback = Downgrade ModelTier | UseLocalKnowledge | Abstain

datatype fallback_origin = From_tier ModelTier | From_local_knowledge | From_nothing | From_unknown string

record FallbackPolicy =
  fp_tiers :: "ModelTier list"
  fp_has_knowledge_base :: bool

definition new_fallback_policy :: "ModelTier list \<Rightarrow> bool \<Rightarrow> FallbackPolicy result" where
  "new_fallback_policy tiers knowledge_base =
     (if length (remdups tiers) \<noteq> length tiers
        then Inl (ValueError ''fallback model tiers cannot repeat'')
      else if tiers \<noteq> filter (\<lambda>t. t \<in> set tiers) [SOL, TERRA, LUNA]
        then Inl (ValueError ''fallback model tiers must be in strict descending order'')
      else Inr \<lparr>fp_tiers = tiers, fp_has_knowledge_base = knowledge_base\<rparr>)"

fun index_of :: "'a \<Rightarrow> 'a list \<Rightarrow> nat" where
  "index_of x [] = 0"
| "index_of x (y # ys) = (if x = y then 0 else Suc (index_of x ys))"

definition next_fallback :: "FallbackPolicy \<Rightarrow> fallback_origin \<Rightarrow> fallback" where
  "next_fallback p origin =
     (case origin of
        From_tier current \<Rightarrow>
          if current \<notin> set (fp_tiers p) then Abstain
          else if index_of current (fp_tiers p) + 1 < length (fp_tiers p)
            then Downgrade (fp_tiers p ! (index_of current (fp_tiers p) + 1))
          else if fp_has_knowledge_base p then UseLocalKnowledge
          else Abstain
      | _ \<Rightarrow> Abstain)"

text \<open>
  The loop of the driver over the tiers, with what a model call gives at a tier, whether the run is
  cancelled when a tier is tried and what local knowledge answers as parameters. Besides the
  outcome it returns the tiers tried. The loop only goes on at a strictly lower tier.
\<close>

datatype 'r driver_outcome = Answered 'r | Local_answer 'r | Abstained | Failed string

fun tier_index :: "ModelTier \<Rightarrow> nat" where
  "tier_index LUNA = 0"
| "tier_index TERRA = 1"
| "tier_index SOL = 2"

function models_and_fallback ::
  "(ModelTier \<Rightarrow> bool) \<Rightarrow> (ModelTier \<Rightarrow> 'r option) \<Rightarrow> 'r option \<Rightarrow> FallbackPolicy \<Rightarrow> ModelTier
   \<Rightarrow> ModelTier list \<times> 'r driver_outcome" where
  "models_and_fallback cancelled model local_answer p tier =
     (if cancelled tier then ([], Failed ''cancelled'')
      else
        (case model tier of
           Some r \<Rightarrow> ([tier], Answered r)
         | None \<Rightarrow>
             (case next_fallback p (From_tier tier) of
                Downgrade lower \<Rightarrow>
                  if tier_index lower \<ge> tier_index tier then ([tier], Failed ''invalid_fallback'')
                  else (case models_and_fallback cancelled model local_answer p lower of
                          (tried, outcome) \<Rightarrow> (tier # tried, outcome))
              | UseLocalKnowledge \<Rightarrow>
                  (case local_answer of
                     Some r \<Rightarrow> ([tier], Local_answer r)
                   | None \<Rightarrow>
                       if next_fallback p From_local_knowledge \<noteq> Abstain
                       then ([tier], Failed ''invalid_fallback'') else ([tier], Abstained))
              | Abstain \<Rightarrow> ([tier], Abstained))))"
  by pat_completeness auto

termination
  by (relation "measure (\<lambda>(_, _, _, _, tier). tier_index tier)") auto

declare models_and_fallback.simps [simp del]

section \<open>Calls on a breaker\<close>

datatype 't breaker_call = Acquire circuit_key 't | Record circuit_key bool 't

fun call_key :: "'t breaker_call \<Rightarrow> circuit_key" where
  "call_key (Acquire k now) = k"
| "call_key (Record k success now) = k"

text \<open>The answer is that of \<open>acquire\<close>, and \<open>None\<close> when an outcome was recorded.\<close>

fun breaker_step ::
  "('t \<Rightarrow> 't \<Rightarrow> 't) \<Rightarrow> 't::linorder breaker_call \<Rightarrow> 't CircuitBreaker
   \<Rightarrow> CircuitDecision option result \<times> 't CircuitBreaker" where
  "breaker_step fadd (Acquire k now) b = (case acquire fadd k now b of (r, b') \<Rightarrow> (map_sum id Some r, b'))"
| "breaker_step fadd (Record k success now) b =
     (case record_outcome k success now b of (r, b') \<Rightarrow> (map_sum id (\<lambda>_. None) r, b'))"

text \<open>The outcomes recorded for a key, and how many of the latest are failures.\<close>

fun outcomes :: "circuit_key \<Rightarrow> 't breaker_call list \<Rightarrow> bool list" where
  "outcomes k [] = []"
| "outcomes k (Record k' success now # cs) = (if k' = k then success # outcomes k cs else outcomes k cs)"
| "outcomes k (Acquire k' now # cs) = outcomes k cs"

definition trailing_failures :: "bool list \<Rightarrow> nat" where
  "trailing_failures rs = length (takeWhile Not (rev rs))"

section \<open>Circuits do not interfere\<close>

definition same_circuit :: "circuit_key \<Rightarrow> 't CircuitBreaker \<Rightarrow> 't CircuitBreaker \<Rightarrow> bool" where
  "same_circuit k b c =
     (cb_failure_threshold b = cb_failure_threshold c \<and> cb_cooldown b = cb_cooldown c
      \<and> circuit_of k b = circuit_of k c)"

lemma circuit_of_put [simp]:
  "circuit_of k (put_circuit k' s b) = (if k = k' then s else circuit_of k b)"
  by (simp add: circuit_of_def put_circuit_def)

lemma put_circuit_keeps [simp]:
  "cb_failure_threshold (put_circuit k s b) = cb_failure_threshold b"
  "cb_cooldown (put_circuit k s b) = cb_cooldown b"
  by (simp_all add: put_circuit_def)

lemmas breaker_defs = acquire_def record_outcome_def state_for_def

interpretation breaker: scoped_component "breaker_step fadd" call_key same_circuit
proof
  fix c :: "'a::linorder breaker_call" and s t :: "'a CircuitBreaker" and p
  show "same_circuit p (snd (breaker_step fadd c s)) s" if "call_key c \<noteq> p"
    using that by (cases c) (auto simp: same_circuit_def breaker_defs split: circuit_status.splits option.splits)
  show "fst (breaker_step fadd c s) = fst (breaker_step fadd c t)
      \<and> same_circuit (call_key c) (snd (breaker_step fadd c s)) (snd (breaker_step fadd c t))"
    if "same_circuit (call_key c) s t"
    using that by (cases c) (auto simp: same_circuit_def breaker_defs split: circuit_status.splits option.splits)
qed (auto simp: same_circuit_def)

section \<open>What a circuit has counted\<close>

text \<open>A circuit that has counted the outcomes recorded for it.\<close>

definition counted :: "int \<Rightarrow> bool list \<Rightarrow> 't CircuitState \<Rightarrow> bool" where
  "counted threshold rs s =
     (if int (trailing_failures rs) < threshold
      then ct_status s = Cs_closed \<and> ct_failures s = int (trailing_failures rs) \<and> ct_opened_at s = None
      else ct_status s \<noteq> Cs_closed \<and> threshold \<le> ct_failures s \<and> ct_opened_at s \<noteq> None)"

lemma trailing_failures_simps [simp]:
  "trailing_failures [] = 0" "trailing_failures (rs @ [True]) = 0"
  "trailing_failures (rs @ [False]) = Suc (trailing_failures rs)"
  by (simp_all add: trailing_failures_def)

lemma counted_fresh: "1 \<le> threshold \<Longrightarrow> counted threshold [] fresh_circuit"
  by (simp add: counted_def fresh_circuit_def)

lemma counted_after:
  assumes "counted threshold rs s" "1 \<le> threshold"
  shows "counted threshold (rs @ [success]) (circuit_after threshold success now s)"
  using assms by (cases success) (auto simp: counted_def circuit_after_def split: if_splits)

lemma outcomes_append: "outcomes k (cs @ ds) = outcomes k cs @ outcomes k ds"
  by (induction k cs rule: outcomes.induct) auto

lemma breaker_step_counted:
  assumes "counted (cb_failure_threshold b) rs (circuit_of k b)" "1 \<le> cb_failure_threshold b"
    "fst k \<noteq> []" "snd k \<noteq> []"
  shows "counted (cb_failure_threshold b) (rs @ outcomes k [c]) (circuit_of k (snd (breaker_step fadd c b)))
       \<and> cb_failure_threshold (snd (breaker_step fadd c b)) = cb_failure_threshold b"
proof (cases c)
  case (Acquire k' now)
  then show ?thesis using assms
    by (auto simp: breaker_defs counted_def split: circuit_status.splits option.splits if_splits)
next
  case (Record k' success now)
  then show ?thesis using assms counted_after [OF assms(1,2), of success now]
    by (auto simp: breaker_defs)
qed

lemma breaker_run_counted:
  assumes "counted (cb_failure_threshold b) rs (circuit_of k b)" "1 \<le> cb_failure_threshold b"
    "fst k \<noteq> []" "snd k \<noteq> []"
  shows "counted (cb_failure_threshold b) (rs @ outcomes k cs) (circuit_of k (snd (run_calls (breaker_step fadd) cs b)))"
  using assms(1,2)
proof (induction cs arbitrary: b rs)
  case (Cons c cs)
  note step = breaker_step_counted [OF Cons.prems assms(3,4), of c fadd]
  then show ?case using Cons.IH [of "snd (breaker_step fadd c b)" "rs @ outcomes k [c]"] Cons.prems
      outcomes_append [of k "[c]" cs] by simp
qed simp

lemma new_breaker_simps:
  assumes "new_breaker threshold cooldown = Inr b"
  shows "cb_failure_threshold b = threshold" "1 \<le> threshold" "circuit_of k b = fresh_circuit"
  using assms by (auto simp: new_breaker_def circuit_of_def split: if_splits)

lemma counted_acquire:
  assumes "counted threshold rs (circuit_of k b)" "fst k \<noteq> []" "snd k \<noteq> []"
  shows "fst (acquire fadd k now b) = Inr D_allow \<longleftrightarrow> int (trailing_failures rs) < threshold"
    and "\<exists>d. fst (acquire fadd k now b) = Inr d"
  using assms by (auto simp: breaker_defs counted_def split: circuit_status.splits option.splits if_splits)

lemma half_open_step:
  assumes "fst k \<noteq> []" "snd k \<noteq> []" "ct_status (circuit_of k b) = Cs_half_open" "outcomes k [c] = []"
  shows "ct_status (circuit_of k (snd (breaker_step fadd c b))) = Cs_half_open
       \<and> (call_key c \<noteq> k \<or> fst (breaker_step fadd c b) = Inr (Some D_reject))"
proof (cases "call_key c = k")
  case True
  then show ?thesis using assms by (cases c) (simp_all add: breaker_defs)
next
  case False
  then show ?thesis using breaker.step_elsewhere [OF False, of fadd b] assms(3)
    by (simp add: same_circuit_def)
qed

lemma no_outcomes: "outcomes k cs = [] \<Longrightarrow> list_all (\<lambda>c. outcomes k [c] = []) cs"
  by (induction k cs rule: outcomes.induct) (auto split: if_splits)

section \<open>The fallback order\<close>

abbreviation higher :: "ModelTier \<Rightarrow> ModelTier \<Rightarrow> bool" where
  "higher s t \<equiv> tier_index t < tier_index s"

lemma new_fallback_policy_ok:
  assumes "new_fallback_policy tiers kb = Inr p"
  shows "fp_tiers p = tiers \<and> fp_has_knowledge_base p = kb \<and> sorted_wrt higher tiers"
proof -
  have "tiers = filter (\<lambda>t. t \<in> set tiers) [SOL, TERRA, LUNA]"
    using assms by (simp add: new_fallback_policy_def split: if_splits)
  moreover have "sorted_wrt higher (filter P [SOL, TERRA, LUNA])" for P
    by (rule sorted_wrt_filter) simp
  ultimately show ?thesis using assms
    by (metis (no_types, lifting) new_fallback_policy_def FallbackPolicy.select_convs(1,2) Inl_Inr_False Inr_inject)
qed

lemma index_of_first: "x \<notin> set pre \<Longrightarrow> index_of x (pre @ x # rest) = length pre"
  by (induction pre) auto

text \<open>The loop from a tier of the list to its end.\<close>

lemma fallback_down:
  assumes "fp_tiers p = pre @ tier # rest" "sorted_wrt higher (fp_tiers p)"
  shows "models_and_fallback (\<lambda>_. False) model local_answer p tier =
     (case find (\<lambda>t. model t \<noteq> None) (tier # rest) of
        Some t \<Rightarrow> (takeWhile (\<lambda>t. model t = None) (tier # rest) @ [t], Answered (the (model t)))
      | None \<Rightarrow> (tier # rest,
          if fp_has_knowledge_base p then case_option Abstained Local_answer local_answer else Abstained))"
  using assms
proof (induction rest arbitrary: pre tier)
  case Nil
  then have "tier \<notin> set pre" by (auto simp: sorted_wrt_append)
  then show ?case using Nil.prems
    by (subst models_and_fallback.simps) (auto simp: next_fallback_def index_of_first split: option.splits)
next
  case (Cons lower rest)
  have t: "tier \<notin> set pre" and low: "tier_index lower < tier_index tier"
    using Cons.prems by (auto simp: sorted_wrt_append)
  have "next_fallback p (From_tier tier) = Downgrade lower"
    using Cons.prems(1) index_of_first [OF t, of "lower # rest"] by (simp add: next_fallback_def nth_append)
  then show ?case using Cons.IH [of "pre @ [tier]" lower] Cons.prems low
    by (subst models_and_fallback.simps) (auto split: option.splits)
qed

section \<open>Properties\<close>

text \<open>
  C29. Over any history of calls on a new breaker, a call of a model and task kind is let through
  freely exactly while fewer than the threshold of its latest recorded outcomes are failures in a
  row, whatever was recorded for other keys, and asking never fails on the assertion.
\<close>

theorem circuit_opens_exactly:
  assumes "new_breaker threshold cooldown = Inr b" "fst k \<noteq> []" "snd k \<noteq> []"
  shows "(fst (acquire fadd k now (snd (run_calls (breaker_step fadd) cs b))) = Inr D_allow
           \<longleftrightarrow> int (trailing_failures (outcomes k cs)) < threshold)
       \<and> (\<exists>d. fst (acquire fadd k now (snd (run_calls (breaker_step fadd) cs b))) = Inr d)"
proof -
  have "counted threshold (outcomes k cs) (circuit_of k (snd (run_calls (breaker_step fadd) cs b)))"
    using breaker_run_counted [of b "[]" k cs fadd] new_breaker_simps [OF assms(1)] counted_fresh [of threshold] assms(2,3)
    by simp
  from counted_acquire [OF this assms(2,3)] show ?thesis by blast
qed

text \<open>
  A granted probe is the only one: until an outcome is recorded for its key, every further
  request of that key is rejected, whatever happens to other keys.
\<close>

theorem one_probe_until_recorded:
  assumes "fst (acquire fadd k now b) = Inr D_probe" "outcomes k cs = []"
  shows "list_all (\<lambda>(c, r). call_key c \<noteq> k \<or> r = Inr (Some D_reject))
           (fst (run_calls (breaker_step fadd) cs (snd (acquire fadd k now b))))"
proof -
  have k: "fst k \<noteq> []" "snd k \<noteq> []" and
    h: "ct_status (circuit_of k (snd (acquire fadd k now b))) = Cs_half_open"
    using assms(1) by (auto simp: breaker_defs split: circuit_status.splits option.splits if_splits)
  have calls: "list_all (\<lambda>c. outcomes k [c] = []) cs" using assms(2) by (rule no_outcomes)
  note run = run_calls_inv [where step = "breaker_step fadd" and I = "\<lambda>b. ct_status (circuit_of k b) = Cs_half_open"
      and ok = "\<lambda>c. outcomes k [c] = []" and good = "\<lambda>c r. call_key c \<noteq> k \<or> r = Inr (Some D_reject)",
      OF half_open_step [OF k] h calls]
  then show ?thesis by blast
qed

text \<open>
  A retry is only scheduled for a retryable failure within the attempt limit and the remaining
  cost, after a delay that is not negative, not shorter than the provider asks, bounded by the
  policy unless the provider asks for more, and over before the deadline.
\<close>

theorem retry_is_bounded:
  assumes "decide fadd backoff random p error attempt deadline remaining_cost now = Inr (Retry_In delay)"
  shows "is_retryable error \<and> 0 \<le> attempt \<and> attempt < rp_max_attempts p \<and> rp_retry_cost p \<le> remaining_cost
       \<and> 0 \<le> delay \<and> fadd now delay < deadline
       \<and> (case retry_after error of
            None \<Rightarrow> delay \<le> rp_max_delay p
          | Some v \<Rightarrow> v \<le> delay \<and> (delay = v \<or> delay \<le> rp_max_delay p))"
  using assms
  by (auto simp: decide_def Let_def rbind_Inr_iff checked_sample_def max_def le_max_iff_disj
      split: if_splits option.splits)


section \<open>Witnesses\<close>

lemma circuit_opens_exactly_witness:
  "fst (acquire (+) (''luna'', ''extract'') (4::int) (snd (run_calls (breaker_step (+))
      [Record (''luna'', ''extract'') False 1, Record (''luna'', ''extract'') False 2]
      \<lparr>cb_failure_threshold = 2, cb_cooldown = 30, cb_states = []\<rparr>))) \<noteq> Inr D_allow"
  using circuit_opens_exactly [of 2 "30::int" "\<lparr>cb_failure_threshold = 2, cb_cooldown = 30, cb_states = []\<rparr>"
      "(''luna'', ''extract'')" "(+)" 4 "[Record (''luna'', ''extract'') False 1, Record (''luna'', ''extract'') False 2]"]
  by (simp add: new_breaker_def trailing_failures_def)

text \<open>A circuit opened at 0 whose cooldown of 10 is over.\<close>

definition example_breaker :: "int CircuitBreaker" where
  "example_breaker =
     \<lparr>cb_failure_threshold = 1, cb_cooldown = 10,
      cb_states = [((''luna'', ''extract''), \<lparr>ct_status = Cs_open, ct_failures = 1, ct_opened_at = Some 0\<rparr>)]\<rparr>"

lemma one_probe_until_recorded_witness:
  "list_all (\<lambda>(c, r). call_key c \<noteq> (''luna'', ''extract'') \<or> r = Inr (Some D_reject))
     (fst (run_calls (breaker_step (+)) [Acquire (''luna'', ''extract'') 12, Acquire (''terra'', ''extract'') 12]
        (snd (acquire (+) (''luna'', ''extract'') 11 example_breaker))))"
  using one_probe_until_recorded [of "(+)" "(''luna'', ''extract'')" 11 example_breaker
      "[Acquire (''luna'', ''extract'') 12, Acquire (''terra'', ''extract'') 12]"]
  by (simp add: breaker_defs example_breaker_def circuit_of_def)

definition example_retry_policy :: "int RetryPolicy" where
  "example_retry_policy = \<lparr>rp_base_delay = 1, rp_max_delay = 10, rp_max_attempts = 3, rp_retry_cost = 0\<rparr>"

definition example_failure :: "int provider_failure" where
  "example_failure =
     \<lparr>pf_is_timeout_or_connection = False, pf_code = None, pf_status_code = Some 503, pf_retry_after = Some 20\<rparr>"

lemma retry_is_bounded_witness:
  "decide (+) (\<lambda>b n. b * 2 ^ nat n) (\<lambda>lo hi. hi) example_retry_policy example_failure 1 100 5 7 = Inr (Retry_In 20)
   \<and> 7 + 20 < (100 :: int)"
proof -
  have d: "decide (+) (\<lambda>b n. b * 2 ^ nat n) (\<lambda>lo hi. hi) example_retry_policy example_failure 1 100 5 7
      = Inr (Retry_In 20)"
    by (simp add: decide_def is_retryable_def retry_after_def checked_sample_def example_retry_policy_def
        example_failure_def PERMANENT_PROVIDER_CODES_def)
  then show ?thesis using retry_is_bounded [OF d] by blast
qed


end
