(* ===== verification/Decimal.thy ===== *)
theory Decimal
  imports Prelude
begin

text \<open>
  Correctly rounded arithmetic. The hedge code computes with \<^verbatim>\<open>decimal.Decimal\<close> in the default
  context (28 significant digits, round half to even), and converts one time stamp through a
  binary double (53 significant bits, same rule). Both are the same function \<open>round_sig\<close> of a
  base and a precision on exact rationals: every operation computes the exact result and rounds
  it once. Values are rationals; representation details the modelled code never observes
  (trailing zeros, signed zeros, the exponent range of about a million digits) are left out.

  The interface of a rounding function is the locale \<open>rounding\<close>: it keeps the order, commutes
  with negation, is the identity on what it returns and never rounds a non-zero value to zero.
\<close>

section \<open>Rounding to a number of significant digits\<close>

text \<open>Number of digits of a positive integer in base \<open>b\<close>.\<close>

function digit_count :: "nat \<Rightarrow> int \<Rightarrow> int" where
  "digit_count b n = (if b \<le> 1 \<or> n \<le> 0 then 0 else digit_count b (n div int b) + 1)"
  by pat_completeness auto
termination
proof (relation "measure (\<lambda>(b, n). nat n)")
  fix b :: nat and n :: int
  assume "\<not> (b \<le> 1 \<or> n \<le> 0)"
  then have "1 < int b" and "0 < n" by auto
  then have "n div int b < n" by (intro int_div_less_self)
  then show "((b, n div int b), b, n) \<in> measure (\<lambda>(b, n). nat n)" using \<open>0 < n\<close> by simp
qed simp

declare digit_count.simps [simp del]

text \<open>The exponent \<open>e\<close> with \<open>b ^ e \<le> x < b ^ (e + 1)\<close>.\<close>

definition ilog :: "nat \<Rightarrow> rat \<Rightarrow> int" where
  "ilog b x =
     (let nd = quotient_of x; e = digit_count b (fst nd) - digit_count b (snd nd)
      in if of_nat b powi e \<le> x then e else e - 1)"

definition round_half_even :: "rat \<Rightarrow> int" where
  "round_half_even x =
     (let f = \<lfloor>x\<rfloor>; r = x - of_int f
      in if r < 1 / 2 then f else if 1 / 2 < r then f + 1 else if even f then f else f + 1)"

definition round_sig :: "nat \<Rightarrow> nat \<Rightarrow> rat \<Rightarrow> rat" where
  "round_sig b p x =
     (if x = 0 then 0
      else let q = of_nat b powi (ilog b \<bar>x\<bar> - (int p - 1))
           in sgn x * (of_int (round_half_even (\<bar>x\<bar> / q)) * q))"

lemma power_times_powi: "(y::rat) \<noteq> 0 \<Longrightarrow> y ^ k * y powi j = y powi (int k + j)"
  by (simp add: power_int_add)

lemma powi_times_power: "(y::rat) \<noteq> 0 \<Longrightarrow> y powi j * y ^ k = y powi (int k + j)"
  by (simp add: power_int_add)

lemma digit_count_bounds:
  assumes "1 < b" and "0 < n"
  shows "(of_nat b :: rat) powi (digit_count b n - 1) \<le> of_int n
       \<and> (of_int n :: rat) < of_nat b powi (digit_count b n)"
  using assms
proof (induction b n rule: digit_count.induct)
  case (1 b n)
  let ?b = "of_nat b :: rat" and ?d = "n div int b"
  have b: "1 < b" and n: "0 < n" using 1(2,3) by auto
  have IH: "?b powi (digit_count b ?d - 1) \<le> of_int ?d \<and> of_int ?d < ?b powi (digit_count b ?d)"
    if "0 < ?d"
    using 1(1) b n that by simp
  have b0: "?b \<noteq> 0" and bp: "0 < ?b" using b by auto
  have dc: "digit_count b n = digit_count b ?d + 1" using b n by (subst digit_count.simps) simp
  have nd: "n = ?d * int b + n mod int b" and md: "0 \<le> n mod int b" "n mod int b < int b"
    using b by auto
  show ?case
  proof
    show "?b powi (digit_count b n - 1) \<le> of_int n"
    proof (cases "0 < ?d")
      case True
      have "?b powi (digit_count b ?d - 1) \<le> of_int ?d" using IH [OF True] by blast
      then have "?b powi (digit_count b ?d - 1) * ?b \<le> of_int ?d * ?b"
        using bp by (intro mult_right_mono) auto
      also have "of_int ?d * ?b = of_int (?d * int b)" by simp
      also have "\<dots> \<le> of_int n" using nd md by (intro of_int_le_iff [THEN iffD2]) linarith
      finally show ?thesis using b0 by (simp add: dc power_int_diff)
    next
      case False
      then have "digit_count b ?d = 0" by (subst digit_count.simps) auto
      then show ?thesis using n by (simp add: dc)
    qed
    show "of_int n < ?b powi (digit_count b n)"
    proof (cases "0 < ?d")
      case True
      have "(of_int ?d :: rat) < ?b powi (digit_count b ?d)" using IH [OF True] by blast
      moreover have "0 \<le> digit_count b ?d"
        by (rule digit_count.induct [of "\<lambda>b n. 0 \<le> digit_count b n"]) (subst digit_count.simps, auto)
      ultimately have "(of_int ?d :: rat) < of_int (int b ^ nat (digit_count b ?d))"
        by (simp add: power_int_def)
      then have "?d + 1 \<le> int b ^ nat (digit_count b ?d)" by (simp only: of_int_less_iff)
      then have "(of_int (?d + 1) :: rat) \<le> of_int (int b ^ nat (digit_count b ?d))"
        by (simp only: of_int_le_iff)
      also have "\<dots> = ?b powi (digit_count b ?d)"
        using \<open>0 \<le> digit_count b ?d\<close> by (simp add: power_int_def)
      finally have "of_int (?d + 1) * ?b \<le> ?b powi (digit_count b ?d) * ?b"
        using bp by (intro mult_right_mono) auto
      moreover have "(?d + 1) * int b = ?d * int b + int b" by (simp add: distrib_right)
      with nd md have "n < (?d + 1) * int b" by linarith
      then have "of_int n < (of_int ((?d + 1) * int b) :: rat)" by (simp only: of_int_less_iff)
      moreover have "of_int ((?d + 1) * int b) = of_int (?d + 1) * ?b" by simp
      ultimately have "of_int n < ?b powi (digit_count b ?d) * ?b" by linarith
      then show ?thesis using b0 by (simp add: dc power_int_add)
    next
      case False
      moreover have "0 \<le> ?d" using n b by (simp add: pos_imp_zdiv_nonneg_iff)
      ultimately have z: "?d = 0" by simp
      then have "digit_count b ?d = 0" by (subst digit_count.simps) auto
      moreover have "n < int b" using nd md z by simp
      then have "(of_int n :: rat) < ?b" by (metis of_int_less_iff of_int_of_nat_eq)
      ultimately show ?thesis by (simp add: dc)
    qed
  qed
qed

lemma ilog_bounds:
  assumes b: "1 < b" and x: "0 < x"
  shows "of_nat b powi (ilog b x) \<le> x" and "x < of_nat b powi (ilog b x + 1)"
proof -
  obtain n d where nd: "quotient_of x = (n, d)" by (cases "quotient_of x")
  have d: "0 < d" using quotient_of_denom_pos [OF nd] .
  have xeq: "x = of_int n / of_int d" using quotient_of_div [OF nd] .
  have n: "0 < n" using x d by (simp add: xeq zero_less_divide_iff)
  let ?b = "of_nat b :: rat" and ?ln = "digit_count b n" and ?ld = "digit_count b d"
  have b0: "?b \<noteq> 0" using b by simp
  define e where "e = ?ln - ?ld"
  note nb = digit_count_bounds [OF b n, THEN conjunct1] digit_count_bounds [OF b n, THEN conjunct2]
    and db = digit_count_bounds [OF b d, THEN conjunct1] digit_count_bounds [OF b d, THEN conjunct2]
  have "?b powi (e - 1) = ?b powi (?ln - 1) / ?b powi ?ld"
    using b0 by (simp add: e_def algebra_simps flip: power_int_diff)
  also have "\<dots> < x"
    unfolding xeq using nb(1) db(2) d n b by (intro frac_less2) auto
  finally have lo: "?b powi (e - 1) < x" .
  have "x < ?b powi ?ln / ?b powi (?ld - 1)"
    unfolding xeq using nb(2) db(1) d n b by (intro frac_less) auto
  also have "\<dots> = ?b powi (e + 1)"
    using b0 by (simp add: e_def algebra_simps flip: power_int_diff)
  finally have hi: "x < ?b powi (e + 1)" .
  have il: "ilog b x = (if ?b powi e \<le> x then e else e - 1)"
    by (simp add: ilog_def nd e_def Let_def)
  show "?b powi (ilog b x) \<le> x" using lo by (simp add: il)
  show "x < ?b powi (ilog b x + 1)" using hi by (simp add: il)
qed

lemma powi_less_imp:
  assumes "1 < b" and "(of_nat b :: rat) powi i < of_nat b powi j"
  shows "i < j"
proof (rule ccontr)
  assume "\<not> i < j"
  then have "(of_nat b :: rat) powi j \<le> of_nat b powi i"
    using assms(1) by (intro power_int_increasing) auto
  with assms(2) show False by simp
qed

lemma ilog_unique:
  assumes b: "1 < b" and lo: "of_nat b powi e \<le> x" and hi: "x < of_nat b powi (e + 1)"
  shows "ilog b x = e"
proof -
  have "0 < (of_nat b :: rat) powi e" using b by simp
  with lo have x: "0 < x" by linarith
  have "of_nat b powi (ilog b x) < (of_nat b :: rat) powi (e + 1)"
    using ilog_bounds(1) [OF b x] hi by linarith
  moreover have "(of_nat b :: rat) powi e < of_nat b powi (ilog b x + 1)"
    using ilog_bounds(2) [OF b x] lo by linarith
  ultimately have "ilog b x < e + 1" and "e < ilog b x + 1"
    using powi_less_imp [OF b] by blast+
  then show ?thesis by simp
qed

lemma ilog_mono:
  assumes b: "1 < b" and x: "0 < x" and le: "x \<le> y"
  shows "ilog b x \<le> ilog b y"
proof -
  have "of_nat b powi (ilog b x) < (of_nat b :: rat) powi (ilog b y + 1)"
    using ilog_bounds(1) [OF b x] ilog_bounds(2) [OF b, of y] x le by linarith
  then have "ilog b x < ilog b y + 1" by (rule powi_less_imp [OF b])
  then show ?thesis by simp
qed

section \<open>Rounding to the nearest integer\<close>

lemma round_half_even_of_int [simp]: "round_half_even (of_int i) = i"
  by (simp add: round_half_even_def)

lemma round_half_even_mono:
  assumes "x \<le> y"
  shows "round_half_even x \<le> round_half_even y"
proof -
  have fl: "\<lfloor>x\<rfloor> \<le> \<lfloor>y\<rfloor>" using assms by (rule floor_mono)
  have up: "round_half_even x \<le> \<lfloor>x\<rfloor> + 1" by (simp add: round_half_even_def Let_def)
  have lo: "\<lfloor>y\<rfloor> \<le> round_half_even y" by (simp add: round_half_even_def Let_def)
  show ?thesis
  proof (cases "\<lfloor>x\<rfloor> < \<lfloor>y\<rfloor>")
    case True
    with up lo show ?thesis by linarith
  next
    case False
    with fl have "\<lfloor>x\<rfloor> = \<lfloor>y\<rfloor>" by simp
    then show ?thesis using assms by (auto simp: round_half_even_def Let_def)
  qed
qed

lemma round_half_even_bounds:
  assumes "of_int lo \<le> x" and "x \<le> of_int hi"
  shows "lo \<le> round_half_even x" and "round_half_even x \<le> hi"
  using round_half_even_mono [OF assms(1)] round_half_even_mono [OF assms(2)] by simp_all

section \<open>The rounded value\<close>

text \<open>For a positive value the rounded one is \<open>m * q\<close> with \<open>m\<close> of exactly \<open>p\<close> digits or \<open>b ^ p\<close>.\<close>

lemma round_sig_pos:
  assumes b: "1 < b" and p: "0 < p" and x: "0 < x"
  obtains m where "round_sig b p x = of_int m * of_nat b powi (ilog b x - (int p - 1))"
    and "m = round_half_even (x / of_nat b powi (ilog b x - (int p - 1)))"
    and "int b ^ (p - 1) \<le> m" and "m \<le> int b ^ p"
proof
  let ?q = "of_nat b powi (ilog b x - (int p - 1)) :: rat"
  let ?m = "round_half_even (x / ?q)"
  have q: "0 < ?q" using b by simp
  have b0: "(of_nat b :: rat) \<noteq> 0" using b by simp
  show "round_sig b p x = of_int ?m * ?q"
    using x by (simp add: round_sig_def Let_def)
  show "?m = ?m" ..
  have "of_int (int b ^ (p - 1)) * ?q = of_nat b powi (ilog b x)"
    using b0 p by (simp add: power_times_powi of_nat_diff)
  then have "of_int (int b ^ (p - 1)) * ?q \<le> x" using ilog_bounds(1) [OF b x] by simp
  then have lo: "of_int (int b ^ (p - 1)) \<le> x / ?q" using q by (simp add: pos_le_divide_eq)
  have "of_int (int b ^ p) * ?q = of_nat b powi (ilog b x + 1)"
    using b0 by (simp add: power_times_powi algebra_simps)
  then have "x \<le> of_int (int b ^ p) * ?q" using ilog_bounds(2) [OF b x] by simp
  then have hi: "x / ?q \<le> of_int (int b ^ p)" using q by (simp add: pos_divide_le_eq)
  show "int b ^ (p - 1) \<le> ?m" and "?m \<le> int b ^ p"
    using round_half_even_bounds [OF lo hi] by auto
qed

lemma round_sig_zero [simp]: "round_sig b p 0 = 0"
  by (simp add: round_sig_def)

lemma round_sig_minus: "round_sig b p (- x) = - round_sig b p x"
  by (simp add: round_sig_def Let_def)

lemma round_sig_range:
  assumes b: "1 < b" and p: "0 < p" and x: "0 < x"
  shows "of_nat b powi (ilog b x) \<le> round_sig b p x"
    and "round_sig b p x \<le> of_nat b powi (ilog b x + 1)"
proof -
  let ?q = "of_nat b powi (ilog b x - (int p - 1)) :: rat"
  obtain m where m: "round_sig b p x = of_int m * ?q"
      "int b ^ (p - 1) \<le> m" "m \<le> int b ^ p"
    using round_sig_pos [OF b p x] by metis
  have q: "0 \<le> ?q" using b by simp
  have b0: "(of_nat b :: rat) \<noteq> 0" using b by simp
  have "of_int (int b ^ (p - 1)) \<le> (of_int m :: rat)" using m(2) of_int_le_iff by blast
  from mult_right_mono [OF this q] show "of_nat b powi (ilog b x) \<le> round_sig b p x"
    using b0 p unfolding m(1)
    by (simp add: power_times_powi of_nat_diff)
  have "of_int m \<le> (of_int (int b ^ p) :: rat)" using m(3) of_int_le_iff by blast
  from mult_right_mono [OF this q] show "round_sig b p x \<le> of_nat b powi (ilog b x + 1)"
    using b0 unfolding m(1)
    by (simp add: power_times_powi algebra_simps)
qed


lemma round_sig_gt0:
  assumes "1 < b" and "0 < p" and "0 < x"
  shows "0 < round_sig b p x"
proof -
  have "0 < (of_nat b :: rat) powi (ilog b x)" using assms(1) by simp
  with round_sig_range(1) [OF assms] show ?thesis by linarith
qed

lemma round_sig_mono_pos:
  assumes b: "1 < b" and p: "0 < p" and x: "0 < x" and le: "x \<le> y"
  shows "round_sig b p x \<le> round_sig b p y"
proof (cases "ilog b x = ilog b y")
  case True
  let ?q = "of_nat b powi (ilog b y - (int p - 1)) :: rat"
  have q: "0 < ?q" using b by simp
  have "round_half_even (x / ?q) \<le> round_half_even (y / ?q)"
    using le q by (intro round_half_even_mono divide_right_mono) auto
  then have "of_int (round_half_even (x / ?q)) * ?q \<le> of_int (round_half_even (y / ?q)) * ?q"
    using q by (intro mult_right_mono) auto
  then show ?thesis using x le True by (simp add: round_sig_def Let_def)
next
  case False
  with ilog_mono [OF b x le] have lt: "ilog b x + 1 \<le> ilog b y" by simp
  have y: "0 < y" using x le by linarith
  have "round_sig b p x \<le> of_nat b powi (ilog b x + 1)" by (rule round_sig_range [OF b p x])
  also have "\<dots> \<le> of_nat b powi (ilog b y)" using b lt by (intro power_int_increasing) auto
  also have "\<dots> \<le> round_sig b p y" by (rule round_sig_range [OF b p y])
  finally show ?thesis .
qed

lemma round_sig_mono:
  assumes b: "1 < b" and p: "0 < p" and le: "x \<le> y"
  shows "round_sig b p x \<le> round_sig b p y"
proof -
  consider "0 < x" | "x \<le> 0" "0 \<le> y" | "y < 0" using le by linarith
  then show ?thesis
  proof cases
    case 1
    then show ?thesis using round_sig_mono_pos [OF b p _ le] by simp
  next
    case 2
    have "round_sig b p x \<le> 0"
      using round_sig_gt0 [OF b p, of "- x"] 2 by (cases "x = 0") (auto simp: round_sig_minus)
    moreover have "0 \<le> round_sig b p y"
      using round_sig_gt0 [OF b p, of y] 2 by (cases "y = 0") auto
    ultimately show ?thesis by linarith
  next
    case 3
    then have "round_sig b p (- y) \<le> round_sig b p (- x)"
      using round_sig_mono_pos [OF b p, of "- y" "- x"] le by simp
    then show ?thesis by (simp add: round_sig_minus)
  qed
qed

text \<open>A value with at most \<open>p\<close> significant digits is left alone.\<close>

lemma round_sig_exact:
  assumes b: "1 < b" and m: "int b ^ (p - 1) \<le> m" "m < int b ^ p" and p: "0 < p"
  shows "round_sig b p (of_int m * of_nat b powi k) = of_int m * of_nat b powi k"
proof -
  let ?x = "of_int m * of_nat b powi k :: rat"
  have b0: "(of_nat b :: rat) \<noteq> 0" and q: "0 < (of_nat b :: rat) powi k" using b by auto
  have m0: "0 < m" using m(1) b by (simp add: order_less_le_trans [of 0 "int b ^ (p - 1)"])
  then have x: "0 < ?x" using q by simp
  have "(of_nat b :: rat) powi (k + (int p - 1)) = of_int (int b ^ (p - 1)) * of_nat b powi k"
    using b0 p by (simp add: power_times_powi powi_times_power of_nat_diff algebra_simps)
  also have "\<dots> \<le> ?x"
    using m(1) q by (intro mult_right_mono, subst of_int_le_iff) auto
  finally have lo: "of_nat b powi (k + (int p - 1)) \<le> ?x" .
  have "?x < of_int (int b ^ p) * of_nat b powi k"
    using m(2) q by (intro mult_strict_right_mono, subst of_int_less_iff) auto
  also have "\<dots> = of_nat b powi (k + (int p - 1) + 1)"
    using b0 by (simp add: powi_times_power algebra_simps)
  finally have hi: "?x < of_nat b powi (k + (int p - 1) + 1)" .
  have "ilog b ?x = k + (int p - 1)" by (rule ilog_unique [OF b lo hi])
  then show ?thesis using x q by (simp add: round_sig_def Let_def)
qed

lemma round_sig_idem_pos:
  assumes b: "1 < b" and p: "0 < p" and x: "0 < x"
  shows "round_sig b p (round_sig b p x) = round_sig b p x"
proof -
  let ?k = "ilog b x - (int p - 1)"
  obtain m where m: "round_sig b p x = of_int m * of_nat b powi ?k"
      "int b ^ (p - 1) \<le> m" "m \<le> int b ^ p"
    using round_sig_pos [OF b p x] by metis
  show ?thesis
  proof (cases "m < int b ^ p")
    case True
    then show ?thesis using round_sig_exact [OF b m(2) _ p] m(1) by simp
  next
    case False
    with m(3) have mp: "m = int b ^ p" by simp
    have b0: "(of_nat b :: rat) \<noteq> 0" using b by simp
    have "round_sig b p x = of_int (int b ^ (p - 1)) * of_nat b powi (?k + 1)"
      using b0 p by (simp add: m(1) mp power_times_powi of_nat_diff algebra_simps)
    moreover have "int b ^ (p - 1) < int b ^ p"
      using b p by (intro power_strict_increasing) auto
    ultimately show ?thesis using round_sig_exact [OF b order_refl _ p] by metis
  qed
qed

lemma round_sig_idem:
  assumes b: "1 < b" and p: "0 < p"
  shows "round_sig b p (round_sig b p x) = round_sig b p x"
proof -
  consider "x = 0" | "0 < x" | "0 < - x" by linarith
  then show ?thesis
  proof cases
    case 3
    from round_sig_idem_pos [OF b p this] show ?thesis by (simp add: round_sig_minus)
  qed (auto intro: round_sig_idem_pos [OF b p])
qed

section \<open>The interface of a rounding function\<close>

locale rounding =
  fixes rnd :: "rat \<Rightarrow> rat"
  assumes rnd_mono: "x \<le> y \<Longrightarrow> rnd x \<le> rnd y"
    and rnd_minus: "rnd (- x) = - rnd x"
    and rnd_idem: "rnd (rnd x) = rnd x"
    and rnd_gt0: "0 < x \<Longrightarrow> 0 < rnd x"
begin

lemma rnd_0: "rnd 0 = 0"
  using rnd_minus [of 0] by simp

lemma rnd_eq_0: "rnd x = 0 \<longleftrightarrow> x = 0"
  using rnd_gt0 [of x] rnd_gt0 [of "- x"] rnd_0 by (cases x "0 :: rat" rule: linorder_cases)
    (auto simp: rnd_minus)

lemma rnd_pos: "0 < rnd x \<longleftrightarrow> 0 < x"
  using rnd_gt0 [of x] rnd_gt0 [of "- x"] rnd_0 by (cases x "0 :: rat" rule: linorder_cases)
    (auto simp: rnd_minus)

lemma rnd_neg: "rnd x < 0 \<longleftrightarrow> x < 0"
  using rnd_pos [of "- x"] by (simp add: rnd_minus)

lemma rnd_ge0: "0 \<le> rnd x \<longleftrightarrow> 0 \<le> x"
  using rnd_neg [of x] by (simp add: not_less [symmetric])

lemma rnd_le0: "rnd x \<le> 0 \<longleftrightarrow> x \<le> 0"
  using rnd_pos [of x] by (simp add: not_less [symmetric])

text \<open>Rounding never crosses a value that is itself representable.\<close>

lemma rnd_le_repr: "rnd y = y \<Longrightarrow> x \<le> y \<Longrightarrow> rnd x \<le> y"
  using rnd_mono [of x y] by simp

lemma repr_le_rnd: "rnd x = x \<Longrightarrow> x \<le> y \<Longrightarrow> x \<le> rnd y"
  using rnd_mono [of x y] by simp

end

section \<open>Decimal arithmetic in the default context, and doubles\<close>

abbreviation dround :: "rat \<Rightarrow> rat" where
  "dround \<equiv> round_sig 10 28"

abbreviation fround :: "rat \<Rightarrow> rat" where
  "fround \<equiv> round_sig 2 53"

interpretation dec: rounding dround
  by unfold_locales (simp_all add: round_sig_mono round_sig_minus round_sig_idem round_sig_gt0)

interpretation dbl: rounding fround
  by unfold_locales (simp_all add: round_sig_mono round_sig_minus round_sig_idem round_sig_gt0)

definition dadd :: "rat \<Rightarrow> rat \<Rightarrow> rat" where
  "dadd a b = dround (a + b)"

definition dsub :: "rat \<Rightarrow> rat \<Rightarrow> rat" where
  "dsub a b = dround (a - b)"

definition dmul :: "rat \<Rightarrow> rat \<Rightarrow> rat" where
  "dmul a b = dround (a * b)"

text \<open>
  Division. The context traps division by zero; the divisors of the modelled code are positive
  by the checks of the constructors that build them.
\<close>

definition ddiv :: "rat \<Rightarrow> rat \<Rightarrow> rat" where
  "ddiv a b = dround (a / b)"

text \<open>Unary minus and \<^verbatim>\<open>abs\<close> round as well.\<close>

definition dneg :: "rat \<Rightarrow> rat" where
  "dneg a = dround (- a)"

definition dabs :: "rat \<Rightarrow> rat" where
  "dabs a = dround \<bar>a\<bar>"

text \<open>\<^verbatim>\<open>Decimal(1).scaleb(-d)\<close> for \<open>d \<ge> 0\<close>.\<close>

definition quantum_of :: "int \<Rightarrow> rat" where
  "quantum_of d = 10 powi (- d)"

text \<open>
  \<^verbatim>\<open>value.quantize(10 ** -d, rounding=ROUND_DOWN)\<close> for a non-negative value: truncation to \<open>d\<close>
  places, an invalid operation when the coefficient would need more than 28 digits.
\<close>

definition quantize_trunc :: "rat \<Rightarrow> int \<Rightarrow> rat result" where
  "quantize_trunc v d =
     (let c = \<lfloor>v / quantum_of d\<rfloor>
      in if 10 ^ 28 \<le> c then Inl InvalidOperation else Inr (of_int c * quantum_of d))"

lemma quantum_pos [simp]: "0 < quantum_of d" "0 \<le> quantum_of d" "quantum_of d \<noteq> 0"
  by (simp_all add: quantum_of_def)

lemma dadd_pos [decimal_simps]: "0 < dadd a b \<longleftrightarrow> 0 < a + b"
  and dadd_ge0 [decimal_simps]: "0 \<le> dadd a b \<longleftrightarrow> 0 \<le> a + b"
  and dsub_pos [decimal_simps]: "0 < dsub a b \<longleftrightarrow> b < a"
  and dsub_le0 [decimal_simps]: "dsub a b \<le> 0 \<longleftrightarrow> a \<le> b"
  and dmul_pos [decimal_simps]: "0 < dmul a b \<longleftrightarrow> 0 < a * b"
  and dmul_neg [decimal_simps]: "dmul a b < 0 \<longleftrightarrow> a * b < 0"
  and dmul_ge0 [decimal_simps]: "0 \<le> dmul a b \<longleftrightarrow> 0 \<le> a * b"
  and dmul_eq0 [decimal_simps]: "dmul a b = 0 \<longleftrightarrow> a = 0 \<or> b = 0"
  and ddiv_pos [decimal_simps]: "0 < ddiv a b \<longleftrightarrow> 0 < a / b"
  and ddiv_ge0 [decimal_simps]: "0 \<le> ddiv a b \<longleftrightarrow> 0 \<le> a / b"
  and dneg_pos [decimal_simps]: "0 < dneg a \<longleftrightarrow> a < 0"
  and dneg_neg [decimal_simps]: "dneg a < 0 \<longleftrightarrow> 0 < a"
  and dneg_eq0 [decimal_simps]: "dneg a = 0 \<longleftrightarrow> a = 0"
  and dabs_pos [decimal_simps]: "0 < dabs a \<longleftrightarrow> a \<noteq> 0"
  and dabs_ge0 [decimal_simps]: "0 \<le> dabs a"
  and dabs_eq0 [decimal_simps]: "dabs a = 0 \<longleftrightarrow> a = 0"
  by (simp_all add: dadd_def dsub_def dmul_def ddiv_def dneg_def dabs_def
      dec.rnd_pos dec.rnd_ge0 dec.rnd_neg dec.rnd_le0 dec.rnd_eq_0)

lemma quantize_trunc_bounds:
  assumes "quantize_trunc v d = Inr w" and "0 \<le> v"
  shows "0 \<le> w" and "w \<le> v" and "v < w + quantum_of d"
proof -
  let ?q = "quantum_of d" and ?c = "\<lfloor>v / quantum_of d\<rfloor>"
  have w: "w = of_int ?c * ?q"
    using assms(1) by (auto simp: quantize_trunc_def Let_def split: if_splits)
  have q: "0 < ?q" by simp
  have "0 \<le> v / ?q" using assms(2) q by (intro divide_nonneg_pos) auto
  then have "0 \<le> ?c" by simp
  then show "0 \<le> w" unfolding w using q by (intro mult_nonneg_nonneg) auto
  have "of_int ?c \<le> v / ?q" by (rule of_int_floor_le)
  then show "w \<le> v" unfolding w pos_le_divide_eq [OF q] .
  have "v / ?q < of_int ?c + 1" by linarith
  then show "v < w + ?q" using q by (simp add: w pos_divide_less_eq algebra_simps)
qed

text \<open>A quantized value is representable, so that negating or copying it is exact.\<close>

lemma round_sig_int_powi:
  assumes "1 < b" and "0 \<le> c" and "c < int b ^ p" and "0 < p"
  shows "round_sig b p (of_int c * of_nat b powi k) = of_int c * of_nat b powi k"
proof (cases "c = 0")
  case False
  with assms(2) have c: "0 < c" by simp
  define e where "e = ilog b (of_int c)"
  have lo: "of_nat b powi e \<le> (of_int c :: rat)" and hi: "of_int c < (of_nat b :: rat) powi (e + 1)"
    using ilog_bounds [OF assms(1), of "of_int c"] c by (auto simp: e_def)
  have "(1 :: rat) < of_nat b powi (e + 1)" using hi c by (simp add: order_le_less_trans [of 1 "of_int c"])
  then have "0 < e + 1" using powi_less_imp [OF assms(1), of 0 "e + 1"] by simp
  then have e0: "0 \<le> e" by simp
  have "(of_nat b :: rat) powi e < of_nat b powi (int p)"
    using lo assms(3) by (metis of_int_less_iff of_int_of_nat_eq of_int_power order_le_less_trans power_int_of_nat)
  then have ep: "e < int p" by (rule powi_less_imp [OF assms(1)])
  define j where "j = nat (int p - 1 - e)"
  have j: "int j = int p - 1 - e" using ep by (simp add: j_def)
  have b0: "(of_nat b :: rat) \<noteq> 0" using assms(1) by simp
  let ?m = "c * int b ^ j"
  have val: "of_int c * of_nat b powi k = of_int ?m * (of_nat b :: rat) powi (k - int j)"
    using b0 by (simp add: power_times_powi mult.assoc)
  have "of_nat b powi (int j) * (of_nat b powi e :: rat) \<le> of_nat b powi (int j) * of_int c"
    using lo by (intro mult_left_mono) auto
  then have "(of_nat b :: rat) powi (int j + e) \<le> of_int ?m"
    using b0 by (simp add: power_int_add mult.commute)
  then have "(of_nat b :: rat) ^ (p - 1) \<le> of_int ?m"
    using assms(4) by (simp add: j of_nat_diff flip: power_int_of_nat)
  then have lo': "int b ^ (p - 1) \<le> ?m" by (metis of_int_le_iff of_int_of_nat_eq of_int_power)
  have "of_nat b powi (int j) * of_int c < of_nat b powi (int j) * (of_nat b powi (e + 1) :: rat)"
    using hi assms(1) by (intro mult_strict_left_mono) auto
  then have "of_int ?m < (of_nat b :: rat) powi (int j + (e + 1))"
    using b0 by (simp add: power_int_add mult.commute)
  then have "of_int ?m < (of_nat b :: rat) ^ p"
    by (simp add: j flip: power_int_of_nat)
  then have hi': "?m < int b ^ p" by (metis of_int_less_iff of_int_of_nat_eq of_int_power)
  show ?thesis unfolding val by (rule round_sig_exact [OF assms(1) lo' hi' assms(4)])
qed simp

lemma quantize_trunc_repr:
  assumes "quantize_trunc v d = Inr w" and "0 \<le> v"
  shows "dround w = w"
proof -
  let ?c = "\<lfloor>v / quantum_of d\<rfloor>"
  have "0 \<le> v / quantum_of d" using assms(2) by (intro divide_nonneg_pos) auto
  then have "0 \<le> ?c" by simp
  moreover have "?c < int 10 ^ 28" and "w = of_int ?c * of_nat 10 powi (- d)"
    using assms(1) by (auto simp: quantize_trunc_def Let_def quantum_of_def split: if_splits)
  ultimately show ?thesis using round_sig_int_powi [of 10 ?c 28 "- d"] by simp
qed

text \<open>Operations whose exact result has at most 28 digits do not round.\<close>

lemma dround_exact:
  assumes "x * 10 ^ k = of_int m" and "\<bar>m\<bar> < 10 ^ 28"
  shows "dround x = x"
proof -
  have x: "x = of_int m * of_nat 10 powi (- int k)"
    using assms(1) by (simp add: power_int_minus field_simps)
  have "dround (of_int m * of_nat 10 powi (- int k)) = of_int m * of_nat 10 powi (- int k)"
  proof (cases "0 \<le> m")
    case True
    then show ?thesis using round_sig_int_powi [of 10 m 28 "- int k"] assms(2) by simp
  next
    case False
    then have "dround (of_int (- m) * of_nat 10 powi (- int k)) = of_int (- m) * of_nat 10 powi (- int k)"
      using round_sig_int_powi [of 10 "- m" 28 "- int k"] assms(2) by simp
    then show ?thesis by (simp add: dec.rnd_minus)
  qed
  then show ?thesis by (simp only: x)
qed

lemma exact_ops:
  shows dmul_exact: "a * b * 10 ^ k = of_int m \<Longrightarrow> \<bar>m\<bar> < 10 ^ 28 \<Longrightarrow> dmul a b = a * b"
    and dadd_exact: "(a + b) * 10 ^ k = of_int m \<Longrightarrow> \<bar>m\<bar> < 10 ^ 28 \<Longrightarrow> dadd a b = a + b"
    and dsub_exact: "(a - b) * 10 ^ k = of_int m \<Longrightarrow> \<bar>m\<bar> < 10 ^ 28 \<Longrightarrow> dsub a b = a - b"
    and ddiv_exact: "a / b * 10 ^ k = of_int m \<Longrightarrow> \<bar>m\<bar> < 10 ^ 28 \<Longrightarrow> ddiv a b = a / b"
    and dneg_exact: "a * 10 ^ k = of_int m \<Longrightarrow> \<bar>m\<bar> < 10 ^ 28 \<Longrightarrow> dneg a = - a"
    and dabs_exact: "a * 10 ^ k = of_int m \<Longrightarrow> \<bar>m\<bar> < 10 ^ 28 \<Longrightarrow> dabs a = \<bar>a\<bar>"
proof -
  show "a * b * 10 ^ k = of_int m \<Longrightarrow> \<bar>m\<bar> < 10 ^ 28 \<Longrightarrow> dmul a b = a * b"
    and "(a + b) * 10 ^ k = of_int m \<Longrightarrow> \<bar>m\<bar> < 10 ^ 28 \<Longrightarrow> dadd a b = a + b"
    and "(a - b) * 10 ^ k = of_int m \<Longrightarrow> \<bar>m\<bar> < 10 ^ 28 \<Longrightarrow> dsub a b = a - b"
    and "a / b * 10 ^ k = of_int m \<Longrightarrow> \<bar>m\<bar> < 10 ^ 28 \<Longrightarrow> ddiv a b = a / b"
    and neg: "a * 10 ^ k = of_int m \<Longrightarrow> \<bar>m\<bar> < 10 ^ 28 \<Longrightarrow> dneg a = - a"
    by (simp_all add: dmul_def dadd_def dsub_def ddiv_def dneg_def dec.rnd_minus dround_exact)
  show "a * 10 ^ k = of_int m \<Longrightarrow> \<bar>m\<bar> < 10 ^ 28 \<Longrightarrow> dabs a = \<bar>a\<bar>"
    using dround_exact [of a k m] by (cases "0 \<le> a") (auto simp: dabs_def dec.rnd_minus)
qed

end
