(* ===== verification/Text_Codec.thy ===== *)
theory Text_Codec
  imports Prelude "HOL-Library.Monad_Syntax"
begin

text \<open>
  The texts the program stores numbers and times as, for the parts of the standard library it
  uses: digits of a fixed width, the plain notation of \<^verbatim>\<open>format(d, "f")\<close> and the literals of
  \<^verbatim>\<open>Decimal\<close>, the proleptic Gregorian calendar of \<^verbatim>\<open>datetime\<close>, \<^verbatim>\<open>isoformat\<close> and the extended calendar
  form of \<^verbatim>\<open>fromisoformat\<close>. Shown here: what is printed reads back as the same value.
\<close>

section \<open>Digits\<close>

definition is_digit :: "char \<Rightarrow> bool" where
  "is_digit c = (48 \<le> code_of c \<and> code_of c \<le> 57)"

definition digit_value :: "char \<Rightarrow> nat" where
  "digit_value c = code_of c - 48"

definition digit_char :: "nat \<Rightarrow> char" where
  "digit_char d = char_of (48 + d)"

definition digits_value :: "string \<Rightarrow> nat" where
  "digits_value s = foldl (\<lambda>n c. 10 * n + digit_value c) 0 s"

text \<open>The last \<open>k\<close> decimal digits of a number.\<close>

fun pad :: "nat \<Rightarrow> nat \<Rightarrow> string" where
  "pad 0 n = []"
| "pad (Suc k) n = pad k (n div 10) @ [digit_char (n mod 10)]"

text \<open>Exactly \<open>k\<close> digits at the front of a text.\<close>

definition read_digits :: "nat \<Rightarrow> string \<Rightarrow> (nat \<times> string) option" where
  "read_digits k s =
     (if length (take k s) = k \<and> list_all is_digit (take k s)
      then Some (digits_value (take k s), drop k s) else None)"

lemma digit_char_digit: "d < 10 \<Longrightarrow> is_digit (digit_char d)"
  by (simp add: is_digit_def digit_char_def)

lemma digit_value_char: "d < 10 \<Longrightarrow> digit_value (digit_char d) = d"
  by (simp add: digit_value_def digit_char_def)

lemma length_pad [simp]: "length (pad k n) = k"
  by (induction k n rule: pad.induct) auto

lemma pad_digits: "list_all is_digit (pad k n)"
  by (induction k n rule: pad.induct) (auto simp: digit_char_digit)

lemma digits_value_snoc [simp]: "digits_value (s @ [c]) = 10 * digits_value s + digit_value c"
  by (simp add: digits_value_def)

lemma digits_value_pad: "n < 10 ^ k \<Longrightarrow> digits_value (pad k n) = n"
proof (induction k n rule: pad.induct)
  case (2 k n)
  then have "n div 10 < 10 ^ k" by (simp add: less_mult_imp_div_less mult.commute)
  then show ?case using 2 by (simp add: digit_value_char)
qed (simp add: digits_value_def)

lemma read_digits_pad [simp]: "n < 10 ^ k \<Longrightarrow> read_digits k (pad k n @ rest) = Some (n, rest)"
  by (simp add: read_digits_def digits_value_pad pad_digits)

lemma nat_text_digits: "list_all is_digit (nat_text n) \<and> digits_value (nat_text n) = n \<and> nat_text n \<noteq> []"
proof (induction n rule: nat_text.induct)
  case (1 n)
  show ?case
  proof (cases "n < 10")
    case True
    then have "nat_text n = [digit_char n]" by (simp add: nat_text.simps [of n] digit_char_def)
    then show ?thesis using True digits_value_snoc [of "[]" "digit_char n"]
      by (simp add: digit_char_digit digit_value_char digits_value_def)
  next
    case False
    then have "nat_text n = nat_text (n div 10) @ [digit_char (n mod 10)]"
      by (simp add: nat_text.simps [of n] digit_char_def)
    then show ?thesis using 1 False by (simp add: digit_char_digit digit_value_char)
  qed
qed

lemma not_digit [simp]:
  "\<not> is_digit CHR ''-''" "\<not> is_digit CHR ''+''" "\<not> is_digit CHR ''.''" "\<not> is_digit CHR '':''"
  "\<not> is_digit CHR ''Z''" "\<not> is_digit CHR ''E''" "\<not> is_digit CHR ''e''" "\<not> is_digit CHR ''_''"
  by (simp_all add: is_digit_def)

lemma digit_no_space: "is_digit c \<Longrightarrow> \<not> is_space c"
  by (auto simp: is_digit_def is_space_def)

lemma not_space [simp]: "\<not> is_space CHR ''-''" "\<not> is_space CHR ''.''" "\<not> is_space CHR '':''" "\<not> is_space CHR ''T''"
  "\<not> is_space CHR ''Z''"
  by (simp_all add: is_space_def)

lemma stripped_no_space: "(\<And>c. c \<in> set s \<Longrightarrow> \<not> is_space c) \<Longrightarrow> stripped s"
  by (cases "s = []") (auto simp: stripped_def)

section \<open>Decimals\<close>

text \<open>
  \<^verbatim>\<open>format(d, "f")\<close> for a decimal with \<open>k\<close> places behind the point. A value does not determine
  its places (1.5 and 1.50 are equal), so they are an argument. A negative zero, which prints
  with its sign, is not distinguished from zero.
\<close>

definition decimal_text :: "nat \<Rightarrow> rat \<Rightarrow> string" where
  "decimal_text k x =
     (let n = nat \<lfloor>\<bar>x\<bar> * 10 ^ k\<rfloor>
      in (if x < 0 then ''-'' else []) @ nat_text (n div 10 ^ k)
         @ (if k = 0 then [] else CHR ''.'' # pad k (n mod 10 ^ k)))"

text \<open>The values that \<open>k\<close> places hold.\<close>

definition has_places :: "nat \<Rightarrow> rat \<Rightarrow> bool" where
  "has_places k x = (of_int \<lfloor>x * 10 ^ k\<rfloor> = x * 10 ^ k)"

text \<open>
  The literals of \<^verbatim>\<open>Decimal\<close>, once white space around them and underscores are gone: a sign, digits
  with at most one point and at least one digit, an exponent; or an infinity or a NaN.
\<close>

datatype decimal_literal = Not_a_number_text | Not_finite | Finite rat

definition take_sign :: "string \<Rightarrow> rat \<times> string" where
  "take_sign s =
     (case s of
        [] \<Rightarrow> (1, [])
      | c # r \<Rightarrow> if c = CHR ''-'' then (- 1, r) else if c = CHR ''+'' then (1, r) else (1, c # r))"

definition special_literal :: "string \<Rightarrow> bool" where
  "special_literal s =
     (let t = py_lower s; nan = (\<lambda>u. starts_with ''nan'' u \<and> list_all is_digit (drop 3 u))
      in t = ''inf'' \<or> t = ''infinity'' \<or> nan t \<or> (t \<noteq> [] \<and> hd t = CHR ''s'' \<and> nan (tl t)))"

definition exponent_of :: "string \<Rightarrow> int option" where
  "exponent_of s =
     (case s of
        [] \<Rightarrow> Some 0
      | c # r \<Rightarrow>
          if c \<noteq> CHR ''e'' \<and> c \<noteq> CHR ''E'' then None
          else (case take_sign r of
                  (sg, ds) \<Rightarrow>
                    if ds = [] \<or> \<not> list_all is_digit ds then None
                    else Some (if sg < 0 then - int (digits_value ds) else int (digits_value ds))))"

definition unsigned_literal :: "string \<Rightarrow> rat option" where
  "unsigned_literal s =
     (let whole = takeWhile is_digit s;
          r1 = dropWhile is_digit s;
          point = (r1 \<noteq> [] \<and> hd r1 = CHR ''.'');
          frac = (if point then takeWhile is_digit (tl r1) else []);
          r2 = (if point then dropWhile is_digit (tl r1) else r1)
      in if whole = [] \<and> frac = [] then None
         else map_option (\<lambda>e. of_nat (digits_value (whole @ frac)) * 10 powi (e - int (length frac)))
                (exponent_of r2))"

definition decimal_literal :: "string \<Rightarrow> decimal_literal" where
  "decimal_literal value =
     (case take_sign (filter (\<lambda>c. c \<noteq> CHR ''_'') (py_strip value)) of
        (sg, s) \<Rightarrow>
          if special_literal s then Not_finite
          else (case unsigned_literal s of None \<Rightarrow> Not_a_number_text | Some x \<Rightarrow> Finite (sg * x)))"

lemma digits_value_append: "digits_value (s @ t) = digits_value s * 10 ^ length t + digits_value t"
proof (induction t rule: rev_induct)
  case (snoc c t)
  have "digits_value (s @ t @ [c]) = 10 * digits_value (s @ t) + digit_value c"
    using digits_value_snoc [of "s @ t" c] by simp
  then show ?case using snoc by simp
qed (simp add: digits_value_def)

lemma takeWhile_digits:
  "list_all is_digit s \<Longrightarrow> takeWhile is_digit (s @ c # r) = s @ takeWhile is_digit (c # r)"
  "list_all is_digit s \<Longrightarrow> dropWhile is_digit (s @ c # r) = dropWhile is_digit (c # r)"
  "list_all is_digit s \<Longrightarrow> takeWhile is_digit s = s"
  "list_all is_digit s \<Longrightarrow> dropWhile is_digit s = []"
  by (auto simp: list_all_iff)

text \<open>The unsigned part of a printed decimal, and its value.\<close>

lemma unsigned_plain:
  assumes "n = q * 10 ^ k + r" "r < 10 ^ k"
  shows "unsigned_literal (nat_text q @ (if k = 0 then [] else CHR ''.'' # pad k r)) = Some (of_nat n / 10 ^ k)"
proof -
  note q = nat_text_digits [of q]
  show ?thesis
  proof (cases "k = 0")
    case True
    then show ?thesis using assms q
      by (simp add: unsigned_literal_def Let_def takeWhile_digits exponent_of_def)
  next
    case False
    have "digits_value (nat_text q @ pad k r) = n"
      using assms q digits_value_pad [of r k] by (simp add: digits_value_append)
    moreover have "(10 :: rat) powi (- int k) = 1 / 10 ^ k" by (simp add: power_int_minus inverse_eq_divide)
    ultimately show ?thesis using False q pad_digits [of k r]
      by (simp add: unsigned_literal_def Let_def takeWhile_digits exponent_of_def)
  qed
qed

lemma plain_no_special:
  assumes "list_all is_digit s" "s \<noteq> []"
  shows "\<not> special_literal (s @ t)"
proof -
  obtain c r where s: "s = c # r" "is_digit c" using assms by (cases s) auto
  have "lower_char c = c" using s(2) by (auto simp: lower_char_def is_digit_def)
  moreover have "c \<noteq> CHR ''i''" "c \<noteq> CHR ''n''" "c \<noteq> CHR ''s''" using s(2) by (auto simp: is_digit_def)
  ultimately show ?thesis by (simp add: special_literal_def Let_def s(1) py_lower_def)
qed

theorem decimal_round_trip:
  assumes "has_places k x"
  shows "decimal_literal (decimal_text k x) = Finite x"
proof -
  define n where "n = nat \<lfloor>\<bar>x\<bar> * 10 ^ k\<rfloor>"
  let ?tail = "nat_text (n div 10 ^ k) @ (if k = 0 then [] else CHR ''.'' # pad k (n mod 10 ^ k))"
  obtain m where m: "x * 10 ^ k = of_int m" using assms unfolding has_places_def by metis
  have "\<bar>x\<bar> * 10 ^ k = of_int \<bar>m\<bar>" using m by (metis abs_mult abs_numeral of_int_abs power_abs)
  then have n: "(of_nat n :: rat) = \<bar>x\<bar> * 10 ^ k" by (simp add: n_def)
  have "unsigned_literal ?tail = Some (of_nat n / 10 ^ k)"
    by (rule unsigned_plain, rule div_mult_mod_eq [symmetric]) simp
  then have plain: "unsigned_literal ?tail = Some \<bar>x\<bar>" by (simp only: n) simp
  note q = nat_text_digits [of "n div 10 ^ k"]
  have chars: "is_digit c \<or> c = CHR ''.''" if "c \<in> set ?tail" for c
    using that q pad_digits [of k "n mod 10 ^ k"] by (auto simp: list_all_iff split: if_splits)
  let ?text = "(if x < 0 then ''-'' else []) @ ?tail"
  have chars_ok: "\<not> is_space c \<and> c \<noteq> CHR ''_''" if "c \<in> set ?text" for c
  proof -
    have "c = CHR ''-'' \<or> c \<in> set ?tail" using that by (auto split: if_splits)
    then have "is_digit c \<or> c = CHR ''.'' \<or> c = CHR ''-''" using chars by blast
    then show ?thesis using digit_no_space by auto
  qed
  have strip: "py_strip ?text = ?text"
    by (rule py_strip_stripped, rule stripped_no_space) (use chars_ok in blast)
  have kept: "filter (\<lambda>c. c \<noteq> CHR ''_'') ?text = ?text"
    by (rule filter_True) (use chars_ok in blast)
  obtain c r where tail: "?tail = c # r" "is_digit c" using q by (cases "nat_text (n div 10 ^ k)") auto
  have "take_sign ((if x < 0 then ''-'' else []) @ ?tail) = (if x < 0 then - 1 else 1, ?tail)"
    unfolding tail(1) using tail(2) by (auto simp: take_sign_def)
  moreover have "\<not> special_literal ?tail" using q by (intro plain_no_special) auto
  moreover have "decimal_text k x = (if x < 0 then ''-'' else []) @ ?tail"
    unfolding decimal_text_def Let_def n_def ..
  ultimately show ?thesis unfolding decimal_literal_def by (simp only: strip kept) (simp add: plain)
qed

section \<open>The calendar\<close>

definition leap :: "nat \<Rightarrow> bool" where
  "leap y = (y mod 4 = 0 \<and> (y mod 100 \<noteq> 0 \<or> y mod 400 = 0))"

definition month_days :: "nat \<Rightarrow> nat list" where
  "month_days y = [31, if leap y then 29 else 28, 31, 30, 31, 30, 31, 31, 30, 31, 30, 31]"

definition days_before_year :: "nat \<Rightarrow> nat" where
  "days_before_year y = (y - 1) * 365 + (y - 1) div 4 - (y - 1) div 100 + (y - 1) div 400"

definition days_before_month :: "nat \<Rightarrow> nat \<Rightarrow> nat" where
  "days_before_month y m = sum_list (take (m - 1) (month_days y))"

text \<open>Days since the first of January of year 1, which is day 1, and back.\<close>

definition ymd2ord :: "nat \<Rightarrow> nat \<Rightarrow> nat \<Rightarrow> nat" where
  "ymd2ord y m d = days_before_year y + days_before_month y m + d"

fun month_search :: "nat \<Rightarrow> nat list \<Rightarrow> nat \<Rightarrow> nat \<times> nat" where
  "month_search m [] r = (m, r + 1)"
| "month_search m (l # ls) r = (if r < l then (m, r + 1) else month_search (m + 1) ls (r - l))"

definition ord2ymd :: "nat \<Rightarrow> nat \<times> nat \<times> nat" where
  "ord2ymd n =
     (let a = (n - 1) div 146097; ra = (n - 1) mod 146097;
          b = ra div 36524; rb = ra mod 36524;
          c = rb div 1461; rc = rb mod 1461;
          e = rc div 365; r = rc mod 365;
          year = a * 400 + 1 + b * 100 + c * 4 + e
      in if e = 4 \<or> b = 4 then (year - 1, 12, 31) else (year, month_search 1 (month_days year) r))"

definition valid_date :: "nat \<Rightarrow> nat \<Rightarrow> nat \<Rightarrow> bool" where
  "valid_date y m d = (1 \<le> y \<and> y \<le> 9999 \<and> 1 \<le> m \<and> m \<le> 12 \<and> 1 \<le> d \<and> d \<le> month_days y ! (m - 1))"

lemma month_search_day:
  assumes "r < sum_list ls" "month_search m ls r = (m', d)"
  shows "\<exists>j < length ls. m' = m + j \<and> sum_list (take j ls) + d = r + 1 \<and> 1 \<le> d \<and> d \<le> ls ! j"
  using assms
proof (induction m ls r rule: month_search.induct)
  case (2 m l ls r)
  show ?case
  proof (cases "r < l")
    case True
    then show ?thesis using 2 by (intro exI [of _ 0]) auto
  next
    case False
    then have "r - l < sum_list ls" "month_search (m + 1) ls (r - l) = (m', d)" using 2(2,3) by auto
    with 2(1) [OF False] obtain j where "j < length ls" "m' = m + 1 + j"
      "sum_list (take j ls) + d = r - l + 1" "1 \<le> d" "d \<le> ls ! j" by blast
    then show ?thesis using False by (intro exI [of _ "Suc j"]) auto
  qed
qed simp

lemma year_start:
  assumes "e \<le> 3" "c \<le> 24" "b \<le> 3"
  shows "days_before_year (a * 400 + 1 + b * 100 + c * 4 + e) = a * 146097 + b * 36524 + c * 1461 + e * 365"
proof -
  have "(a * 400 + b * 100 + c * 4 + e) div 4 = a * 100 + b * 25 + c"
    "(a * 400 + b * 100 + c * 4 + e) div 100 = a * 4 + b"
    "(a * 400 + b * 100 + c * 4 + e) div 400 = a" using assms by linarith+
  then show ?thesis by (simp add: days_before_year_def)
qed

lemma year_length: "sum_list (month_days y) = (if leap y then 366 else 365)"
  by (simp add: month_days_def)

lemma last_day: "leap y \<Longrightarrow> days_before_month y 12 + 31 = 366"
  by (simp add: days_before_month_def month_days_def)

lemma ord2ymd_date:
  assumes "1 \<le> n" "n \<le> 3652059" "ord2ymd n = (y, m, d)"
  shows "ymd2ord y m d = n \<and> valid_date y m d"
proof -
  define a where "a = (n - 1) div 146097"
  define ra where "ra = (n - 1) mod 146097"
  define b where "b = ra div 36524"
  define rb where "rb = ra mod 36524"
  define c where "c = rb div 1461"
  define rc where "rc = rb mod 1461"
  define e where "e = rc div 365"
  define r where "r = rc mod 365"
  define year where "year = a * 400 + 1 + b * 100 + c * 4 + e"
  have n: "n - 1 = a * 146097 + ra" "ra < 146097" by (simp_all add: a_def ra_def)
  have ra: "ra = b * 36524 + rb" "rb < 36524" by (simp_all add: b_def rb_def)
  have rb: "rb = c * 1461 + rc" "rc < 1461" by (simp_all add: c_def rc_def)
  have rc: "rc = e * 365 + r" "r < 365" by (simp_all add: e_def r_def)
  have bounds: "b \<le> 4" "c \<le> 24" "e \<le> 4" "a \<le> 24" using n ra rb rc assms(2) by linarith+
  have "1 \<le> n" by (rule assms(1))
  then have sum: "n = a * 146097 + b * 36524 + c * 1461 + e * 365 + r + 1" using n ra rb rc by linarith
  have ymd: "(y, m, d) = (if e = 4 \<or> b = 4 then (year - 1, 12, 31) else (year, month_search 1 (month_days year) r))"
    using assms(3) unfolding ord2ymd_def Let_def a_def [symmetric] ra_def [symmetric] b_def [symmetric]
      rb_def [symmetric] c_def [symmetric] rc_def [symmetric] e_def [symmetric] r_def [symmetric] year_def [symmetric]
    by simp
  show ?thesis
  proof (cases "e = 4 \<or> b = 4")
    case True
    then have md: "y = year - 1" "m = 12" "d = 31" using ymd by auto
    have "leap y \<and> days_before_year y + 366 = n \<and> 1 \<le> y \<and> y \<le> 9999"
    proof (cases "b = 4")
      case True
      then have z: "rb = 0" using n ra by linarith
      then have "c = 0" "rc = 0" "e = 0" "r = 0" using rb rc by auto
      then have y: "y = a * 400 + 1 + 3 * 100 + 24 * 4 + 3" and n': "n = a * 146097 + 146097"
        using md(1) True sum by (simp_all add: year_def)
      have "y = (a + 1) * 400" using y by simp
      then have "leap y" by (simp add: leap_def)
      moreover have "days_before_year y = a * 146097 + 3 * 36524 + 24 * 1461 + 3 * 365"
        unfolding y by (rule year_start) simp_all
      ultimately show ?thesis using n' assms(2) y by simp
    next
      case False
      then have e: "e = 4" "r = 0" and b: "b \<le> 3" using True rb(2) rc bounds by auto
      have c: "c \<le> 23" using ra rb rc e by linarith
      have y: "y = a * 400 + 1 + b * 100 + c * 4 + 3" using md(1) e(1) by (simp add: year_def)
      have "y = (c + 1) * 4 + 100 * (a * 4 + b)" "y = 4 * (c + 1 + 25 * (a * 4 + b))" using y by simp_all
      then have "y mod 4 = 0" "y mod 100 = (c + 1) * 4 mod 100" by (metis mod_mult_self1_is_0, metis mod_mult_self2)
      moreover have "(c + 1) * 4 mod 100 \<noteq> 0" using c by simp
      ultimately have "leap y" unfolding leap_def by metis
      moreover have "days_before_year y = a * 146097 + b * 36524 + c * 1461 + 3 * 365"
        unfolding y by (rule year_start) (use b c in auto)
      moreover have "y \<le> 9999" using y b c bounds by linarith
      ultimately show ?thesis using sum e y by simp
    qed
    then show ?thesis using last_day [of y] md(2,3) by (simp add: ymd2ord_def valid_date_def month_days_def)
  next
    case False
    then have small: "e \<le> 3" "b \<le> 3" using bounds by auto
    have start: "days_before_year year = a * 146097 + b * 36524 + c * 1461 + e * 365"
      unfolding year_def by (rule year_start) (use small bounds in auto)
    have md: "month_search 1 (month_days year) r = (m, d)" "y = year" using ymd False by auto
    have "r < sum_list (month_days year)" using rc(2) by (simp add: year_length)
    from month_search_day [OF this md(1)] obtain j where j: "j < 12" "m = 1 + j"
      "sum_list (take j (month_days year)) + d = r + 1" "1 \<le> d" "d \<le> month_days year ! j"
      by (auto simp: month_days_def)
    have "year \<le> 9999" using small bounds sum assms(2) unfolding year_def by linarith
    moreover have "ymd2ord year m d = n"
      using j start sum by (simp add: ymd2ord_def days_before_month_def)
    ultimately show ?thesis using j md(2) by (simp add: valid_date_def year_def)
  qed
qed

section \<open>Times\<close>

text \<open>\<^verbatim>\<open>s.replace(p, r)\<close> for a non-empty \<open>p\<close>.\<close>

fun replace_text :: "string \<Rightarrow> string \<Rightarrow> string \<Rightarrow> string" where
  "replace_text p r [] = []"
| "replace_text p r (c # s) =
     (if starts_with p (c # s) then r @ replace_text p r (drop (length p - 1) s)
      else c # replace_text p r s)"

text \<open>
  A time in UTC is its microseconds since 1970, which is day 719163. \<open>datetime_range\<close> holds of the
  times \<^verbatim>\<open>datetime\<close> can represent: the years 1 to 9999.
\<close>

definition day_number :: "int \<Rightarrow> int" where
  "day_number t = t div 86400000000 + 719163"

definition datetime_range :: "int \<Rightarrow> bool" where
  "datetime_range t = (1 \<le> day_number t \<and> day_number t \<le> 3652059)"

definition isoformat_utc :: "int \<Rightarrow> string" where
  "isoformat_utc t =
     (let us = nat (t mod 1000000); sec = nat (t div 1000000 mod 86400)
      in case ord2ymd (nat (day_number t)) of
           (y, m, d) \<Rightarrow>
             pad 4 y @ ''-'' @ pad 2 m @ ''-'' @ pad 2 d @ ''T''
             @ pad 2 (sec div 3600) @ '':'' @ pad 2 (sec div 60 mod 60) @ '':'' @ pad 2 (sec mod 60)
             @ (if us = 0 then [] else ''.'' @ pad 6 us) @ ''+00:00'')"

text \<open>
  The extended calendar form of \<^verbatim>\<open>fromisoformat\<close>: a date, and after one separating character a
  time with an optional fraction and an optional offset. The result is the time the text shows,
  in microseconds, and the offset in seconds. The basic and the week forms are left out.
\<close>

definition expect :: "char \<Rightarrow> string \<Rightarrow> string option" where
  "expect c s = (case s of [] \<Rightarrow> None | x # r \<Rightarrow> if x = c then Some r else None)"

definition read_fraction :: "string \<Rightarrow> (nat \<times> string) option" where
  "read_fraction s =
     (case s of
        [] \<Rightarrow> Some (0, [])
      | c # r \<Rightarrow>
          if c = CHR ''.'' \<or> c = CHR '',''
          then (if takeWhile is_digit r = [] then None
                else Some (digits_value (take 6 (takeWhile is_digit r @ ''000000'')), dropWhile is_digit r))
          else Some (0, s))"

definition read_seconds :: "string \<Rightarrow> (nat \<times> nat \<times> string) option" where
  "read_seconds s =
     (case expect CHR '':'' s of
        None \<Rightarrow> Some (0, 0, s)
      | Some r \<Rightarrow> do { (ss, r') \<leftarrow> read_digits 2 r; (us, r'') \<leftarrow> read_fraction r'; Some (ss, us, r'') })"

definition read_offset :: "string \<Rightarrow> int option option" where
  "read_offset s =
     (case s of
        [] \<Rightarrow> Some None
      | c # r \<Rightarrow>
          if s = ''Z'' then Some (Some 0)
          else if c = CHR ''+'' \<or> c = CHR ''-''
          then do { (hh, r1) \<leftarrow> read_digits 2 r; r2 \<leftarrow> expect CHR '':'' r1; (mm, r3) \<leftarrow> read_digits 2 r2;
                    if r3 = [] \<and> hh < 24 \<and> mm < 60
                    then Some (Some ((if c = CHR ''-'' then - 1 else 1) * int (hh * 3600 + mm * 60)))
                    else None }
          else None)"

definition local_time :: "nat \<Rightarrow> nat \<Rightarrow> nat \<Rightarrow> int" where
  "local_time days secs us = ((int days - 719163) * 86400 + int secs) * 1000000 + int us"

definition fromisoformat :: "string \<Rightarrow> (int \<times> int option) option" where
  "fromisoformat s =
     do { (y, r1) \<leftarrow> read_digits 4 s; r2 \<leftarrow> expect CHR ''-'' r1;
          (m, r3) \<leftarrow> read_digits 2 r2; r4 \<leftarrow> expect CHR ''-'' r3;
          (d, r5) \<leftarrow> read_digits 2 r4;
          if \<not> valid_date y m d then None
          else if r5 = [] then Some (local_time (ymd2ord y m d) 0 0, None)
          else do { (hh, r6) \<leftarrow> read_digits 2 (tl r5); r7 \<leftarrow> expect CHR '':'' r6;
                    (mm, r8) \<leftarrow> read_digits 2 r7; (ss, us, r9) \<leftarrow> read_seconds r8;
                    offset \<leftarrow> read_offset r9;
                    if hh < 24 \<and> mm < 60 \<and> ss < 60
                    then Some (local_time (ymd2ord y m d) (hh * 3600 + mm * 60 + ss) us, offset)
                    else None } }"

lemma expect_Cons [simp]: "expect c (c # s) = Some s"
  by (simp add: expect_def)

lemma read_fraction_simps [simp]:
  "us < 1000000 \<Longrightarrow> read_fraction (CHR ''.'' # pad 6 us @ CHR ''+'' # s) = Some (us, CHR ''+'' # s)"
  "read_fraction (CHR ''+'' # s) = Some (0, CHR ''+'' # s)"
  using pad_digits [of 6 us] digits_value_pad [of us 6]
  by (auto simp: read_fraction_def takeWhile_digits)
     (metis length_pad list.size(3) zero_neq_numeral)

lemma read_offset_utc [simp]: "read_offset ''+00:00'' = Some (Some 0)"
  by code_simp

lemma pad_pow: "n < 10 ^ k \<Longrightarrow> read_digits k (pad k n @ rest) = Some (n, rest)"
  by simp

lemma local_time_of:
  assumes "0 \<le> day_number t"
  shows "local_time (nat (day_number t)) (nat (t div 1000000 mod 86400)) (nat (t mod 1000000)) = t"
proof -
  have "t div 86400000000 = t div 1000000 div 86400" by (simp add: zdiv_zmult2_eq [symmetric])
  then have "(t div 86400000000 * 86400 + t div 1000000 mod 86400) * 1000000 + t mod 1000000 = t"
    by simp
  then show ?thesis using assms by (simp add: local_time_def day_number_def)
qed

lemma month_at_most_31: "i < 12 \<Longrightarrow> month_days y ! i \<le> 31"
proof -
  assume "i < 12"
  moreover have "list_all (\<lambda>l. l \<le> 31) (month_days y)" "length (month_days y) = 12"
    by (simp_all add: month_days_def)
  ultimately show ?thesis by (simp add: list_all_length)
qed

theorem isoformat_round_trip:
  assumes "datetime_range t"
  shows "fromisoformat (isoformat_utc t) = Some (t, Some 0)"
proof -
  define us where "us = nat (t mod 1000000)"
  define sec where "sec = nat (t div 1000000 mod 86400)"
  obtain y m d where ymd: "ord2ymd (nat (day_number t)) = (y, m, d)" by (metis prod_cases3)
  have day: "ymd2ord y m d = nat (day_number t) \<and> valid_date y m d"
    by (rule ord2ymd_date [OF _ _ ymd]) (use assms in \<open>auto simp: datetime_range_def\<close>)
  have us: "us < 1000000" and sec: "sec < 86400" by (simp_all add: us_def sec_def nat_less_iff)
  have "month_days y ! (m - 1) \<le> 31" using day by (intro month_at_most_31) (auto simp: valid_date_def)
  then have date: "y < 10 ^ 4" "m < 10 ^ 2" "d < 10 ^ 2" using day by (auto simp: valid_date_def)
  have time: "sec div 3600 < 24" "sec div 60 mod 60 < 60" "sec mod 60 < 60" using sec by auto
  have "sec div 3600 = sec div 60 div 60" by (simp add: div_mult2_eq [symmetric])
  moreover have "(sec div 60 div 60 * 60 + sec div 60 mod 60) * 60 + sec mod 60 = sec" by simp
  ultimately have secs: "sec div 3600 * 3600 + sec div 60 mod 60 * 60 + sec mod 60 = sec"
    by (simp only: distrib_right mult.assoc)
  have range: "local_time (nat (day_number t)) sec us = t"
    using local_time_of [of t] assms by (simp add: us_def sec_def datetime_range_def)
  show ?thesis
    unfolding isoformat_utc_def Let_def ymd us_def [symmetric] sec_def [symmetric] fromisoformat_def
    using date time us day secs range by (cases "us = 0") (simp_all add: read_seconds_def)
qed

text \<open>
  The stored form has the offset replaced by Z, and the reader puts the offset back; the text
  holds no white space and is not empty.
\<close>

lemma starts_with_Cons: "starts_with (p # ps) (c # s) = (p = c \<and> starts_with ps s)"
  by simp

lemma replace_text_skip:
  "CHR ''+'' \<notin> set s \<Longrightarrow> replace_text ''+00:00'' r (s @ ''+00:00'') = s @ r"
  by (induction s) auto

lemma isoformat_utc_shape:
  obtains s where "isoformat_utc t = s @ ''+00:00''" "s \<noteq> []" "CHR ''+'' \<notin> set s" "CHR ''Z'' \<notin> set s"
    "\<And>c. c \<in> set s \<Longrightarrow> \<not> is_space c"
proof -
  define us where "us = nat (t mod 1000000)"
  define sec where "sec = nat (t div 1000000 mod 86400)"
  obtain y m d where ymd: "ord2ymd (nat (day_number t)) = (y, m, d)" by (metis prod_cases3)
  let ?s = "pad 4 y @ ''-'' @ pad 2 m @ ''-'' @ pad 2 d @ ''T''
             @ pad 2 (sec div 3600) @ '':'' @ pad 2 (sec div 60 mod 60) @ '':'' @ pad 2 (sec mod 60)
             @ (if us = 0 then [] else ''.'' @ pad 6 us)"
  have digit: "c \<in> set (pad k n) \<Longrightarrow> is_digit c" for c k n using pad_digits [of k n] by (auto simp: list_all_iff)
  have chars: "is_digit c \<or> c \<in> set ''-T:.''" if "c \<in> set ?s" for c
    using that by (auto dest: digit split: if_splits)
  show thesis
  proof (rule that)
    show "isoformat_utc t = ?s @ ''+00:00''"
      by (simp add: isoformat_utc_def Let_def ymd us_def sec_def)
    show "?s \<noteq> []" by simp
    have "\<not> (is_digit CHR ''+'' \<or> CHR ''+'' \<in> set ''-T:.'')" "\<not> (is_digit CHR ''Z'' \<or> CHR ''Z'' \<in> set ''-T:.'')"
      by simp_all
    then show "CHR ''+'' \<notin> set ?s" "CHR ''Z'' \<notin> set ?s" using chars by blast+
    show "\<not> is_space c" if "c \<in> set ?s" for c
    proof -
      have "is_digit c \<or> c \<in> {CHR ''-'', CHR ''T'', CHR '':'', CHR ''.''}" using chars [OF that] by auto
      then show ?thesis using digit_no_space by auto
    qed
  qed
qed

section \<open>JSON objects\<close>

text \<open>\<^verbatim>\<open>json.dump(..., sort_keys=True)\<close> on the value.\<close>

fun sort_keys :: "json \<Rightarrow> json" where
  "sort_keys (JList xs) = JList (map sort_keys xs)"
| "sort_keys (JObj d) = JObj (sort_key fst (map (\<lambda>e. (fst e, sort_keys (snd e))) d))"
| "sort_keys v = v"

end
