(* ===== verification/Model_Routing.thy ===== *)
theory Model_Routing
  imports Decimal Text_Codec
begin

text \<open>
  What a model call of the workflow may cost: the routing policies of the nodes
  (\<^verbatim>\<open>src/market_agent/workflow_model_routing.py\<close>), the prices of the models and the cost of a
  call by its token counts (\<^verbatim>\<open>src/market_agent/openai_usage.py\<close>). Prices and costs are decimals,
  computed with the rounding of the default context.
\<close>

section \<open>Routing policies\<close>

record ModelRouteTier =
  rt_model :: string
  rt_effort :: string

definition tier_check :: "ModelRouteTier \<Rightarrow> unit result" where
  "tier_check t =
     guarded
       [(rt_model t \<notin> {''gpt-5.6-luna'', ''gpt-5.6-terra'', ''gpt-5.6-sol''},
         ValueError ''unknown workflow model''),
        (rt_effort t \<notin> {''low'', ''medium'', ''high''}, ValueError ''invalid workflow effort'')]
       ()"

record AgentExecutionPolicy =
  ap_node_name :: string
  ap_tiers :: "ModelRouteTier list"
  ap_attempt_timeout_seconds :: int
  ap_node_timeout_seconds :: int
  ap_maximum_attempts_per_tier :: int
  ap_maximum_total_attempts :: int
  ap_maximum_output_tokens :: int
  ap_node_cost_cap :: rat
  ap_maximum_tool_calls :: int

definition policy_check :: "AgentExecutionPolicy \<Rightarrow> unit result" where
  "policy_check p =
     guarded
       [(ap_node_name p = [] \<or> ap_tiers p = [], ValueError ''workflow policy requires a node and tier''),
        (ap_attempt_timeout_seconds p \<le> 0 \<or> ap_node_timeout_seconds p < ap_attempt_timeout_seconds p,
         ValueError ''workflow policy timeout is invalid''),
        (ap_maximum_attempts_per_tier p \<le> 0 \<or> ap_maximum_total_attempts p \<le> 0,
         ValueError ''workflow policy attempt cap is invalid''),
        (ap_maximum_attempts_per_tier p * int (length (ap_tiers p)) < ap_maximum_total_attempts p,
         ValueError ''workflow policy attempt cap is unreachable''),
        (ap_maximum_output_tokens p \<le> 0 \<or> ap_maximum_tool_calls p < 0,
         ValueError ''workflow policy output or tool cap is invalid''),
        (ap_node_cost_cap p < 0, ValueError ''workflow policy cost cap is invalid'')]
       ()"

definition tier_LUNA :: ModelRouteTier where
  "tier_LUNA = \<lparr>rt_model = ''gpt-5.6-luna'', rt_effort = ''low''\<rparr>"

definition tier_TERRA :: ModelRouteTier where
  "tier_TERRA = \<lparr>rt_model = ''gpt-5.6-terra'', rt_effort = ''medium''\<rparr>"

definition tier_SOL :: ModelRouteTier where
  "tier_SOL = \<lparr>rt_model = ''gpt-5.6-sol'', rt_effort = ''high''\<rparr>"

definition agent_policy ::
  "string \<Rightarrow> ModelRouteTier list \<Rightarrow> int \<Rightarrow> int \<Rightarrow> int \<Rightarrow> int \<Rightarrow> int \<Rightarrow> rat \<Rightarrow> int \<Rightarrow> AgentExecutionPolicy"
where
  "agent_policy node tiers attempt_s node_s per_tier all_attempts out_tokens cap tools =
     \<lparr>ap_node_name = node, ap_tiers = tiers, ap_attempt_timeout_seconds = attempt_s,
      ap_node_timeout_seconds = node_s, ap_maximum_attempts_per_tier = per_tier,
      ap_maximum_total_attempts = all_attempts, ap_maximum_output_tokens = out_tokens,
      ap_node_cost_cap = cap, ap_maximum_tool_calls = tools\<rparr>"

text \<open>The caps are the decimals 0.02, 0.20, 0.08, 0.12, 0.10 and 0.25.\<close>

definition POLICIES :: "(string, AgentExecutionPolicy) dict" where
  "POLICIES =
     map (\<lambda>p. (ap_node_name p, p))
       [agent_policy ''event_filter'' [tier_LUNA] 20 55 2 2 600 (2 / 100) 0,
        agent_policy ''market_context'' [tier_TERRA, tier_LUNA] 60 150 2 3 1200 (20 / 100) 3,
        agent_policy ''fundamental'' [tier_TERRA, tier_LUNA] 35 95 2 3 900 (8 / 100) 0,
        agent_policy ''technical'' [tier_TERRA, tier_LUNA] 40 105 2 3 1400 (12 / 100) 0,
        agent_policy ''decision_planner'' [tier_TERRA, tier_LUNA] 30 85 2 3 1100 (10 / 100) 0,
        agent_policy ''escalation'' [tier_SOL, tier_TERRA, tier_LUNA] 60 155 2 4 1400 (25 / 100) 0,
        agent_policy ''reflect_decision'' [tier_LUNA] 20 45 1 1 400 (2 / 100) 0,
        agent_policy ''reflect_escalation_if_used'' [tier_LUNA] 20 45 1 1 400 (2 / 100) 0,
        agent_policy ''reflect_coordinator_summary'' [tier_LUNA] 20 45 1 1 400 (2 / 100) 0]"

text \<open>\<^verbatim>\<open>policy_for\<close>; an unknown node raises, here \<open>None\<close>.\<close>

definition policy_for :: "string \<Rightarrow> AgentExecutionPolicy option" where
  "policy_for node = dict_get POLICIES node"

section \<open>Prices and costs\<close>

record ModelPricing =
  mp_input :: rat
  mp_cached_input :: rat
  mp_cache_write :: rat
  mp_output :: rat

record UsageTokens =
  ut_input_tokens :: int
  ut_cached_input_tokens :: int
  ut_cache_write_tokens :: int
  ut_output_tokens :: int
  ut_web_search_tool_calls :: int

definition usage_counts :: "UsageTokens \<Rightarrow> int list" where
  "usage_counts u =
     [ut_input_tokens u, ut_cached_input_tokens u, ut_cache_write_tokens u, ut_output_tokens u,
      ut_web_search_tool_calls u]"

definition usage_check :: "UsageTokens \<Rightarrow> UsageTokens result" where
  "usage_check u =
     guarded
       [(list_ex (\<lambda>v. v < 0) (usage_counts u),
         ValueError ''usage token counts must be non-negative integers''),
        (ut_input_tokens u < ut_cached_input_tokens u,
         ValueError ''cached input tokens cannot exceed input tokens'')]
       u"

abbreviation valid_usage :: "UsageTokens \<Rightarrow> bool" where
  "valid_usage u \<equiv> usage_check u = Inr u"

definition WORKFLOW_MODEL_PRICING_USD_PER_1M :: "(string, (string, ModelPricing) dict) dict" where
  "WORKFLOW_MODEL_PRICING_USD_PER_1M =
     (let price = (\<lambda>i c w q. \<lparr>mp_input = i, mp_cached_input = c, mp_cache_write = w, mp_output = q\<rparr>)
      in [(''gpt-5.6-sol'', [(''short'', price 4 (40 / 100) 5 20), (''long'', price 8 (80 / 100) 10 30)]),
          (''gpt-5.6-terra'', [(''short'', price 2 (20 / 100) (250 / 100) 12),
                               (''long'', price 4 (40 / 100) 5 18)]),
          (''gpt-5.6-luna'', [(''short'', price (20 / 100) (2 / 100) (25 / 100) (120 / 100)),
                              (''long'', price (40 / 100) (4 / 100) (50 / 100) (180 / 100))])])"

definition workflow_model_pricing :: "string \<Rightarrow> string \<Rightarrow> ModelPricing result" where
  "workflow_model_pricing model band =
     (case dict_get WORKFLOW_MODEL_PRICING_USD_PER_1M model of
        None \<Rightarrow> Inl (ValueError ''unknown workflow model'')
      | Some bands \<Rightarrow>
          (case dict_get bands band of
             None \<Rightarrow> Inl (ValueError ''workflow pricing band must be explicit'')
           | Some p \<Rightarrow> Inr p))"

text \<open>The variable \<^verbatim>\<open>OPENAI_WEB_SEARCH_TOOL_PRICE_PER_1K_USD\<close> of the environment is an argument.\<close>

definition web_search_tool_price :: "string option \<Rightarrow> rat result" where
  "web_search_tool_price env =
     (let raw_price = py_strip (case env of None \<Rightarrow> ''10.0'' | Some v \<Rightarrow> v);
          bad = Inl (ValueError ''web search tool price must be a non-negative finite decimal'')
      in case decimal_literal raw_price of
           Finite p \<Rightarrow> if p < 0 then bad else Inr p
         | _ \<Rightarrow> bad)"

definition usage_cost :: "ModelPricing \<Rightarrow> UsageTokens \<Rightarrow> rat \<Rightarrow> rat" where
  "usage_cost p u tool_price =
     (let tokens = (\<lambda>n price. dmul (of_int n) price);
          uncached = ut_input_tokens u - ut_cached_input_tokens u
      in dadd
           (ddiv
             (dadd
               (dadd
                 (dadd (tokens uncached (mp_input p))
                   (tokens (ut_cached_input_tokens u) (mp_cached_input p)))
                 (tokens (ut_cache_write_tokens u) (mp_cache_write p)))
               (tokens (ut_output_tokens u) (mp_output p)))
             1000000)
           (ddiv (dmul (of_int (ut_web_search_tool_calls u)) tool_price) 1000))"

definition estimate_workflow_usage_cost ::
  "string option \<Rightarrow> string \<Rightarrow> string \<Rightarrow> UsageTokens \<Rightarrow> rat option \<Rightarrow> rat result"
where
  "estimate_workflow_usage_cost env model band u price =
     (if (case price of None \<Rightarrow> False | Some p \<Rightarrow> p < 0)
      then Inl (ValueError ''web search tool price must be a non-negative finite decimal'')
      else rbind (workflow_model_pricing model band) (\<lambda>pricing.
           rbind (case price of None \<Rightarrow> web_search_tool_price env | Some p \<Rightarrow> Inr p) (\<lambda>tool_price.
           Inr (usage_cost pricing u tool_price))))"

section \<open>The tables\<close>


lemma policies_table:
  "list_all (\<lambda>e. policy_check (snd e) = Inr () \<and> ap_node_name (snd e) = fst e
     \<and> list_all (\<lambda>t. tier_check t = Inr ()) (ap_tiers (snd e))) POLICIES"
  by code_simp

lemma policies_checked:
  assumes "policy_for node = Some p"
  shows "policy_check p = Inr ()" "ap_node_name p = node"
proof -
  have "(node, p) \<in> set POLICIES" using assms by (simp add: policy_for_def map_of_SomeD)
  then show "policy_check p = Inr ()" "ap_node_name p = node"
    using policies_table by (auto simp: list_all_iff)
qed

lemma pricing_cases:
  assumes "workflow_model_pricing model band = Inr p"
  shows "0 \<le> mp_input p \<and> 0 \<le> mp_cached_input p \<and> 0 \<le> mp_cache_write p \<and> 0 \<le> mp_output p
    \<and> mp_cached_input p \<le> mp_input p
    \<and> has_places 2 (mp_input p) \<and> has_places 2 (mp_cached_input p)
    \<and> has_places 2 (mp_cache_write p) \<and> has_places 2 (mp_output p)"
  using assms
  unfolding workflow_model_pricing_def WORKFLOW_MODEL_PRICING_USD_PER_1M_def
  by (auto simp: has_places_def split: if_splits)

section \<open>Costs: signs, monotonicity and places\<close>

lemma valid_usage_iff:
  "valid_usage u \<longleftrightarrow> 0 \<le> ut_cached_input_tokens u \<and> 0 \<le> ut_cache_write_tokens u
     \<and> 0 \<le> ut_output_tokens u \<and> 0 \<le> ut_web_search_tool_calls u
     \<and> ut_cached_input_tokens u \<le> ut_input_tokens u"
  by (auto simp: usage_check_def usage_counts_def guarded_Inr)

lemma usage_cost_ge0:
  assumes "workflow_model_pricing model band = Inr p" "valid_usage u" "0 \<le> price"
  shows "0 \<le> usage_cost p u price"
proof -
  note pos = pricing_cases [OF assms(1)] and u = assms(2) [unfolded valid_usage_iff]
  have summand: "0 \<le> dmul (of_int n) q" if "0 \<le> n" "0 \<le> q" for n q
    using that by (simp add: dmul_ge0)
  have plus: "0 \<le> dadd a b" if "0 \<le> a" "0 \<le> b" for a b
    using that by (simp add: dadd_ge0)
  have quot: "0 \<le> ddiv a b" if "0 \<le> a" "0 < b" for a b
    using that by (simp add: ddiv_ge0)
  show ?thesis
    unfolding usage_cost_def Let_def
    by (intro plus quot summand) (use pos u assms(3) in auto)
qed

lemma usage_cost_mono:
  assumes "workflow_model_pricing model band = Inr p" "0 \<le> price"
    and "ut_input_tokens u - ut_cached_input_tokens u \<le> ut_input_tokens v - ut_cached_input_tokens v"
    and "ut_cached_input_tokens u \<le> ut_cached_input_tokens v"
    and "ut_cache_write_tokens u \<le> ut_cache_write_tokens v"
    and "ut_output_tokens u \<le> ut_output_tokens v"
    and "ut_web_search_tool_calls u \<le> ut_web_search_tool_calls v"
  shows "usage_cost p u price \<le> usage_cost p v price"
proof -
  note pos = pricing_cases [OF assms(1)]
  have summand: "dmul (of_int m) q \<le> dmul (of_int n) q" if "m \<le> n" "0 \<le> q" for m n q
    unfolding dmul_def using that by (intro dec.rnd_mono mult_right_mono) auto
  have plus: "dadd a b \<le> dadd c d" if "a \<le> c" "b \<le> d" for a b c d
    unfolding dadd_def using that by (intro dec.rnd_mono add_mono)
  have quot: "ddiv a b \<le> ddiv c b" if "a \<le> c" "0 < b" for a b c
    unfolding ddiv_def using that by (intro dec.rnd_mono divide_right_mono) auto
  show ?thesis
    unfolding usage_cost_def Let_def
    by (intro plus quot summand) (use pos assms in auto)
qed

text \<open>
  Rounding to 28 digits never makes a decimal with \<open>k\<close> places need more of them: a value that fits is
  kept, and a longer one is rounded to a multiple of a larger power of ten.
\<close>

lemma has_places_iff: "has_places k x \<longleftrightarrow> (\<exists>i. x * 10 ^ k = of_int i)"
  unfolding has_places_def by (metis floor_of_int)

lemma has_places_add: "has_places k x \<Longrightarrow> has_places k y \<Longrightarrow> has_places k (x + y)"
  unfolding has_places_iff by (metis distrib_right of_int_add)

lemma has_places_minus: "has_places k x \<Longrightarrow> has_places k (- x)"
  unfolding has_places_iff by (metis mult_minus_left of_int_minus)

lemma has_places_mono:
  assumes "has_places k x" "k \<le> n"
  shows "has_places n x"
proof -
  from assms(1) obtain i where i: "x * 10 ^ k = of_int i" by (auto simp: has_places_iff)
  have "x * 10 ^ n = x * 10 ^ k * 10 ^ (n - k)" using assms(2) by (simp flip: power_add)
  then have "x * 10 ^ n = of_int (i * 10 ^ (n - k))" by (simp add: i)
  then show ?thesis unfolding has_places_iff by blast
qed

lemma has_places_times_int: "has_places k x \<Longrightarrow> has_places k (of_int n * x)"
  unfolding has_places_iff by (metis mult.assoc of_int_mult)

lemma has_places_div:
  assumes "has_places k x"
  shows "has_places (k + n) (x / 10 ^ n)"
  using assms by (simp add: has_places_iff power_add)

lemma has_places_0 [simp]: "has_places k 0"
  by (simp add: has_places_def)

lemma dround_fits:
  assumes "has_places k x" "\<bar>x\<bar> * 10 ^ k < 10 ^ 28"
  shows "dround x = x"
proof -
  from assms(1) obtain i where i: "x * 10 ^ k = of_int i" by (auto simp: has_places_iff)
  then have "of_int \<bar>i\<bar> = \<bar>x\<bar> * 10 ^ k" by (simp add: abs_mult flip: i)
  then have "\<bar>i\<bar> < 10 ^ 28" using assms(2) by (metis of_int_less_iff of_int_numeral of_int_power)
  with i show ?thesis by (rule dround_exact)
qed

lemma has_places_dround:
  assumes "has_places k x"
  shows "has_places k (dround x)"
proof -
  have pos: "has_places k (dround y)" if y: "has_places k y" "0 < y" for y
  proof (cases "y * 10 ^ k < 10 ^ 28")
    case True
    then show ?thesis using dround_fits [of k y] y by simp
  next
    case False
    let ?e = "ilog 10 y"
    obtain m where m: "dround y = of_int m * of_nat 10 powi (?e - (int 28 - 1))"
      using round_sig_pos [of 10 28 y] y(2) by auto
    have "(10 :: rat) powi (28 - int k) \<le> y"
      using False by (simp add: power_int_diff field_simps)
    also have "y < of_nat 10 powi (?e + 1)" using ilog_bounds [of 10 y] y(2) by simp
    finally have "28 - int k < ?e + 1" using powi_less_imp [of 10 "28 - int k" "?e + 1"] by simp
    then have j: "?e - 27 + int k = int (nat (?e - 27 + int k))" by simp
    have "dround y * 10 ^ k = of_int m * (10 powi (?e - 27) * 10 ^ k)" by (simp add: m)
    also have "(10 :: rat) powi (?e - 27) * 10 ^ k = 10 powi (?e - 27 + int k)"
      using powi_times_power [of 10 "?e - 27" k] by (simp add: add.commute)
    also have "\<dots> = 10 ^ nat (?e - 27 + int k)" by (subst j) (simp only: power_int_of_nat)
    finally have "dround y * 10 ^ k = of_int (m * 10 ^ nat (?e - 27 + int k))" by simp
    then show ?thesis unfolding has_places_iff by blast
  qed
  consider "x = 0" | "0 < x" | "0 < - x" by linarith
  then show ?thesis
  proof cases
    case 3
    then have "has_places k (dround (- x))" using pos has_places_minus [OF assms] by blast
    then show ?thesis using has_places_minus by (fastforce simp: dec.rnd_minus)
  qed (use pos assms in simp_all)
qed

lemma usage_cost_places:
  assumes "workflow_model_pricing model band = Inr p" "has_places k price" "5 \<le> k"
  shows "has_places (k + 3) (usage_cost p u price)"
proof -
  note places = pricing_cases [OF assms(1)]
  have tokens: "has_places 2 (dmul (of_int n) q)" if "has_places 2 q" for n q
    unfolding dmul_def using that by (intro has_places_dround has_places_times_int)
  have plus: "has_places j (dadd a b)" if "has_places j a" "has_places j b" for j a b
    unfolding dadd_def using that by (intro has_places_dround has_places_add)
  have million: "has_places (k + 3) (ddiv a 1000000)" if "has_places 2 a" for a
    using has_places_mono [OF has_places_dround [OF has_places_div [OF that, of 6]], of "k + 3"] assms(3)
    by (simp add: ddiv_def)
  have searches: "has_places (k + 3) (ddiv (dmul (of_int n) price) 1000)" for n
    using has_places_dround [OF has_places_div [OF has_places_dround [OF has_places_times_int [OF assms(2)]], of 3]]
    by (simp add: ddiv_def dmul_def)
  show ?thesis
    unfolding usage_cost_def Let_def
    by (intro plus million searches tokens) (use places in auto)
qed

end
