(* ===== verification/Budget_Ledger.thy ===== *)
theory Budget_Ledger
  imports Model_Routing Harness_Contracts Scoped_Runs
begin

text \<open>
  The budget of a workflow run (\<^verbatim>\<open>src/market_agent/workflow_budget.py\<close>): before every model call the
  ledger reserves the most the call can cost, and afterwards settles what it did cost. The object's
  fields are a record passed through the operations; every operation holds the ledger's lock from
  its first read to its last write, so that the calls of the threads form one sequence.

  The clock is read by the caller of an operation and given to it, together with the environment,
  the identifier that \<^verbatim>\<open>uuid4\<close> makes and the identity of the reservation object that is allocated:
  the ledger compares reservations by identity, so that two objects with equal fields are told
  apart. The argument checks by type (\<^verbatim>\<open>isinstance\<close>) hold by typing.
\<close>

section \<open>Data\<close>

record BudgetReservation =
  br_reservation_id :: string
  br_node_name :: string
  br_model :: string
  br_band :: string
  br_reserved_cost :: rat
  br_deadline_monotonic :: rat
  br_ledger_nonce :: nat
  br_reserved_usage :: UsageTokens
  br_web_search_tool_price :: rat
  br_identity :: nat            \<comment> \<open>which object it is\<close>

record BudgetSettlement =
  bs_reservation_id :: string
  bs_charged_cost :: rat
  bs_timeout :: bool

datatype budget_error =
    BudgetExceededError string
  | BudgetOverflowError string BudgetSettlement
  | ReservationOwnershipError string
  | ReservationStateError string
  | UnknownWorkflowNodeError string
  | Raised py_error

record NodeBudget =
  nb_policy :: AgentExecutionPolicy
  nb_started_monotonic :: rat
  nb_deadline_monotonic :: rat
  nb_reserved_cost :: rat
  nb_settled_cost :: rat
  nb_attempts :: int
  nb_tier_attempts :: "(string, int) dict"
  nb_exhausted :: bool
  nb_overdrawn :: bool

record NodeBudgetSnapshot =
  ns_node_name :: string
  ns_remaining_cost :: rat
  ns_reserved_cost :: rat
  ns_settled_cost :: rat
  ns_remaining_attempts :: int
  ns_remaining_seconds :: rat
  ns_exhausted :: bool
  ns_overdrawn :: bool

record BudgetSnapshot =
  sn_mode :: WorkflowMode
  sn_remaining_cost :: rat
  sn_reserved_cost :: rat
  sn_settled_cost :: rat
  sn_remaining_attempts :: int
  sn_remaining_seconds :: rat
  sn_deadline_monotonic :: rat
  sn_nodes :: "NodeBudgetSnapshot list"
  sn_exhausted :: bool
  sn_overdrawn :: bool

text \<open>Seconds, attempts and dollars: 300 and 0.75 for active runs, 130 and 0.30 for passive ones.\<close>

fun WORKFLOW_CAPS :: "WorkflowMode \<Rightarrow> rat \<times> int \<times> rat" where
  "WORKFLOW_CAPS ACTIVE = (300, 10, 75 / 100)"
| "WORKFLOW_CAPS PASSIVE = (130, 10, 30 / 100)"

record WorkflowBudgetLedger =
  wl_mode :: WorkflowMode
  wl_nonce :: nat
  wl_last_monotonic :: rat
  wl_maximum_attempts :: int
  wl_cost_cap :: rat
  wl_deadline_monotonic :: rat
  wl_reserved_cost :: rat
  wl_settled_cost :: rat
  wl_attempts :: int
  wl_nodes :: "(string, NodeBudget) dict"
  wl_active :: "(string, BudgetReservation) dict"
  wl_completed :: "string list"      \<comment> \<open>a set\<close>
  wl_exhausted :: bool
  wl_overdrawn :: bool

section \<open>The clock and the construction\<close>

datatype clock_value = Clock_int int | Clock_float rat | Clock_other

text \<open>\<^verbatim>\<open>Clock_other\<close> is what the check refuses: a bool, something that is no number, an infinity or NaN.\<close>

fun read_clock :: "clock_value \<Rightarrow> rat result" where
  "read_clock (Clock_int n) = Inr (fround (of_int n))"
| "read_clock (Clock_float x) = Inr x"
| "read_clock Clock_other = Inl (ValueError ''workflow clock must return finite monotonic seconds'')"

definition ledger_now :: "clock_value \<Rightarrow> WorkflowBudgetLedger \<Rightarrow> (rat \<times> WorkflowBudgetLedger) result" where
  "ledger_now clock l =
     rbind (read_clock clock) (\<lambda>current.
       if current < wl_last_monotonic l then Inl (ValueError ''monotonic clock moved backwards'')
       else Inr (current, l\<lparr>wl_last_monotonic := current\<rparr>))"

definition workflow_mode_of :: "WorkflowMode + string \<Rightarrow> WorkflowMode result" where
  "workflow_mode_of mode =
     (case mode of
        Inl m \<Rightarrow> Inr m
      | Inr t \<Rightarrow>
          if t = ''active'' then Inr ACTIVE else if t = ''passive'' then Inr PASSIVE
          else Inl (ValueError ''unknown workflow mode''))"

definition new_ledger :: "WorkflowMode + string \<Rightarrow> nat \<Rightarrow> clock_value \<Rightarrow> WorkflowBudgetLedger result" where
  "new_ledger mode nonce clock =
     rbind (workflow_mode_of mode) (\<lambda>m.
     rbind (read_clock clock) (\<lambda>start.
     case WORKFLOW_CAPS m of
       (cap_seconds, maximum_attempts, cost_cap) \<Rightarrow>
         Inr \<lparr>wl_mode = m, wl_nonce = nonce, wl_last_monotonic = start,
              wl_maximum_attempts = maximum_attempts, wl_cost_cap = cost_cap,
              wl_deadline_monotonic = fround (start + cap_seconds),
              wl_reserved_cost = 0, wl_settled_cost = 0, wl_attempts = 0, wl_nodes = [],
              wl_active = [], wl_completed = [], wl_exhausted = False, wl_overdrawn = False\<rparr>))"

section \<open>Reserving\<close>

record reserve_request =
  rq_node_name :: string
  rq_model :: string
  rq_band :: string
  rq_usage :: UsageTokens
  rq_maximum_tool_calls :: int
  rq_attempt_timeout_seconds :: "int option"

text \<open>The checks before the lock is taken; they give the policy and the timeout.\<close>

definition positive_int :: "int \<Rightarrow> string \<Rightarrow> int result" where
  "positive_int v field =
     (if v \<le> 0 then Inl (ValueError (field @ '' must be a positive integer'')) else Inr v)"

definition nonnegative_int :: "int \<Rightarrow> string \<Rightarrow> int result" where
  "nonnegative_int v field =
     (if v < 0 then Inl (ValueError (field @ '' must be a non-negative integer'')) else Inr v)"

definition raising :: "'a result \<Rightarrow> budget_error + 'a" where
  "raising r = (case r of Inl e \<Rightarrow> Inl (Raised e) | Inr v \<Rightarrow> Inr v)"

definition admit :: "reserve_request \<Rightarrow> budget_error + AgentExecutionPolicy \<times> int" where
  "admit rq =
     (case policy_for (rq_node_name rq) of
        None \<Rightarrow> Inl (UnknownWorkflowNodeError (''unknown workflow node: '' @ rq_node_name rq))
      | Some policy \<Rightarrow>
          if rq_model rq \<notin> set (map rt_model (ap_tiers policy))
          then Inl (Raised (ValueError ''model is not allowed for workflow node''))
          else rbind (raising (nonnegative_int (rq_maximum_tool_calls rq) ''maximum_tool_calls'')) (\<lambda>tools.
          if ap_maximum_tool_calls policy < tools
          then Inl (BudgetExceededError ''node tool call cap exceeded'')
          else if ap_maximum_output_tokens policy < ut_output_tokens (rq_usage rq)
          then Inl (BudgetExceededError ''node output token cap exceeded'')
          else rbind
            (case rq_attempt_timeout_seconds rq of
               None \<Rightarrow> Inr (ap_attempt_timeout_seconds policy)
             | Some s \<Rightarrow> raising (positive_int s ''attempt_timeout_seconds'')) (\<lambda>timeout.
          if ap_attempt_timeout_seconds policy < timeout
          then Inl (BudgetExceededError ''attempt timeout exceeds node cap'')
          else Inr (policy, timeout))))"

text \<open>The most the call can cost: its usage with the tool calls it may make.\<close>

definition quote_call :: "string option \<Rightarrow> reserve_request \<Rightarrow> (UsageTokens \<times> rat \<times> rat) result" where
  "quote_call env rq =
     rbind (usage_check ((rq_usage rq)\<lparr>ut_web_search_tool_calls := rq_maximum_tool_calls rq\<rparr>)) (\<lambda>usage.
     rbind (web_search_tool_price env) (\<lambda>price.
     rbind (estimate_workflow_usage_cost env (rq_model rq) (rq_band rq) usage (Some price)) (\<lambda>cost.
     Inr (usage, price, cost))))"

definition fresh_node :: "AgentExecutionPolicy \<Rightarrow> rat \<Rightarrow> rat \<Rightarrow> NodeBudget" where
  "fresh_node policy started deadline =
     \<lparr>nb_policy = policy, nb_started_monotonic = started, nb_deadline_monotonic = deadline,
      nb_reserved_cost = 0, nb_settled_cost = 0, nb_attempts = 0, nb_tier_attempts = [],
      nb_exhausted = False, nb_overdrawn = False\<rparr>"

definition tier_count :: "NodeBudget \<Rightarrow> string \<Rightarrow> int" where
  "tier_count node model = (case dict_get (nb_tier_attempts node) model of None \<Rightarrow> 0 | Some n \<Rightarrow> n)"

text \<open>
  The node's budget, or that of a node that starts now: the code reads the same values from either.
\<close>

definition node_budget :: "AgentExecutionPolicy \<Rightarrow> rat \<Rightarrow> string \<Rightarrow> WorkflowBudgetLedger \<Rightarrow> NodeBudget" where
  "node_budget policy now name l =
     (case dict_get (wl_nodes l) name of
        None \<Rightarrow> fresh_node policy now (fround (now + of_int (ap_node_timeout_seconds policy)))
      | Some node \<Rightarrow> node)"

definition refusal ::
  "AgentExecutionPolicy \<Rightarrow> int \<Rightarrow> string \<Rightarrow> rat \<Rightarrow> rat \<Rightarrow> NodeBudget \<Rightarrow> WorkflowBudgetLedger \<Rightarrow> budget_error option"
where
  "refusal policy timeout model cost now node l =
     (let until = fround (now + of_int timeout)
      in first_error
        [(wl_exhausted l, BudgetExceededError ''workflow budget exhausted''),
         (nb_policy node \<noteq> policy, ReservationStateError ''node policy changed''),
         (nb_deadline_monotonic node \<le> now \<or> wl_deadline_monotonic l \<le> now,
          BudgetExceededError ''workflow deadline exhausted''),
         (nb_deadline_monotonic node < until \<or> wl_deadline_monotonic l < until,
          BudgetExceededError ''attempt timeout exceeds remaining deadline''),
         (wl_maximum_attempts l \<le> wl_attempts l \<or> ap_maximum_total_attempts policy \<le> nb_attempts node,
          BudgetExceededError ''attempt cap exhausted''),
         (ap_maximum_attempts_per_tier policy \<le> tier_count node model,
          BudgetExceededError ''model tier attempt cap exhausted''),
         (wl_cost_cap l < dadd (dadd (wl_settled_cost l) (wl_reserved_cost l)) cost,
          BudgetExceededError ''workflow cost cap exceeded''),
         (ap_node_cost_cap policy < dadd (dadd (nb_settled_cost node) (nb_reserved_cost node)) cost,
          BudgetExceededError ''node cost cap exceeded'')])"

definition make_reservation ::
  "string \<Rightarrow> nat \<Rightarrow> reserve_request \<Rightarrow> UsageTokens \<Rightarrow> rat \<Rightarrow> rat \<Rightarrow> int \<Rightarrow> rat \<Rightarrow> NodeBudget
     \<Rightarrow> WorkflowBudgetLedger \<Rightarrow> BudgetReservation"
where
  "make_reservation uid identity rq usage price cost timeout now node l =
     \<lparr>br_reservation_id = uid, br_node_name = rq_node_name rq, br_model = rq_model rq,
      br_band = rq_band rq, br_reserved_cost = cost,
      br_deadline_monotonic =
        min (min (fround (now + of_int timeout)) (nb_deadline_monotonic node)) (wl_deadline_monotonic l),
      br_ledger_nonce = wl_nonce l, br_reserved_usage = usage,
      br_web_search_tool_price = price, br_identity = identity\<rparr>"

definition book :: "BudgetReservation \<Rightarrow> NodeBudget \<Rightarrow> WorkflowBudgetLedger \<Rightarrow> WorkflowBudgetLedger" where
  "book r node l =
     (let cost = br_reserved_cost r; model = br_model r;
          node' = node\<lparr>nb_reserved_cost := dadd (nb_reserved_cost node) cost,
                       nb_attempts := nb_attempts node + 1,
                       nb_tier_attempts := dict_put model (tier_count node model + 1) (nb_tier_attempts node)\<rparr>
      in l\<lparr>wl_nodes := dict_put (br_node_name r) node' (wl_nodes l),
           wl_active := dict_put (br_reservation_id r) r (wl_active l),
           wl_reserved_cost := dadd (wl_reserved_cost l) cost,
           wl_attempts := wl_attempts l + 1\<rparr>)"

definition reserve ::
  "string option \<Rightarrow> clock_value \<Rightarrow> string \<Rightarrow> nat \<Rightarrow> reserve_request \<Rightarrow> WorkflowBudgetLedger
     \<Rightarrow> (budget_error + BudgetReservation) \<times> WorkflowBudgetLedger"
where
  "reserve env clock uid identity rq l =
     (case admit rq of
        Inl e \<Rightarrow> (Inl e, l)
      | Inr (policy, timeout) \<Rightarrow>
     (case quote_call env rq of
        Inl e \<Rightarrow> (Inl (Raised e), l)
      | Inr (usage, price, cost) \<Rightarrow>
     (case ledger_now clock l of
        Inl e \<Rightarrow> (Inl (Raised e), l)
      | Inr (now, l1) \<Rightarrow>
          (let node = node_budget policy now (rq_node_name rq) l1
           in case refusal policy timeout (rq_model rq) cost now node l1 of
                Some e \<Rightarrow> (Inl e, l1)
              | None \<Rightarrow>
                  (let r = make_reservation uid identity rq usage price cost timeout now node l1
                   in (Inr r, book r node l1))))))"

section \<open>Settling\<close>

definition active_reservation :: "BudgetReservation \<Rightarrow> WorkflowBudgetLedger \<Rightarrow> budget_error + BudgetReservation" where
  "active_reservation r l =
     (if br_ledger_nonce r \<noteq> wl_nonce l
      then Inl (ReservationOwnershipError ''reservation does not belong to this ledger'')
      else case dict_get (wl_active l) (br_reservation_id r) of
        None \<Rightarrow>
          if br_reservation_id r \<in> set (wl_completed l)
          then Inl (ReservationStateError ''reservation has already been settled'')
          else Inl (ReservationOwnershipError ''reservation is stale'')
      | Some current \<Rightarrow>
          if br_identity current \<noteq> br_identity r
          then Inl (ReservationOwnershipError ''reservation identity is invalid'')
          else Inr current)"

definition close_book ::
  "BudgetReservation \<Rightarrow> NodeBudget \<Rightarrow> rat \<Rightarrow> bool \<Rightarrow> WorkflowBudgetLedger \<Rightarrow> WorkflowBudgetLedger"
where
  "close_book current node charged over l =
     (let cost = br_reserved_cost current;
          node' = node\<lparr>nb_reserved_cost := dsub (nb_reserved_cost node) cost,
                       nb_settled_cost := dadd (nb_settled_cost node) charged,
                       nb_exhausted := nb_exhausted node \<or> over,
                       nb_overdrawn := nb_overdrawn node \<or> over\<rparr>
      in l\<lparr>wl_active := dict_pop (br_reservation_id current) (wl_active l),
           wl_completed := List.insert (br_reservation_id current) (wl_completed l),
           wl_reserved_cost := dsub (wl_reserved_cost l) cost,
           wl_settled_cost := dadd (wl_settled_cost l) charged,
           wl_nodes := dict_put (br_node_name current) node' (wl_nodes l),
           wl_exhausted := wl_exhausted l \<or> over,
           wl_overdrawn := wl_overdrawn l \<or> over\<rparr>)"

definition close_reservation ::
  "BudgetReservation \<Rightarrow> rat \<Rightarrow> bool \<Rightarrow> bool \<Rightarrow> WorkflowBudgetLedger
     \<Rightarrow> (budget_error + BudgetSettlement \<times> bool) \<times> WorkflowBudgetLedger"
where
  "close_reservation r charged timeout overflowed l =
     (if charged < 0 then (Inl (Raised (ValueError ''settlement cost is invalid'')), l)
      else case active_reservation r l of
        Inl e \<Rightarrow> (Inl e, l)
      | Inr current \<Rightarrow>
     (case dict_get (wl_nodes l) (br_node_name current) of
        None \<Rightarrow> (Inl (Raised (KeyError (br_node_name current))), l)
      | Some node \<Rightarrow>
          (let over = (overflowed \<or> br_reserved_cost current < charged)
           in (Inr (\<lparr>bs_reservation_id = br_reservation_id current, bs_charged_cost = charged,
                     bs_timeout = timeout\<rparr>, over),
               close_book current node charged over l))))"

definition usage_overflowed :: "UsageTokens \<Rightarrow> UsageTokens \<Rightarrow> bool" where
  "usage_overflowed actual reserved =
     list_ex (\<lambda>(a, r). r < a) (zip (usage_counts actual) (usage_counts reserved))"

definition settle ::
  "BudgetReservation \<Rightarrow> UsageTokens \<Rightarrow> WorkflowBudgetLedger
     \<Rightarrow> (budget_error + BudgetSettlement) \<times> WorkflowBudgetLedger"
where
  "settle r usage l =
     (case active_reservation r l of
        Inl e \<Rightarrow> (Inl e, l)
      | Inr current \<Rightarrow>
     (case estimate_workflow_usage_cost None (br_model current) (br_band current) usage
             (Some (br_web_search_tool_price current)) of
        Inl e \<Rightarrow> (Inl (Raised e), l)
      | Inr charged \<Rightarrow>
     (case close_reservation current charged False (usage_overflowed usage (br_reserved_usage current)) l of
        (Inl e, l') \<Rightarrow> (Inl e, l')
      | (Inr (settlement, overflowed), l') \<Rightarrow>
          if overflowed then (Inl (BudgetOverflowError ''actual usage exceeds reservation'' settlement), l')
          else (Inr settlement, l'))))"

text \<open>A timed-out call is charged its whole reservation, whatever usage is reported for it.\<close>

definition consume_timeout ::
  "BudgetReservation \<Rightarrow> UsageTokens option \<Rightarrow> WorkflowBudgetLedger
     \<Rightarrow> (budget_error + BudgetSettlement) \<times> WorkflowBudgetLedger"
where
  "consume_timeout r usage l =
     (case active_reservation r l of
        Inl e \<Rightarrow> (Inl e, l)
      | Inr current \<Rightarrow>
     (case close_reservation current (br_reserved_cost current) True False l of
        (Inl e, l') \<Rightarrow> (Inl e, l')
      | (Inr (settlement, _), l') \<Rightarrow> (Inr settlement, l')))"

section \<open>Snapshots\<close>

definition node_remaining_attempts :: "int \<Rightarrow> NodeBudget \<Rightarrow> int" where
  "node_remaining_attempts global_remaining node =
     min (min global_remaining (max 0 (ap_maximum_total_attempts (nb_policy node) - nb_attempts node)))
       (sum_list (map (\<lambda>t. max 0 (ap_maximum_attempts_per_tier (nb_policy node) - tier_count node (rt_model t)))
         (ap_tiers (nb_policy node))))"

definition node_snapshot :: "rat \<Rightarrow> int \<Rightarrow> string \<times> NodeBudget \<Rightarrow> NodeBudgetSnapshot" where
  "node_snapshot now global_remaining e =
     (case e of (name, node) \<Rightarrow>
        \<lparr>ns_node_name = name,
         ns_remaining_cost = max 0 (dsub (dsub (ap_node_cost_cap (nb_policy node)) (nb_reserved_cost node))
                                      (nb_settled_cost node)),
         ns_reserved_cost = nb_reserved_cost node, ns_settled_cost = nb_settled_cost node,
         ns_remaining_attempts = node_remaining_attempts global_remaining node,
         ns_remaining_seconds = max 0 (fround (nb_deadline_monotonic node - now)),
         ns_exhausted = nb_exhausted node, ns_overdrawn = nb_overdrawn node\<rparr>)"

definition ledger_snapshot :: "clock_value \<Rightarrow> WorkflowBudgetLedger \<Rightarrow> BudgetSnapshot result \<times> WorkflowBudgetLedger" where
  "ledger_snapshot clock l =
     (case ledger_now clock l of
        Inl e \<Rightarrow> (Inl e, l)
      | Inr (now, l1) \<Rightarrow>
          (let remaining = max 0 (wl_maximum_attempts l1 - wl_attempts l1)
           in (Inr \<lparr>sn_mode = wl_mode l1,
                    sn_remaining_cost = max 0 (dsub (dsub (wl_cost_cap l1) (wl_reserved_cost l1)) (wl_settled_cost l1)),
                    sn_reserved_cost = wl_reserved_cost l1, sn_settled_cost = wl_settled_cost l1,
                    sn_remaining_attempts = remaining,
                    sn_remaining_seconds = max 0 (fround (wl_deadline_monotonic l1 - now)),
                    sn_deadline_monotonic = wl_deadline_monotonic l1,
                    sn_nodes = map (node_snapshot now remaining) (sort_key fst (wl_nodes l1)),
                    sn_exhausted = wl_exhausted l1, sn_overdrawn = wl_overdrawn l1\<rparr>, l1)))"

section \<open>Runs of calls\<close>

datatype ledger_call =
    Reserve "string option" clock_value string nat reserve_request
  | Settle BudgetReservation UsageTokens
  | Consume_timeout BudgetReservation "UsageTokens option"
  | Take_snapshot clock_value

datatype ledger_answer =
    Reserved BudgetReservation
  | Closed BudgetSettlement
  | Snapshot_taken BudgetSnapshot
  | Failed_with budget_error

fun ledger_step :: "ledger_call \<Rightarrow> WorkflowBudgetLedger \<Rightarrow> ledger_answer \<times> WorkflowBudgetLedger" where
  "ledger_step (Reserve env clock uid identity rq) l =
     map_prod (case_sum Failed_with Reserved) id (reserve env clock uid identity rq l)"
| "ledger_step (Settle r usage) l = map_prod (case_sum Failed_with Closed) id (settle r usage l)"
| "ledger_step (Consume_timeout r usage) l =
     map_prod (case_sum Failed_with Closed) id (consume_timeout r usage l)"
| "ledger_step (Take_snapshot clock) l =
     map_prod (case_sum (Failed_with \<circ> Raised) Snapshot_taken) id (ledger_snapshot clock l)"

end
