(* ===== verification/Budget_Accounts.thy ===== *)
theory Budget_Accounts
  imports Budget_Ledger
begin

text \<open>
  The invariants of the budget ledger and that every call keeps them: its counters add up and stay
  below the caps (\<open>ledger_wf\<close>), and its money adds up without rounding (\<open>ledger_money\<close>), for the run and
  for every node alike (\<open>account_ok\<close>). \<open>ledger_step_cases\<close> says what a call can do; the locale
  \<open>attempt_counter\<close> relates the counters to the reservations granted in a run.
\<close>

section \<open>An account\<close>

text \<open>
  The ledger and each of its nodes keep an account in the same way: a cap, the sum of what is
  reserved, what is paid, and a mark once a call cost more than its reservation. With decimals of
  at most 23 places and a cap of at most a dollar no sum below the cap is rounded.
\<close>

definition account_ok :: "nat \<Rightarrow> rat \<Rightarrow> rat \<Rightarrow> rat \<Rightarrow> bool \<Rightarrow> rat list \<Rightarrow> bool" where
  "account_ok k cap reserved paid over costs \<longleftrightarrow>
     reserved = sum_list costs \<and> list_all (\<lambda>c. 0 \<le> c \<and> has_places k c) costs \<and> reserved \<le> cap
     \<and> 0 \<le> paid \<and> has_places k paid \<and> (\<not> over \<longrightarrow> paid + reserved \<le> cap)"

lemma small_fits:
  assumes "has_places k x" "0 \<le> x" "x < 2" "k \<le> 23"
  shows "dround x = x"
proof (rule dround_fits [OF assms(1)])
  have "\<bar>x\<bar> * 10 ^ k \<le> 2 * 10 ^ k" using assms(2,3) by (intro mult_right_mono) auto
  also have "\<dots> \<le> 2 * (10 :: rat) ^ 23" using assms(4) by (intro mult_left_mono power_increasing) auto
  also have "\<dots> < 10 ^ 28" by simp
  finally show "\<bar>x\<bar> * 10 ^ k < 10 ^ 28" .
qed

lemma sum_list_places:
  "list_all (\<lambda>c. 0 \<le> c \<and> has_places k c) costs \<Longrightarrow> 0 \<le> sum_list costs \<and> has_places k (sum_list costs)"
  by (induction costs) (auto intro: has_places_add)

lemma account_book:
  assumes ok: "account_ok k cap reserved paid over costs" and "\<not> over" "k \<le> 23" "cap \<le> 1"
    and cost: "0 \<le> cost" "has_places k cost"
    and fits: "\<not> cap < dadd (dadd paid reserved) cost"
  shows "account_ok k cap (dadd reserved cost) paid over (costs @ [cost])"
proof -
  note a = ok [unfolded account_ok_def]
  have r: "0 \<le> reserved" "has_places k reserved" using a sum_list_places by auto
  have sr: "paid + reserved \<le> cap" using a assms(2) by blast
  have places: "has_places k (paid + reserved)" using a r(2) has_places_add by blast
  have exact: "dadd paid reserved = paid + reserved"
    unfolding dadd_def by (rule small_fits [OF places _ _ assms(3)]) (use a r sr assms(4) in auto)
  let ?x = "paid + reserved + cost"
  have x: "has_places k ?x" using places cost(2) by (rule has_places_add)
  have dx: "dround ?x \<le> cap" using fits exact by (simp add: dadd_def)
  have "?x < 2"
  proof (rule ccontr)
    assume "\<not> ?x < 2"
    then have "dround 2 \<le> dround ?x" by (intro dec.rnd_mono) simp
    moreover have "dround (2 :: rat) = 2" by (rule dround_fits [of 0]) (simp_all add: has_places_def)
    ultimately show False using dx assms(4) by simp
  qed
  then have "dround ?x = ?x" using small_fits [OF x _ _ assms(3)] a r cost by simp
  then have le: "?x \<le> cap" using dx by simp
  have "dround (reserved + cost) = reserved + cost"
    using a r cost le assms(4) by (intro small_fits [OF has_places_add _ _ assms(3)]) auto
  then show ?thesis using a cost le by (auto simp: account_ok_def dadd_def)
qed

lemma account_close:
  assumes ok: "account_ok k cap reserved paid over costs" and "k \<le> 23" "cap \<le> 1"
    and rest: "sum_list costs' = sum_list costs - cost" "set costs' \<subseteq> set costs" "cost \<in> set costs"
    and charged: "0 \<le> charged" "has_places k charged" and over: "cost < charged \<Longrightarrow> flag"
  shows "account_ok k cap (dsub reserved cost) (dadd paid charged) (over \<or> flag) costs'"
proof -
  note a = ok [unfolded account_ok_def]
  have all: "list_all (\<lambda>c. 0 \<le> c \<and> has_places k c) costs'" using a rest(2) by (auto simp: list_all_iff)
  have c: "0 \<le> cost" using a rest(3) by (auto simp: list_all_iff)
  have s': "0 \<le> sum_list costs'" "has_places k (sum_list costs')" using sum_list_places [OF all] by auto
  have le: "sum_list costs' \<le> cap" using a rest(1) c by simp
  have "dsub reserved cost = dround (sum_list costs')" using a rest(1) by (simp add: dsub_def)
  also have "\<dots> = sum_list costs'" using s' le assms(3) by (intro small_fits [OF _ _ _ assms(2)]) auto
  finally have r: "dsub reserved cost = sum_list costs'" .
  have p: "has_places k (paid + charged)" using a charged has_places_add by blast
  have paid: "dadd paid charged + sum_list costs' \<le> cap" if "\<not> (over \<or> flag)"
  proof -
    have "charged \<le> cost" using over that by (meson not_le)
    then have le': "paid + charged + sum_list costs' \<le> cap" using a that rest(1) by auto
    then have "dround (paid + charged) = paid + charged"
      using a charged s' assms(3) by (intro small_fits [OF p _ _ assms(2)]) auto
    then show ?thesis using le' by (simp add: dadd_def)
  qed
  have "0 \<le> dadd paid charged" "has_places k (dadd paid charged)"
    using a charged has_places_dround [OF p] by (simp add: dadd_ge0, simp add: dadd_def)
  then show ?thesis using all r le paid by (auto simp: account_ok_def)
qed

section \<open>What a call does\<close>

text \<open>\<open>ticked t l\<close>: the ledger after a reading of the clock.\<close>

abbreviation ticked :: "rat \<Rightarrow> WorkflowBudgetLedger \<Rightarrow> WorkflowBudgetLedger" where
  "ticked t l \<equiv> l\<lparr>wl_last_monotonic := t\<rparr>"

lemma ledger_now_Inr:
  "ledger_now clock l = Inr (t, l1) \<Longrightarrow> l1 = ticked t l \<and> wl_last_monotonic l \<le> t"
  by (auto simp: ledger_now_def rbind_Inr_iff split: if_splits)

definition books ::
  "string option \<Rightarrow> string \<Rightarrow> nat \<Rightarrow> reserve_request \<Rightarrow> rat \<Rightarrow> WorkflowBudgetLedger
     \<Rightarrow> AgentExecutionPolicy \<Rightarrow> int \<Rightarrow> UsageTokens \<Rightarrow> rat \<Rightarrow> rat \<Rightarrow> NodeBudget \<Rightarrow> BudgetReservation \<Rightarrow> bool"
where
  "books env uid identity rq now l policy timeout usage price cost node r \<longleftrightarrow>
     admit rq = Inr (policy, timeout) \<and> quote_call env rq = Inr (usage, price, cost)
     \<and> node = node_budget policy now (rq_node_name rq) l
     \<and> refusal policy timeout (rq_model rq) cost now node l = None
     \<and> r = make_reservation uid identity rq usage price cost timeout now node l"

lemma node_budget_ticked [simp]: "node_budget policy now name (ticked t l) = node_budget policy now name l"
  by (simp add: node_budget_def)

lemma refusal_ticked [simp]:
  "refusal policy timeout model cost now node (ticked t l) = refusal policy timeout model cost now node l"
  by (simp add: refusal_def)

lemma make_reservation_ticked [simp]:
  "make_reservation uid identity rq usage price cost timeout now node (ticked t l)
     = make_reservation uid identity rq usage price cost timeout now node l"
  by (simp add: make_reservation_def)

lemma books_ticked [simp]:
  "books env uid identity rq now (ticked t l) policy timeout usage price cost node r
     = books env uid identity rq now l policy timeout usage price cost node r"
  by (simp add: books_def)

lemma reserve_cases:
  obtains (refused) e t where "reserve env clock uid identity rq l = (Inl e, ticked t l)" "wl_last_monotonic l \<le> t"
  | (books) now policy timeout usage price cost node r where
    "reserve env clock uid identity rq l = (Inr r, book r node (ticked now l))"
    "wl_last_monotonic l \<le> now"
    "books env uid identity rq now l policy timeout usage price cost node r"
proof (cases "admit rq")
  case (Inl e)
  then show ?thesis using refused [of e "wl_last_monotonic l"] by (simp add: reserve_def)
next
  case adm: (Inr pt)
  obtain policy timeout where pt: "pt = (policy, timeout)" by force
  show ?thesis
  proof (cases "quote_call env rq")
    case (Inl e)
    then show ?thesis using refused [of "Raised e" "wl_last_monotonic l"] adm by (simp add: reserve_def pt)
  next
    case quote: (Inr q)
    obtain usage price cost where q: "q = (usage, price, cost)" by (metis prod_cases3)
    show ?thesis
    proof (cases "ledger_now clock l")
      case (Inl e)
      then show ?thesis using refused [of "Raised e" "wl_last_monotonic l"] adm quote
        by (simp add: reserve_def pt q)
    next
      case clk: (Inr nl)
      obtain n l1 where nl: "nl = (n, l1)" by force
      note l1 = ledger_now_Inr [OF clk [unfolded nl]]
      let ?node = "node_budget policy n (rq_node_name rq) l"
      show ?thesis
      proof (cases "refusal policy timeout (rq_model rq) cost n ?node l")
        case (Some e)
        then show ?thesis using refused [of e n] adm quote clk l1 by (simp add: reserve_def pt q nl Let_def)
      next
        case None
        then show ?thesis using books [of "make_reservation uid identity rq usage price cost timeout n ?node l" ?node n
              policy timeout usage price cost] adm quote clk l1
          by (simp add: reserve_def books_def pt q nl Let_def)
      qed
    qed
  qed
qed

lemma active_reservation_Inr:
  "active_reservation r l = Inr current \<longleftrightarrow>
     br_ledger_nonce r = wl_nonce l \<and> dict_get (wl_active l) (br_reservation_id r) = Some current
     \<and> br_identity current = br_identity r"
  by (auto simp: active_reservation_def split: option.splits if_splits)


section \<open>The invariants\<close>

definition node_ok :: "string \<times> NodeBudget \<Rightarrow> bool" where
  "node_ok e =
     (case e of (name, b) \<Rightarrow>
        policy_for name = Some (nb_policy b) \<and> distinct (dict_keys (nb_tier_attempts b))
        \<and> nb_attempts b = sum_list (map snd (nb_tier_attempts b))
        \<and> list_all (\<lambda>t. snd t \<le> ap_maximum_attempts_per_tier (nb_policy b)) (nb_tier_attempts b)
        \<and> nb_attempts b \<le> ap_maximum_total_attempts (nb_policy b))"

text \<open>A reservation holds the price of its usage.\<close>

definition priced :: "BudgetReservation \<Rightarrow> bool" where
  "priced r =
     (case workflow_model_pricing (br_model r) (br_band r) of
        Inl e \<Rightarrow> False
      | Inr p \<Rightarrow> br_reserved_cost r = usage_cost p (br_reserved_usage r) (br_web_search_tool_price r)
          \<and> valid_usage (br_reserved_usage r) \<and> 0 \<le> br_web_search_tool_price r)"

definition active_ok :: "nat \<Rightarrow> (string, NodeBudget) dict \<Rightarrow> string \<times> BudgetReservation \<Rightarrow> bool" where
  "active_ok nonce nodes e =
     (fst e = br_reservation_id (snd e) \<and> br_ledger_nonce (snd e) = nonce
      \<and> dict_get nodes (br_node_name (snd e)) \<noteq> None \<and> priced (snd e))"

lemma active_ok_put:
  "list_all (active_ok nonce nodes) es \<Longrightarrow> list_all (active_ok nonce (dict_put k v nodes)) es"
  by (erule list.pred_mono_strong) (auto simp: active_ok_def)

definition ledger_wf :: "WorkflowBudgetLedger \<Rightarrow> bool" where
  "ledger_wf l \<longleftrightarrow>
     snd (WORKFLOW_CAPS (wl_mode l)) = (wl_maximum_attempts l, wl_cost_cap l)
     \<and> wl_attempts l \<le> wl_maximum_attempts l
     \<and> wl_attempts l = int (length (wl_active l) + length (wl_completed l))
     \<and> wl_attempts l = sum_list (map (nb_attempts \<circ> snd) (wl_nodes l))
     \<and> distinct (dict_keys (wl_nodes l)) \<and> distinct (dict_keys (wl_active l) @ wl_completed l)
     \<and> list_all node_ok (wl_nodes l) \<and> list_all (active_ok (wl_nonce l) (wl_nodes l)) (wl_active l)"

text \<open>Money, for tool prices of at most \<open>j\<close> places; the costs then have at most \<open>j + 3\<close>.\<close>

definition costs_of :: "(string \<Rightarrow> bool) \<Rightarrow> WorkflowBudgetLedger \<Rightarrow> rat list" where
  "costs_of P l = map (br_reserved_cost \<circ> snd) (filter (\<lambda>e. P (br_node_name (snd e))) (wl_active l))"

definition node_money :: "nat \<Rightarrow> WorkflowBudgetLedger \<Rightarrow> string \<Rightarrow> NodeBudget \<Rightarrow> bool" where
  "node_money k l name b \<longleftrightarrow>
     account_ok k (ap_node_cost_cap (nb_policy b)) (nb_reserved_cost b) (nb_settled_cost b) (nb_exhausted b)
       (costs_of (\<lambda>n. n = name) l)
     \<and> (nb_exhausted b \<longrightarrow> wl_exhausted l)"

definition ledger_money :: "nat \<Rightarrow> WorkflowBudgetLedger \<Rightarrow> bool" where
  "ledger_money j l \<longleftrightarrow>
     account_ok (j + 3) (wl_cost_cap l) (wl_reserved_cost l) (wl_settled_cost l) (wl_exhausted l)
       (costs_of (\<lambda>_. True) l)
     \<and> list_all (\<lambda>e. node_money (j + 3) l (fst e) (snd e)) (wl_nodes l)
     \<and> list_all (\<lambda>e. 0 \<le> br_web_search_tool_price (snd e) \<and> has_places j (br_web_search_tool_price (snd e)))
         (wl_active l)"

lemma ledger_wf_ticked [simp]: "ledger_wf (ticked t l) = ledger_wf l"
  by (simp add: ledger_wf_def)

lemma ledger_money_ticked [simp]: "ledger_money j (ticked t l) = ledger_money j l"
  by (simp add: ledger_money_def node_money_def costs_of_def)

lemma new_ledger_ok:
  assumes "new_ledger mode nonce clock = Inr l"
  shows "ledger_wf l" "ledger_money j l" "wl_active l = []" "wl_completed l = []" "wl_attempts l = 0" "wl_nodes l = []"
proof -
  have caps: "0 \<le> fst (snd (WORKFLOW_CAPS m))" "0 \<le> snd (snd (WORKFLOW_CAPS m))" for m
    by (cases m; simp)+
  from assms obtain m start where l: "l = \<lparr>wl_mode = m, wl_nonce = nonce, wl_last_monotonic = start,
              wl_maximum_attempts = fst (snd (WORKFLOW_CAPS m)), wl_cost_cap = snd (snd (WORKFLOW_CAPS m)),
              wl_deadline_monotonic = fround (start + fst (WORKFLOW_CAPS m)),
              wl_reserved_cost = 0, wl_settled_cost = 0, wl_attempts = 0, wl_nodes = [],
              wl_active = [], wl_completed = [], wl_exhausted = False, wl_overdrawn = False\<rparr>"
    unfolding new_ledger_def rbind_Inr_iff split_def by auto
  show "ledger_wf l" "ledger_money j l" "wl_active l = []" "wl_completed l = []" "wl_attempts l = 0" "wl_nodes l = []"
    using caps by (simp_all add: l ledger_wf_def ledger_money_def account_ok_def costs_of_def)
qed

subsection \<open>A reservation\<close>

definition issued :: "WorkflowBudgetLedger \<Rightarrow> string set" where
  "issued l = set (dict_keys (wl_active l)) \<union> set (wl_completed l)"

lemma raising_Inr [simp]: "raising r = Inr v \<longleftrightarrow> r = Inr v"
  by (cases r) (simp_all add: raising_def)

lemma admit_Inr:
  assumes "admit rq = Inr (policy, timeout)"
  shows "policy_for (rq_node_name rq) = Some policy" "rq_model rq \<in> set (map rt_model (ap_tiers policy))"
    "rq_maximum_tool_calls rq \<le> ap_maximum_tool_calls policy"
    "ut_output_tokens (rq_usage rq) \<le> ap_maximum_output_tokens policy"
    "timeout \<le> ap_attempt_timeout_seconds policy"
  using assms
  by (auto simp: admit_def rbind_Inr_iff nonnegative_int_def split: option.splits if_splits)

lemma quote_Inr:
  assumes "quote_call env rq = Inr (usage, price, cost)"
  obtains p where "workflow_model_pricing (rq_model rq) (rq_band rq) = Inr p" "valid_usage usage"
    "web_search_tool_price env = Inr price" "0 \<le> price" "cost = usage_cost p usage price"
    "usage = (rq_usage rq)\<lparr>ut_web_search_tool_calls := rq_maximum_tool_calls rq\<rparr>"
proof -
  let ?u = "(rq_usage rq)\<lparr>ut_web_search_tool_calls := rq_maximum_tool_calls rq\<rparr>"
  have u: "usage_check ?u = Inr usage" and env: "web_search_tool_price env = Inr price"
    and cost: "estimate_workflow_usage_cost env (rq_model rq) (rq_band rq) usage (Some price) = Inr cost"
    using assms unfolding quote_call_def rbind_Inr_iff by auto
  have same: "usage = ?u" using u unfolding usage_check_def guarded_Inr by simp
  from cost obtain p where p: "workflow_model_pricing (rq_model rq) (rq_band rq) = Inr p" "0 \<le> price"
      "cost = usage_cost p usage price"
    unfolding estimate_workflow_usage_cost_def by (simp add: rbind_Inr_iff split: if_splits) fastforce
  show thesis using that [OF p(1) _ env p(2,3) same] u same by simp
qed

text \<open>What is known of a reservation that was not refused.\<close>

lemma not_refused:
  assumes "refusal policy timeout model cost now node l = None"
  shows "\<not> wl_exhausted l" "nb_policy node = policy"
    "now < nb_deadline_monotonic node" "now < wl_deadline_monotonic l"
    "fround (now + of_int timeout) \<le> nb_deadline_monotonic node"
    "fround (now + of_int timeout) \<le> wl_deadline_monotonic l"
    "wl_attempts l < wl_maximum_attempts l" "nb_attempts node < ap_maximum_total_attempts policy"
    "tier_count node model < ap_maximum_attempts_per_tier policy"
    "\<not> wl_cost_cap l < dadd (dadd (wl_settled_cost l) (wl_reserved_cost l)) cost"
    "\<not> ap_node_cost_cap policy < dadd (dadd (nb_settled_cost node) (nb_reserved_cost node)) cost"
  using assms unfolding refusal_def guard_simps by auto

lemma tier_count_sum:
  "sum_list (map snd (dict_put m (tier_count b m + 1) (nb_tier_attempts b)))
     = sum_list (map snd (nb_tier_attempts b)) + 1"
  by (simp add: dict_put_sum tier_count_def split: option.splits)

lemma node_budget_ok:
  assumes "ledger_wf l" "policy_for name = Some policy"
  shows "node_ok (name, node_budget policy now name l)"
proof (cases "dict_get (wl_nodes l) name")
  case None
  have "policy_check policy = Inr ()" using policies_checked assms(2) by blast
  then show ?thesis using assms(2) None
    by (auto simp: node_ok_def node_budget_def fresh_node_def policy_check_def guarded_Inr)
next
  case (Some b)
  then show ?thesis using assms(1) dict_get_all [of node_ok "wl_nodes l" name b]
    by (simp add: ledger_wf_def node_budget_def)
qed

lemma book_wf:
  assumes wf: "ledger_wf l" and g: "books env uid identity rq now l policy timeout usage price cost node r"
    and fresh: "uid \<notin> issued l"
  shows "ledger_wf (book r node l)"
proof -
  note g = g [unfolded books_def]
  let ?name = "rq_node_name rq" and ?m = "rq_model rq"
  have r: "br_reservation_id r = uid" "br_node_name r = ?name" "br_model r = ?m" "br_ledger_nonce r = wl_nonce l"
    using g by (simp_all add: make_reservation_def)
  have priced: "priced r"
    using g by (auto elim!: quote_Inr simp: priced_def make_reservation_def)
  have pol: "policy_for ?name = Some policy" using g admit_Inr by blast
  have node: "node_ok (?name, node)" using node_budget_ok [OF wf pol] g by simp
  note guards = not_refused [OF conjunct1 [OF conjunct2 [OF conjunct2 [OF conjunct2 [OF g]]]]]
  define node' where "node' = node\<lparr>nb_reserved_cost := dadd (nb_reserved_cost node) (br_reserved_cost r),
                       nb_attempts := nb_attempts node + 1,
                       nb_tier_attempts := dict_put ?m (tier_count node ?m + 1) (nb_tier_attempts node)\<rparr>"
  have b: "book r node l = l\<lparr>wl_nodes := dict_put ?name node' (wl_nodes l),
           wl_active := wl_active l @ [(uid, r)],
           wl_reserved_cost := dadd (wl_reserved_cost l) (br_reserved_cost r),
           wl_attempts := wl_attempts l + 1\<rparr>"
    using fresh dict_put_new [of uid "wl_active l" r] by (simp add: book_def Let_def r node'_def issued_def)
  have node'_ok: "node_ok (?name, node')"
    using node guards(2,8,9) pol
    by (auto simp: node_ok_def node'_def tier_count_sum distinct_dict_put intro!: dict_put_all)
  have old: "(case dict_get (wl_nodes l) ?name of None \<Rightarrow> 0 | Some w \<Rightarrow> (nb_attempts \<circ> snd) (?name, w)) = nb_attempts node"
    using g by (auto simp: node_budget_def fresh_node_def split: option.splits)
  have total: "sum_list (map (nb_attempts \<circ> snd) (dict_put ?name node' (wl_nodes l))) = wl_attempts l + 1"
    using wf unfolding dict_put_sum old by (simp add: ledger_wf_def node'_def)
  have act: "list_all (active_ok (wl_nonce l) (dict_put ?name node' (wl_nodes l))) (wl_active l)"
    using wf active_ok_put by (simp add: ledger_wf_def)
  show ?thesis
    using wf fresh r node'_ok total act guards(7) priced
    by (simp add: b ledger_wf_def issued_def active_ok_def distinct_dict_put dict_put_all)
qed


lemma costs_of_book:
  assumes "books env uid identity rq now l policy timeout usage price cost node r" "uid \<notin> issued l"
  shows "costs_of P (book r node l) = costs_of P l @ (if P (rq_node_name rq) then [cost] else [])"
  using assms dict_put_new [of uid "wl_active l" r]
  by (simp add: costs_of_def book_def Let_def issued_def books_def make_reservation_def)

lemma policy_cost_cap: "policy_for name = Some p \<Longrightarrow> ap_node_cost_cap p \<le> 1"
proof -
  assume "policy_for name = Some p"
  then have "(name, p) \<in> set POLICIES" by (simp add: policy_for_def map_of_SomeD)
  moreover have "list_all (\<lambda>e. ap_node_cost_cap (snd e) \<le> 1) POLICIES" by code_simp
  ultimately show ?thesis by (auto simp: list_all_iff)
qed

lemma ledger_cap: "ledger_wf l \<Longrightarrow> wl_cost_cap l \<le> 1"
  by (cases "wl_mode l") (auto simp: ledger_wf_def)

lemma node_caps: "ledger_wf l \<Longrightarrow> e \<in> set (wl_nodes l) \<Longrightarrow> ap_node_cost_cap (nb_policy (snd e)) \<le> 1"
  by (cases e) (auto simp: ledger_wf_def list_all_iff node_ok_def dest: policy_cost_cap)

lemma no_costs_elsewhere:
  "ledger_wf l \<Longrightarrow> dict_get (wl_nodes l) name = None \<Longrightarrow> costs_of (\<lambda>n. n = name) l = []"
  by (auto simp: costs_of_def ledger_wf_def active_ok_def list_all_iff filter_empty_conv)

lemma book_money:
  assumes wf: "ledger_wf l" and money: "ledger_money j l" and j: "5 \<le> j" "j \<le> 20"
    and g: "books env uid identity rq now l policy timeout usage price cost node r"
    and fresh: "uid \<notin> issued l" and places: "has_places j price"
  shows "ledger_money j (book r node l)"
proof -
  note costs = costs_of_book [OF g fresh]
  note g = g [unfolded books_def]
  let ?name = "rq_node_name rq" and ?k = "j + 3"
  obtain p where p: "workflow_model_pricing (rq_model rq) (rq_band rq) = Inr p" "valid_usage usage"
    "0 \<le> price" "cost = usage_cost p usage price"
    using g quote_Inr by metis
  have c: "0 \<le> cost" "has_places ?k cost"
    using usage_cost_ge0 [OF p(1,2,3)] usage_cost_places [OF p(1) places j(1)] p(4) by simp_all
  note guards = not_refused [OF conjunct1 [OF conjunct2 [OF conjunct2 [OF conjunct2 [OF g]]]]]
  have pol: "policy_for ?name = Some policy" using g admit_Inr by blast
  have check: "0 \<le> ap_node_cost_cap policy"
    using policies_checked(1) [OF pol] by (auto simp: policy_check_def guarded_Inr)
  have node: "node_money ?k l ?name node"
  proof (cases "dict_get (wl_nodes l) ?name")
    case None
    then have "node = fresh_node policy now (fround (now + of_int (ap_node_timeout_seconds policy)))"
      using g by (simp add: node_budget_def)
    then show ?thesis using no_costs_elsewhere [OF wf None] check
      by (simp add: node_money_def account_ok_def fresh_node_def)
  next
    case (Some b)
    then show ?thesis using money dict_get_all [OF _ Some] g
      by (fastforce simp: ledger_money_def node_budget_def)
  qed
  let ?l = "book r node l"
  have k: "?k \<le> 23" using j by simp
  have r: "br_reserved_cost r = cost" "br_node_name r = ?name" "br_web_search_tool_price r = price"
    using g by (simp_all add: make_reservation_def)
  have active: "wl_active ?l = wl_active l @ [(uid, r)]"
    using fresh dict_put_new [of uid "wl_active l" r] g
    by (simp add: book_def Let_def issued_def make_reservation_def)
  have top: "account_ok ?k (wl_cost_cap ?l) (wl_reserved_cost ?l) (wl_settled_cost ?l) (wl_exhausted ?l)
      (costs_of (\<lambda>_. True) ?l)"
    using account_book [OF _ guards(1) k ledger_cap [OF wf] c guards(10)] money r costs
    by (simp add: ledger_money_def book_def Let_def)
  have mine: "\<not> nb_exhausted node" using node guards(1) by (auto simp: node_money_def)
  have "node_money ?k ?l (fst e) (snd e)" if e: "e \<in> set (wl_nodes ?l)" for e
  proof (cases "fst e = ?name")
    case True
    have "distinct (dict_keys (wl_nodes l))" using wf by (simp add: ledger_wf_def)
    from dict_put_same [OF this _ True] have "snd e = node\<lparr>nb_reserved_cost := dadd (nb_reserved_cost node) cost,
         nb_attempts := nb_attempts node + 1,
         nb_tier_attempts := dict_put (br_model r) (tier_count node (br_model r) + 1) (nb_tier_attempts node)\<rparr>"
      using e by (simp add: book_def Let_def r)
    then show ?thesis
      using account_book [OF _ mine k policy_cost_cap [OF pol] c guards(11)] node guards(2) True costs mine
      by (simp add: node_money_def)
  next
    case False
    then have "e \<in> set (wl_nodes l)"
      using e dict_put_other by (fastforce simp: book_def Let_def r)
    then have "node_money ?k l (fst e) (snd e)" using money by (auto simp: ledger_money_def list_all_iff)
    then show ?thesis using False costs by (simp add: node_money_def book_def Let_def)
  qed
  then show ?thesis using top money p(3) places r active by (simp add: ledger_money_def list_all_iff)
qed


subsection \<open>A settlement\<close>

definition closing ::
  "BudgetReservation \<Rightarrow> WorkflowBudgetLedger \<Rightarrow> BudgetReservation \<Rightarrow> NodeBudget \<Rightarrow> rat \<Rightarrow> bool \<Rightarrow> bool"
where
  "closing r l current node charged over \<longleftrightarrow>
     active_reservation r l = Inr current \<and> dict_get (wl_nodes l) (br_node_name current) = Some node
     \<and> 0 \<le> charged \<and> (br_reserved_cost current < charged \<longrightarrow> over)"

lemma active_reservation_self:
  assumes "ledger_wf l" "active_reservation r l = Inr current"
  shows "active_reservation current l = Inr current" "br_reservation_id current = br_reservation_id r"
    "dict_get (wl_active l) (br_reservation_id current) = Some current"
    "\<exists>node. dict_get (wl_nodes l) (br_node_name current) = Some node"
proof -
  have get: "dict_get (wl_active l) (br_reservation_id r) = Some current"
    using assms(2) by (simp add: active_reservation_Inr)
  have "active_ok (wl_nonce l) (wl_nodes l) (br_reservation_id r, current)"
    using assms(1) dict_get_all [OF _ get, of "active_ok (wl_nonce l) (wl_nodes l)"] by (simp add: ledger_wf_def)
  then show "active_reservation current l = Inr current" "br_reservation_id current = br_reservation_id r"
    "dict_get (wl_active l) (br_reservation_id current) = Some current"
    "\<exists>node. dict_get (wl_nodes l) (br_node_name current) = Some node"
    using get by (auto simp: active_ok_def active_reservation_Inr)
qed

lemma close_reservation_closes:
  assumes "ledger_wf l" "active_reservation r l = Inr current" "0 \<le> charged"
  obtains node where
    "close_reservation current charged timeout overflowed l =
       (Inr (\<lparr>bs_reservation_id = br_reservation_id current, bs_charged_cost = charged, bs_timeout = timeout\<rparr>,
             overflowed \<or> br_reserved_cost current < charged),
        close_book current node charged (overflowed \<or> br_reserved_cost current < charged) l)"
    "closing r l current node charged (overflowed \<or> br_reserved_cost current < charged)"
proof -
  obtain node where "dict_get (wl_nodes l) (br_node_name current) = Some node"
    using active_reservation_self(4) [OF assms(1,2)] by blast
  then show thesis
    using that [of node] active_reservation_self(1) [OF assms(1,2)] assms(2,3)
    by (simp add: close_reservation_def closing_def Let_def)
qed

lemma close_wf:
  assumes wf: "ledger_wf l" and c: "closing r l current node charged over"
  shows "ledger_wf (close_book current node charged over l)"
proof -
  let ?id = "br_reservation_id current" and ?name = "br_node_name current"
  have node: "dict_get (wl_nodes l) ?name = Some node" using c by (simp add: closing_def)
  have get: "dict_get (wl_active l) ?id = Some current"
    using active_reservation_self(3) [OF wf] c unfolding closing_def by blast
  then have mem: "?id \<in> set (dict_keys (wl_active l))" by (force dest: map_of_SomeD)
  have dis: "distinct (dict_keys (wl_active l))" "distinct (wl_completed l)"
    "set (dict_keys (wl_active l)) \<inter> set (wl_completed l) = {}"
    using wf by (simp_all add: ledger_wf_def)
  have len: "int (length (dict_pop ?id (wl_active l))) = int (length (wl_active l)) - 1"
    using dict_pop_sum [OF get dis(1), of "\<lambda>_. 1 :: int"] by (simp add: sum_list_triv)
  have keys: "set (dict_keys (dict_pop ?id (wl_active l))) = set (dict_keys (wl_active l)) - {?id}"
    by (auto simp: dict_pop_def)
  have ins: "List.insert ?id (wl_completed l) = ?id # wl_completed l"
    using mem dis(3) by (intro not_in_set_insert) blast
  define node' where "node' = node\<lparr>nb_reserved_cost := dsub (nb_reserved_cost node) (br_reserved_cost current),
                       nb_settled_cost := dadd (nb_settled_cost node) charged,
                       nb_exhausted := nb_exhausted node \<or> over, nb_overdrawn := nb_overdrawn node \<or> over\<rparr>"
  have "node_ok (?name, node)" using wf dict_get_all [OF _ node, of node_ok] by (simp add: ledger_wf_def)
  then have node': "node_ok (?name, node')" by (simp add: node_ok_def node'_def)
  have total: "sum_list (map (nb_attempts \<circ> snd) (dict_put ?name node' (wl_nodes l))) = wl_attempts l"
    using wf unfolding dict_put_sum node by (simp add: ledger_wf_def node'_def)
  have act: "list_all (active_ok (wl_nonce l) (dict_put ?name node' (wl_nodes l))) (dict_pop ?id (wl_active l))"
    using wf by (intro dict_pop_all active_ok_put) (simp add: ledger_wf_def)
  have b: "close_book current node charged over l = l\<lparr>wl_active := dict_pop ?id (wl_active l),
           wl_completed := ?id # wl_completed l,
           wl_reserved_cost := dsub (wl_reserved_cost l) (br_reserved_cost current),
           wl_settled_cost := dadd (wl_settled_cost l) charged,
           wl_nodes := dict_put ?name node' (wl_nodes l),
           wl_exhausted := wl_exhausted l \<or> over, wl_overdrawn := wl_overdrawn l \<or> over\<rparr>"
    by (simp add: close_book_def Let_def node'_def ins)
  have "distinct (dict_keys (dict_pop ?id (wl_active l)) @ ?id # wl_completed l)"
    using dis keys mem distinct_dict_pop [OF dis(1)] by auto
  then show ?thesis
    using wf node' total act len by (simp add: b ledger_wf_def distinct_dict_put dict_put_all)
qed


lemma costs_of_close:
  assumes wf: "ledger_wf l" and c: "closing r l current node charged over"
  shows "sum_list (costs_of P (close_book current node charged over l)) = sum_list (costs_of P l)
      - (if P (br_node_name current) then br_reserved_cost current else 0)"
    and "set (costs_of P (close_book current node charged over l)) \<subseteq> set (costs_of P l)"
    and "P (br_node_name current) \<Longrightarrow> br_reserved_cost current \<in> set (costs_of P l)"
proof -
  let ?id = "br_reservation_id current"
  have get: "dict_get (wl_active l) ?id = Some current"
    using active_reservation_self(3) [OF wf] c unfolding closing_def by blast
  have dis: "distinct (dict_keys (wl_active l))" using wf by (simp add: ledger_wf_def)
  have sum: "sum_list (map (br_reserved_cost \<circ> snd) (filter (\<lambda>e. P (br_node_name (snd e))) es))
      = sum_list (map (\<lambda>e. if P (br_node_name (snd e)) then br_reserved_cost (snd e) else 0) es)"
    for es :: "(string, BudgetReservation) dict"
    by (induction es) auto
  show "sum_list (costs_of P (close_book current node charged over l)) = sum_list (costs_of P l)
      - (if P (br_node_name current) then br_reserved_cost current else 0)"
    unfolding costs_of_def sum by (simp add: close_book_def Let_def dict_pop_sum [OF get dis])
  show "set (costs_of P (close_book current node charged over l)) \<subseteq> set (costs_of P l)"
    by (auto simp: costs_of_def close_book_def Let_def dict_pop_def)
  show "br_reserved_cost current \<in> set (costs_of P l)" if "P (br_node_name current)"
    using map_of_SomeD [OF get] that by (force simp: costs_of_def)
qed

lemma costs_elsewhere:
  assumes "\<not> P (br_node_name current)" "ledger_wf l" "closing r l current node charged over"
  shows "costs_of P (close_book current node charged over l) = costs_of P l"
proof -
  let ?id = "br_reservation_id current"
  have get: "dict_get (wl_active l) ?id = Some current"
    using active_reservation_self(3) [OF assms(2)] assms(3) unfolding closing_def by blast
  have dis: "distinct (dict_keys (wl_active l))" using assms(2) by (simp add: ledger_wf_def)
  have "P (br_node_name (snd e)) \<Longrightarrow> fst e \<noteq> ?id" if e: "e \<in> set (wl_active l)" for e
  proof -
    have "dict_get (wl_active l) (fst e) = Some (snd e)" using e by (intro map_of_is_SomeI [OF dis]) simp
    then show "P (br_node_name (snd e)) \<Longrightarrow> fst e \<noteq> ?id" using get assms(1) by auto
  qed
  then have "filter (\<lambda>e. P (br_node_name (snd e))) (dict_pop ?id (wl_active l))
      = filter (\<lambda>e. P (br_node_name (snd e))) (wl_active l)"
    unfolding dict_pop_def filter_filter by (intro filter_cong refl) blast
  then show ?thesis by (simp add: costs_of_def close_book_def Let_def)
qed

lemma close_money:
  assumes wf: "ledger_wf l" and money: "ledger_money j l" and j: "j \<le> 20"
    and c: "closing r l current node charged over" and places: "has_places (j + 3) charged"
  shows "ledger_money j (close_book current node charged over l)"
proof -
  let ?l = "close_book current node charged over l" and ?k = "j + 3" and ?name = "br_node_name current"
  have k: "?k \<le> 23" using j by simp
  have c': "0 \<le> charged" "br_reserved_cost current < charged \<Longrightarrow> over"
    "dict_get (wl_nodes l) ?name = Some node" using c by (simp_all add: closing_def)
  note costs = costs_of_close [OF wf c]
  have top: "account_ok ?k (wl_cost_cap ?l) (wl_reserved_cost ?l) (wl_settled_cost ?l) (wl_exhausted ?l)
      (costs_of (\<lambda>_. True) ?l)"
    using account_close [OF _ k ledger_cap [OF wf] _ costs(2) costs(3) c'(1) places c'(2)] money costs(1)
    by (simp add: ledger_money_def close_book_def Let_def)
  have mem: "(?name, node) \<in> set (wl_nodes l)" using c'(3) by (rule map_of_SomeD)
  then have node: "node_money ?k l ?name node" using money by (auto simp: ledger_money_def list_all_iff)
  have "node_money ?k ?l (fst e) (snd e)" if e: "e \<in> set (wl_nodes ?l)" for e
  proof (cases "fst e = ?name")
    case True
    have "distinct (dict_keys (wl_nodes l))" using wf by (simp add: ledger_wf_def)
    from dict_put_same [OF this _ True]
    have "snd e = node\<lparr>nb_reserved_cost := dsub (nb_reserved_cost node) (br_reserved_cost current),
                       nb_settled_cost := dadd (nb_settled_cost node) charged,
                       nb_exhausted := nb_exhausted node \<or> over, nb_overdrawn := nb_overdrawn node \<or> over\<rparr>"
      using e by (simp add: close_book_def Let_def)
    moreover have "wl_exhausted ?l = (wl_exhausted l \<or> over)" by (simp add: close_book_def Let_def)
    moreover have "account_ok ?k (ap_node_cost_cap (nb_policy node)) (dsub (nb_reserved_cost node) (br_reserved_cost current))
        (dadd (nb_settled_cost node) charged) (nb_exhausted node \<or> over) (costs_of (\<lambda>n. n = ?name) ?l)"
      using node costs(1) [of "\<lambda>n. n = ?name"]
      by (intro account_close [OF _ k _ _ costs(2) costs(3) c'(1) places c'(2)])
        (use node_caps [OF wf mem] in \<open>simp_all add: node_money_def\<close>)
    ultimately show ?thesis using node True by (auto simp: node_money_def)
  next
    case False
    then have "e \<in> set (wl_nodes l)"
      using e dict_put_other by (fastforce simp: close_book_def Let_def)
    then have "node_money ?k l (fst e) (snd e)" using money by (auto simp: ledger_money_def list_all_iff)
    then show ?thesis using costs_elsewhere [of "\<lambda>n. n = fst e", OF _ wf c] False
      by (auto simp: node_money_def close_book_def Let_def)
  qed
  moreover have "list_all (\<lambda>e. 0 \<le> br_web_search_tool_price (snd e) \<and> has_places j (br_web_search_tool_price (snd e)))
      (wl_active ?l)"
    using money by (simp add: ledger_money_def close_book_def Let_def dict_pop_all)
  ultimately show ?thesis using top by (simp add: ledger_money_def list_all_iff)
qed

section \<open>Steps\<close>

text \<open>
  A call reads the clock at most, or books a reservation, or closes one; only the first call of a
  reservation can close it.
\<close>

fun call_reservation :: "ledger_call \<Rightarrow> BudgetReservation option" where
  "call_reservation (Settle r u) = Some r"
| "call_reservation (Consume_timeout r u) = Some r"
| "call_reservation c = None"

definition closes :: "WorkflowBudgetLedger \<Rightarrow> ledger_answer \<times> WorkflowBudgetLedger \<Rightarrow> BudgetReservation \<Rightarrow> bool" where
  "closes l out r \<longleftrightarrow> (\<exists>current node charged over s.
     out = (if over then Failed_with (BudgetOverflowError ''actual usage exceeds reservation'' s) else Closed s,
            close_book current node charged over l)
     \<and> closing r l current node charged over \<and> bs_reservation_id s = br_reservation_id r
     \<and> bs_charged_cost s = charged
     \<and> (\<forall>j. 5 \<le> j \<longrightarrow> ledger_money j l \<longrightarrow> has_places (j + 3) charged))"

definition plain_failure :: "ledger_answer \<Rightarrow> bool" where
  "plain_failure a \<longleftrightarrow> (\<exists>e. a = Failed_with e \<and> (\<forall>m s. e \<noteq> BudgetOverflowError m s))"

lemma active_reservation_error:
  "active_reservation r l = Inl e \<Longrightarrow> e \<noteq> BudgetOverflowError m s"
  by (auto simp: active_reservation_def split: option.splits if_splits)

lemma active_money:
  assumes "ledger_money j l" "ledger_wf l" "active_reservation r l = Inr current"
  shows "has_places (j + 3) (br_reserved_cost current)" "has_places j (br_web_search_tool_price current)"
    "0 \<le> br_reserved_cost current"
proof -
  have mem: "(br_reservation_id current, current) \<in> set (wl_active l)"
    using active_reservation_self(3) [OF assms(2,3)] by (rule map_of_SomeD)
  then have "br_reserved_cost current \<in> set (costs_of (\<lambda>_. True) l)" by (force simp: costs_of_def)
  then show "has_places (j + 3) (br_reserved_cost current)" "0 \<le> br_reserved_cost current"
    using assms(1) by (auto simp: ledger_money_def account_ok_def list_all_iff)
  show "has_places j (br_web_search_tool_price current)"
    using assms(1) mem by (force simp: ledger_money_def list_all_iff)
qed

lemma settle_outcome:
  assumes wf: "ledger_wf l"
  shows "ledger_step (Settle r u) l = (fst (ledger_step (Settle r u) l), l)
      \<and> plain_failure (fst (ledger_step (Settle r u) l))
    \<or> closes l (ledger_step (Settle r u) l) r"
proof (cases "active_reservation r l")
  case (Inl e)
  then show ?thesis using active_reservation_error by (auto simp: settle_def plain_failure_def)
next
  case act: (Inr current)
  show ?thesis
  proof (cases "estimate_workflow_usage_cost None (br_model current) (br_band current) u
      (Some (br_web_search_tool_price current))")
    case (Inl e)
    then show ?thesis using act by (simp add: settle_def plain_failure_def)
  next
    case est: (Inr charged)
    let ?over = "usage_overflowed u (br_reserved_usage current) \<or> br_reserved_cost current < charged"
    show ?thesis
    proof (cases "0 \<le> charged")
      case True
      from close_reservation_closes [OF wf act True, of False "usage_overflowed u (br_reserved_usage current)"]
      obtain node where close: "close_reservation current charged False (usage_overflowed u (br_reserved_usage current)) l
        = (Inr (\<lparr>bs_reservation_id = br_reservation_id current, bs_charged_cost = charged, bs_timeout = False\<rparr>, ?over),
           close_book current node charged ?over l)" and closing: "closing r l current node charged ?over"
        by blast
      have "has_places (j + 3) charged" if "5 \<le> j" "ledger_money j l" for j
      proof -
        from est obtain p where "workflow_model_pricing (br_model current) (br_band current) = Inr p"
          "charged = usage_cost p u (br_web_search_tool_price current)"
          by (auto simp: estimate_workflow_usage_cost_def rbind_Inr_iff split: if_splits)
        then show ?thesis using usage_cost_places active_money(2) [OF that(2) wf act] that(1) by simp
      qed
      moreover have "br_reservation_id current = br_reservation_id r"
        using active_reservation_self(2) [OF wf act] .
      ultimately have "closes l (ledger_step (Settle r u) l) r"
        using act est close closing unfolding closes_def
        by (intro exI [of _ current] exI [of _ node] exI [of _ charged] exI [of _ ?over] exI [of _ "\<lparr>bs_reservation_id = br_reservation_id current, bs_charged_cost = charged, bs_timeout = False\<rparr>"])
          (simp add: settle_def)
      then show ?thesis ..
    next
      case False
      then show ?thesis using act est by (simp add: settle_def close_reservation_def plain_failure_def)
    qed
  qed
qed


lemma consume_outcome:
  assumes wf: "ledger_wf l"
  shows "ledger_step (Consume_timeout r u) l = (fst (ledger_step (Consume_timeout r u) l), l)
      \<and> plain_failure (fst (ledger_step (Consume_timeout r u) l))
    \<or> closes l (ledger_step (Consume_timeout r u) l) r"
proof (cases "active_reservation r l")
  case (Inl e)
  then show ?thesis using active_reservation_error by (auto simp: consume_timeout_def plain_failure_def)
next
  case act: (Inr current)
  let ?cost = "br_reserved_cost current"
  show ?thesis
  proof (cases "0 \<le> ?cost")
    case True
    obtain node where close: "close_reservation current ?cost True False l =
        (Inr (\<lparr>bs_reservation_id = br_reservation_id current, bs_charged_cost = ?cost, bs_timeout = True\<rparr>, False),
         close_book current node ?cost False l)" and closing: "closing r l current node ?cost False"
      using close_reservation_closes [OF wf act True, of True False] by auto
    have "closes l (ledger_step (Consume_timeout r u) l) r"
      using act close closing active_reservation_self(2) [OF wf act] active_money(1) [OF _ wf act] unfolding closes_def
      by (intro exI [of _ current] exI [of _ node] exI [of _ ?cost] exI [of _ False]
          exI [of _ "\<lparr>bs_reservation_id = br_reservation_id current, bs_charged_cost = ?cost, bs_timeout = True\<rparr>"])
        (simp add: consume_timeout_def)
    then show ?thesis ..
  next
    case False
    then show ?thesis using act by (simp add: consume_timeout_def close_reservation_def plain_failure_def)
  qed
qed

lemma refused_plainly:
  assumes "fst (reserve env clock uid identity rq l) = Inl e"
  shows "e \<noteq> BudgetOverflowError m s"
proof -
  have "first_error gs = Some x \<Longrightarrow> x \<in> set (map snd gs)" for gs :: "(bool \<times> budget_error) list" and x
    by (induction gs rule: first_error.induct) (auto split: if_splits)
  from this [of _ "BudgetOverflowError m s"]
  have "refusal policy timeout model cost now node l' \<noteq> Some (BudgetOverflowError m s)"
    for policy timeout model cost now node l'
    unfolding refusal_def Let_def by fastforce
  moreover have "admit rq \<noteq> Inl (BudgetOverflowError m s)"
    by (auto simp: admit_def raising_def nonnegative_int_def positive_int_def rbind_def split: option.splits sum.splits if_splits)
  ultimately show ?thesis
    using assms by (auto simp: reserve_def Let_def split: sum.splits prod.splits option.splits)
qed

lemma ledger_step_cases:
  assumes wf: "ledger_wf l"
  obtains (unchanged) t where "snd (ledger_step c l) = ticked t l"
      "plain_failure (fst (ledger_step c l)) \<or> (\<exists>s. fst (ledger_step c l) = Snapshot_taken s)"
  | (booked) env clock uid identity rq now policy timeout usage price cost node r where
      "c = Reserve env clock uid identity rq" "fst (ledger_step c l) = Reserved r"
      "snd (ledger_step c l) = book r node (ticked now l)"
      "books env uid identity rq now l policy timeout usage price cost node r"
  | (closed) r where "call_reservation c = Some r" "closes l (ledger_step c l) r"
proof (cases c)
  case (Reserve env clock uid identity rq)
  show ?thesis
  proof (cases rule: reserve_cases [of env clock uid identity rq l])
    case (refused e t)
    then show ?thesis using unchanged [of t] Reserve refused_plainly [of env clock uid identity rq l e]
      by (simp add: plain_failure_def)
  next
    case (books now policy timeout usage price cost node r)
    then show ?thesis using booked [of env clock uid identity rq r node now] Reserve by simp
  qed
next
  case (Settle r u)
  from settle_outcome [OF wf, of r u] show ?thesis
  proof
    assume "ledger_step (Settle r u) l = (fst (ledger_step (Settle r u) l), l)
      \<and> plain_failure (fst (ledger_step (Settle r u) l))"
    then show ?thesis using unchanged [of "wl_last_monotonic l"] Settle by (metis WorkflowBudgetLedger.surjective WorkflowBudgetLedger.update_convs(3) snd_conv)
  next
    assume "closes l (ledger_step (Settle r u) l) r"
    then show ?thesis using closed [of r] Settle by simp
  qed
next
  case (Consume_timeout r u)
  from consume_outcome [OF wf, of r u] show ?thesis
  proof
    assume "ledger_step (Consume_timeout r u) l = (fst (ledger_step (Consume_timeout r u) l), l)
      \<and> plain_failure (fst (ledger_step (Consume_timeout r u) l))"
    then show ?thesis using unchanged [of "wl_last_monotonic l"] Consume_timeout by (metis WorkflowBudgetLedger.surjective WorkflowBudgetLedger.update_convs(3) snd_conv)
  next
    assume "closes l (ledger_step (Consume_timeout r u) l) r"
    then show ?thesis using closed [of r] Consume_timeout by simp
  qed
next
  case (Take_snapshot clock)
  show ?thesis
  proof (cases "ledger_now clock l")
    case (Inl e)
    then show ?thesis using unchanged [of "wl_last_monotonic l"] Take_snapshot
      by (simp add: ledger_snapshot_def plain_failure_def)
  next
    case (Inr nl)
    then show ?thesis using unchanged [of "fst nl"] Take_snapshot ledger_now_Inr [of clock l "fst nl" "snd nl"]
      by (simp add: ledger_snapshot_def Let_def split_def)
  qed
qed

section \<open>Runs\<close>

text \<open>
  The identifiers a run allocates are new, as \<^verbatim>\<open>uuid4\<close> promises, and the tool prices in force have at
  most \<open>j\<close> places.
\<close>

fun call_uids :: "ledger_call \<Rightarrow> string list" where
  "call_uids (Reserve env clock uid identity rq) = [uid]"
| "call_uids c = []"

fun price_places :: "nat \<Rightarrow> ledger_call \<Rightarrow> bool" where
  "price_places j (Reserve env clock uid identity rq) =
     (case web_search_tool_price env of Inl e \<Rightarrow> True | Inr p \<Rightarrow> has_places j p)"
| "price_places j c = True"

definition fresh_ids :: "ledger_call list \<Rightarrow> WorkflowBudgetLedger \<Rightarrow> bool" where
  "fresh_ids cs l \<longleftrightarrow> distinct (concat (map call_uids cs)) \<and> set (concat (map call_uids cs)) \<inter> issued l = {}"

definition latched :: "WorkflowBudgetLedger \<Rightarrow> WorkflowBudgetLedger \<Rightarrow> bool" where
  "latched l l' \<longleftrightarrow> (wl_exhausted l \<longrightarrow> wl_exhausted l') \<and> set (wl_completed l) \<subseteq> set (wl_completed l')
     \<and> wl_nonce l' = wl_nonce l \<and> issued l \<subseteq> issued l'"

lemma ledger_step_keeps:
  assumes wf: "ledger_wf l" and fresh: "set (call_uids c) \<inter> issued l = {}"
  shows "ledger_wf (snd (ledger_step c l)) \<and> latched l (snd (ledger_step c l))
    \<and> issued (snd (ledger_step c l)) \<subseteq> issued l \<union> set (call_uids c)
    \<and> (5 \<le> j \<longrightarrow> j \<le> 20 \<longrightarrow> price_places j c \<longrightarrow> ledger_money j l \<longrightarrow> ledger_money j (snd (ledger_step c l)))"
  using wf
proof (cases rule: ledger_step_cases [where c = c])
  case (unchanged t)
  then show ?thesis using wf by (simp add: latched_def issued_def)
next
  case (booked env clock uid identity rq now policy timeout usage price cost node r)
  let ?l = "ticked now l"
  have u: "uid \<notin> issued ?l" using fresh booked(1) by (simp add: issued_def)
  have g: "books env uid identity rq now ?l policy timeout usage price cost node r"
    using booked(4) by simp
  have id: "br_reservation_id r = uid" using g by (simp add: books_def make_reservation_def)
  have "quote_call env rq = Inr (usage, price, cost)" using g by (simp add: books_def)
  then have "web_search_tool_price env = Inr price" by (rule quote_Inr)
  then have places: "has_places j price" if "price_places j c" using that booked(1) by simp
  have ids: "issued (book r node ?l) = insert uid (issued l)"
    using dict_keys_put [of uid r "wl_active l"] id by (simp add: issued_def book_def Let_def)
  then have "latched l (book r node ?l)" by (auto simp: latched_def book_def Let_def)
  moreover have "ledger_wf (book r node ?l)" using book_wf [OF _ g u] wf by simp
  moreover have "ledger_money j (book r node ?l)"
    if "5 \<le> j" "j \<le> 20" "price_places j c" "ledger_money j l"
    using book_money [OF _ _ that(1,2) g u places [OF that(3)]] wf that(4) by simp
  ultimately show ?thesis using booked(1,3) ids by auto
next
  case (closed r)
  then obtain current node charged over where c: "snd (ledger_step c l) = close_book current node charged over l"
    "closing r l current node charged over"
    "\<forall>j. 5 \<le> j \<longrightarrow> ledger_money j l \<longrightarrow> has_places (j + 3) charged"
    unfolding closes_def by force
  have "dict_get (wl_active l) (br_reservation_id current) = Some current"
    using active_reservation_self(3) [OF wf] c(2) unfolding closing_def by blast
  then have "br_reservation_id current \<in> set (dict_keys (wl_active l))" by (force dest: map_of_SomeD)
  then have "issued (snd (ledger_step c l)) = issued l"
    by (auto simp: c(1) issued_def close_book_def Let_def dict_pop_def)
  then show ?thesis using c close_wf [OF wf c(2)] close_money [OF wf _ _ c(2)]
    by (auto simp: latched_def close_book_def Let_def)
qed

lemma fresh_ids_tail:
  assumes "ledger_wf l" "fresh_ids (c # cs) l"
  shows "fresh_ids cs (snd (ledger_step c l))" "ledger_wf (snd (ledger_step c l))"
    "latched l (snd (ledger_step c l))"
proof -
  have "set (call_uids c) \<inter> issued l = {}" using assms(2) by (auto simp: fresh_ids_def)
  note keeps = ledger_step_keeps [OF assms(1) this]
  then show "fresh_ids cs (snd (ledger_step c l))" using assms(2) by (fastforce simp: fresh_ids_def)
  show "ledger_wf (snd (ledger_step c l))" "latched l (snd (ledger_step c l))" using keeps by blast+
qed

lemma run_keeps:
  assumes "ledger_wf l" "fresh_ids cs l"
  shows "ledger_wf (snd (run_calls ledger_step cs l)) \<and> latched l (snd (run_calls ledger_step cs l))
    \<and> (5 \<le> j \<longrightarrow> j \<le> 20 \<longrightarrow> list_all (price_places j) cs \<longrightarrow> ledger_money j l
        \<longrightarrow> ledger_money j (snd (run_calls ledger_step cs l)))"
  using assms
proof (induction cs arbitrary: l)
  case Nil
  then show ?case by (simp add: latched_def)
next
  case (Cons c cs)
  let ?l = "snd (ledger_step c l)"
  have "set (call_uids c) \<inter> issued l = {}" using Cons.prems(2) by (auto simp: fresh_ids_def)
  note step = ledger_step_keeps [OF Cons.prems(1) this, of j]
  have "fresh_ids cs ?l" using Cons.prems(2) step by (fastforce simp: fresh_ids_def)
  with step Cons.IH [of ?l] show ?case by (auto simp: latched_def)
qed


text \<open>Counters that a granted reservation raises and nothing else changes.\<close>

definition node_attempts :: "string \<Rightarrow> WorkflowBudgetLedger \<Rightarrow> int" where
  "node_attempts name l = (case dict_get (wl_nodes l) name of None \<Rightarrow> 0 | Some b \<Rightarrow> nb_attempts b)"

definition model_attempts :: "string \<Rightarrow> string \<Rightarrow> WorkflowBudgetLedger \<Rightarrow> int" where
  "model_attempts name model l = (case dict_get (wl_nodes l) name of None \<Rightarrow> 0 | Some b \<Rightarrow> tier_count b model)"

fun grants :: "(BudgetReservation \<Rightarrow> bool) \<Rightarrow> ledger_call \<times> ledger_answer \<Rightarrow> bool" where
  "grants Q (c, Reserved r) = Q r"
| "grants Q (c, _) = False"

locale attempt_counter =
  fixes count :: "WorkflowBudgetLedger \<Rightarrow> int"
    and concerns :: "BudgetReservation \<Rightarrow> bool"
  assumes count_ticked: "count (ticked t l) = count l"
    and count_book: "books env uid identity rq now l policy timeout usage price cost node r \<Longrightarrow>
      count (book r node l) = count l + (if concerns r then 1 else 0)"
    and count_close: "closing r l current node charged over \<Longrightarrow>
      count (close_book current node charged over l) = count l"
begin

lemma count_step:
  assumes "ledger_wf l"
  shows "count (snd (ledger_step c l)) = count l + (if grants concerns (c, fst (ledger_step c l)) then 1 else 0)"
  using assms
proof (cases rule: ledger_step_cases [where c = c])
  case (unchanged t)
  then show ?thesis by (auto simp: count_ticked plain_failure_def)
next
  case (booked env clock uid identity rq now policy timeout usage price cost node r)
  then have "books env uid identity rq now (ticked now l) policy timeout usage price cost node r" by simp
  from count_book [OF this] show ?thesis by (simp add: booked(2,3) count_ticked)
next
  case (closed r)
  then obtain current node charged over s where "closing r l current node charged over"
    and out: "ledger_step c l = (if over then Failed_with (BudgetOverflowError ''actual usage exceeds reservation'' s)
      else Closed s, close_book current node charged over l)"
    unfolding closes_def by blast
  then show ?thesis by (simp add: out count_close)
qed

lemma count_run:
  "ledger_wf l \<Longrightarrow> fresh_ids cs l \<Longrightarrow>
     count (snd (run_calls ledger_step cs l)) =
       count l + int (length (filter (grants concerns) (fst (run_calls ledger_step cs l))))"
proof (induction cs arbitrary: l)
  case (Cons c cs)
  then show ?case using Cons.IH [OF fresh_ids_tail(2,1)] count_step [of l c] by simp
qed simp

end

interpretation run_counter: attempt_counter wl_attempts "\<lambda>r. True"
  by unfold_locales (simp_all add: book_def close_book_def Let_def)

interpretation node_counter: attempt_counter "node_attempts name" "\<lambda>r. br_node_name r = name" for name
  by unfold_locales
    (auto simp: node_attempts_def book_def close_book_def Let_def books_def make_reservation_def
      node_budget_def fresh_node_def closing_def split: option.splits)

interpretation model_counter: attempt_counter "model_attempts name model"
    "\<lambda>r. br_node_name r = name \<and> br_model r = model" for name model
  by unfold_locales
    (auto simp: model_attempts_def tier_count_def book_def close_book_def Let_def books_def make_reservation_def
      node_budget_def fresh_node_def closing_def split: option.splits)

lemma exhausted_grants_nothing:
  "ledger_wf l \<Longrightarrow> fresh_ids cs l \<Longrightarrow> wl_exhausted l \<Longrightarrow>
     filter (grants (\<lambda>r. True)) (fst (run_calls ledger_step cs l)) = []"
proof (induction cs arbitrary: l)
  case (Cons c cs)
  note tail = fresh_ids_tail [OF Cons.prems(1,2)]
  have "\<not> grants (\<lambda>r. True) (c, fst (ledger_step c l))"
    using Cons.prems(1)
  proof (cases rule: ledger_step_cases [where c = c])
    case (booked env clock uid identity rq now policy timeout usage price cost node r)
    then show ?thesis using not_refused(1) Cons.prems(3) unfolding books_def by blast
  qed (auto simp: plain_failure_def closes_def split: if_splits)
  then show ?case using Cons.IH [OF tail(2,1)] tail(3) Cons.prems(3) by (simp add: latched_def)
qed simp

end
