(* ===== verification/Budget_Runs.thy ===== *)
theory Budget_Runs
  imports Budget_Accounts
begin

text \<open>
  What the budget ledger promises over any sequence of calls on a new ledger, and a worked run.
\<close>

section \<open>What the ledger promises\<close>

text \<open>
  C18. Money is never promised twice. After any calls on a new ledger, what it holds as reserved is the
  sum of the open reservations, for the run and for each node; and unless a call has cost more than
  its reservation, settled and reserved cost together are within the caps of the run and the node.
  (Tool prices of at most 20 places: no sum is then rounded.)
\<close>

theorem spending_within_caps:
  assumes "new_ledger mode nonce clock = Inr l0" "fresh_ids cs l0" "list_all (price_places 20) cs"
  defines "l \<equiv> snd (run_calls ledger_step cs l0)"
  shows "wl_reserved_cost l = sum_list (costs_of (\<lambda>_. True) l)
    \<and> (\<not> wl_exhausted l \<longrightarrow> wl_settled_cost l + wl_reserved_cost l \<le> wl_cost_cap l)
    \<and> (\<forall>(name, b) \<in> set (wl_nodes l).
         nb_reserved_cost b = sum_list (costs_of (\<lambda>n. n = name) l)
         \<and> (\<not> nb_exhausted b \<longrightarrow> nb_settled_cost b + nb_reserved_cost b \<le> ap_node_cost_cap (nb_policy b)))"
proof -
  have "ledger_money 20 l"
    using run_keeps [OF new_ledger_ok(1) [OF assms(1)] assms(2), of 20] new_ledger_ok(2) [OF assms(1)] assms(3)
    by (simp add: l_def)
  then show ?thesis by (auto simp: ledger_money_def node_money_def account_ok_def list_all_iff)
qed

text \<open>
  C19. Attempts are bounded. However the calls interleave, a run is granted at most ten reservations,
  a node at most its total cap, and a model of a node at most the cap per tier.
\<close>

theorem attempts_within_caps:
  assumes "new_ledger mode nonce clock = Inr l0" "fresh_ids cs l0"
  defines "granted_for \<equiv> \<lambda>Q. int (length (filter (grants Q) (fst (run_calls ledger_step cs l0))))"
  shows "granted_for (\<lambda>r. True) \<le> 10
    \<and> (\<forall>name policy. policy_for name = Some policy \<longrightarrow>
         granted_for (\<lambda>r. br_node_name r = name) \<le> ap_maximum_total_attempts policy
         \<and> (\<forall>model. granted_for (\<lambda>r. br_node_name r = name \<and> br_model r = model)
              \<le> ap_maximum_attempts_per_tier policy))"
proof -
  let ?l = "snd (run_calls ledger_step cs l0)"
  note wf0 = new_ledger_ok(1) [OF assms(1)]
  have wf: "ledger_wf ?l" using run_keeps [OF wf0 assms(2)] by blast
  note nodes0 = new_ledger_ok(5,6) [OF assms(1)]
  have top: "granted_for (\<lambda>r. True) = wl_attempts ?l"
    using run_counter.count_run [OF wf0 assms(2)] nodes0 by (simp add: granted_for_def)
  have "wl_maximum_attempts ?l = 10" using wf by (cases "wl_mode ?l") (auto simp: ledger_wf_def)
  then have "granted_for (\<lambda>r. True) \<le> 10" using top wf by (simp add: ledger_wf_def)
  moreover have "granted_for (\<lambda>r. br_node_name r = name) \<le> ap_maximum_total_attempts policy
      \<and> granted_for (\<lambda>r. br_node_name r = name \<and> br_model r = model) \<le> ap_maximum_attempts_per_tier policy"
    if pol: "policy_for name = Some policy" for name policy model
  proof -
    have n: "granted_for (\<lambda>r. br_node_name r = name) = node_attempts name ?l"
      using node_counter.count_run [OF wf0 assms(2)] nodes0 by (simp add: granted_for_def node_attempts_def)
    have m: "granted_for (\<lambda>r. br_node_name r = name \<and> br_model r = model) = model_attempts name model ?l"
      using model_counter.count_run [OF wf0 assms(2)] nodes0 by (simp add: granted_for_def model_attempts_def)
    have caps: "0 < ap_maximum_total_attempts policy" "0 < ap_maximum_attempts_per_tier policy"
      using policies_checked(1) [OF pol] by (auto simp: policy_check_def guarded_Inr)
    show ?thesis
    proof (cases "dict_get (wl_nodes ?l) name")
      case None
      then show ?thesis using n m caps by (simp add: node_attempts_def model_attempts_def)
    next
      case (Some b)
      then have "node_ok (name, b)" using wf dict_get_all [OF _ Some, of node_ok] by (simp add: ledger_wf_def)
      then show ?thesis using n m Some pol caps
        dict_get_all [of "\<lambda>t. snd t \<le> ap_maximum_attempts_per_tier policy" "nb_tier_attempts b" model]
        by (auto simp: node_ok_def node_attempts_def model_attempts_def tier_count_def split: option.splits)
    qed
  qed
  ultimately show ?thesis by blast
qed

text \<open>The ledger after the calls \<open>before\<close> on a new one, and the calls \<open>after\<close> it may still be given.\<close>

definition reached :: "ledger_call list \<Rightarrow> ledger_call list \<Rightarrow> WorkflowBudgetLedger \<Rightarrow> bool" where
  "reached before after l \<longleftrightarrow>
     (\<exists>mode nonce clock l0. new_ledger mode nonce clock = Inr l0 \<and> fresh_ids (before @ after) l0
        \<and> l = snd (run_calls ledger_step before l0))"

lemma reached_ok:
  assumes "reached before after l"
  shows "ledger_wf l" "fresh_ids after l"
proof -
  have "ledger_wf (snd (run_calls ledger_step xs l0)) \<and> fresh_ids ys (snd (run_calls ledger_step xs l0))"
    if "ledger_wf l0" "fresh_ids (xs @ ys) l0" for xs ys l0
    using that
  proof (induction xs arbitrary: l0)
    case (Cons c xs)
    then show ?case using Cons.IH fresh_ids_tail [of l0 c "xs @ ys"] by simp
  qed simp
  then show "ledger_wf l" "fresh_ids after l"
    using assms new_ledger_ok(1) unfolding reached_def by blast+
qed

fun closed_answer :: "ledger_answer \<Rightarrow> bool" where
  "closed_answer (Closed s) = True"
| "closed_answer (Failed_with (BudgetOverflowError m s)) = True"
| "closed_answer a = False"

text \<open>
  C20. A reservation is closed once. When a settlement or a timeout closes a reservation, with or
  without an overflow, then whatever calls follow, every later settlement or timeout of it answers
  that it has already been settled and changes nothing.
\<close>

theorem reservations_close_once:
  assumes "reached before (c # after) l" and "call_reservation c = Some r"
    and "closed_answer (fst (ledger_step c l))"
  defines "l' \<equiv> snd (run_calls ledger_step (c # after) l)"
  shows "settle r usage l' = (Inl (ReservationStateError ''reservation has already been settled''), l')
    \<and> consume_timeout r reported l' = (Inl (ReservationStateError ''reservation has already been settled''), l')"
proof -
  let ?l = "snd (ledger_step c l)" and ?id = "br_reservation_id r"
  note ok = reached_ok [OF assms(1)]
  from ok(1) obtain current node charged over where
    step: "?l = close_book current node charged over l" and closing: "closing r l current node charged over"
  proof (cases rule: ledger_step_cases [where c = c])
    case (closed r')
    then show ?thesis using that assms(2) unfolding closes_def by force
  qed (use assms(2,3) in \<open>auto simp: plain_failure_def elim!: closed_answer.elims\<close>)
  have act: "active_reservation r l = Inr current" using closing by (simp add: closing_def)
  have id: "br_reservation_id current = ?id" using active_reservation_self(2) [OF ok(1) act] .
  note tail = fresh_ids_tail [OF ok]
  have wf: "ledger_wf l'" "latched ?l l'"
    using run_keeps [OF tail(2,1)] by (simp_all add: l'_def)
  have "?id \<in> set (wl_completed ?l)" by (simp add: step close_book_def Let_def id)
  then have "?id \<in> set (wl_completed l')" using wf(2) by (auto simp: latched_def)
  moreover from this have "dict_get (wl_active l') ?id = None"
    using wf(1) by (auto simp: ledger_wf_def map_of_eq_None_iff)
  moreover have "br_ledger_nonce r = wl_nonce l'"
    using act wf(2) step by (simp add: active_reservation_Inr latched_def close_book_def Let_def)
  ultimately have "active_reservation r l' = Inl (ReservationStateError ''reservation has already been settled'')"
    by (simp add: active_reservation_def)
  then show ?thesis by (simp add: settle_def consume_timeout_def)
qed

text \<open>
  An overflow stops the run's spending. Once a settlement has reported that a call cost more
  than its reservation, no later call on the ledger is granted a reservation.
\<close>

theorem overflow_stops_reservations:
  assumes "reached before (c # after) l"
    and "fst (ledger_step c l) = Failed_with (BudgetOverflowError message settlement)"
  shows "filter (grants (\<lambda>r. True)) (fst (run_calls ledger_step (c # after) l)) = []"
proof -
  note ok = reached_ok [OF assms(1)]
  have "wl_exhausted (snd (ledger_step c l))"
    using ok(1)
  proof (cases rule: ledger_step_cases [where c = c])
    case (closed r)
    then show ?thesis using assms(2) by (auto simp: closes_def close_book_def Let_def split: if_splits)
  qed (use assms(2) in \<open>auto simp: plain_failure_def\<close>)
  then have "filter (grants (\<lambda>r. True)) (fst (run_calls ledger_step after (snd (ledger_step c l)))) = []"
    using exhausted_grants_nothing fresh_ids_tail [OF ok] by blast
  then show ?thesis using assms(2) by simp
qed

text \<open>
  Usage within the reservation settles. When no count of the actual usage exceeds the reserved
  one, nor the input that missed the cache, then settling an open reservation succeeds, charges the
  price of the usage, at most what was reserved, and does not exhaust the ledger.
\<close>

theorem settlement_within_reservation:
  assumes "reached before after l" and act: "active_reservation r l = Inr r" and u: "valid_usage u"
    and within: "\<not> usage_overflowed u (br_reserved_usage r)"
      "ut_input_tokens u - ut_cached_input_tokens u
         \<le> ut_input_tokens (br_reserved_usage r) - ut_cached_input_tokens (br_reserved_usage r)"
  shows "\<exists>s l'. settle r u l = (Inr s, l') \<and> bs_reservation_id s = br_reservation_id r \<and> \<not> bs_timeout s
    \<and> 0 \<le> bs_charged_cost s \<and> bs_charged_cost s \<le> br_reserved_cost r
    \<and> estimate_workflow_usage_cost None (br_model r) (br_band r) u (Some (br_web_search_tool_price r))
        = Inr (bs_charged_cost s)
    \<and> wl_exhausted l' = wl_exhausted l"
proof -
  note wf = reached_ok(1) [OF assms(1)]
  have "dict_get (wl_active l) (br_reservation_id r) = Some r" using act by (simp add: active_reservation_Inr)
  then have "priced r"
    using wf dict_get_all [of "active_ok (wl_nonce l) (wl_nodes l)" "wl_active l" "br_reservation_id r" r]
    by (simp add: ledger_wf_def active_ok_def)
  then obtain p where p: "workflow_model_pricing (br_model r) (br_band r) = Inr p"
    "br_reserved_cost r = usage_cost p (br_reserved_usage r) (br_web_search_tool_price r)"
    "0 \<le> br_web_search_tool_price r"
    by (auto simp: priced_def split: sum.splits)
  let ?charged = "usage_cost p u (br_web_search_tool_price r)"
  have est: "estimate_workflow_usage_cost None (br_model r) (br_band r) u (Some (br_web_search_tool_price r)) = Inr ?charged"
    using p by (simp add: estimate_workflow_usage_cost_def)
  have ge: "0 \<le> ?charged" using usage_cost_ge0 [OF p(1) u p(3)] .
  have le: "?charged \<le> br_reserved_cost r"
    unfolding p(2) by (rule usage_cost_mono [OF p(1,3) within(2)])
      (use within(1) in \<open>auto simp: usage_overflowed_def usage_counts_def\<close>)
  obtain node where "close_reservation r ?charged False False l =
      (Inr (\<lparr>bs_reservation_id = br_reservation_id r, bs_charged_cost = ?charged, bs_timeout = False\<rparr>, False),
       close_book r node ?charged False l)"
    using close_reservation_closes [OF wf act ge, of False False] le by (auto simp: not_less)
  then have "settle r u l = (Inr \<lparr>bs_reservation_id = br_reservation_id r, bs_charged_cost = ?charged, bs_timeout = False\<rparr>,
      close_book r node ?charged False l)"
    using act est within(1) by (simp add: settle_def)
  then show ?thesis using est ge le by (simp add: close_book_def Let_def)
qed

section \<open>A worked run\<close>

definition example_start :: WorkflowBudgetLedger where
  "example_start =
     \<lparr>wl_mode = PASSIVE, wl_nonce = 0, wl_last_monotonic = 0, wl_maximum_attempts = 10,
      wl_cost_cap = 30 / 100, wl_deadline_monotonic = 130, wl_reserved_cost = 0, wl_settled_cost = 0,
      wl_attempts = 0, wl_nodes = [], wl_active = [], wl_completed = [], wl_exhausted = False,
      wl_overdrawn = False\<rparr>"

definition example_usage :: "int \<Rightarrow> int \<Rightarrow> UsageTokens" where
  "example_usage i q =
     \<lparr>ut_input_tokens = i, ut_cached_input_tokens = 0, ut_cache_write_tokens = 0, ut_output_tokens = q,
      ut_web_search_tool_calls = 0\<rparr>"

definition example_request :: reserve_request where
  "example_request =
     \<lparr>rq_node_name = ''event_filter'', rq_model = ''gpt-5.6-luna'', rq_band = ''short'',
      rq_usage = example_usage 1000 500, rq_maximum_tool_calls = 0, rq_attempt_timeout_seconds = None\<rparr>"

definition example_reservation :: BudgetReservation where
  "example_reservation =
     \<lparr>br_reservation_id = ''a'', br_node_name = ''event_filter'', br_model = ''gpt-5.6-luna'',
      br_band = ''short'', br_reserved_cost = 8 / 10000, br_deadline_monotonic = 21, br_ledger_nonce = 0,
      br_reserved_usage = example_usage 1000 500, br_web_search_tool_price = 10, br_identity = 7\<rparr>"

definition example_reserve :: ledger_call where
  "example_reserve = Reserve None (Clock_int 1) ''a'' 7 example_request"

definition example_next :: ledger_call where
  "example_next = Reserve None (Clock_int 2) ''b'' 8 example_request"

definition example_ledger :: WorkflowBudgetLedger where
  "example_ledger = snd (ledger_step example_reserve example_start)"

lemma example_new: "new_ledger (Inr ''passive'') 0 (Clock_int 0) = Inr example_start"
  by code_simp

definition example_policy :: AgentExecutionPolicy where
  "example_policy = agent_policy ''event_filter'' [tier_LUNA] 20 55 2 2 600 (2 / 100) 0"

lemma example_admit: "admit example_request = Inr (example_policy, 20)"
  by code_simp

lemma example_price: "web_search_tool_price None = Inr 10"
  by code_simp

lemma example_usage_check: "usage_check (example_usage 1000 500) = Inr (example_usage 1000 500)"
  by code_simp

definition example_pricing :: ModelPricing where
  "example_pricing =
     \<lparr>mp_input = 20 / 100, mp_cached_input = 2 / 100, mp_cache_write = 25 / 100, mp_output = 120 / 100\<rparr>"

lemma example_priced: "workflow_model_pricing ''gpt-5.6-luna'' ''short'' = Inr example_pricing"
  by code_simp

lemma example_sums:
  "dmul 1000 (1 / 5) = 200" "dmul 500 (6 / 5) = 600" "dmul 2000 (1 / 5) = 400" "dadd 200 0 = 200" "dadd 400 0 = 400"
  "dadd 200 600 = 800" "dadd 400 600 = 1000" "ddiv 800 1000000 = 1 / 1250" "ddiv 1000 1000000 = 1 / 1000"
  "dadd (1 / 1250) 0 = 1 / 1250" "dadd (1 / 1000) 0 = 1 / 1000" "\<And>x. dmul 0 x = 0" "ddiv 0 1000 = 0"
  by (code_simp, code_simp, code_simp, code_simp, code_simp, code_simp, code_simp, code_simp, code_simp,
      code_simp, code_simp, simp add: dmul_def, code_simp)

lemma example_cost:
  "estimate_workflow_usage_cost None ''gpt-5.6-luna'' ''short'' (example_usage 1000 500) (Some 10) = Inr (8 / 10000)"
  "estimate_workflow_usage_cost None ''gpt-5.6-luna'' ''short'' (example_usage 2000 500) (Some 10) = Inr (1 / 1000)"
  by (simp_all add: estimate_workflow_usage_cost_def example_priced usage_cost_def example_pricing_def
      example_usage_def example_sums)

lemma example_quote: "quote_call None example_request = Inr (example_usage 1000 500, 10, 8 / 10000)"
  using example_cost(1) example_usage_check
  by (simp add: quote_call_def example_price example_request_def example_usage_def)

lemma example_clock: "ledger_now (Clock_int 1) example_start = Inr (1, ticked 1 example_start)"
  by code_simp

lemma example_node: "node_budget example_policy 1 ''event_filter'' example_start = fresh_node example_policy 1 56"
  by code_simp

lemma example_not_refused:
  "refusal example_policy 20 ''gpt-5.6-luna'' (8 / 10000) 1 (fresh_node example_policy 1 56) example_start = None"
  by code_simp

lemma example_reserved:
  "fst (ledger_step example_reserve example_start) = Reserved example_reservation"
  "example_ledger = book example_reservation (fresh_node example_policy 1 56) (ticked 1 example_start)"
proof -
  have node: "rq_node_name example_request = ''event_filter''" "rq_model example_request = ''gpt-5.6-luna''"
    "rq_band example_request = ''short''" by (simp_all add: example_request_def)
  have "make_reservation ''a'' 7 example_request (example_usage 1000 500) 10 (8 / 10000) 20 1
      (fresh_node example_policy 1 56) example_start = example_reservation"
    by code_simp
  then show "fst (ledger_step example_reserve example_start) = Reserved example_reservation"
    "example_ledger = book example_reservation (fresh_node example_policy 1 56) (ticked 1 example_start)"
    using example_not_refused
    by (simp_all add: example_ledger_def example_reserve_def reserve_def example_admit example_quote example_clock
        node example_node)
qed

lemma example_reached: "reached [example_reserve] [c, example_next] example_ledger" if "call_uids c = []"
proof -
  have "fresh_ids ([example_reserve] @ [c, example_next]) example_start"
    using that by (simp add: fresh_ids_def issued_def example_reserve_def example_next_def example_start_def)
  then show ?thesis unfolding reached_def using example_new
    by (intro exI [of _ "Inr ''passive''"] exI [of _ 0] exI [of _ "Clock_int 0"] exI [of _ example_start])
      (simp add: example_ledger_def)
qed

lemma example_active: "active_reservation example_reservation example_ledger = Inr example_reservation"
  unfolding example_reserved(2)
  by (simp add: active_reservation_Inr book_def Let_def example_reservation_def example_start_def)

lemma example_overflow:
  "fst (ledger_step (Settle example_reservation (example_usage 2000 500)) example_ledger) =
     Failed_with (BudgetOverflowError ''actual usage exceeds reservation''
       \<lparr>bs_reservation_id = ''a'', bs_charged_cost = 1 / 1000, bs_timeout = False\<rparr>)"
proof -
  let ?over = "usage_overflowed (example_usage 2000 500) (br_reserved_usage example_reservation)"
  have over: ?over by code_simp
  obtain node where "close_reservation example_reservation (1 / 1000) False ?over example_ledger =
      (Inr (\<lparr>bs_reservation_id = br_reservation_id example_reservation, bs_charged_cost = 1 / 1000, bs_timeout = False\<rparr>,
        ?over \<or> br_reserved_cost example_reservation < 1 / 1000),
       close_book example_reservation node (1 / 1000) (?over \<or> br_reserved_cost example_reservation < 1 / 1000) example_ledger)"
    using close_reservation_closes [OF reached_ok(1) [OF example_reached] example_active, of "Settle example_reservation (example_usage 2000 500)" "1 / 1000" False ?over]
    by auto
  then show ?thesis using over example_cost(2)
    by (simp add: settle_def example_active) (simp add: example_reservation_def)
qed

lemma example_ids: "fresh_ids [example_reserve, example_next] example_start"
  by (simp add: fresh_ids_def issued_def example_reserve_def example_next_def example_start_def)

theorem spending_within_caps_witness:
  "let l = snd (run_calls ledger_step [example_reserve, example_next] example_start)
   in wl_reserved_cost l = sum_list (costs_of (\<lambda>_. True) l)
      \<and> (\<not> wl_exhausted l \<longrightarrow> wl_settled_cost l + wl_reserved_cost l \<le> wl_cost_cap l)"
proof -
  have "list_all (price_places 20) [example_reserve, example_next]"
    by (simp add: example_reserve_def example_next_def example_price has_places_def)
  then show ?thesis using spending_within_caps [OF example_new example_ids] unfolding Let_def by blast
qed

theorem attempts_within_caps_witness:
  "int (length (filter (grants (\<lambda>r. True)) (fst (run_calls ledger_step [example_reserve, example_next] example_start)))) \<le> 10
   \<and> int (length (filter (grants (\<lambda>r. br_node_name r = ''event_filter''))
        (fst (run_calls ledger_step [example_reserve, example_next] example_start)))) \<le> 2"
proof -
  have "policy_for ''event_filter'' = Some example_policy" "ap_maximum_total_attempts example_policy = 2"
    by (code_simp, code_simp)
  then show ?thesis using attempts_within_caps [OF example_new example_ids] by fastforce
qed

theorem reservations_close_once_witness:
  "let l' = snd (run_calls ledger_step [Settle example_reservation (example_usage 2000 500), example_next] example_ledger)
   in settle example_reservation (example_usage 1 1) l'
        = (Inl (ReservationStateError ''reservation has already been settled''), l')
      \<and> consume_timeout example_reservation None l'
        = (Inl (ReservationStateError ''reservation has already been settled''), l')"
  unfolding Let_def
  by (rule reservations_close_once [OF example_reached]) (simp_all add: example_overflow del: ledger_step.simps)

theorem overflow_stops_reservations_witness:
  "filter (grants (\<lambda>r. True)) (fst (run_calls ledger_step
     [Settle example_reservation (example_usage 2000 500), example_next] example_ledger)) = []"
  by (rule overflow_stops_reservations [OF example_reached example_overflow]) simp

theorem settlement_within_reservation_witness:
  "\<exists>s l'. settle example_reservation (example_usage 900 400) example_ledger = (Inr s, l')
     \<and> 0 \<le> bs_charged_cost s \<and> bs_charged_cost s \<le> br_reserved_cost example_reservation \<and> wl_exhausted l' = wl_exhausted example_ledger"
proof -
  have "reached [example_reserve] [Take_snapshot Clock_other, example_next] example_ledger"
    by (rule example_reached) simp
  moreover have "usage_check (example_usage 900 400) = Inr (example_usage 900 400)"
    "\<not> usage_overflowed (example_usage 900 400) (br_reserved_usage example_reservation)"
    "ut_input_tokens (example_usage 900 400) - ut_cached_input_tokens (example_usage 900 400)
       \<le> ut_input_tokens (br_reserved_usage example_reservation) - ut_cached_input_tokens (br_reserved_usage example_reservation)"
    by (code_simp, code_simp, code_simp)
  ultimately show ?thesis using settlement_within_reservation [OF _ example_active] by blast
qed

end
