(* ===== verification/Risk_Gate.thy ===== *)
theory Risk_Gate
  imports Harness_Contracts Decimal
begin

text \<open>
  The deterministic risk gate between the planner's decision and anything that trades
  (\<^verbatim>\<open>src/market_agent/workflow_risk_gate.py\<close>), with the contracts of the values it judges
  (\<^verbatim>\<open>workflow_contracts.py\<close>). Prices and confidences are doubles: differences, quotients and
  sums are rounded to 53 bits.
\<close>

section \<open>Contracts\<close>

datatype Knowledge = Known | Insufficient

datatype Action = Go_long | Go_short | No_trade

datatype MarketRegime = UPTREND | DOWNTREND | RANGE | TRANSITION | Regime_insufficient

datatype ExtensionState = UPSIDE_EXTENDED | DOWNSIDE_EXTENDED | BALANCED | Extension_insufficient

datatype DataQuality = GOOD | DEGRADED | Quality_insufficient

definition finite_unit :: "rat \<Rightarrow> bool" where
  "finite_unit x = (0 \<le> x \<and> x \<le> 1)"

definition positive_finite :: "rat \<Rightarrow> bool" where
  "positive_finite x = (0 < x)"

text \<open>\<^verbatim>\<open>KnowledgeBoundContract\<close>: a reason exactly for insufficient knowledge.\<close>

definition knowledge_bound :: "Knowledge \<Rightarrow> string option \<Rightarrow> bool" where
  "knowledge_bound k reason =
     (optional long_text reason
      \<and> \<not> (k = Insufficient \<and> reason = None) \<and> \<not> (k = Known \<and> reason \<noteq> None))"

record TradeSetup =
  ts_viable :: bool
  ts_confidence :: rat
  ts_entry_price :: "rat option"
  ts_stop_price :: "rat option"
  ts_observation_low :: "rat option"
  ts_observation_high :: "rat option"
  ts_candidate_condition :: "string option"

definition setup_contract :: "TradeSetup \<Rightarrow> bool" where
  "setup_contract t =
     (let missing = [ts_entry_price t = None, ts_stop_price t = None, ts_observation_low t = None,
                     ts_observation_high t = None, ts_candidate_condition t = None]
      in finite_unit (ts_confidence t)
         \<and> optional positive_finite (ts_entry_price t) \<and> optional positive_finite (ts_stop_price t)
         \<and> optional positive_finite (ts_observation_low t) \<and> optional positive_finite (ts_observation_high t)
         \<and> optional long_text (ts_candidate_condition t)
         \<and> \<not> (ts_viable t \<and> True \<in> set missing)
         \<and> \<not> (\<not> ts_viable t \<and> False \<in> set missing)
         \<and> \<not> (case (ts_observation_low t, ts_observation_high t) of
                (Some lo, Some hi) \<Rightarrow> hi \<le> lo | _ \<Rightarrow> False))"

record TechnicalAnalysis =
  ta_knowledge_status :: Knowledge
  ta_uncertainty_reason :: "string option"
  ta_current_price :: "rat option"
  ta_market_regime :: MarketRegime
  ta_extension_state :: ExtensionState
  ta_long_setup :: TradeSetup
  ta_short_setup :: TradeSetup
  ta_data_quality :: DataQuality

definition technical_contract :: "TechnicalAnalysis \<Rightarrow> bool" where
  "technical_contract t =
     (knowledge_bound (ta_knowledge_status t) (ta_uncertainty_reason t)
      \<and> optional positive_finite (ta_current_price t)
      \<and> setup_contract (ta_long_setup t) \<and> setup_contract (ta_short_setup t)
      \<and> \<not> (ta_knowledge_status t = Insufficient \<and> ta_data_quality t \<noteq> Quality_insufficient)
      \<and> \<not> (ta_data_quality t = Quality_insufficient \<and> ta_knowledge_status t \<noteq> Insufficient)
      \<and> \<not> (ta_market_regime t = Regime_insufficient \<and> ta_knowledge_status t \<noteq> Insufficient)
      \<and> \<not> (ta_extension_state t = Extension_insufficient \<and> ta_knowledge_status t \<noteq> Insufficient)
      \<and> \<not> (ta_knowledge_status t = Insufficient
           \<and> (ts_viable (ta_long_setup t) \<or> ts_viable (ta_short_setup t))))"

record ObservationScenario =
  os_lower_bound :: rat
  os_upper_bound :: rat
  os_condition :: string
  os_timeout_seconds :: int

definition scenario_contract :: "ObservationScenario \<Rightarrow> bool" where
  "scenario_contract s =
     (positive_finite (os_lower_bound s) \<and> positive_finite (os_upper_bound s)
      \<and> long_text (os_condition s) \<and> 0 < os_timeout_seconds s
      \<and> \<not> os_upper_bound s \<le> os_lower_bound s)"

record DecisionDraft =
  dd_knowledge_status :: Knowledge
  dd_uncertainty_reason :: "string option"
  dd_action :: Action
  dd_execute_now :: bool
  dd_entry_price :: "rat option"
  dd_stop_price :: "rat option"
  dd_observation_scenario :: "ObservationScenario option"
  dd_decision_confidence :: rat
  dd_selected_setup :: "string option"
  dd_conflict_codes :: "string list"

definition decision_contract :: "DecisionDraft \<Rightarrow> bool" where
  "decision_contract d =
     (knowledge_bound (dd_knowledge_status d) (dd_uncertainty_reason d)
      \<and> optional positive_finite (dd_entry_price d) \<and> optional positive_finite (dd_stop_price d)
      \<and> optional scenario_contract (dd_observation_scenario d)
      \<and> finite_unit (dd_decision_confidence d) \<and> optional short_text (dd_selected_setup d)
      \<and> list_all short_text (dd_conflict_codes d) \<and> length (dd_conflict_codes d) \<le> 5
      \<and> \<not> (dd_knowledge_status d = Insufficient \<and> dd_action d \<noteq> No_trade)
      \<and> (if dd_action d = No_trade
         then \<not> (dd_execute_now d \<or> dd_entry_price d \<noteq> None \<or> dd_stop_price d \<noteq> None
                \<or> dd_observation_scenario d \<noteq> None)
         else \<not> (dd_entry_price d = None \<or> dd_stop_price d = None \<or> dd_selected_setup d = None)
              \<and> \<not> (dd_execute_now d \<and> dd_observation_scenario d \<noteq> None)
              \<and> \<not> (\<not> dd_execute_now d \<and> dd_observation_scenario d = None)))"

record RiskAssessment =
  ra_knowledge_status :: Knowledge
  ra_uncertainty_reason :: "string option"
  ra_accepted :: bool
  ra_reason_codes :: "string list"
  ra_requires_escalation :: bool

definition assessment_contract :: "RiskAssessment \<Rightarrow> bool" where
  "assessment_contract a =
     (knowledge_bound (ra_knowledge_status a) (ra_uncertainty_reason a)
      \<and> list_all short_text (ra_reason_codes a) \<and> length (ra_reason_codes a) \<le> 10
      \<and> \<not> (ra_knowledge_status a = Insufficient \<and> ra_accepted a))"

section \<open>The gate\<close>

text \<open>The defaults are the doubles nearest to 0.60 and 0.20.\<close>

record RiskPolicy =
  rp_min_confidence :: rat
  rp_maximum_stop_distance_fraction :: rat
  rp_require_technical_confirmation :: bool

definition default_risk_policy :: RiskPolicy where
  "default_risk_policy =
     \<lparr>rp_min_confidence = fround (60 / 100), rp_maximum_stop_distance_fraction = fround (20 / 100),
      rp_require_technical_confirmation = True\<rparr>"

definition risk_policy_check :: "RiskPolicy \<Rightarrow> unit result" where
  "risk_policy_check p =
     guarded
       [(\<not> (0 \<le> rp_min_confidence p \<and> rp_min_confidence p \<le> 1),
         ValueError ''min_confidence must be between zero and one''),
        (\<not> (0 < rp_maximum_stop_distance_fraction p \<and> rp_maximum_stop_distance_fraction p < 1),
         ValueError ''maximum_stop_distance_fraction must be between zero and one'')]
       ()"

definition rejected :: "string list \<Rightarrow> bool \<Rightarrow> RiskAssessment" where
  "rejected codes insufficient =
     \<lparr>ra_knowledge_status = (if insufficient then Insufficient else Known),
      ra_uncertainty_reason = (if insufficient then Some ''risk gate lacks sufficient evidence'' else None),
      ra_accepted = False, ra_reason_codes = codes, ra_requires_escalation = False\<rparr>"

text \<open>\<^verbatim>\<open>abs(entry - stop) / entry\<close>; the entry price is positive by its contract.\<close>

definition stop_distance :: "rat \<Rightarrow> rat \<Rightarrow> rat" where
  "stop_distance entry stop = fround (\<bar>fround (entry - stop)\<bar> / entry)"

definition evaluate_risk :: "DecisionDraft \<Rightarrow> TechnicalAnalysis option \<Rightarrow> RiskPolicy \<Rightarrow> RiskAssessment" where
  "evaluate_risk d technical policy =
     (if dd_knowledge_status d = Insufficient then rejected [''insufficient_decision_evidence''] True
      else if dd_action d = No_trade then rejected [''no_trade_decision''] False
      else if dd_decision_confidence d < rp_min_confidence policy
        then rejected [''confidence_below_policy''] False
      else case (dd_entry_price d, dd_stop_price d) of
        (Some entry, Some stop) \<Rightarrow>
          if dd_action d = Go_long \<and> entry \<le> stop then rejected [''long_stop_not_below_entry''] False
          else if dd_action d = Go_short \<and> stop \<le> entry then rejected [''short_stop_not_above_entry''] False
          else if rp_maximum_stop_distance_fraction policy < stop_distance entry stop
            then rejected [''stop_distance_exceeds_policy''] False
          else
            (let accept =
               \<lparr>ra_knowledge_status = Known, ra_uncertainty_reason = None, ra_accepted = True,
                ra_reason_codes = [''risk_policy_satisfied''],
                ra_requires_escalation =
                  (dd_decision_confidence d
                     < min (fround (85 / 100)) (fround (rp_min_confidence policy + fround (20 / 100))))\<rparr>
             in if \<not> rp_require_technical_confirmation policy then accept
                else case technical of
                  None \<Rightarrow> rejected [''technical_confirmation_missing''] True
                | Some t \<Rightarrow>
                    if ta_knowledge_status t = Insufficient
                    then rejected [''technical_confirmation_missing''] True
                    else if \<not> ts_viable (if dd_action d = Go_long then ta_long_setup t else ta_short_setup t)
                    then rejected [''technical_setup_not_viable''] False
                    else accept)
      | _ \<Rightarrow> rejected [''missing_trade_levels''] True)"

section \<open>What an acceptance means\<close>

lemma rejected_not_accepted [simp]: "ra_accepted (rejected codes insufficient) = False"
  by (simp add: rejected_def)

definition protective_stop :: "Action \<Rightarrow> rat \<Rightarrow> rat \<Rightarrow> bool" where
  "protective_stop act entry stop = (case act of Go_long \<Rightarrow> stop < entry | Go_short \<Rightarrow> entry < stop | No_trade \<Rightarrow> False)"

definition confirmed :: "Action \<Rightarrow> TechnicalAnalysis option \<Rightarrow> bool" where
  "confirmed act technical =
     (case technical of
        None \<Rightarrow> False
      | Some t \<Rightarrow> ta_knowledge_status t = Known
          \<and> ts_viable (if act = Go_long then ta_long_setup t else ta_short_setup t))"

lemma Known_iff: "(k \<noteq> Insufficient) = (k = Known)"
  by (cases k) simp_all

text \<open>The reason codes of the gate.\<close>

definition gate_codes :: "string list" where
  "gate_codes =
     [''insufficient_decision_evidence'', ''no_trade_decision'', ''confidence_below_policy'',
      ''missing_trade_levels'', ''long_stop_not_below_entry'', ''short_stop_not_above_entry'',
      ''stop_distance_exceeds_policy'', ''technical_confirmation_missing'', ''technical_setup_not_viable'',
      ''risk_policy_satisfied'']"

lemma gate_texts: "list_all short_text gate_codes" "long_text ''risk gate lacks sufficient evidence''"
  by (code_simp, code_simp)

definition sound :: "RiskAssessment \<Rightarrow> bool" where
  "sound a = (assessment_contract a \<and> length (ra_reason_codes a) = 1)"

lemma rejected_sound: "code \<in> set gate_codes \<Longrightarrow> sound (rejected [code] b)"
  using gate_texts
  by (simp add: sound_def rejected_def assessment_contract_def knowledge_bound_def optional_def list_all_iff)

lemma rejections_sound:
  "sound (rejected [''insufficient_decision_evidence''] b)"
  "sound (rejected [''no_trade_decision''] b)"
  "sound (rejected [''confidence_below_policy''] b)"
  "sound (rejected [''missing_trade_levels''] b)"
  "sound (rejected [''long_stop_not_below_entry''] b)"
  "sound (rejected [''short_stop_not_above_entry''] b)"
  "sound (rejected [''stop_distance_exceeds_policy''] b)"
  "sound (rejected [''technical_confirmation_missing''] b)"
  "sound (rejected [''technical_setup_not_viable''] b)"
  by (rule rejected_sound, simp add: gate_codes_def)+

lemma accepted_sound:
  "sound \<lparr>ra_knowledge_status = Known, ra_uncertainty_reason = None, ra_accepted = True,
     ra_reason_codes = [''risk_policy_satisfied''], ra_requires_escalation = b\<rparr>"
  using gate_texts by (simp add: sound_def assessment_contract_def knowledge_bound_def optional_def gate_codes_def)

lemma assessment_sound: "sound (evaluate_risk d technical policy)"
  unfolding evaluate_risk_def Let_def
  by (simp add: rejections_sound accepted_sound split: option.split)

lemma accepted_iff:
  assumes "decision_contract d"
  shows "ra_accepted (evaluate_risk d technical policy) \<longleftrightarrow>
      dd_knowledge_status d = Known \<and> rp_min_confidence policy \<le> dd_decision_confidence d
      \<and> (\<exists>entry stop. dd_entry_price d = Some entry \<and> dd_stop_price d = Some stop \<and> 0 < entry
           \<and> protective_stop (dd_action d) entry stop
           \<and> stop_distance entry stop \<le> rp_maximum_stop_distance_fraction policy)
      \<and> (rp_require_technical_confirmation policy \<longrightarrow> confirmed (dd_action d) technical)"
proof -
  have "0 < entry" if "dd_entry_price d = Some entry" for entry
    using assms that by (simp add: decision_contract_def optional_def positive_finite_def)
  then show ?thesis
    by (cases "dd_action d")
      (auto simp: evaluate_risk_def protective_stop_def confirmed_def Known_iff Let_def not_less not_le
        split: option.splits)
qed

text \<open>
  C22. The gate accepts exactly the decisions the policy allows: known, for a side, confident enough,
  with the stop on the protective side of the entry at no more than the allowed distance, and, when
  the policy asks for it, confirmed by a known technical analysis with a viable setup for that side.
  Every assessment it makes is a valid one, with a single reason code.
\<close>

theorem risk_gate_is_exact:
  assumes "decision_contract d"
  shows "(ra_accepted (evaluate_risk d technical policy) \<longleftrightarrow>
      dd_knowledge_status d = Known \<and> rp_min_confidence policy \<le> dd_decision_confidence d
      \<and> (\<exists>entry stop. dd_entry_price d = Some entry \<and> dd_stop_price d = Some stop \<and> 0 < entry
           \<and> protective_stop (dd_action d) entry stop
           \<and> stop_distance entry stop \<le> rp_maximum_stop_distance_fraction policy)
      \<and> (rp_require_technical_confirmation policy \<longrightarrow> confirmed (dd_action d) technical))
    \<and> assessment_contract (evaluate_risk d technical policy)
    \<and> length (ra_reason_codes (evaluate_risk d technical policy)) = 1"
  using accepted_iff [OF assms] assessment_sound unfolding sound_def by blast

text \<open>A stricter policy accepts no more: nothing it accepts is refused by a laxer one.\<close>

definition stricter :: "RiskPolicy \<Rightarrow> RiskPolicy \<Rightarrow> bool" where
  "stricter p q \<longleftrightarrow>
     rp_min_confidence q \<le> rp_min_confidence p
     \<and> rp_maximum_stop_distance_fraction p \<le> rp_maximum_stop_distance_fraction q
     \<and> (rp_require_technical_confirmation q \<longrightarrow> rp_require_technical_confirmation p)"

lemma stricter_accepts_less:
  assumes "decision_contract d" "stricter p q" "ra_accepted (evaluate_risk d technical p)"
  shows "ra_accepted (evaluate_risk d technical q)"
  using assms accepted_iff [OF assms(1)] unfolding stricter_def by (meson order_trans)

definition example_decision :: DecisionDraft where
  "example_decision =
     \<lparr>dd_knowledge_status = Known, dd_uncertainty_reason = None, dd_action = Go_long, dd_execute_now = True,
      dd_entry_price = Some 100, dd_stop_price = Some 90, dd_observation_scenario = None,
      dd_decision_confidence = 3 / 4, dd_selected_setup = Some ''breakout'', dd_conflict_codes = []\<rparr>"

theorem risk_gate_is_exact_witness:
  "decision_contract example_decision
   \<and> assessment_contract (evaluate_risk example_decision None default_risk_policy)
   \<and> \<not> ra_accepted (evaluate_risk example_decision None default_risk_policy)
   \<and> ra_accepted (evaluate_risk example_decision None
       (default_risk_policy\<lparr>rp_require_technical_confirmation := False\<rparr>))"
proof -
  have d: "decision_contract example_decision" by code_simp
  have "stop_distance 100 90 = fround (1 / 10)" by code_simp
  moreover have "fround (1 / 10) \<le> fround (20 / 100)" "fround (60 / 100) \<le> 3 / 4" by (code_simp, code_simp)
  ultimately show ?thesis
    using d risk_gate_is_exact [OF d, of None default_risk_policy]
      risk_gate_is_exact [OF d, of None "default_risk_policy\<lparr>rp_require_technical_confirmation := False\<rparr>"]
    by (simp add: example_decision_def default_risk_policy_def protective_stop_def confirmed_def)
qed

end
