(* ===== verification/Run_Cancellation.thy ===== *)
theory Run_Cancellation
  imports Scoped_Runs
begin

text \<open>
  Cooperative cancellation of runs (\<^verbatim>\<open>src/market_agent/workflow_cancellation.py\<close>) with its durable
  store (\<^verbatim>\<open>src/market_agent/backend/cancellation_store.py\<close>). Every replica of the service has a
  registry of local latches; all share the store. The protocol \<^verbatim>\<open>CancellationStore\<close> is a record of
  functions with its promises as the locale \<open>cancellation_authority\<close>, interpreted on the SQL
  store; a database failure during a call is an argument of that call.
\<close>

section \<open>The SQL store\<close>

definition validate_identifier :: "string \<Rightarrow> string \<Rightarrow> string result" where
  "validate_identifier v name =
     (if py_strip v = [] \<or> 500 < length v \<or> char_of (0 :: nat) \<in> set v
      then Inl (ValueError (name @ '' must be a nonempty string of at most 500 characters without NUL''))
      else Inr v)"

text \<open>The table of cancellations, \<open>None\<close> before it is created; a row is a namespace and a run.\<close>

type_synonym cancellation_db = "(string \<times> string) list option"

text \<open>
  A transaction: the body's effect is committed, or, on any exception, rolled back. A failure of the
  connection, of a statement or of the commit is the argument \<open>fault\<close>.
\<close>

definition transaction ::
  "py_error option \<Rightarrow> (cancellation_db \<Rightarrow> 'a result \<times> cancellation_db) \<Rightarrow> cancellation_db \<Rightarrow> 'a result \<times> cancellation_db"
where
  "transaction fault body db =
     (case fault of
        Some e \<Rightarrow> (Inl e, db)
      | None \<Rightarrow> (case body db of (Inl e, _) \<Rightarrow> (Inl e, db) | (Inr v, db') \<Rightarrow> (Inr v, db')))"

definition no_table :: "'a result" where
  "no_table = Inl (RuntimeError ''no such table: market_agent_workflow_cancellations'')"

definition sql_migrate :: "py_error option \<Rightarrow> cancellation_db \<Rightarrow> unit result \<times> cancellation_db" where
  "sql_migrate fault =
     transaction fault (\<lambda>db. (Inr (), Some (case db of None \<Rightarrow> [] | Some rows \<Rightarrow> rows)))"

definition sql_cancel :: "string \<Rightarrow> string \<Rightarrow> py_error option \<Rightarrow> cancellation_db \<Rightarrow> unit result \<times> cancellation_db" where
  "sql_cancel namespace run_id fault db =
     (case validate_identifier run_id ''run identifier'' of
        Inl e \<Rightarrow> (Inl e, db)
      | Inr run \<Rightarrow>
          transaction fault (\<lambda>db.
            case db of
              None \<Rightarrow> (no_table, db)
            | Some rows \<Rightarrow> (Inr (), Some (List.insert (namespace, run) rows))) db)"

definition sql_is_cancelled :: "string \<Rightarrow> string \<Rightarrow> py_error option \<Rightarrow> cancellation_db \<Rightarrow> bool result \<times> cancellation_db" where
  "sql_is_cancelled namespace run_id fault db =
     (case validate_identifier run_id ''run identifier'' of
        Inl e \<Rightarrow> (Inl e, db)
      | Inr run \<Rightarrow>
          transaction fault (\<lambda>db.
            case db of
              None \<Rightarrow> (no_table, db)
            | Some rows \<Rightarrow> (Inr ((namespace, run) \<in> set rows), db)) db)"

definition sql_healthcheck :: "string \<Rightarrow> py_error option \<Rightarrow> cancellation_db \<Rightarrow> bool" where
  "sql_healthcheck namespace fault db =
     (case fst (transaction fault (\<lambda>db. case db of None \<Rightarrow> (no_table, db) | Some rows \<Rightarrow> (Inr (), db)) db) of
        Inl e \<Rightarrow> False
      | Inr _ \<Rightarrow> True)"

record 'db CancellationStore =
  st_cancel :: "string \<Rightarrow> py_error option \<Rightarrow> 'db \<Rightarrow> unit result \<times> 'db"
  st_is_cancelled :: "string \<Rightarrow> py_error option \<Rightarrow> 'db \<Rightarrow> bool result \<times> 'db"

definition sql_store :: "string \<Rightarrow> cancellation_db CancellationStore result" where
  "sql_store namespace =
     rbind (validate_identifier namespace ''cancellation namespace'') (\<lambda>ns.
       Inr \<lparr>st_cancel = sql_cancel ns, st_is_cancelled = sql_is_cancelled ns\<rparr>)"

section \<open>The registry\<close>

text \<open>
  A registry keeps an event per run, created on first use and never removed; a signal is the
  run's identifier with that event and the store.
\<close>

type_synonym registry = "(string, bool) dict"

definition registry_signal :: "string \<Rightarrow> registry \<Rightarrow> registry result" where
  "registry_signal run_id events =
     rbind (validate_identifier run_id ''run identifier'') (\<lambda>run.
       Inr (case dict_get events run of None \<Rightarrow> dict_put run False events | Some b \<Rightarrow> events))"

definition event_set :: "string \<Rightarrow> registry \<Rightarrow> bool" where
  "event_set run_id events = (dict_get events run_id = Some True)"

definition signal_is_cancelled ::
  "'db CancellationStore option \<Rightarrow> string \<Rightarrow> py_error option \<Rightarrow> registry \<Rightarrow> 'db \<Rightarrow> bool \<times> 'db"
where
  "signal_is_cancelled store run_id fault events db =
     (if event_set run_id events then (True, db)
      else case store of
        None \<Rightarrow> (False, db)
      | Some st \<Rightarrow>
          (case st_is_cancelled st run_id fault db of
             (Inl e, db') \<Rightarrow> (True, db')
           | (Inr b, db') \<Rightarrow> (b, db')))"

definition registry_cancel ::
  "'db CancellationStore option \<Rightarrow> string \<Rightarrow> py_error option \<Rightarrow> registry \<Rightarrow> 'db
     \<Rightarrow> unit result \<times> registry \<times> 'db"
where
  "registry_cancel store run_id fault events db =
     (case registry_signal run_id events of
        Inl e \<Rightarrow> (Inl e, events, db)
      | Inr events1 \<Rightarrow>
          (case store of
             None \<Rightarrow> (Inr (), dict_put run_id True events1, db)
           | Some st \<Rightarrow>
               (case st_cancel st run_id fault db of
                  (Inl e, db') \<Rightarrow> (Inl e, events1, db')
                | (Inr _, db') \<Rightarrow> (Inr (), dict_put run_id True events1, db'))))"

section \<open>Replicas\<close>

record 'db fleet =
  fl_db :: 'db
  fl_events :: "nat \<Rightarrow> registry"

datatype fleet_call = Cancel nat string "py_error option" | Poll nat string "py_error option"

datatype fleet_answer = Done | Is_cancelled bool | Raised_error py_error

fun fleet_step :: "'db CancellationStore \<Rightarrow> fleet_call \<Rightarrow> 'db fleet \<Rightarrow> fleet_answer \<times> 'db fleet" where
  "fleet_step st (Cancel i run_id fault) s =
     (case registry_cancel (Some st) run_id fault (fl_events s i) (fl_db s) of
        (r, events, db) \<Rightarrow>
          ((case r of Inl e \<Rightarrow> Raised_error e | Inr _ \<Rightarrow> Done),
           \<lparr>fl_db = db, fl_events = (fl_events s)(i := events)\<rparr>))"
| "fleet_step st (Poll i run_id fault) s =
     (case registry_signal run_id (fl_events s i) of
        Inl e \<Rightarrow> (Raised_error e, s)
      | Inr events \<Rightarrow>
          (case signal_is_cancelled (Some st) run_id fault events (fl_db s) of
             (b, db) \<Rightarrow> (Is_cancelled b, \<lparr>fl_db = db, fl_events = (fl_events s)(i := events)\<rparr>)))"

text \<open>The calls of a history that cancelled a run and returned.\<close>

fun done_for :: "string \<Rightarrow> fleet_call \<times> fleet_answer \<Rightarrow> bool" where
  "done_for run (Cancel i run_id f, Done) = (run_id = run)"
| "done_for run e = False"

text \<open>What the store promises: \<open>holds\<close> is the set of runs it has recorded.\<close>

locale cancellation_authority =
  fixes store :: "'db CancellationStore"
    and holds :: "'db \<Rightarrow> string \<Rightarrow> bool"
  assumes cancel_done: "st_cancel store run f db = (Inr u, db') \<Longrightarrow> holds db' = (holds db)(run := True)"
    and cancel_failed: "st_cancel store run f db = (Inl e, db') \<Longrightarrow> holds db' = holds db"
    and query_answers: "st_is_cancelled store run f db = (Inr b, db') \<Longrightarrow> b = holds db run"
    and query_keeps: "holds (snd (st_is_cancelled store run f db)) = holds db"
begin

definition latches_ok :: "'db fleet \<Rightarrow> bool" where
  "latches_ok s \<longleftrightarrow> (\<forall>i run. event_set run (fl_events s i) \<longrightarrow> holds (fl_db s) run)"

lemma signal_event: "registry_signal run_id events = Inr events1 \<Longrightarrow> event_set run events1 = event_set run events"
  by (auto simp: registry_signal_def rbind_Inr_iff event_set_def split: option.splits if_splits)

text \<open>A call records exactly the run of a cancellation that returned, and latches stay backed.\<close>

lemma fleet_step_keeps:
  assumes "latches_ok s"
  shows "holds (fl_db (snd (fleet_step store c s))) run
      = (holds (fl_db s) run \<or> done_for run (c, fst (fleet_step store c s)))
    \<and> latches_ok (snd (fleet_step store c s))"
proof (cases c)
  case (Cancel i run_id fault)
  show ?thesis
  proof (cases "registry_signal run_id (fl_events s i)")
    case (Inl e)
    then show ?thesis using assms Cancel by (simp add: registry_cancel_def latches_ok_def)
  next
    case (Inr events1)
    note sig = signal_event [OF Inr]
    obtain r db' where st: "st_cancel store run_id fault (fl_db s) = (r, db')" by force
    show ?thesis
    proof (cases r)
      case (Inl e)
      then show ?thesis using assms Cancel Inr st sig cancel_failed [of run_id fault "fl_db s" e db']
        by (auto simp: registry_cancel_def latches_ok_def)
    next
      case ok: (Inr u)
      then show ?thesis using assms Cancel Inr st sig cancel_done [of run_id fault "fl_db s" u db']
        by (auto simp: registry_cancel_def latches_ok_def event_set_def)
    qed
  qed
next
  case (Poll i run_id fault)
  show ?thesis
  proof (cases "registry_signal run_id (fl_events s i)")
    case (Inl e)
    then show ?thesis using assms Poll by simp
  next
    case (Inr events1)
    then show ?thesis
      using assms Poll signal_event [OF Inr] query_keeps [of run_id fault "fl_db s"]
      by (auto simp: signal_is_cancelled_def latches_ok_def split: prod.splits sum.splits)
  qed
qed

lemma run_holds:
  "latches_ok s \<Longrightarrow>
     holds (fl_db (snd (run_calls (fleet_step store) cs s))) run
       = (holds (fl_db s) run \<or> list_ex (done_for run) (fst (run_calls (fleet_step store) cs s)))
     \<and> latches_ok (snd (run_calls (fleet_step store) cs s))"
proof (induction cs arbitrary: s)
  case (Cons c cs)
  then show ?case using fleet_step_keeps [of s c run] by (auto simp del: fleet_step.simps)
qed simp

text \<open>A poll answers yes when the run is recorded, when the store cannot answer, and never otherwise.\<close>

lemma poll_answers:
  assumes "latches_ok s" "validate_identifier run ''run identifier'' = Inr run"
  shows "fst (fleet_step store (Poll i run fault) s) =
    Is_cancelled (holds (fl_db s) run \<or> (\<exists>e. fst (st_is_cancelled store run fault (fl_db s)) = Inl e))"
proof -
  obtain events1 where sig: "registry_signal run (fl_events s i) = Inr events1"
    using assms(2) by (simp add: registry_signal_def)
  have latch: "event_set run events1 \<Longrightarrow> holds (fl_db s) run"
    using assms(1) signal_event [OF sig] by (auto simp: latches_ok_def)
  obtain r db' where st: "st_is_cancelled store run fault (fl_db s) = (r, db')" by force
  show ?thesis
    using sig latch query_answers [of run fault "fl_db s" _ db'] st
    by (cases r) (auto simp: signal_is_cancelled_def)
qed

end

text \<open>The SQL store of a namespace keeps these promises.\<close>

definition sql_holds :: "string \<Rightarrow> cancellation_db \<Rightarrow> string \<Rightarrow> bool" where
  "sql_holds namespace db run = (case db of None \<Rightarrow> False | Some rows \<Rightarrow> (namespace, run) \<in> set rows)"

abbreviation sql_authority :: "string \<Rightarrow> cancellation_db CancellationStore" where
  "sql_authority namespace \<equiv> \<lparr>st_cancel = sql_cancel namespace, st_is_cancelled = sql_is_cancelled namespace\<rparr>"

lemma validate_identifier_Inr [simp]: "validate_identifier v name = Inr w \<Longrightarrow> w = v"
  by (simp add: validate_identifier_def split: if_splits)

interpretation sql: cancellation_authority "sql_authority namespace" "sql_holds namespace" for namespace
  by unfold_locales
    (auto simp: sql_cancel_def sql_is_cancelled_def sql_holds_def transaction_def no_table_def fun_eq_iff
      dest: validate_identifier_Inr split: sum.splits option.splits prod.splits)

lemma table_stays:
  "fl_db s \<noteq> None \<Longrightarrow> fl_db (snd (fleet_step (sql_authority namespace) c s)) \<noteq> None"
  by (cases c)
    (auto simp: registry_cancel_def signal_is_cancelled_def sql_cancel_def sql_is_cancelled_def transaction_def
      no_table_def split: sum.splits option.splits prod.splits)

lemma run_table_stays:
  "fl_db s \<noteq> None \<Longrightarrow> fl_db (snd (run_calls (fleet_step (sql_authority namespace)) cs s)) \<noteq> None"
proof (induction cs arbitrary: s)
  case (Cons c cs)
  then show ?case using Cons.IH [OF table_stays [OF Cons.prems]] by (simp del: fleet_step.simps)
qed simp

text \<open>
  C21. Cancellation is exact across replicas. After any calls on any replicas that share a store, a
  poll of a run on any of them answers yes exactly when some cancellation of that run has returned,
  on whichever replica, or when the store fails during the poll; an outage leaves no trace in later
  answers.
\<close>

theorem cancellation_is_exact:
  assumes "sql_store namespace = Inr st" and "fl_events s0 = (\<lambda>i. [])" and "fl_db s0 = Some rows"
    and "(namespace, run) \<notin> set rows" and "validate_identifier run ''run identifier'' = Inr run"
  shows "fst (fleet_step st (Poll i run fault) (snd (run_calls (fleet_step st) cs s0))) =
    Is_cancelled (fault \<noteq> None \<or> list_ex (done_for run) (fst (run_calls (fleet_step st) cs s0)))"
proof -
  let ?s = "snd (run_calls (fleet_step st) cs s0)"
  have st: "st = sql_authority namespace"
    using assms(1) by (auto simp: sql_store_def rbind_Inr_iff dest: validate_identifier_Inr)
  have ok0: "sql.latches_ok namespace s0" by (simp add: sql.latches_ok_def assms(2) event_set_def)
  note run = sql.run_holds [OF ok0, of cs run, folded st]
  obtain table where table: "fl_db ?s = Some table"
    using run_table_stays [of s0 namespace cs, folded st] assms(3) by auto
  have "(\<exists>e. fst (sql_is_cancelled namespace run fault (fl_db ?s)) = Inl e) \<longleftrightarrow> fault \<noteq> None"
    using assms(5) table by (simp add: sql_is_cancelled_def transaction_def split: option.splits)
  moreover have "sql_holds namespace (fl_db s0) run = False" using assms(3,4) by (simp add: sql_holds_def)
  ultimately show ?thesis
    using sql.poll_answers [OF conjunct2 [OF run] assms(5), of i fault] run by (simp add: st disj_commute del: fleet_step.simps)
qed


definition example_fleet :: "cancellation_db fleet" where
  "example_fleet = \<lparr>fl_db = Some [(''other'', ''run'')], fl_events = (\<lambda>i. [])\<rparr>"

theorem cancellation_is_exact_witness:
  "fst (fleet_step (sql_authority ''prod'') (Poll 1 ''run'' None)
     (snd (run_calls (fleet_step (sql_authority ''prod''))
        [Poll 1 ''run'' (Some (RuntimeError ''down'')), Cancel 0 ''run'' None] example_fleet))) = Is_cancelled True
   \<and> fst (fleet_step (sql_authority ''prod'') (Poll 1 ''run'' None)
     (snd (run_calls (fleet_step (sql_authority ''prod''))
        [Poll 1 ''run'' (Some (RuntimeError ''down'')), Cancel 0 ''run'' (Some (RuntimeError ''down''))] example_fleet)))
       = Is_cancelled False"
proof -
  have ns: "validate_identifier ''prod'' ''cancellation namespace'' = Inr ''prod''"
    and run: "validate_identifier ''run'' ''run identifier'' = Inr ''run''" by (code_simp, code_simp)
  have store: "sql_store ''prod'' = Inr (sql_authority ''prod'')" by (simp add: sql_store_def ns)
  have start: "fl_events example_fleet = (\<lambda>i. [])" "fl_db example_fleet = Some [(''other'', ''run'')]"
    "(''prod'', ''run'') \<notin> set [(''other'', ''run'')]"
    by (simp_all add: example_fleet_def)
  let ?answers = "\<lambda>f. fst (run_calls (fleet_step (sql_authority ''prod''))
        [Poll 1 ''run'' (Some (RuntimeError ''down'')), Cancel 0 ''run'' f] example_fleet)"
  have "list_ex (done_for ''run'') (?answers None)" "\<not> list_ex (done_for ''run'') (?answers (Some (RuntimeError ''down'')))"
    using run by (simp_all add: example_fleet_def registry_signal_def signal_is_cancelled_def registry_cancel_def
        sql_cancel_def sql_is_cancelled_def transaction_def event_set_def)
  then show ?thesis
    using cancellation_is_exact [OF store start run, of 1 None
        "[Poll 1 ''run'' (Some (RuntimeError ''down'')), Cancel 0 ''run'' None]"]
      cancellation_is_exact [OF store start run, of 1 None
        "[Poll 1 ''run'' (Some (RuntimeError ''down'')), Cancel 0 ''run'' (Some (RuntimeError ''down''))]"]
    by presburger
qed

end
