(* ===== verification/Symbols.thy ===== *)
theory Symbols
  imports Prelude
begin

text \<open>
  Execution symbols (\<^verbatim>\<open>src/market_agent/symbols.py\<close>): a symbol is an asset name, optionally
  prefixed by a dex name and a colon. The dex part is lower case, the asset part upper case.
\<close>

definition split_execution_symbol :: "string \<Rightarrow> string \<times> string" where
  "split_execution_symbol symbol =
     (let raw = py_strip symbol
      in if CHR '':'' \<notin> set raw then ([], py_upper raw)
         else let da = split_once CHR '':'' raw
              in (py_lower (py_strip (fst da)), py_upper (py_strip (snd da))))"

definition canonicalize_execution_symbol :: "string \<Rightarrow> string" where
  "canonicalize_execution_symbol symbol =
     (let da = split_execution_symbol symbol
      in if fst da \<noteq> [] then fst da @ CHR '':'' # snd da else snd da)"

text \<open>
  The symbols on which canonicalisation settles in one step: a dex part is present, or the asset
  part holds no colon.
\<close>

definition settled_symbol :: "string \<Rightarrow> bool" where
  "settled_symbol s =
     (fst (split_execution_symbol s) \<noteq> [] \<or> CHR '':'' \<notin> set (snd (split_execution_symbol s)))"

lemma colon_lower [simp]: "lower_char c = CHR '':'' \<longleftrightarrow> c = CHR '':''"
proof
  assume "lower_char c = CHR '':''"
  then have "code_of (lower_char c) = 58" by simp
  then have "code_of c = 58" unfolding code_of_lower_char by (simp split: if_splits)
  then show "c = CHR '':''" by (intro char_code_eqI) simp
qed (simp add: lower_char_def)

lemma colon_upper [simp]: "upper_char c = CHR '':'' \<longleftrightarrow> c = CHR '':''"
proof
  assume "upper_char c = CHR '':''"
  then have "code_of (upper_char c) = 58" by simp
  then have "code_of c = 58" unfolding code_of_upper_char by (simp split: if_splits)
  then show "c = CHR '':''" by (intro char_code_eqI) simp
qed (simp add: upper_char_def)

lemma colon_in_lower [simp]: "CHR '':'' \<in> set (py_lower s) \<longleftrightarrow> CHR '':'' \<in> set s"
  by (auto simp: py_lower_def image_iff eq_commute [of "CHR '':''"])

lemma colon_in_upper [simp]: "CHR '':'' \<in> set (py_upper s) \<longleftrightarrow> CHR '':'' \<in> set s"
  by (auto simp: py_upper_def image_iff eq_commute [of "CHR '':''"])

lemma set_py_strip: "set (py_strip s) \<subseteq> set s"
  by (auto simp: py_strip_def dest!: set_dropWhileD)

lemma not_space_colon [simp]: "\<not> is_space CHR '':''"
  by (simp add: is_space_def)

text \<open>What the two components of a split symbol look like.\<close>

lemma split_parts:
  assumes "split_execution_symbol s = (dex, asset)"
  shows "stripped dex" and "py_lower dex = dex" and "CHR '':'' \<notin> set dex"
    and "stripped asset" and "py_upper asset = asset"
proof -
  let ?raw = "py_strip s"
  have low: "stripped (py_lower (py_strip t))" for t
    using stripped_py_strip [of "py_lower t"] by (simp add: py_strip_lower)
  have up: "stripped (py_upper (py_strip t))" for t
    using stripped_py_strip [of "py_upper t"] by (simp add: py_strip_upper)
  have nocolon: "CHR '':'' \<notin> set (py_lower (py_strip (fst (split_once CHR '':'' t))))" for t
    using set_py_strip [of "fst (split_once CHR '':'' t)"]
    by (auto simp: split_once_def dest: set_takeWhileD)
  show "stripped dex" and "py_lower dex = dex" and "CHR '':'' \<notin> set dex"
    and "stripped asset" and "py_upper asset = asset"
    using assms low up nocolon
    by (auto simp: split_execution_symbol_def Let_def stripped_def [of "[]"] py_lower_def
        split: if_splits)
qed

lemma split_join:
  assumes "dex \<noteq> []" "stripped dex" "py_lower dex = dex" "CHR '':'' \<notin> set dex"
    and "stripped asset" "py_upper asset = asset"
  shows "split_execution_symbol (dex @ CHR '':'' # asset) = (dex, asset)"
proof -
  have "stripped (dex @ CHR '':'' # asset)"
    using assms(1,2,5) by (cases "asset = []") (auto simp: stripped_def hd_append)
  then have raw: "py_strip (dex @ CHR '':'' # asset) = dex @ CHR '':'' # asset"
    by (rule py_strip_stripped)
  have "split_once CHR '':'' (dex @ CHR '':'' # asset) = (dex, asset)"
    using assms(4) by (auto simp: split_once_def takeWhile_append dropWhile_append)
  then show ?thesis
    using assms by (simp add: split_execution_symbol_def raw py_strip_stripped)
qed

lemma canonicalize_idem:
  assumes "settled_symbol s"
  shows "canonicalize_execution_symbol (canonicalize_execution_symbol s)
       = canonicalize_execution_symbol s"
proof -
  obtain dex asset where sp: "split_execution_symbol s = (dex, asset)"
    by (cases "split_execution_symbol s")
  note parts = split_parts [OF sp]
  show ?thesis
  proof (cases "dex = []")
    case False
    then have "split_execution_symbol (dex @ CHR '':'' # asset) = (dex, asset)"
      using parts by (intro split_join)
    then show ?thesis using False by (simp add: canonicalize_execution_symbol_def sp)
  next
    case True
    then have nc: "CHR '':'' \<notin> set asset" using assms by (simp add: settled_symbol_def sp)
    then have "split_execution_symbol asset = ([], asset)"
      using parts by (simp add: split_execution_symbol_def py_strip_stripped)
    then show ?thesis using True by (simp add: canonicalize_execution_symbol_def sp)
  qed
qed

end
