(* ===== verification/Hedge_Models.thy ===== *)
theory Hedge_Models
  imports Decimal Symbols
begin

text \<open>
  The data of the funding hedge (\<^verbatim>\<open>src/funding_fee_avoidance/models.py\<close> and
  \<^verbatim>\<open>config.py\<close>): the two enumerations, the frozen data classes as records, and their
  \<^verbatim>\<open>__post_init__\<close> checks as functions that return the checked record or the exception.
  Every instance the program holds went through its check, so a record satisfies its
  well-formedness predicate; the lemmas \<open>mk_*_wf\<close> say that the checks establish it.

  A time stamp with a time zone is its instant in microseconds since the epoch; the checks that
  reject naive time stamps take a \<open>datetime\<close>.
\<close>

datatype datetime = Aware int | Naive int

type_synonym instant = int

definition seconds :: "int \<Rightarrow> int" where
  "seconds n = n * 1000000"

text \<open>\<^verbatim>\<open>int(t.timestamp() * 1000)\<close>: two double roundings, then truncation towards zero.\<close>

definition timestamp_ms :: "instant \<Rightarrow> int" where
  "timestamp_ms t =
     (let ms = fround (fround (of_int t / 1000000) * 1000)
      in if 0 \<le> ms then \<lfloor>ms\<rfloor> else \<lceil>ms\<rceil>)"

section \<open>Enumerations\<close>

datatype HedgeAction =
    HOLD | OPEN_HEDGE | WAIT_FOR_FUNDING | CLOSE_HEDGE | ADJUST_HEDGE | ACTION_RECOVERY_REQUIRED

datatype HedgeCycleStatus =
    ARMED | OPEN_SUBMITTED | OPEN_PARTIAL | HEDGED | AWAITING_FUNDING
  | CLOSE_SUBMITTED | CLOSE_PARTIAL | COMPLETED | ABORTED | RECOVERY_REQUIRED

fun action_value :: "HedgeAction \<Rightarrow> string" where
  "action_value HOLD = ''hold''"
| "action_value OPEN_HEDGE = ''open_hedge''"
| "action_value WAIT_FOR_FUNDING = ''wait_for_funding''"
| "action_value CLOSE_HEDGE = ''close_hedge''"
| "action_value ADJUST_HEDGE = ''adjust_hedge''"
| "action_value ACTION_RECOVERY_REQUIRED = ''recovery_required''"

definition terminal :: "HedgeCycleStatus \<Rightarrow> bool" where
  "terminal s = (s \<in> {COMPLETED, ABORTED, RECOVERY_REQUIRED})"

section \<open>Snapshots\<close>

definition canonical_symbol :: "string \<Rightarrow> string result" where
  "canonical_symbol value =
     (let symbol = canonicalize_execution_symbol value
      in if symbol = [] then Inl (ValueError ''symbol is required'') else Inr symbol)"

record AccountPositionSnapshot =
  ap_account_address :: string
  ap_symbol :: string
  ap_size :: rat
  ap_margin_used_usd :: rat

definition mk_position :: "string \<Rightarrow> string \<Rightarrow> rat \<Rightarrow> rat \<Rightarrow> AccountPositionSnapshot result" where
  "mk_position address symbol sz margin =
     rbind (canonical_symbol symbol) (\<lambda>sym.
       guarded
         [(py_strip address = [], ValueError ''account_address is required''),
          (margin < 0, ValueError ''margin_used_usd must be non-negative'')]
         \<lparr>ap_account_address = py_strip address, ap_symbol = sym, ap_size = sz,
          ap_margin_used_usd = margin\<rparr>)"

definition position_side :: "AccountPositionSnapshot \<Rightarrow> string" where
  "position_side p =
     (if 0 < ap_size p then ''long'' else if ap_size p < 0 then ''short'' else ''flat'')"

record FundingObservation =
  fo_symbol :: string
  fo_oracle_price :: rat
  fo_mark_price :: rat
  fo_funding_rate :: rat
  fo_observed_at :: instant
  fo_next_funding_at :: instant
  fo_size_decimals :: int
  fo_market_data_available :: bool

fun naive :: "datetime \<Rightarrow> bool" where
  "naive (Aware t) = False"
| "naive (Naive t) = True"

fun instant_of :: "datetime \<Rightarrow> instant" where
  "instant_of (Aware t) = t"
| "instant_of (Naive t) = t"

definition mk_funding ::
  "string \<Rightarrow> rat \<Rightarrow> rat \<Rightarrow> rat \<Rightarrow> datetime \<Rightarrow> datetime \<Rightarrow> int \<Rightarrow> bool \<Rightarrow> FundingObservation result" where
  "mk_funding symbol oracle mark rate observed next_at decimals available =
     rbind (canonical_symbol symbol) (\<lambda>sym.
       guarded
         [(oracle \<le> 0, ValueError ''oracle_price must be positive''),
          (mark \<le> 0, ValueError ''mark_price must be positive''),
          (decimals < 0, ValueError ''size_decimals must be non-negative''),
          (naive observed, ValueError ''observed_at must include a timezone''),
          (naive next_at, ValueError ''next_funding_at must include a timezone'')]
         \<lparr>fo_symbol = sym, fo_oracle_price = oracle, fo_mark_price = mark,
          fo_funding_rate = rate, fo_observed_at = instant_of observed,
          fo_next_funding_at = instant_of next_at, fo_size_decimals = decimals,
          fo_market_data_available = available\<rparr>)"

record HedgeAccountSnapshot =
  ha_position :: AccountPositionSnapshot
  ha_withdrawable_usd :: rat
  ha_taker_fee_rate :: rat
  ha_fee_rate_source :: string
  ha_hip3_fee_formula_verified :: bool
  ha_account_kind :: string
  ha_ownership_verified :: bool
  ha_margin_available_verified :: bool
  ha_funding_confirmed :: bool
  ha_funding_record_time :: "instant option"
  ha_funding_delta_usd :: "rat option"
  ha_open_order_cloids :: "string list"
  ha_unknown_open_orders :: bool
  ha_open_order_status :: string
  ha_close_order_status :: string
  ha_adjust_order_status :: string

text \<open>The check runs on the fields other than the record time, which comes with its zone.\<close>

definition check_hedge_account ::
  "HedgeAccountSnapshot \<Rightarrow> datetime option \<Rightarrow> HedgeAccountSnapshot result" where
  "check_hedge_account a record_time =
     guarded
       [(ha_withdrawable_usd a < 0, ValueError ''withdrawable_usd must be non-negative''),
        (ha_taker_fee_rate a < 0, ValueError ''taker_fee_rate must be non-negative''),
        (ha_account_kind a \<notin> {''subaccount'', ''wallet''},
           ValueError ''account_kind must be subaccount or wallet''),
        (case record_time of None \<Rightarrow> False | Some t \<Rightarrow> naive t,
           ValueError ''funding_record_time must include a timezone'')]
       (a\<lparr>ha_funding_record_time := map_option instant_of record_time\<rparr>)"

record HedgeSnapshot =
  hs_primary_position :: AccountPositionSnapshot
  hs_hedge_account :: HedgeAccountSnapshot
  hs_funding :: FundingObservation

definition mk_snapshot ::
  "AccountPositionSnapshot \<Rightarrow> HedgeAccountSnapshot \<Rightarrow> FundingObservation \<Rightarrow> HedgeSnapshot result" where
  "mk_snapshot primary hedge funding =
     (if length (remdups [ap_symbol primary, ap_symbol (ha_position hedge), fo_symbol funding]) \<noteq> 1
      then Inl (ValueError ''primary, hedge, and funding symbols must match exactly'')
      else Inr \<lparr>hs_primary_position = primary, hs_hedge_account = hedge, hs_funding = funding\<rparr>)"

definition snapshot_symbol :: "HedgeSnapshot \<Rightarrow> string" where
  "snapshot_symbol s = fo_symbol (hs_funding s)"

abbreviation hedge_size :: "HedgeSnapshot \<Rightarrow> rat" where
  "hedge_size s \<equiv> ap_size (ha_position (hs_hedge_account s))"

abbreviation primary_size :: "HedgeSnapshot \<Rightarrow> rat" where
  "primary_size s \<equiv> ap_size (hs_primary_position s)"

abbreviation primary_address :: "HedgeSnapshot \<Rightarrow> string" where
  "primary_address s \<equiv> ap_account_address (hs_primary_position s)"

abbreviation hedge_address :: "HedgeSnapshot \<Rightarrow> string" where
  "hedge_address s \<equiv> ap_account_address (ha_position (hs_hedge_account s))"

section \<open>Cycles and decisions\<close>

record HedgeCycleState =
  hc_cycle_key :: string
  hc_status :: HedgeCycleStatus
  hc_symbol :: string
  hc_primary_account_address :: string
  hc_hedge_account_address :: string
  hc_settlement_at :: instant
  hc_target_hedge_size :: rat
  hc_open_cloid :: string
  hc_close_cloid :: string
  hc_created_at :: instant
  hc_updated_at :: instant
  hc_network :: string
  hc_hedge_account_kind :: string
  hc_actual_hedge_size :: rat
  hc_close_attempt_count :: int
  hc_adjustment_count :: int
  hc_pending_adjust_cloid :: string
  hc_pre_adjust_hedge_size :: rat
  hc_open_submitted_at :: "instant option"
  hc_close_submitted_at :: "instant option"
  hc_adjust_submitted_at :: "instant option"
  hc_funding_confirmed_at :: "instant option"
  hc_funding_delta_usd :: "rat option"
  hc_last_error :: string

definition active :: "HedgeCycleState \<Rightarrow> bool" where
  "active c = (\<not> terminal (hc_status c))"

text \<open>
  The check of a cycle. It runs on construction and on every \<^verbatim>\<open>replace\<close>; time stamps reach it
  with their zone. On a record whose symbol is settled (\<open>settled_symbol\<close>) and which passed it
  before, it changes nothing (\<open>check_cycle_again\<close>), so \<^verbatim>\<open>replace\<close> of other fields is a record
  update.
\<close>

definition check_cycle :: "HedgeCycleState \<Rightarrow> HedgeCycleState result" where
  "check_cycle c =
     rbind (canonical_symbol (hc_symbol c)) (\<lambda>sym.
       guarded
         [(hc_close_attempt_count c < 0, ValueError ''close_attempt_count must be non-negative''),
          (hc_adjustment_count c < 0, ValueError ''adjustment_count must be non-negative''),
          (hc_network c \<notin> {''mainnet'', ''testnet''},
             ValueError ''cycle network must be mainnet or testnet''),
          (hc_hedge_account_kind c \<notin> {''subaccount'', ''wallet''},
             ValueError ''invalid cycle hedge_account_kind'')]
         (c\<lparr>hc_symbol := sym\<rparr>))"

record HedgeDecision =
  hd_snapshot :: HedgeSnapshot
  hd_action :: HedgeAction
  hd_reason :: string
  hd_evaluated_at :: instant
  hd_seconds_to_funding :: rat
  hd_target_hedge_size :: rat
  hd_current_hedge_size :: rat
  hd_order_size_delta :: rat
  hd_reduce_only :: bool
  hd_primary_funding_debit_usd :: rat
  hd_hedge_funding_credit_usd :: rat
  hd_round_trip_cost_usd :: rat
  hd_net_saving_usd :: rat
  hd_required_margin_usd :: rat
  hd_cycle_key :: string

section \<open>Configuration\<close>

record StrategyConfig =
  cf_symbols :: "string list"
  cf_network :: string
  cf_primary_account_address :: string
  cf_hedge_account_address :: string
  cf_hedge_account_kind :: string
  cf_hedge_ratio :: rat
  cf_hedge_open_lead_seconds :: int
  cf_latest_open_cutoff_seconds :: int
  cf_funding_confirmation_timeout_seconds :: int
  cf_max_funding_data_age_seconds :: int
  cf_max_clock_skew_seconds :: int
  cf_min_position_notional_usd :: rat
  cf_min_hedge_notional_usd :: rat
  cf_max_hedge_notional_usd :: rat
  cf_min_expected_saving_usd :: rat
  cf_min_available_margin_usd :: rat
  cf_assumed_hedge_leverage :: rat
  cf_hedge_margin_mode :: string
  cf_margin_safety_multiplier :: rat
  cf_slippage_rate_per_order :: rat
  cf_hip3_extra_fee_rate_per_order :: rat
  cf_hip3_extra_fee_rate_known :: bool
  cf_risk_buffer_rate :: rat
  cf_cost_safety_multiplier :: rat
  cf_fallback_taker_fee_rate :: rat
  cf_max_order_slippage :: rat
  cf_require_verified_subaccount :: bool
  cf_execution_enabled :: bool
  cf_ambiguous_order_retry_seconds :: int
  cf_open_reconciliation_timeout_seconds :: int
  cf_http_timeout_seconds :: int
  cf_action_expiry_seconds :: int
  cf_poll_seconds :: int

text \<open>\<^verbatim>\<open>tuple(dict.fromkeys(...))\<close>: first occurrences, in order.\<close>

definition unique_in_order :: "'a list \<Rightarrow> 'a list" where
  "unique_in_order xs = rev (remdups (rev xs))"

definition normalized_config :: "StrategyConfig \<Rightarrow> StrategyConfig" where
  "normalized_config c = c
     \<lparr>cf_symbols := unique_in_order
        (filter (\<lambda>s. s \<noteq> []) (map canonicalize_execution_symbol (cf_symbols c))),
      cf_primary_account_address := py_strip (cf_primary_account_address c),
      cf_hedge_account_address := py_strip (cf_hedge_account_address c),
      cf_hedge_account_kind := py_lower (py_strip (cf_hedge_account_kind c)),
      cf_network := py_lower (py_strip (cf_network c)),
      cf_hedge_margin_mode := py_lower (py_strip (cf_hedge_margin_mode c))\<rparr>"

definition config_guards :: "StrategyConfig \<Rightarrow> (bool \<times> py_error) list" where
  "config_guards c =
     [(cf_network c \<notin> {''mainnet'', ''testnet''}, ValueError ''network must be mainnet or testnet''),
      (cf_hedge_account_kind c \<notin> {''subaccount'', ''wallet''},
         ValueError ''hedge_account_kind must be subaccount or wallet''),
      (cf_hedge_margin_mode c \<notin> {''cross'', ''isolated''},
         ValueError ''hedge_margin_mode must be cross or isolated''),
      (\<not> (0 < cf_hedge_ratio c \<and> cf_hedge_ratio c \<le> 1),
         ValueError ''hedge_ratio must be greater than 0 and at most 1''),
      (cf_hedge_open_lead_seconds c \<le> 0, ValueError ''hedge_open_lead_seconds must be positive''),
      (cf_latest_open_cutoff_seconds c < 0,
         ValueError ''latest_open_cutoff_seconds must be non-negative''),
      (cf_hedge_open_lead_seconds c \<le> cf_latest_open_cutoff_seconds c,
         ValueError ''latest_open_cutoff_seconds must be less than hedge_open_lead_seconds''),
      (cf_funding_confirmation_timeout_seconds c \<le> 0,
         ValueError ''funding_confirmation_timeout_seconds must be positive''),
      (cf_max_funding_data_age_seconds c \<le> 0,
         ValueError ''max_funding_data_age_seconds must be positive''),
      (cf_max_clock_skew_seconds c < 0, ValueError ''max_clock_skew_seconds must be non-negative''),
      (cf_poll_seconds c \<le> 0, ValueError ''poll_seconds must be positive''),
      (cf_min_position_notional_usd c < 0,
         ValueError ''min_position_notional_usd must be non-negative''),
      (cf_min_hedge_notional_usd c < 0, ValueError ''min_hedge_notional_usd must be non-negative''),
      (cf_max_hedge_notional_usd c < 0, ValueError ''max_hedge_notional_usd must be non-negative''),
      (cf_min_expected_saving_usd c < 0,
         ValueError ''min_expected_saving_usd must be non-negative''),
      (cf_min_available_margin_usd c < 0,
         ValueError ''min_available_margin_usd must be non-negative''),
      (cf_slippage_rate_per_order c < 0,
         ValueError ''slippage_rate_per_order must be non-negative''),
      (cf_hip3_extra_fee_rate_per_order c < 0,
         ValueError ''hip3_extra_fee_rate_per_order must be non-negative''),
      (cf_risk_buffer_rate c < 0, ValueError ''risk_buffer_rate must be non-negative''),
      (cf_fallback_taker_fee_rate c < 0,
         ValueError ''fallback_taker_fee_rate must be non-negative''),
      (cf_max_order_slippage c < 0, ValueError ''max_order_slippage must be non-negative''),
      (cf_assumed_hedge_leverage c \<le> 0, ValueError ''assumed_hedge_leverage must be positive''),
      (cf_assumed_hedge_leverage c \<noteq> of_int \<lfloor>cf_assumed_hedge_leverage c\<rfloor>,
         ValueError ''assumed_hedge_leverage must be an integer''),
      (cf_margin_safety_multiplier c < 1,
         ValueError ''margin_safety_multiplier must be at least 1''),
      (cf_cost_safety_multiplier c < 1, ValueError ''cost_safety_multiplier must be at least 1''),
      (cf_ambiguous_order_retry_seconds c \<le> 0,
         ValueError ''ambiguous_order_retry_seconds must be positive''),
      (cf_open_reconciliation_timeout_seconds c \<le> 0,
         ValueError ''open_reconciliation_timeout_seconds must be positive''),
      (cf_http_timeout_seconds c \<le> 0, ValueError ''http_timeout_seconds must be positive''),
      (cf_action_expiry_seconds c \<le> 0, ValueError ''action_expiry_seconds must be positive''),
      (cf_action_expiry_seconds c \<le> cf_http_timeout_seconds c,
         ValueError ''action_expiry_seconds must exceed http_timeout_seconds''),
      (cf_execution_enabled c \<and> cf_primary_account_address c = [],
         ValueError ''HL_ACCOUNT_ADDRESS is required for execution''),
      (cf_execution_enabled c \<and> cf_hedge_account_address c = [],
         ValueError ''FUNDING_HEDGE_ACCOUNT_ADDRESS is required for execution''),
      (cf_execution_enabled c \<and>
         py_lower (cf_primary_account_address c) = py_lower (cf_hedge_account_address c),
         ValueError ''primary and hedge account addresses must differ'')]"

definition mk_config :: "StrategyConfig \<Rightarrow> StrategyConfig result" where
  "mk_config c = (let n = normalized_config c in guarded (config_guards n) n)"

definition default_config :: StrategyConfig where
  "default_config =
     \<lparr>cf_symbols = [''xyz:SKHX''], cf_network = ''mainnet'', cf_primary_account_address = [],
      cf_hedge_account_address = [], cf_hedge_account_kind = ''subaccount'', cf_hedge_ratio = 1,
      cf_hedge_open_lead_seconds = 120, cf_latest_open_cutoff_seconds = 15,
      cf_funding_confirmation_timeout_seconds = 120, cf_max_funding_data_age_seconds = 30,
      cf_max_clock_skew_seconds = 5, cf_min_position_notional_usd = 10,
      cf_min_hedge_notional_usd = 10, cf_max_hedge_notional_usd = 0,
      cf_min_expected_saving_usd = 1 / 2, cf_min_available_margin_usd = 10,
      cf_assumed_hedge_leverage = 1, cf_hedge_margin_mode = ''cross'',
      cf_margin_safety_multiplier = 12 / 10, cf_slippage_rate_per_order = 2 / 10000,
      cf_hip3_extra_fee_rate_per_order = 0, cf_hip3_extra_fee_rate_known = False,
      cf_risk_buffer_rate = 2 / 10000, cf_cost_safety_multiplier = 125 / 100,
      cf_fallback_taker_fee_rate = 45 / 100000, cf_max_order_slippage = 2 / 1000,
      cf_require_verified_subaccount = True, cf_execution_enabled = False,
      cf_ambiguous_order_retry_seconds = 15, cf_open_reconciliation_timeout_seconds = 30,
      cf_http_timeout_seconds = 5, cf_action_expiry_seconds = 15, cf_poll_seconds = 5\<rparr>"

section \<open>What the checks establish\<close>

definition wf_funding :: "FundingObservation \<Rightarrow> bool" where
  "wf_funding f = (fo_symbol f \<noteq> [] \<and> 0 < fo_oracle_price f \<and> 0 < fo_mark_price f \<and> 0 \<le> fo_size_decimals f)"

definition wf_account :: "HedgeAccountSnapshot \<Rightarrow> bool" where
  "wf_account a = (0 \<le> ha_withdrawable_usd a \<and> 0 \<le> ha_taker_fee_rate a \<and>
     ha_account_kind a \<in> {''subaccount'', ''wallet''})"

definition wf_snapshot :: "HedgeSnapshot \<Rightarrow> bool" where
  "wf_snapshot s = (wf_funding (hs_funding s) \<and> wf_account (hs_hedge_account s) \<and>
     ap_symbol (hs_primary_position s) = snapshot_symbol s \<and>
     ap_symbol (ha_position (hs_hedge_account s)) = snapshot_symbol s)"

definition wf_config :: "StrategyConfig \<Rightarrow> bool" where
  "wf_config c = (first_error (config_guards c) = None)"

lemma mk_funding_wf: "mk_funding symbol orc mk r ob nx dc av = Inr f \<Longrightarrow> wf_funding f"
  by (auto simp: mk_funding_def rbind_Inr_iff guarded_Inr wf_funding_def canonical_symbol_def
      Let_def split: if_splits)

lemma check_hedge_account_wf: "check_hedge_account a t = Inr a' \<Longrightarrow> wf_account a'"
  by (auto simp: check_hedge_account_def guarded_Inr wf_account_def)

lemma mk_snapshot_wf:
  assumes "mk_snapshot p a f = Inr s" and "wf_account a" and "wf_funding f"
  shows "wf_snapshot s"
  using assms by (auto simp: mk_snapshot_def wf_snapshot_def snapshot_symbol_def split: if_splits)

lemma mk_config_wf: "mk_config c = Inr d \<Longrightarrow> wf_config d"
  by (auto simp: mk_config_def Let_def guarded_Inr wf_config_def first_error_None)

lemma wf_configD:
  assumes "wf_config c"
  shows "0 < cf_hedge_ratio c" and "cf_hedge_ratio c \<le> 1"
    and "0 < cf_assumed_hedge_leverage c" and "1 \<le> cf_margin_safety_multiplier c"
    and "1 \<le> cf_cost_safety_multiplier c" and "0 \<le> cf_max_hedge_notional_usd c"
    and "0 \<le> cf_min_available_margin_usd c" and "0 \<le> cf_min_expected_saving_usd c"
    and "0 \<le> cf_slippage_rate_per_order c" and "0 \<le> cf_hip3_extra_fee_rate_per_order c"
    and "0 \<le> cf_risk_buffer_rate c" and "0 \<le> cf_latest_open_cutoff_seconds c"
    and "cf_latest_open_cutoff_seconds c < cf_hedge_open_lead_seconds c"
    and "0 < cf_ambiguous_order_retry_seconds c"
    and "0 < cf_open_reconciliation_timeout_seconds c"
    and "0 < cf_funding_confirmation_timeout_seconds c"
    and "0 < cf_action_expiry_seconds c" and "0 \<le> cf_min_hedge_notional_usd c"
proof -
  have "list_all (\<lambda>g. \<not> fst g) (config_guards c)"
    using assms by (simp add: wf_config_def first_error_None list_all_iff)
  then have all: "list_all Not (map fst (config_guards c))"
    by (simp add: list_all_iff)
  show "0 < cf_hedge_ratio c" and "cf_hedge_ratio c \<le> 1"
    and "0 < cf_assumed_hedge_leverage c" and "1 \<le> cf_margin_safety_multiplier c"
    and "1 \<le> cf_cost_safety_multiplier c" and "0 \<le> cf_max_hedge_notional_usd c"
    and "0 \<le> cf_min_available_margin_usd c" and "0 \<le> cf_min_expected_saving_usd c"
    and "0 \<le> cf_slippage_rate_per_order c" and "0 \<le> cf_hip3_extra_fee_rate_per_order c"
    and "0 \<le> cf_risk_buffer_rate c" and "0 \<le> cf_latest_open_cutoff_seconds c"
    and "cf_latest_open_cutoff_seconds c < cf_hedge_open_lead_seconds c"
    and "0 < cf_ambiguous_order_retry_seconds c"
    and "0 < cf_open_reconciliation_timeout_seconds c"
    and "0 < cf_funding_confirmation_timeout_seconds c"
    and "0 < cf_action_expiry_seconds c" and "0 \<le> cf_min_hedge_notional_usd c"
    using all unfolding config_guards_def list.map list.pred_inject fst_conv not_le not_less not_not
    by blast+
qed

lemma check_cycle_again:
  assumes "check_cycle c = Inr d" and "settled_symbol (hc_symbol c)"
  shows "check_cycle d = Inr d"
  using assms canonicalize_idem [OF assms(2)]
  by (auto simp: check_cycle_def rbind_Inr_iff guarded_Inr canonical_symbol_def Let_def
      split: if_splits)

section \<open>A worked input\<close>

text \<open>
  The snapshot of \<^verbatim>\<open>src/funding_fee_avoidance/examples/positions.json\<close> under the default
  configuration with the two account addresses filled in and execution enabled. The instants
  are 2026-07-10, 13:00:00 UTC for the settlement and 12:58:30 UTC for the evaluation.
\<close>

definition example_settlement :: instant where
  "example_settlement = 1783688400000000"

definition example_now :: instant where
  "example_now = 1783688310000000"

definition example_config :: StrategyConfig where
  "example_config = default_config
     \<lparr>cf_primary_account_address := ''0x1111111111111111111111111111111111111111'',
      cf_hedge_account_address := ''0x2222222222222222222222222222222222222222'',
      cf_execution_enabled := True\<rparr>"

definition example_snapshot :: HedgeSnapshot where
  "example_snapshot =
     \<lparr>hs_primary_position =
        \<lparr>ap_account_address = ''0x1111111111111111111111111111111111111111'',
         ap_symbol = ''xyz:SKHX'', ap_size = 100, ap_margin_used_usd = 2200\<rparr>,
      hs_hedge_account =
        \<lparr>ha_position =
           \<lparr>ap_account_address = ''0x2222222222222222222222222222222222222222'',
            ap_symbol = ''xyz:SKHX'', ap_size = 0, ap_margin_used_usd = 0\<rparr>,
         ha_withdrawable_usd = 50000, ha_taker_fee_rate = 9 / 100000,
         ha_fee_rate_source = ''official_hip3_fee_formula'', ha_hip3_fee_formula_verified = True,
         ha_account_kind = ''subaccount'', ha_ownership_verified = True,
         ha_margin_available_verified = True, ha_funding_confirmed = False,
         ha_funding_record_time = None, ha_funding_delta_usd = None, ha_open_order_cloids = [],
         ha_unknown_open_orders = False, ha_open_order_status = [], ha_close_order_status = [],
         ha_adjust_order_status = []\<rparr>,
      hs_funding =
        \<lparr>fo_symbol = ''xyz:SKHX'', fo_oracle_price = 2125 / 10, fo_mark_price = 21255 / 100,
         fo_funding_rate = 2 / 1000, fo_observed_at = example_now - seconds 5,
         fo_next_funding_at = example_settlement, fo_size_decimals = 3,
         fo_market_data_available = True\<rparr>\<rparr>"

definition with_hedge_size :: "rat \<Rightarrow> HedgeSnapshot \<Rightarrow> HedgeSnapshot" where
  "with_hedge_size sz s = s\<lparr>hs_hedge_account := (hs_hedge_account s)
     \<lparr>ha_position := (ha_position (hs_hedge_account s))\<lparr>ap_size := sz\<rparr>\<rparr>\<rparr>"

definition example_cycle :: HedgeCycleState where
  "example_cycle =
     \<lparr>hc_cycle_key = ''key'', hc_status = HEDGED, hc_symbol = ''xyz:SKHX'',
      hc_primary_account_address = ''0x1111111111111111111111111111111111111111'',
      hc_hedge_account_address = ''0x2222222222222222222222222222222222222222'',
      hc_settlement_at = example_settlement, hc_target_hedge_size = - 100,
      hc_open_cloid = ''0xopen'', hc_close_cloid = [], hc_created_at = example_now,
      hc_updated_at = example_now, hc_network = ''mainnet'',
      hc_hedge_account_kind = ''subaccount'', hc_actual_hedge_size = - 100,
      hc_close_attempt_count = 0, hc_adjustment_count = 0, hc_pending_adjust_cloid = [],
      hc_pre_adjust_hedge_size = 0, hc_open_submitted_at = Some example_now,
      hc_close_submitted_at = None, hc_adjust_submitted_at = None,
      hc_funding_confirmed_at = None, hc_funding_delta_usd = None, hc_last_error = []\<rparr>"

lemma example_config_wf: "wf_config example_config"
  by code_simp

lemma example_snapshot_wf: "wf_snapshot example_snapshot"
  by code_simp

end
