(* ===== verification/Hedge_Store.thy ===== *)
theory Hedge_Store
  imports Hedge_Models
begin

text \<open>
  Persistent hedge cycles (\<^verbatim>\<open>src/funding_fee_avoidance/state_store.py\<close>). A transaction works
  on an in-memory copy of the stored cycles; \<open>tx_put\<close> changes the copy and marks it dirty,
  \<open>tx_flush\<close> writes a dirty copy to disk. The file lock makes a transaction exclusive, so a
  transaction is a sequence of these steps on one state. The state also records, in order, what
  became visible outside the process: every write of the state file and every order handed to
  the executor. \<open>ct_disk\<close> is the content the next transaction reads back; its stored form is
  in \<open>Hedge_Codec\<close>, and the atomic rename makes a write one effect.
\<close>

datatype submission =
    OpenOrder string rat string instant       \<comment> \<open>symbol, signed size, cloid, deadline\<close>
  | CloseOrder string rat rat string          \<comment> \<open>symbol, current signed size, size, cloid\<close>

type_synonym cycles = "(string, HedgeCycleState) dict"

datatype effect = Flushed cycles | Submitted submission

record CycleTransaction =
  ct_cycles :: cycles
  ct_dirty :: bool
  ct_disk :: cycles
  ct_effects :: "effect list"

definition tx_get :: "CycleTransaction \<Rightarrow> string \<Rightarrow> HedgeCycleState option" where
  "tx_get t symbol = dict_get (ct_cycles t) symbol"

definition tx_put :: "HedgeCycleState \<Rightarrow> CycleTransaction \<Rightarrow> CycleTransaction" where
  "tx_put cycle t = t\<lparr>ct_cycles := dict_put (hc_symbol cycle) cycle (ct_cycles t), ct_dirty := True\<rparr>"

definition tx_flush :: "CycleTransaction \<Rightarrow> CycleTransaction" where
  "tx_flush t =
     (if ct_dirty t
      then t\<lparr>ct_disk := ct_cycles t, ct_dirty := False,
             ct_effects := ct_effects t @ [Flushed (ct_cycles t)]\<rparr>
      else t)"

text \<open>\<^verbatim>\<open>CycleStateStore.transaction\<close>: the copy is read under the lock; leaving it flushes.\<close>

definition tx_begin :: "cycles \<Rightarrow> CycleTransaction" where
  "tx_begin disk = \<lparr>ct_cycles = disk, ct_dirty = False, ct_disk = disk, ct_effects = []\<rparr>"

definition load_all :: "cycles \<Rightarrow> cycles" where
  "load_all disk = ct_cycles (tx_flush (tx_begin disk))"

text \<open>A clean transaction agrees with the disk.\<close>

definition tx_inv :: "CycleTransaction \<Rightarrow> bool" where
  "tx_inv t = (\<not> ct_dirty t \<longrightarrow> ct_disk t = ct_cycles t)"

definition tx_disk :: "CycleTransaction \<Rightarrow> string \<Rightarrow> HedgeCycleState option" where
  "tx_disk t symbol = dict_get (ct_disk t) symbol"

section \<open>The contract of a transactional store\<close>

locale transactional_store =
  fixes lookup :: "'t \<Rightarrow> 'k \<Rightarrow> 'v option"
    and put :: "'v \<Rightarrow> 't \<Rightarrow> 't"
    and flush :: "'t \<Rightarrow> 't"
    and disk :: "'t \<Rightarrow> 'k \<Rightarrow> 'v option"
    and key :: "'v \<Rightarrow> 'k"
    and inv :: "'t \<Rightarrow> bool"
  assumes lookup_put: "lookup (put v t) k = (if k = key v then Some v else lookup t k)"
    and lookup_flush: "lookup (flush t) = lookup t"
    and disk_put: "disk (put v t) = disk t"
    and disk_flush: "inv t \<Longrightarrow> disk (flush t) = lookup t"
    and inv_put: "inv (put v t)"
    and inv_flush: "inv t \<Longrightarrow> inv (flush t)"
begin

lemma put_flush_durable: "disk (flush (put v t)) (key v) = Some v"
  by (simp add: disk_flush inv_put lookup_put)

lemma put_flush_other: "k \<noteq> key v \<Longrightarrow> disk (flush (put v t)) k = lookup t k"
  by (simp add: disk_flush inv_put lookup_put)

text \<open>Later writes in memory do not reach the disk before they are flushed.\<close>

lemma put_after_flush: "inv t \<Longrightarrow> disk (put v (flush t)) = lookup t"
  by (simp add: disk_put disk_flush)

end

interpretation cs: transactional_store tx_get tx_put tx_flush tx_disk hc_symbol tx_inv
  by unfold_locales
     (auto simp: tx_get_def tx_put_def tx_flush_def tx_disk_def tx_inv_def fun_eq_iff)

lemma ct_disk_put [simp, store_simps]: "ct_disk (tx_put c t) = ct_disk t"
  by (simp add: tx_put_def)

lemma ct_effects_put [simp, store_simps]: "ct_effects (tx_put c t) = ct_effects t"
  by (simp add: tx_put_def)

lemma ct_cycles_put [simp, store_simps]:
  "ct_cycles (tx_put c t) = dict_put (hc_symbol c) c (ct_cycles t)"
  by (simp add: tx_put_def)

lemma ct_cycles_flush [simp, store_simps]: "ct_cycles (tx_flush t) = ct_cycles t"
  by (simp add: tx_flush_def)

lemma flush_put [simp, store_simps]:
  "ct_disk (tx_flush (tx_put c t)) = ct_cycles (tx_put c t)"
  "ct_effects (tx_flush (tx_put c t)) = ct_effects t @ [Flushed (ct_cycles (tx_put c t))]"
  "\<not> ct_dirty (tx_flush (tx_put c t))"
  by (simp_all add: tx_flush_def tx_put_def)

lemma ct_dirty_flush [simp]: "\<not> ct_dirty (tx_flush t)"
  by (simp add: tx_flush_def)

lemma flush_clean [simp, store_simps]: "\<not> ct_dirty t \<Longrightarrow> tx_flush t = t"
  by (simp add: tx_flush_def)

lemma tx_begin_simps [simp, store_simps]:
  "ct_cycles (tx_begin d) = d" "ct_disk (tx_begin d) = d" "\<not> ct_dirty (tx_begin d)"
  "ct_effects (tx_begin d) = []" "tx_get (tx_begin d) k = dict_get d k"
  by (simp_all add: tx_begin_def tx_get_def)

lemma load_all_id: "load_all d = d"
  by (simp add: load_all_def)

section \<open>Cycles filed under their symbol\<close>

definition keyed :: "cycles \<Rightarrow> bool" where
  "keyed cs = list_all (\<lambda>e. hc_symbol (snd e) = fst e) cs"

lemma keyed_get: "keyed cs \<Longrightarrow> dict_get cs k = Some c \<Longrightarrow> hc_symbol c = k"
  by (induction cs) (auto simp: keyed_def split: if_splits)

lemma keyed_put: "hc_symbol c = k \<Longrightarrow> keyed cs \<Longrightarrow> keyed (dict_put k c cs)"
  by (induction cs) (auto simp: keyed_def)

end
