(* ===== verification/Hedge_Codec.thy ===== *)
theory Hedge_Codec
  imports Hedge_Store Text_Codec "HOL-Library.Multiset"
begin

text \<open>
  The stored form of hedge cycles: \<^verbatim>\<open>to_dict\<close> and \<^verbatim>\<open>from_mapping\<close> of \<^verbatim>\<open>HedgeCycleState\<close>
  (\<^verbatim>\<open>src/funding_fee_avoidance/models.py\<close>) with the parsers they use, and the reading and writing
  of the state file (\<^verbatim>\<open>state_store.py\<close>). The file is the JSON value it holds, with the keys of its
  objects sorted as \<^verbatim>\<open>json.dump\<close> writes them; its text is not modelled.

  The model keeps decimals as their values. How many places behind the point a stored decimal
  carries is therefore an argument \<open>places\<close> of the writer, by cycle and field.
\<close>

section \<open>Parsers\<close>

definition parse_decimal :: "json \<Rightarrow> string \<Rightarrow> rat result" where
  "parse_decimal v field =
     (case decimal_literal (py_str v) of
        Not_a_number_text \<Rightarrow> Inl (ValueError (field @ '' must be a decimal number''))
      | Not_finite \<Rightarrow> Inl (ValueError (field @ '' must be finite''))
      | Finite x \<Rightarrow> Inr x)"

definition parse_utc_datetime :: "json \<Rightarrow> string \<Rightarrow> instant result" where
  "parse_utc_datetime v field =
     (let raw = py_strip (py_str (py_or v (JStr [])));
          raw = (if raw \<noteq> [] \<and> last raw = CHR ''Z'' then butlast raw @ ''+00:00'' else raw)
      in case fromisoformat raw of
           None \<Rightarrow> Inl (ValueError (field @ '' must be an ISO-8601 datetime''))
         | Some (t, None) \<Rightarrow> Inl (ValueError (field @ '' must include a timezone''))
         | Some (t, Some offset) \<Rightarrow>
             if datetime_range (t - seconds offset) then Inr (t - seconds offset)
             else Inl (OverflowError ''date value out of range''))"

definition utc_text :: "instant \<Rightarrow> string" where
  "utc_text t = replace_text ''+00:00'' ''Z'' (isoformat_utc t)"

text \<open>\<^verbatim>\<open>int(v)\<close> of a decoded JSON value.\<close>

definition int_literal :: "string \<Rightarrow> int option" where
  "int_literal s =
     (case take_sign (py_strip s) of
        (sg, ds) \<Rightarrow>
          if ds \<noteq> [] \<and> is_digit (hd ds) \<and> is_digit (last ds) \<and> \<not> contains_text ''__'' ds
             \<and> list_all (\<lambda>c. is_digit c \<or> c = CHR ''_'') ds
          then Some ((if sg < 0 then - 1 else 1) * int (digits_value (filter is_digit ds))) else None)"

definition trunc :: "rat \<Rightarrow> int" where
  "trunc x = (if 0 \<le> x then \<lfloor>x\<rfloor> else \<lceil>x\<rceil>)"

definition py_int :: "json \<Rightarrow> int result" where
  "py_int v =
     (case v of
        JInt i \<Rightarrow> Inr i
      | JBool b \<Rightarrow> Inr (if b then 1 else 0)
      | JStr s \<Rightarrow> (case int_literal s of
            None \<Rightarrow> Inl (ValueError ''invalid literal for int()'') | Some i \<Rightarrow> Inr i)
      | JFloat t \<Rightarrow> (case decimal_literal t of
            Finite x \<Rightarrow> Inr (trunc (fround x))
          | _ \<Rightarrow> if t = ''nan'' then Inl (ValueError ''cannot convert float NaN to integer'')
                  else Inl (OverflowError ''cannot convert float infinity to integer''))
      | _ \<Rightarrow> Inl (TypeError ''int() argument''))"

definition status_names :: "(string \<times> HedgeCycleStatus) list" where
  "status_names =
     [(''armed'', ARMED), (''open_submitted'', OPEN_SUBMITTED), (''open_partial'', OPEN_PARTIAL),
      (''hedged'', HEDGED), (''awaiting_funding'', AWAITING_FUNDING),
      (''close_submitted'', CLOSE_SUBMITTED), (''close_partial'', CLOSE_PARTIAL),
      (''completed'', COMPLETED), (''aborted'', ABORTED), (''recovery_required'', RECOVERY_REQUIRED)]"

definition status_value :: "HedgeCycleStatus \<Rightarrow> string" where
  "status_value s = fst (hd (filter (\<lambda>e. snd e = s) status_names))"

definition status_of :: "string \<Rightarrow> HedgeCycleStatus result" where
  "status_of s =
     (case dict_get status_names s of
        None \<Rightarrow> Inl (ValueError (repr_text s @ '' is not a valid HedgeCycleStatus'')) | Some x \<Rightarrow> Inr x)"

section \<open>Cycles\<close>

definition SCHEMA_VERSION :: int where
  "SCHEMA_VERSION = 1"

definition optional_time :: "instant option \<Rightarrow> json" where
  "optional_time x = (case x of None \<Rightarrow> JNull | Some t \<Rightarrow> JStr (utc_text t))"

definition cycle_to_dict :: "(string \<Rightarrow> nat) \<Rightarrow> HedgeCycleState \<Rightarrow> (string \<times> json) list" where
  "cycle_to_dict places c =
     (let decimal = (\<lambda>field x. JStr (decimal_text (places field) x))
      in [(''schema_version'', JInt SCHEMA_VERSION),
          (''cycle_key'', JStr (hc_cycle_key c)),
          (''status'', JStr (status_value (hc_status c))),
          (''symbol'', JStr (hc_symbol c)),
          (''primary_account_address'', JStr (hc_primary_account_address c)),
          (''hedge_account_address'', JStr (hc_hedge_account_address c)),
          (''network'', JStr (hc_network c)),
          (''hedge_account_kind'', JStr (hc_hedge_account_kind c)),
          (''settlement_at'', JStr (utc_text (hc_settlement_at c))),
          (''target_hedge_size'', decimal ''target_hedge_size'' (hc_target_hedge_size c)),
          (''actual_hedge_size'', decimal ''actual_hedge_size'' (hc_actual_hedge_size c)),
          (''close_attempt_count'', JInt (hc_close_attempt_count c)),
          (''adjustment_count'', JInt (hc_adjustment_count c)),
          (''pending_adjust_cloid'', JStr (hc_pending_adjust_cloid c)),
          (''pre_adjust_hedge_size'', decimal ''pre_adjust_hedge_size'' (hc_pre_adjust_hedge_size c)),
          (''open_submitted_at'', optional_time (hc_open_submitted_at c)),
          (''close_submitted_at'', optional_time (hc_close_submitted_at c)),
          (''adjust_submitted_at'', optional_time (hc_adjust_submitted_at c)),
          (''open_cloid'', JStr (hc_open_cloid c)),
          (''close_cloid'', JStr (hc_close_cloid c)),
          (''created_at'', JStr (utc_text (hc_created_at c))),
          (''updated_at'', JStr (utc_text (hc_updated_at c))),
          (''funding_confirmed_at'', optional_time (hc_funding_confirmed_at c)),
          (''funding_delta_usd'',
             case hc_funding_delta_usd c of None \<Rightarrow> JNull | Some x \<Rightarrow> decimal ''funding_delta_usd'' x),
          (''last_error'', JStr (hc_last_error c))])"

definition text_field :: "(string \<times> json) list \<Rightarrow> string \<Rightarrow> string \<Rightarrow> string" where
  "text_field payload key dflt = py_str (py_or (json_get payload key (JStr dflt)) (JStr dflt))"

definition time_field :: "(string \<times> json) list \<Rightarrow> string \<Rightarrow> instant result" where
  "time_field payload key = parse_utc_datetime (json_get payload key JNull) key"

definition optional_time_field :: "(string \<times> json) list \<Rightarrow> string \<Rightarrow> instant option result" where
  "optional_time_field payload key =
     (let v = json_get payload key JNull
      in if truthy v then rbind (parse_utc_datetime v key) (\<lambda>t. Inr (Some t)) else Inr None)"

definition decimal_field :: "(string \<times> json) list \<Rightarrow> string \<Rightarrow> rat result" where
  "decimal_field payload key = parse_decimal (json_get payload key (JStr ''0'')) key"

definition optional_decimal_field :: "(string \<times> json) list \<Rightarrow> string \<Rightarrow> rat option result" where
  "optional_decimal_field payload key =
     (let v = json_get payload key JNull
      in if v \<noteq> JNull then rbind (parse_decimal v key) (\<lambda>x. Inr (Some x)) else Inr None)"

definition cycle_from_mapping :: "(string \<times> json) list \<Rightarrow> HedgeCycleState result" where
  "cycle_from_mapping payload =
     rbind (py_int (json_get payload ''schema_version'' (JInt 0))) (\<lambda>version.
     if version \<noteq> SCHEMA_VERSION then Inl (ValueError ''unsupported hedge-cycle schema version'')
     else
     rbind (status_of (py_str (json_get payload ''status'' (JStr [])))) (\<lambda>status.
     rbind (time_field payload ''settlement_at'') (\<lambda>settlement.
     rbind (decimal_field payload ''target_hedge_size'') (\<lambda>target.
     rbind (decimal_field payload ''actual_hedge_size'') (\<lambda>actual.
     rbind (py_int (json_get payload ''close_attempt_count'' (JInt 0))) (\<lambda>closes.
     rbind (py_int (json_get payload ''adjustment_count'' (JInt 0))) (\<lambda>adjustments.
     rbind (decimal_field payload ''pre_adjust_hedge_size'') (\<lambda>pre.
     rbind (time_field payload ''created_at'') (\<lambda>created.
     rbind (time_field payload ''updated_at'') (\<lambda>updated.
     rbind (optional_time_field payload ''open_submitted_at'') (\<lambda>open_at.
     rbind (optional_time_field payload ''close_submitted_at'') (\<lambda>close_at.
     rbind (optional_time_field payload ''adjust_submitted_at'') (\<lambda>adjust_at.
     rbind (optional_time_field payload ''funding_confirmed_at'') (\<lambda>confirmed_at.
     rbind (optional_decimal_field payload ''funding_delta_usd'') (\<lambda>delta.
     check_cycle
       \<lparr>hc_cycle_key = text_field payload ''cycle_key'' [], hc_status = status,
        hc_symbol = text_field payload ''symbol'' [],
        hc_primary_account_address = text_field payload ''primary_account_address'' [],
        hc_hedge_account_address = text_field payload ''hedge_account_address'' [],
        hc_settlement_at = settlement, hc_target_hedge_size = target,
        hc_open_cloid = text_field payload ''open_cloid'' [],
        hc_close_cloid = text_field payload ''close_cloid'' [],
        hc_created_at = created, hc_updated_at = updated,
        hc_network = text_field payload ''network'' ''mainnet'',
        hc_hedge_account_kind = text_field payload ''hedge_account_kind'' ''subaccount'',
        hc_actual_hedge_size = actual, hc_close_attempt_count = closes,
        hc_adjustment_count = adjustments,
        hc_pending_adjust_cloid = text_field payload ''pending_adjust_cloid'' [],
        hc_pre_adjust_hedge_size = pre, hc_open_submitted_at = open_at,
        hc_close_submitted_at = close_at, hc_adjust_submitted_at = adjust_at,
        hc_funding_confirmed_at = confirmed_at, hc_funding_delta_usd = delta,
        hc_last_error = text_field payload ''last_error'' []\<rparr>)))))))))))))))"

section \<open>The state file\<close>

definition write_unlocked :: "(HedgeCycleState \<Rightarrow> string \<Rightarrow> nat) \<Rightarrow> cycles \<Rightarrow> json" where
  "write_unlocked places cycles =
     sort_keys (JObj
       [(''schema_version'', JInt SCHEMA_VERSION),
        (''cycles'', JObj (map (\<lambda>e. (fst e, JObj (cycle_to_dict (places (snd e)) (snd e)))) (sort_key fst cycles)))])"

fun read_cycles :: "(string \<times> json) list \<Rightarrow> cycles \<Rightarrow> cycles result" where
  "read_cycles [] result = Inr result"
| "read_cycles ((symbol, raw_cycle) # rest) result =
     (case raw_cycle of
        JObj payload \<Rightarrow>
          rbind (cycle_from_mapping payload) (\<lambda>cycle.
            if hc_symbol cycle \<noteq> symbol
            then Inl (ValueError (''hedge cycle key mismatch for '' @ symbol))
            else read_cycles rest (dict_put symbol cycle result))
      | _ \<Rightarrow> Inl (ValueError (''invalid hedge cycle for '' @ symbol)))"

text \<open>The content of the file, \<open>None\<close> when it does not exist.\<close>

definition read_unlocked :: "json option \<Rightarrow> cycles result" where
  "read_unlocked file =
     (case file of
        None \<Rightarrow> Inr []
      | Some (JObj payload) \<Rightarrow>
          rbind (py_int (json_get payload ''schema_version'' (JInt 0))) (\<lambda>version.
            if version \<noteq> SCHEMA_VERSION then Inl (ValueError ''unsupported hedge-state schema version'')
            else (case json_get payload ''cycles'' (JObj []) of
                    JObj raw_cycles \<Rightarrow> read_cycles raw_cycles []
                  | _ \<Rightarrow> Inl (ValueError ''hedge state cycles must be an object'')))
      | Some _ \<Rightarrow> Inl (ValueError ''hedge state must be a JSON object''))"

section \<open>Reading back what was written\<close>

lemma parse_decimal_text: "has_places k x \<Longrightarrow> parse_decimal (JStr (decimal_text k x)) field = Inr x"
  by (simp add: parse_decimal_def py_str_def decimal_round_trip)

lemma utc_text_shape:
  obtains s where "utc_text t = s @ ''Z''" "isoformat_utc t = s @ ''+00:00''" "stripped (s @ ''Z'')"
proof -
  obtain s where s: "isoformat_utc t = s @ ''+00:00''" "CHR ''+'' \<notin> set s" "\<And>c. c \<in> set s \<Longrightarrow> \<not> is_space c"
    by (rule isoformat_utc_shape [of t]) blast
  have "utc_text t = s @ ''Z''" unfolding utc_text_def s(1) by (rule replace_text_skip) (rule s(2))
  moreover have "stripped (s @ ''Z'')" by (rule stripped_no_space) (use s(3) in auto)
  ultimately show thesis using that s(1) by blast
qed

lemma parse_utc_text:
  assumes "datetime_range t"
  shows "parse_utc_datetime (JStr (utc_text t)) field = Inr t" "truthy (JStr (utc_text t))"
proof -
  obtain s where s: "utc_text t = s @ ''Z''" "isoformat_utc t = s @ ''+00:00''" "stripped (s @ ''Z'')"
    by (rule utc_text_shape)
  show "truthy (JStr (utc_text t))" using s(1) by simp
  then have "py_strip (py_str (py_or (JStr (utc_text t)) (JStr []))) = s @ ''Z''"
    by (simp add: py_or_def py_str_def s(1) py_strip_stripped [OF s(3)])
  then show "parse_utc_datetime (JStr (utc_text t)) field = Inr t"
    using isoformat_round_trip [OF assms] assms
    by (simp add: parse_utc_datetime_def Let_def s(2) seconds_def butlast_append)
qed

lemma status_round_trip: "status_of (status_value s) = Inr s"
  by (cases s) (simp_all add: status_of_def status_value_def status_names_def)

text \<open>A cycle that can be stored: it passed its check, its times exist, its decimals fit their places.\<close>

definition storable :: "(string \<Rightarrow> nat) \<Rightarrow> HedgeCycleState \<Rightarrow> bool" where
  "storable places c =
     (check_cycle c = Inr c
      \<and> list_all datetime_range [hc_settlement_at c, hc_created_at c, hc_updated_at c]
      \<and> list_all (\<lambda>x. case x of None \<Rightarrow> True | Some t \<Rightarrow> datetime_range t)
           [hc_open_submitted_at c, hc_close_submitted_at c, hc_adjust_submitted_at c, hc_funding_confirmed_at c]
      \<and> has_places (places ''target_hedge_size'') (hc_target_hedge_size c)
      \<and> has_places (places ''actual_hedge_size'') (hc_actual_hedge_size c)
      \<and> has_places (places ''pre_adjust_hedge_size'') (hc_pre_adjust_hedge_size c)
      \<and> (case hc_funding_delta_usd c of None \<Rightarrow> True | Some x \<Rightarrow> has_places (places ''funding_delta_usd'') x))"

lemma text_field_get: "dict_get p k = Some (JStr s) \<Longrightarrow> s \<noteq> [] \<or> dflt = [] \<Longrightarrow> text_field p k dflt = s"
  by (auto simp: text_field_def json_get_def py_or_def py_str_def)

lemma time_field_get: "dict_get p k = Some (JStr (utc_text t)) \<Longrightarrow> datetime_range t \<Longrightarrow> time_field p k = Inr t"
  by (simp add: time_field_def json_get_def parse_utc_text)

lemma optional_time_field_get:
  assumes "dict_get p k = Some (optional_time x)" "case x of None \<Rightarrow> True | Some t \<Rightarrow> datetime_range t"
  shows "optional_time_field p k = Inr x"
proof (cases x)
  case None
  then show ?thesis using assms by (simp add: optional_time_field_def json_get_def optional_time_def)
next
  case (Some t)
  then show ?thesis using assms parse_utc_text(1) [of t k] parse_utc_text(2) [of t]
    by (simp add: optional_time_field_def json_get_def optional_time_def del: truthy.simps)
qed

lemma decimal_field_get:
  "dict_get p k = Some (JStr (decimal_text n x)) \<Longrightarrow> has_places n x \<Longrightarrow> decimal_field p k = Inr x"
  by (simp add: decimal_field_def json_get_def parse_decimal_text)

lemma optional_decimal_field_get:
  assumes "dict_get p k = Some (case x of None \<Rightarrow> JNull | Some y \<Rightarrow> JStr (decimal_text n y))"
    "case x of None \<Rightarrow> True | Some y \<Rightarrow> has_places n y"
  shows "optional_decimal_field p k = Inr x"
  using assms by (cases x) (simp_all add: optional_decimal_field_def json_get_def parse_decimal_text)

lemma cycle_get:
  fixes places c
  defines "d \<equiv> cycle_to_dict places c"
  shows "dict_get d ''schema_version'' = Some (JInt SCHEMA_VERSION)"
    "dict_get d ''cycle_key'' = Some (JStr (hc_cycle_key c))"
    "dict_get d ''status'' = Some (JStr (status_value (hc_status c)))"
    "dict_get d ''symbol'' = Some (JStr (hc_symbol c))"
    "dict_get d ''primary_account_address'' = Some (JStr (hc_primary_account_address c))"
    "dict_get d ''hedge_account_address'' = Some (JStr (hc_hedge_account_address c))"
    "dict_get d ''network'' = Some (JStr (hc_network c))"
    "dict_get d ''hedge_account_kind'' = Some (JStr (hc_hedge_account_kind c))"
    "dict_get d ''settlement_at'' = Some (JStr (utc_text (hc_settlement_at c)))"
    "dict_get d ''target_hedge_size'' = Some (JStr (decimal_text (places ''target_hedge_size'') (hc_target_hedge_size c)))"
    "dict_get d ''actual_hedge_size'' = Some (JStr (decimal_text (places ''actual_hedge_size'') (hc_actual_hedge_size c)))"
    "dict_get d ''close_attempt_count'' = Some (JInt (hc_close_attempt_count c))"
    "dict_get d ''adjustment_count'' = Some (JInt (hc_adjustment_count c))"
    "dict_get d ''pending_adjust_cloid'' = Some (JStr (hc_pending_adjust_cloid c))"
    "dict_get d ''pre_adjust_hedge_size'' = Some (JStr (decimal_text (places ''pre_adjust_hedge_size'') (hc_pre_adjust_hedge_size c)))"
    "dict_get d ''open_submitted_at'' = Some (optional_time (hc_open_submitted_at c))"
    "dict_get d ''close_submitted_at'' = Some (optional_time (hc_close_submitted_at c))"
    "dict_get d ''adjust_submitted_at'' = Some (optional_time (hc_adjust_submitted_at c))"
    "dict_get d ''open_cloid'' = Some (JStr (hc_open_cloid c))"
    "dict_get d ''close_cloid'' = Some (JStr (hc_close_cloid c))"
    "dict_get d ''created_at'' = Some (JStr (utc_text (hc_created_at c)))"
    "dict_get d ''updated_at'' = Some (JStr (utc_text (hc_updated_at c)))"
    "dict_get d ''funding_confirmed_at'' = Some (optional_time (hc_funding_confirmed_at c))"
    "dict_get d ''funding_delta_usd'' = Some (case hc_funding_delta_usd c of None \<Rightarrow> JNull
        | Some x \<Rightarrow> JStr (decimal_text (places ''funding_delta_usd'') x))"
    "dict_get d ''last_error'' = Some (JStr (hc_last_error c))"
  by (simp_all add: d_def cycle_to_dict_def Let_def)

lemma cycle_round_trip:
  assumes "storable places c"
  shows "cycle_from_mapping (cycle_to_dict places c) = Inr c"
proof -
  let ?d = "cycle_to_dict places c"
  note g = cycle_get [of places c]
  have ok: "check_cycle c = Inr c" using assms by (simp add: storable_def)
  have named: "hc_network c \<noteq> []" "hc_hedge_account_kind c \<noteq> []"
    using ok by (auto simp: check_cycle_def rbind_Inr_iff guarded_Inr)
  have ints: "json_get ?d ''schema_version'' (JInt 0) = JInt SCHEMA_VERSION"
    "json_get ?d ''close_attempt_count'' (JInt 0) = JInt (hc_close_attempt_count c)"
    "json_get ?d ''adjustment_count'' (JInt 0) = JInt (hc_adjustment_count c)"
    "py_str (json_get ?d ''status'' (JStr [])) = status_value (hc_status c)"
    unfolding json_get_def g by (simp_all add: py_str_def)
  have times: "time_field ?d ''settlement_at'' = Inr (hc_settlement_at c)"
    "time_field ?d ''created_at'' = Inr (hc_created_at c)" "time_field ?d ''updated_at'' = Inr (hc_updated_at c)"
    by (rule time_field_get [OF g(9)], use assms in \<open>simp add: storable_def\<close>)
       (rule time_field_get [OF g(21)], use assms in \<open>simp add: storable_def\<close>,
        rule time_field_get [OF g(22)], use assms in \<open>simp add: storable_def\<close>)
  have optional_times: "optional_time_field ?d ''open_submitted_at'' = Inr (hc_open_submitted_at c)"
    "optional_time_field ?d ''close_submitted_at'' = Inr (hc_close_submitted_at c)"
    "optional_time_field ?d ''adjust_submitted_at'' = Inr (hc_adjust_submitted_at c)"
    "optional_time_field ?d ''funding_confirmed_at'' = Inr (hc_funding_confirmed_at c)"
    using assms by (auto simp: storable_def intro!: optional_time_field_get g(16-18,23))
  have decimals: "decimal_field ?d ''target_hedge_size'' = Inr (hc_target_hedge_size c)"
    "decimal_field ?d ''actual_hedge_size'' = Inr (hc_actual_hedge_size c)"
    "decimal_field ?d ''pre_adjust_hedge_size'' = Inr (hc_pre_adjust_hedge_size c)"
    "optional_decimal_field ?d ''funding_delta_usd'' = Inr (hc_funding_delta_usd c)"
    using assms
    by (auto simp: storable_def intro!: decimal_field_get [OF g(10)] decimal_field_get [OF g(11)]
        decimal_field_get [OF g(15)] optional_decimal_field_get [OF g(24)])
  have texts: "text_field ?d ''cycle_key'' [] = hc_cycle_key c" "text_field ?d ''symbol'' [] = hc_symbol c"
    "text_field ?d ''primary_account_address'' [] = hc_primary_account_address c"
    "text_field ?d ''hedge_account_address'' [] = hc_hedge_account_address c"
    "text_field ?d ''open_cloid'' [] = hc_open_cloid c" "text_field ?d ''close_cloid'' [] = hc_close_cloid c"
    "text_field ?d ''pending_adjust_cloid'' [] = hc_pending_adjust_cloid c"
    "text_field ?d ''last_error'' [] = hc_last_error c"
    "text_field ?d ''network'' ''mainnet'' = hc_network c"
    "text_field ?d ''hedge_account_kind'' ''subaccount'' = hc_hedge_account_kind c"
    using named by (auto intro!: text_field_get g)
  show ?thesis
    unfolding cycle_from_mapping_def ints times optional_times decimals texts status_round_trip
    using ok by (cases c) (simp add: py_int_def)
qed

text \<open>Sorting the keys of an object changes no lookup.\<close>

lemma map_of_sort_key:
  assumes "distinct (map fst d)"
  shows "map_of (sort_key fst d) = map_of d"
proof -
  have "mset (map fst (sort_key fst d)) = mset (map fst d)" by simp
  then have "distinct (map fst (sort_key fst d))" using assms mset_eq_imp_distinct_iff by blast
  then show ?thesis using assms by (simp add: map_of_inject_set)
qed

lemma cycle_from_mapping_cong:
  "map_of p = map_of q \<Longrightarrow> cycle_from_mapping p = cycle_from_mapping q"
proof -
  assume "map_of p = map_of q"
  then have get: "json_get p = json_get q" by (simp add: json_get_def fun_eq_iff)
  have fields: "text_field p = text_field q" "time_field p = time_field q"
    "optional_time_field p = optional_time_field q" "decimal_field p = decimal_field q"
    "optional_decimal_field p = optional_decimal_field q"
    by (simp_all add: text_field_def time_field_def optional_time_field_def decimal_field_def
        optional_decimal_field_def get fun_eq_iff)
  show ?thesis unfolding cycle_from_mapping_def fields get by (rule refl)
qed

lemma cycle_keys_distinct: "distinct (map fst (cycle_to_dict places c))"
  by (simp add: cycle_to_dict_def Let_def)

lemma cycle_values_flat: "map (\<lambda>e. (fst e, sort_keys (snd e))) (cycle_to_dict places c) = cycle_to_dict places c"
  by (simp add: cycle_to_dict_def Let_def optional_time_def split: option.splits)

lemma stored_cycle_round_trip:
  assumes "storable places c"
  shows "\<exists>p. sort_keys (JObj (cycle_to_dict places c)) = JObj p \<and> cycle_from_mapping p = Inr c"
  using cycle_round_trip [OF assms]
    cycle_from_mapping_cong [OF map_of_sort_key [OF cycle_keys_distinct]]
  by (simp add: cycle_values_flat)

lemma read_cycles_stored:
  assumes "list_all (\<lambda>e. hc_symbol (snd e) = fst e \<and> storable (places (snd e)) (snd e)) cs"
    "distinct (map fst (acc @ cs))"
  shows "read_cycles (map (\<lambda>e. (fst e, sort_keys (JObj (cycle_to_dict (places (snd e)) (snd e))))) cs) acc
       = Inr (acc @ cs)"
  using assms
proof (induction cs arbitrary: acc)
  case (Cons e cs)
  obtain k c where e: "e = (k, c)" by (cases e)
  have c: "hc_symbol c = k" "storable (places c) c" using Cons.prems(1) e by simp_all
  obtain p where p: "sort_keys (JObj (cycle_to_dict (places c) c)) = JObj p" "cycle_from_mapping p = Inr c"
    using stored_cycle_round_trip [OF c(2)] by blast
  have "k \<notin> set (map fst acc)" using Cons.prems(2) e by simp
  then have "dict_put k c acc = acc @ [(k, c)]" by (induction k c acc rule: dict_put.induct) auto
  then show ?case using Cons.IH [of "acc @ [(k, c)]"] Cons.prems e c(1) p by (simp del: sort_keys.simps)
qed simp

text \<open>
  C25. What is written is read back: for cycles filed under their symbols that fit their stored
  form, reading the file that was written gives the same cycle for every symbol, in the order of
  the symbols.
\<close>

theorem state_file_round_trip:
  assumes "keyed cycles" "distinct (dict_keys cycles)" "\<forall>c \<in> set (map snd cycles). storable (places c) c"
  shows "read_unlocked (Some (write_unlocked places cycles)) = Inr (sort_key fst cycles)
       \<and> dict_get (sort_key fst cycles) = dict_get cycles"
proof -
  let ?cs = "sort_key fst cycles"
  let ?f = "\<lambda>e. (fst e, sort_keys (JObj (cycle_to_dict (places (snd e)) (snd e))))"
  have "list_all (\<lambda>e. hc_symbol (snd e) = fst e \<and> storable (places (snd e)) (snd e)) ?cs"
    using assms(1,3) by (auto simp: keyed_def list_all_iff)
  moreover have dist: "distinct (map fst ?cs)"
  proof -
    have "mset (map fst ?cs) = mset (map fst cycles)" by simp
    then show ?thesis using assms(2) mset_eq_imp_distinct_iff by blast
  qed
  ultimately have read: "read_cycles (map ?f ?cs) [] = Inr ?cs" using read_cycles_stored [of places ?cs "[]"] by simp
  have "sorted (map fst (map ?f ?cs))" by (simp add: comp_def)
  then have "sort_key fst (map ?f ?cs) = map ?f ?cs" by (simp only: sort_key_id_if_sorted)
  then have written: "write_unlocked places cycles =
      JObj (sort_key fst [(''schema_version'', JInt SCHEMA_VERSION), (''cycles'', JObj (map ?f ?cs))])"
    by (simp add: write_unlocked_def comp_def)
  have get: "map_of (sort_key fst [(''schema_version'', JInt SCHEMA_VERSION), (''cycles'', JObj (map ?f ?cs))])
      = map_of [(''schema_version'', JInt SCHEMA_VERSION), (''cycles'', JObj (map ?f ?cs))]"
    by (rule map_of_sort_key) simp
  show ?thesis
    using read map_of_sort_key [OF assms(2)]
    by (simp add: written read_unlocked_def json_get_def get py_int_def del: sort_keys.simps)
qed

text \<open>
  Whatever file is read, the cycles it gives are filed under their own symbols, once each, and
  every one of them passed the check of a cycle: what the lifetime theorems ask of a state file.
\<close>

lemma read_cycles_keyed:
  assumes "read_cycles raw acc = Inr cycles" "keyed acc" "distinct (dict_keys acc)"
    "\<forall>c \<in> set (map snd acc). \<exists>r. check_cycle r = Inr c"
  shows "keyed cycles \<and> distinct (dict_keys cycles) \<and> (\<forall>c \<in> set (map snd cycles). \<exists>r. check_cycle r = Inr c)"
  using assms
proof (induction raw acc rule: read_cycles.induct)
  case (2 symbol raw rest acc)
  obtain payload c where c: "raw = JObj payload" "cycle_from_mapping payload = Inr c" "hc_symbol c = symbol"
      "read_cycles rest (dict_put symbol c acc) = Inr cycles"
    using "2.prems"(1) by (auto simp: rbind_Inr_iff split: json.splits if_splits)
  have "\<exists>r. check_cycle r = Inr c"
    using c(2) by (auto simp: cycle_from_mapping_def rbind_Inr_iff split: if_splits)
  moreover have "set (map snd (dict_put symbol c acc)) \<subseteq> insert c (set (map snd acc))"
    by (induction symbol c acc rule: dict_put.induct) auto
  ultimately have checked: "\<forall>c \<in> set (map snd (dict_put symbol c acc)). \<exists>r. check_cycle r = Inr c"
    using "2.prems"(4) by blast
  show ?case
    by (rule "2.IH" [OF c(1,2) _ c(4) keyed_put distinct_dict_put checked])
       (use c(3) "2.prems"(2,3) in auto)
qed simp

theorem read_state_is_sound:
  assumes "read_unlocked content = Inr cycles"
  shows "keyed cycles \<and> distinct (dict_keys cycles) \<and> (\<forall>c \<in> set (map snd cycles). \<exists>r. check_cycle r = Inr c)"
proof (cases content)
  case None
  then show ?thesis using assms by (simp add: read_unlocked_def keyed_def)
next
  case (Some v)
  then obtain raw where "read_cycles raw [] = Inr cycles"
    using assms by (auto simp: read_unlocked_def rbind_Inr_iff split: json.splits if_splits)
  then show ?thesis by (rule read_cycles_keyed) (simp_all add: keyed_def)
qed

lemma example_storable: "storable (\<lambda>_. 0) example_cycle"
  by code_simp

lemma state_file_round_trip_witness:
  "read_unlocked (Some (write_unlocked (\<lambda>_ _. 0) [(''xyz:SKHX'', example_cycle)]))
     = Inr [(''xyz:SKHX'', example_cycle)]"
  using state_file_round_trip [of "[(''xyz:SKHX'', example_cycle)]" "\<lambda>_ _. 0"] example_storable
  by (simp add: keyed_def example_cycle_def)

end
