(* ===== verification/Hedge_Policy.thy ===== *)
theory Hedge_Policy
  imports Hedge_Models
begin

text \<open>
  The decision function of the funding hedge (\<^verbatim>\<open>src/funding_fee_avoidance/policy.py\<close>).
  \<open>target_size\<close> computes how much to hedge, \<open>hedge_economics\<close> what the hedge earns and costs,
  \<open>choose_action\<close> is the chain of conditions that selects the action, and \<open>evaluate\<close> puts them
  together. Every decimal operation rounds as the decimal context does.
\<close>

section \<open>Size of the hedge\<close>

definition sign_of :: "rat \<Rightarrow> rat" where
  "sign_of value = (if 0 < value then 1 else if value < 0 then - 1 else 0)"

definition quantize_down :: "rat \<Rightarrow> int \<Rightarrow> rat result" where
  "quantize_down value decimals =
     (if value \<le> 0 then Inr 0 else quantize_trunc value (max 0 decimals))"

definition margin_budget :: "StrategyConfig \<Rightarrow> HedgeSnapshot \<Rightarrow> rat" where
  "margin_budget cfg s =
     max 0 (dsub (ha_withdrawable_usd (hs_hedge_account s)) (cf_min_available_margin_usd cfg))"

definition uncut_quantity :: "StrategyConfig \<Rightarrow> HedgeSnapshot \<Rightarrow> bool \<Rightarrow> rat" where
  "uncut_quantity cfg s apply_margin_cap =
     (let mark = fo_mark_price (hs_funding s);
          qty = dmul (dabs (primary_size s)) (cf_hedge_ratio cfg);
          qty = (if 0 < cf_max_hedge_notional_usd cfg
                 then min qty (ddiv (cf_max_hedge_notional_usd cfg) mark) else qty)
      in if apply_margin_cap
         then min qty (ddiv (ddiv (dmul (margin_budget cfg s) (cf_assumed_hedge_leverage cfg)) mark)
                            (cf_margin_safety_multiplier cfg))
         else qty)"

definition target_size :: "StrategyConfig \<Rightarrow> HedgeSnapshot \<Rightarrow> bool \<Rightarrow> (rat \<times> rat) result" where
  "target_size cfg s apply_margin_cap =
     rbind (quantize_down (uncut_quantity cfg s apply_margin_cap) (fo_size_decimals (hs_funding s)))
       (\<lambda>qty. Inr (dmul (dneg (sign_of (primary_size s))) qty, qty))"

section \<open>Economics of the hedge\<close>

text \<open>\<^verbatim>\<open>abs(size) * oracle_price * funding_rate * sign(size)\<close>: what a position pays.\<close>

definition funding_payment :: "FundingObservation \<Rightarrow> rat \<Rightarrow> rat" where
  "funding_payment f sz =
     dmul (dmul (dmul (dabs sz) (fo_oracle_price f)) (fo_funding_rate f)) (sign_of sz)"

record hedge_economics =
  ec_primary_debit :: rat
  ec_hedge_credit :: rat
  ec_execution_notional :: rat
  ec_round_trip_cost :: rat
  ec_net_saving :: rat
  ec_required_margin :: rat

definition round_trip_rate :: "StrategyConfig \<Rightarrow> HedgeSnapshot \<Rightarrow> rat" where
  "round_trip_rate cfg s =
     dadd (dmul 2 (dadd (dadd (ha_taker_fee_rate (hs_hedge_account s))
                              (cf_hip3_extra_fee_rate_per_order cfg))
                        (cf_slippage_rate_per_order cfg)))
          (cf_risk_buffer_rate cfg)"

definition hedge_economics_of :: "StrategyConfig \<Rightarrow> HedgeSnapshot \<Rightarrow> rat \<Rightarrow> hedge_economics" where
  "hedge_economics_of cfg s target =
     (let f = hs_funding s;
          economics_size = (if hedge_size s \<noteq> 0 then hedge_size s else target);
          credit = max 0 (dneg (funding_payment f economics_size));
          notional = dmul (dabs economics_size) (fo_mark_price f);
          cost = dmul (dmul notional (round_trip_rate cfg s)) (cf_cost_safety_multiplier cfg)
      in \<lparr>ec_primary_debit = max 0 (funding_payment f (primary_size s)),
          ec_hedge_credit = credit,
          ec_execution_notional = notional,
          ec_round_trip_cost = cost,
          ec_net_saving = dsub credit cost,
          ec_required_margin = dmul (ddiv notional (cf_assumed_hedge_leverage cfg))
                                    (cf_margin_safety_multiplier cfg)\<rparr>)"

section \<open>Choice of the action\<close>

text \<open>Action, reason, signed order delta on the hedge account, reduce-only flag.\<close>

type_synonym choice = "HedgeAction \<times> string \<times> rat \<times> bool"

definition close_choice :: "HedgeSnapshot \<Rightarrow> string \<Rightarrow> choice" where
  "close_choice s reason = (CLOSE_HEDGE, reason, dneg (hedge_size s), True)"

definition plain_choice :: "HedgeAction \<Rightarrow> string \<Rightarrow> choice" where
  "plain_choice a reason = (a, reason, 0, False)"

definition identity_mismatch :: "StrategyConfig \<Rightarrow> HedgeSnapshot \<Rightarrow> HedgeCycleState \<Rightarrow> bool" where
  "identity_mismatch cfg s c =
     (hc_symbol c \<noteq> snapshot_symbol s
      \<or> py_lower (hc_primary_account_address c) \<noteq> py_lower (primary_address s)
      \<or> py_lower (hc_hedge_account_address c) \<noteq> py_lower (hedge_address s)
      \<or> hc_network c \<noteq> cf_network cfg
      \<or> hc_hedge_account_kind c \<noteq> cf_hedge_account_kind cfg)"

text \<open>The branch for a hedge account that holds a position.\<close>

definition choose_with_hedge ::
  "StrategyConfig \<Rightarrow> HedgeSnapshot \<Rightarrow> instant \<Rightarrow> instant \<Rightarrow> HedgeCycleState option \<Rightarrow> rat \<Rightarrow>
   hedge_economics \<Rightarrow> choice" where
  "choose_with_hedge cfg s evaluated_at settlement_at active_cycle target ec =
     (case active_cycle of
        None \<Rightarrow> plain_choice ACTION_RECOVERY_REQUIRED ''untracked_hedge_position''
      | Some c \<Rightarrow>
        if primary_size s = 0 then close_choice s ''primary_position_is_flat''
        else if sign_of (hedge_size s) \<noteq> - sign_of (primary_size s)
          then close_choice s ''hedge_direction_no_longer_opposes_primary''
        else if \<not> fo_market_data_available (hs_funding s)
          then close_choice s ''market_data_unavailable_for_tracked_hedge''
        else if ec_primary_debit ec \<le> 0
          then close_choice s ''funding_direction_reversed_or_primary_no_longer_pays''
        else if dadd (dabs target) (ddiv (quantum_of (max 0 (fo_size_decimals (hs_funding s)))) 2)
                  < dabs (hedge_size s)
          then (ADJUST_HEDGE, ''hedge_exceeds_current_allowed_ratio'',
                dsub target (hedge_size s), True)
        else if ha_funding_confirmed (hs_hedge_account s) \<or> hc_funding_confirmed_at c \<noteq> None
          then close_choice s ''target_funding_record_confirmed''
        else if settlement_at + seconds (cf_funding_confirmation_timeout_seconds cfg) \<le> evaluated_at
          then close_choice s ''funding_confirmation_timeout''
        else if ha_unknown_open_orders (hs_hedge_account s)
          then close_choice s ''unknown_order_requires_tracked_hedge_shutdown''
        else plain_choice WAIT_FOR_FUNDING
               (if settlement_at \<le> evaluated_at then ''awaiting_user_funding_record''
                else ''hedge_open_before_settlement''))"

text \<open>The branch for a flat hedge account with an active cycle.\<close>

definition choose_flat_with_cycle :: "HedgeCycleState \<Rightarrow> choice" where
  "choose_flat_with_cycle c =
     (if hc_status c \<in> {CLOSE_SUBMITTED, CLOSE_PARTIAL}
        then plain_choice HOLD ''hedge_is_flat_after_close_submission''
      else if hc_status c \<in> {OPEN_SUBMITTED, OPEN_PARTIAL}
        then plain_choice HOLD ''awaiting_open_order_reconciliation''
      else if hc_status c \<in> {HEDGED, AWAITING_FUNDING}
        then plain_choice ACTION_RECOVERY_REQUIRED ''tracked_hedge_position_disappeared''
      else plain_choice HOLD ''active_cycle_has_no_hedge_position'')"

text \<open>The entry conditions: the reason not to open, or none.\<close>

definition entry_refusals ::
  "StrategyConfig \<Rightarrow> HedgeSnapshot \<Rightarrow> rat \<Rightarrow> rat \<Rightarrow> rat \<Rightarrow> hedge_economics \<Rightarrow> (bool \<times> string) list" where
  "entry_refusals cfg s seconds_to_funding data_age_seconds target_qty ec =
     (let f = hs_funding s; h = hs_hedge_account s in
     [(primary_size s = 0, ''primary_position_is_flat''),
      (\<not> fo_market_data_available f, ''market_data_unavailable''),
      (dmul (dabs (primary_size s)) (fo_oracle_price f) < cf_min_position_notional_usd cfg,
         ''primary_position_below_minimum_notional''),
      (data_age_seconds < dneg (of_int (cf_max_clock_skew_seconds cfg)),
         ''funding_data_timestamp_is_in_the_future''),
      (of_int (cf_max_funding_data_age_seconds cfg) < data_age_seconds, ''funding_data_is_stale''),
      (ec_primary_debit ec \<le> 0, ''primary_receives_or_owes_no_funding''),
      (of_int (cf_hedge_open_lead_seconds cfg) < seconds_to_funding, ''outside_hedge_open_window''),
      (seconds_to_funding \<le> of_int (cf_latest_open_cutoff_seconds cfg),
         ''too_late_to_open_hedge_safely''),
      (ha_account_kind h = ''subaccount'' \<and> cf_require_verified_subaccount cfg
         \<and> \<not> ha_ownership_verified h, ''hedge_subaccount_ownership_not_verified''),
      (\<not> ha_margin_available_verified h, ''hedge_available_margin_not_verified''),
      (CHR '':'' \<in> set (snapshot_symbol s)
         \<and> \<not> (ha_hip3_fee_formula_verified h \<or> cf_hip3_extra_fee_rate_known cfg),
         ''hip3_extra_fee_rate_not_confirmed''),
      (target_qty = 0, ''insufficient_available_margin_for_any_hedge''),
      (ec_execution_notional ec < cf_min_hedge_notional_usd cfg,
         ''hedge_order_below_minimum_notional''),
      (margin_budget cfg s < ec_required_margin ec, ''insufficient_available_margin''),
      (ec_net_saving ec < cf_min_expected_saving_usd cfg,
         ''expected_funding_does_not_cover_hedge_round_trip_cost'')])"

definition choose_action ::
  "StrategyConfig \<Rightarrow> HedgeSnapshot \<Rightarrow> instant \<Rightarrow> instant \<Rightarrow> HedgeCycleState option \<Rightarrow> rat \<Rightarrow> rat \<Rightarrow>
   rat \<Rightarrow> rat \<Rightarrow> hedge_economics \<Rightarrow> choice" where
  "choose_action cfg s evaluated_at settlement_at active_cycle seconds_to_funding
       data_age_seconds target target_qty ec =
     (if py_lower (primary_address s) = py_lower (hedge_address s)
        then plain_choice ACTION_RECOVERY_REQUIRED ''primary_and_hedge_accounts_are_equal''
      else if (case active_cycle of None \<Rightarrow> False | Some c \<Rightarrow> identity_mismatch cfg s c)
        then plain_choice ACTION_RECOVERY_REQUIRED ''active_cycle_identity_mismatch''
      else if hedge_size s \<noteq> 0
        then choose_with_hedge cfg s evaluated_at settlement_at active_cycle target ec
      else if ha_unknown_open_orders (hs_hedge_account s)
        then plain_choice ACTION_RECOVERY_REQUIRED ''unknown_order_on_hedge_account''
      else case active_cycle of
        Some c \<Rightarrow> choose_flat_with_cycle c
      | None \<Rightarrow>
        (case first_error (entry_refusals cfg s seconds_to_funding data_age_seconds target_qty ec) of
           Some reason \<Rightarrow> plain_choice HOLD reason
         | None \<Rightarrow> (OPEN_HEDGE, ''temporary_independent_account_hedge_is_cost_effective'',
                     target, False)))"

section \<open>Evaluation\<close>

text \<open>\<^verbatim>\<open>Decimal(str(delta.total_seconds()))\<close> of a difference in microseconds.\<close>

definition total_seconds :: "int \<Rightarrow> rat" where
  "total_seconds us = of_int us / 1000000"

definition cycle_key_of :: "StrategyConfig \<Rightarrow> HedgeSnapshot \<Rightarrow> instant \<Rightarrow> string" where
  "cycle_key_of cfg s settlement_at =
     join_with CHR '':''
       [cf_network cfg, py_lower (primary_address s), py_lower (hedge_address s),
        snapshot_symbol s, int_text (timestamp_ms settlement_at)]"

definition only_active :: "HedgeCycleState option \<Rightarrow> HedgeCycleState option" where
  "only_active cycle = (case cycle of None \<Rightarrow> None | Some c \<Rightarrow> if active c then Some c else None)"

definition evaluate ::
  "StrategyConfig \<Rightarrow> HedgeSnapshot \<Rightarrow> datetime \<Rightarrow> HedgeCycleState option \<Rightarrow> HedgeDecision result" where
  "evaluate cfg s now cycle =
     (case now of
        Naive t \<Rightarrow> Inl (ValueError ''now must include a timezone'')
      | Aware evaluated_at \<Rightarrow>
        (let active_cycle = only_active cycle;
             settlement_at = (case active_cycle of Some c \<Rightarrow> hc_settlement_at c
                              | None \<Rightarrow> fo_next_funding_at (hs_funding s));
             seconds_to_funding = total_seconds (settlement_at - evaluated_at);
             data_age_seconds = total_seconds (evaluated_at - fo_observed_at (hs_funding s));
             cycle_key = (case active_cycle of Some c \<Rightarrow> hc_cycle_key c
                          | None \<Rightarrow> cycle_key_of cfg s settlement_at)
         in rbind (target_size cfg s (hedge_size s = 0)) (\<lambda>tq.
              let target = fst tq; target_qty = snd tq;
                  ec = hedge_economics_of cfg s target;
                  ch = choose_action cfg s evaluated_at settlement_at active_cycle
                         seconds_to_funding data_age_seconds target target_qty ec
              in Inr \<lparr>hd_snapshot = s, hd_action = fst ch, hd_reason = fst (snd ch),
                      hd_evaluated_at = evaluated_at, hd_seconds_to_funding = seconds_to_funding,
                      hd_target_hedge_size = target, hd_current_hedge_size = hedge_size s,
                      hd_order_size_delta = fst (snd (snd ch)),
                      hd_reduce_only = snd (snd (snd ch)),
                      hd_primary_funding_debit_usd = ec_primary_debit ec,
                      hd_hedge_funding_credit_usd = ec_hedge_credit ec,
                      hd_round_trip_cost_usd = ec_round_trip_cost ec,
                      hd_net_saving_usd = ec_net_saving ec,
                      hd_required_margin_usd = ec_required_margin ec,
                      hd_cycle_key = cycle_key\<rparr>)))"

section \<open>Lemmas on sizes\<close>

lemma dround_one [simp]: "dround 1 = 1"
  using round_sig_int_powi [of 10 1 28 0] by simp

lemma dneg_sign_of: "dneg (sign_of x) = - sign_of x"
  by (simp add: dneg_def sign_of_def dec.rnd_minus dec.rnd_0)

lemma sign_of_eq_0 [simp]: "sign_of x = 0 \<longleftrightarrow> x = 0"
  by (simp add: sign_of_def)

lemma quantize_down_bounds:
  assumes "quantize_down v d = Inr w"
  shows "0 \<le> w" and "w \<le> max 0 v" and "dround w = w"
  using assms quantize_trunc_bounds [of v "max 0 d" w] quantize_trunc_repr [of v "max 0 d" w]
  by (auto simp: quantize_down_def split: if_splits)

lemma uncut_le_ratio: "uncut_quantity cfg s b \<le> dmul (dabs (primary_size s)) (cf_hedge_ratio cfg)"
  by (auto simp: uncut_quantity_def Let_def)

lemma uncut_le_notional_cap:
  "0 < cf_max_hedge_notional_usd cfg \<Longrightarrow>
     uncut_quantity cfg s b \<le> ddiv (cf_max_hedge_notional_usd cfg) (fo_mark_price (hs_funding s))"
  by (auto simp: uncut_quantity_def Let_def)

lemma dmul_ratio_le:
  assumes "0 \<le> r" and "r \<le> 1"
  shows "dmul (dabs x) r \<le> dabs x"
proof -
  have "dabs x * r \<le> dabs x * 1"
    using assms by (intro mult_left_mono) (auto simp: decimal_simps)
  then have "dround (dabs x * r) \<le> dround (dabs x)" by (intro dec.rnd_mono) simp
  then show ?thesis by (simp add: dmul_def dabs_def dec.rnd_idem)
qed

text \<open>The size the policy aims at: opposite to the primary position, exact, and never larger.\<close>

lemma target_size_Inr:
  assumes "target_size cfg s b = Inr (target, qty)"
  shows "target = - sign_of (primary_size s) * qty" and "0 \<le> qty"
    and "quantize_down (uncut_quantity cfg s b) (fo_size_decimals (hs_funding s)) = Inr qty"
proof -
  from assms have q: "quantize_down (uncut_quantity cfg s b) (fo_size_decimals (hs_funding s)) = Inr qty"
    and t: "target = dmul (dneg (sign_of (primary_size s))) qty"
    by (auto simp: target_size_def rbind_Inr_iff)
  note qb = quantize_down_bounds [OF q]
  show "quantize_down (uncut_quantity cfg s b) (fo_size_decimals (hs_funding s)) = Inr qty" by (rule q)
  show "0 \<le> qty" by (rule qb(1))
  show "target = - sign_of (primary_size s) * qty"
    unfolding t dneg_sign_of dmul_def
    using qb(3) by (simp add: sign_of_def dec.rnd_minus dec.rnd_0)
qed

lemma target_size_le_primary:
  assumes "wf_config cfg" and "target_size cfg s b = Inr (target, qty)"
  shows "qty \<le> dabs (primary_size s)"
proof -
  have "qty \<le> max 0 (uncut_quantity cfg s b)"
    using target_size_Inr(3) [OF assms(2)] by (rule quantize_down_bounds)
  also have "uncut_quantity cfg s b \<le> dabs (primary_size s)"
    using uncut_le_ratio dmul_ratio_le wf_configD(1,2) [OF assms(1)]
    by (meson less_imp_le order_trans)
  finally show ?thesis by (simp add: decimal_simps)
qed

lemma target_size_le_cap:
  assumes "0 < cf_max_hedge_notional_usd cfg" and "0 < fo_mark_price (hs_funding s)"
    and "target_size cfg s b = Inr (target, qty)"
  shows "qty \<le> ddiv (cf_max_hedge_notional_usd cfg) (fo_mark_price (hs_funding s))"
proof -
  have "qty \<le> max 0 (uncut_quantity cfg s b)"
    using target_size_Inr(3) [OF assms(3)] by (rule quantize_down_bounds)
  also have "\<dots> \<le> ddiv (cf_max_hedge_notional_usd cfg) (fo_mark_price (hs_funding s))"
    using uncut_le_notional_cap [OF assms(1)] assms(1,2) by (simp add: decimal_simps)
  finally show ?thesis .
qed

section \<open>Inversion of an evaluation\<close>

definition settlement_of :: "HedgeSnapshot \<Rightarrow> HedgeCycleState option \<Rightarrow> instant" where
  "settlement_of s cycle = (case only_active cycle of Some c \<Rightarrow> hc_settlement_at c
                            | None \<Rightarrow> fo_next_funding_at (hs_funding s))"

lemma evaluate_Inr:
  assumes "evaluate cfg s now cycle = Inr d"
  obtains t target qty where
    "now = Aware t" and "hd_evaluated_at d = t" and "hd_snapshot d = s"
    and "target_size cfg s (hedge_size s = 0) = Inr (target, qty)"
    and "hd_target_hedge_size d = target"
    and "hd_seconds_to_funding d = total_seconds (settlement_of s cycle - t)"
    and "(hd_action d, hd_reason d, hd_order_size_delta d, hd_reduce_only d) =
           choose_action cfg s t (settlement_of s cycle) (only_active cycle)
             (total_seconds (settlement_of s cycle - t))
             (total_seconds (t - fo_observed_at (hs_funding s))) target qty
             (hedge_economics_of cfg s target)"
    and "hd_hedge_funding_credit_usd d = ec_hedge_credit (hedge_economics_of cfg s target)"
    and "hd_round_trip_cost_usd d = ec_round_trip_cost (hedge_economics_of cfg s target)"
    and "hd_net_saving_usd d = ec_net_saving (hedge_economics_of cfg s target)"
    and "hd_required_margin_usd d = ec_required_margin (hedge_economics_of cfg s target)"
    and "hd_cycle_key d = (case only_active cycle of Some c \<Rightarrow> hc_cycle_key c
           | None \<Rightarrow> cycle_key_of cfg s (settlement_of s cycle))"
proof -
  obtain t where now: "now = Aware t" using assms by (cases now) (auto simp: evaluate_def)
  obtain target qty where ts: "target_size cfg s (hedge_size s = 0) = Inr (target, qty)"
    using assms by (cases "target_size cfg s (hedge_size s = 0)") (auto simp: evaluate_def now Let_def)
  note d = assms [unfolded evaluate_def now datetime.case Let_def ts rbind_simps fst_conv snd_conv
      settlement_of_def [symmetric], THEN sum.inject(2) [THEN iffD1], symmetric]
  show thesis
    by (rule that [OF now _ _ ts]) (simp_all add: d)
qed

text \<open>Which branches of the choice produce which action.\<close>

lemma choose_with_hedge_cases:
  "fst (choose_with_hedge cfg s t st ac target ec) \<in>
     {ACTION_RECOVERY_REQUIRED, CLOSE_HEDGE, ADJUST_HEDGE, WAIT_FOR_FUNDING}"
  by (simp add: choose_with_hedge_def plain_choice_def close_choice_def split: option.splits)

lemma choose_flat_with_cycle_plain:
  "choose_flat_with_cycle c = (a, r, delta, ro) \<Longrightarrow>
     a \<in> {HOLD, ACTION_RECOVERY_REQUIRED} \<and> delta = 0 \<and> \<not> ro"
  by (auto simp: choose_flat_with_cycle_def plain_choice_def split: if_splits)

lemma choose_open:
  assumes "choose_action cfg s t st ac secs age target qty ec = (OPEN_HEDGE, r, delta, ro)"
  shows "hedge_size s = 0" and "ac = None" and "\<not> ha_unknown_open_orders (hs_hedge_account s)"
    and "py_lower (primary_address s) \<noteq> py_lower (hedge_address s)"
    and "first_error (entry_refusals cfg s secs age qty ec) = None"
    and "delta = target" and "\<not> ro"
proof -
  have nh: "fst (choose_with_hedge cfg s t st ac target ec) \<noteq> OPEN_HEDGE"
    using choose_with_hedge_cases [of cfg s t st ac target ec] by auto
  have nf: "choose_flat_with_cycle c \<noteq> (OPEN_HEDGE, r, delta, ro)" for c
    using choose_flat_with_cycle_plain [of c OPEN_HEDGE r delta ro] by auto
  show "hedge_size s = 0" and "ac = None" and "\<not> ha_unknown_open_orders (hs_hedge_account s)"
    and "py_lower (primary_address s) \<noteq> py_lower (hedge_address s)"
    and "first_error (entry_refusals cfg s secs age qty ec) = None"
    and "delta = target" and "\<not> ro"
    using assms nh nf
    by (auto simp: choose_action_def plain_choice_def split: if_splits option.splits)
qed

lemma choose_exit:
  assumes "choose_action cfg s t st ac secs age target qty ec = (a, r, delta, ro)"
    and "a = CLOSE_HEDGE \<or> a = ADJUST_HEDGE"
  shows "hedge_size s \<noteq> 0" and "ac \<noteq> None"
    and "(a, r, delta, ro) = choose_with_hedge cfg s t st ac target ec"
proof -
  have nf: "choose_flat_with_cycle c \<noteq> (a, r, delta, ro)" for c
    using assms(2) choose_flat_with_cycle_plain [of c a r delta ro] by auto
  show "hedge_size s \<noteq> 0" and eq: "(a, r, delta, ro) = choose_with_hedge cfg s t st ac target ec"
    using assms nf
    by (auto simp: choose_action_def plain_choice_def split: if_splits option.splits)
  show "ac \<noteq> None"
    using eq assms(2) by (cases ac) (auto simp: choose_with_hedge_def plain_choice_def)
qed


text \<open>The adjustment branch is taken only when the hedge is strictly larger than its target.\<close>

lemma adjust_shrinks:
  assumes "dadd (dabs target) (ddiv (quantum_of n) 2) < dabs h"
  shows "\<bar>target\<bar> < \<bar>h\<bar>"
proof (rule ccontr)
  assume "\<not> \<bar>target\<bar> < \<bar>h\<bar>"
  then have "dabs h \<le> dabs target" by (simp add: dabs_def dec.rnd_mono)
  moreover have "dabs target \<le> dadd (dabs target) (ddiv (quantum_of n) 2)"
    unfolding dadd_def by (rule dec.repr_le_rnd) (simp_all add: dabs_def dec.rnd_idem decimal_simps)
  ultimately show False using assms by linarith
qed

lemma dsub_between:
  assumes "\<bar>target\<bar> < \<bar>h\<bar>" and "0 \<le> target * h"
  shows "dsub target h * h < 0" and "\<bar>dsub target h\<bar> \<le> dabs h"
proof -
  have abs: "\<bar>dround x\<bar> = dround \<bar>x\<bar>" for x
    by (cases "0 \<le> x") (auto simp: dec.rnd_ge0 dec.rnd_le0 dec.rnd_minus)
  consider "0 < h" "0 \<le> target" "target < h" | "h < 0" "target \<le> 0" "h < target"
    using assms by (cases "0 < h") (auto simp: zero_le_mult_iff abs_if split: if_splits)
  then have sg: "(target - h) * h < 0" and le: "\<bar>target - h\<bar> \<le> \<bar>h\<bar>"
    by (cases; simp add: mult_less_0_iff)+
  from sg show "dsub target h * h < 0"
    by (auto simp: dsub_def mult_less_0_iff dec.rnd_pos dec.rnd_neg)
  from le show "\<bar>dsub target h\<bar> \<le> dabs h"
    by (simp add: dsub_def dabs_def abs dec.rnd_mono)
qed

lemma dneg_between:
  assumes "h \<noteq> 0"
  shows "dneg h * h < 0" and "\<bar>dneg h\<bar> \<le> dabs h"
  using dsub_between [of 0 h] assms by (simp_all add: dneg_def dsub_def)

lemma opposing_target:
  assumes "target = - sign_of p * qty" and "0 \<le> qty" and "sign_of h = - sign_of p"
  shows "0 \<le> target * h"
  using assms by (auto simp: sign_of_def zero_le_mult_iff mult_le_0_iff split: if_splits)

section \<open>Sizes of the decided orders\<close>

lemma open_sizes:
  assumes cfg: "wf_config cfg" and ev: "evaluate cfg s now cycle = Inr d"
    and act: "hd_action d = OPEN_HEDGE"
  shows "hedge_size s = 0 \<and> hd_order_size_delta d * primary_size s < 0
         \<and> \<bar>hd_order_size_delta d\<bar> \<le> dabs (primary_size s)"
proof -
  from ev obtain t target qty where
    ts: "target_size cfg s (hedge_size s = 0) = Inr (target, qty)"
    and ch: "(hd_action d, hd_reason d, hd_order_size_delta d, hd_reduce_only d) =
           choose_action cfg s t (settlement_of s cycle) (only_active cycle)
             (total_seconds (settlement_of s cycle - t))
             (total_seconds (t - fo_observed_at (hs_funding s))) target qty
             (hedge_economics_of cfg s target)"
    by (rule evaluate_Inr)
  note op = choose_open [OF ch [unfolded act, symmetric]]
  note ts' = target_size_Inr [OF ts]
  have ok: "list_all Not (map fst (entry_refusals cfg s (total_seconds (settlement_of s cycle - t))
      (total_seconds (t - fo_observed_at (hs_funding s))) qty (hedge_economics_of cfg s target)))"
    using op(5) by (simp add: first_error_None list_all_iff)
  have "qty \<noteq> 0" and p: "primary_size s \<noteq> 0"
    using ok unfolding entry_refusals_def Let_def list.map fst_conv list.pred_inject by blast+
  then have q: "0 < qty" using ts'(2) by simp
  have delta: "hd_order_size_delta d = - sign_of (primary_size s) * qty" using op(6) ts'(1) by simp
  have "hd_order_size_delta d * primary_size s < 0"
    using q p by (auto simp: delta sign_of_def mult_less_0_iff)
  moreover have "\<bar>hd_order_size_delta d\<bar> \<le> dabs (primary_size s)"
    using target_size_le_primary [OF cfg ts] q p by (auto simp: delta sign_of_def)
  ultimately show ?thesis using op(1) by blast
qed

lemma exit_sizes:
  assumes ev: "evaluate cfg s now cycle = Inr d"
    and act: "hd_action d = CLOSE_HEDGE \<or> hd_action d = ADJUST_HEDGE"
  shows "hd_reduce_only d \<and> only_active cycle \<noteq> None \<and> hedge_size s \<noteq> 0
      \<and> hd_order_size_delta d * hedge_size s < 0 \<and> \<bar>hd_order_size_delta d\<bar> \<le> dabs (hedge_size s)"
proof -
  from ev obtain t target qty where
    ts: "target_size cfg s (hedge_size s = 0) = Inr (target, qty)"
    and ch: "(hd_action d, hd_reason d, hd_order_size_delta d, hd_reduce_only d) =
           choose_action cfg s t (settlement_of s cycle) (only_active cycle)
             (total_seconds (settlement_of s cycle - t))
             (total_seconds (t - fo_observed_at (hs_funding s))) target qty
             (hedge_economics_of cfg s target)"
    by (rule evaluate_Inr)
  note ex = choose_exit [OF ch [symmetric] act]
  from ex(2) obtain c where c: "only_active cycle = Some c" by auto
  note neg = dneg_between [OF ex(1)]
  have adj: "dsub target (hedge_size s) * hedge_size s < 0 \<and> \<bar>dsub target (hedge_size s)\<bar> \<le> dabs (hedge_size s)"
    if "dadd (dabs target) (ddiv (quantum_of n) 2) < dabs (hedge_size s)"
      and "sign_of (hedge_size s) = - sign_of (primary_size s)" for n
    using dsub_between [OF adjust_shrinks [OF that(1)]]
      opposing_target [OF target_size_Inr(1,2) [OF ts] that(2)] by blast
  show ?thesis
    using ex(1,3) neg act adj c
    by (auto simp: choose_with_hedge_def plain_choice_def close_choice_def split: if_splits)
qed

section \<open>The worked input, evaluated\<close>

lemmas example_defs = example_config_def default_config_def example_snapshot_def example_now_def
  example_settlement_def with_hedge_size_def seconds_def

lemma example_target: "target_size example_config example_snapshot True = Inr (- 100, 100)"
  by code_simp

lemma example_amounts:
  "dabs 100 = 100"
  "dabs (- 100) = 100"
  "dabs (- 150) = 150"
  "dmul 100 (425 / 2) = 21250"
  "dmul 21250 (1 / 500) = 85 / 2"
  "dmul (85 / 2) 1 = 85 / 2"
  "dmul (85 / 2) (- 1) = - (85 / 2)"
  "dneg (- (85 / 2)) = 85 / 2"
  "dmul 100 (4251 / 20) = 21255"
  "dadd (9 / 100000) 0 = 9 / 100000"
  "dadd (9 / 100000) (1 / 5000) = 29 / 100000"
  "dmul 2 (29 / 100000) = 29 / 50000"
  "dadd (29 / 50000) (1 / 5000) = 39 / 50000"
  "dmul 21255 (39 / 50000) = 165789 / 10000"
  "dmul (165789 / 10000) (5 / 4) = 165789 / 8000"
  "dsub (85 / 2) (165789 / 8000) = 174211 / 8000"
  "ddiv 21255 1 = 21255"
  "dmul 21255 (6 / 5) = 25506"
  "dneg 5 = - 5"
  "dsub 50000 10 = 49990"
  using dabs_exact [of "100" 0 "100"]
    dabs_exact [of "- 100" 0 "-100"]
    dabs_exact [of "- 150" 0 "-150"]
    dmul_exact [of "100" "425 / 2" 0 "21250"]
    dmul_exact [of "21250" "1 / 500" 1 "425"]
    dmul_exact [of "85 / 2" "1" 1 "425"]
    dmul_exact [of "85 / 2" "- 1" 1 "-425"]
    dneg_exact [of "- (85 / 2)" 1 "-425"]
    dmul_exact [of "100" "4251 / 20" 0 "21255"]
    dadd_exact [of "9 / 100000" "0" 5 "9"]
    dadd_exact [of "9 / 100000" "1 / 5000" 5 "29"]
    dmul_exact [of "2" "29 / 100000" 5 "58"]
    dadd_exact [of "29 / 50000" "1 / 5000" 5 "78"]
    dmul_exact [of "21255" "39 / 50000" 4 "165789"]
    dmul_exact [of "165789 / 10000" "5 / 4" 6 "20723625"]
    dsub_exact [of "85 / 2" "165789 / 8000" 6 "21776375"]
    ddiv_exact [of "21255" "1" 0 "21255"]
    dmul_exact [of "21255" "6 / 5" 0 "25506"]
    dneg_exact [of "5" 0 "5"]
    dsub_exact [of "50000" "10" 0 "49990"]
  by simp_all

lemma example_economics:
  "hedge_economics_of example_config example_snapshot (- 100) =
     \<lparr>ec_primary_debit = 85 / 2, ec_hedge_credit = 85 / 2, ec_execution_notional = 21255,
      ec_round_trip_cost = 165789 / 8000, ec_net_saving = 174211 / 8000,
      ec_required_margin = 25506\<rparr>"
  by (simp add: hedge_economics_of_def funding_payment_def round_trip_rate_def sign_of_def
      example_defs example_amounts Let_def)

lemma example_choice:
  "choose_action example_config example_snapshot t st None 90 5 (- 100) 100
     \<lparr>ec_primary_debit = 85 / 2, ec_hedge_credit = 85 / 2, ec_execution_notional = 21255,
      ec_round_trip_cost = 165789 / 8000, ec_net_saving = 174211 / 8000,
      ec_required_margin = 25506\<rparr>
   = (OPEN_HEDGE, ''temporary_independent_account_hedge_is_cost_effective'', - 100, False)"
proof -
  have "py_lower (primary_address example_snapshot) \<noteq> py_lower (hedge_address example_snapshot)"
    by code_simp
  moreover have "hedge_size example_snapshot = 0"
      "\<not> ha_unknown_open_orders (hs_hedge_account example_snapshot)"
    by (simp_all add: example_defs)
  moreover have "first_error (entry_refusals example_config example_snapshot 90 5 100
      \<lparr>ec_primary_debit = 85 / 2, ec_hedge_credit = 85 / 2, ec_execution_notional = 21255,
       ec_round_trip_cost = 165789 / 8000, ec_net_saving = 174211 / 8000,
       ec_required_margin = 25506\<rparr>) = None"
    by (simp add: entry_refusals_def snapshot_symbol_def margin_budget_def example_defs
        example_amounts)
  ultimately show ?thesis by (simp add: choose_action_def)
qed

lemma example_opens:
  "\<exists>d. evaluate example_config example_snapshot (Aware example_now) None = Inr d
     \<and> hd_action d = OPEN_HEDGE \<and> hd_order_size_delta d = - 100"
proof -
  have times: "fo_next_funding_at (hs_funding example_snapshot) = example_settlement"
      "total_seconds (example_settlement - example_now) = 90"
      "total_seconds (example_now - fo_observed_at (hs_funding example_snapshot)) = 5"
    by (simp_all add: example_defs total_seconds_def)
  have h: "hedge_size example_snapshot = 0" by (simp add: example_defs)
  let ?e = "evaluate example_config example_snapshot (Aware example_now) None"
  have "\<not> isl ?e"
    by (simp add: evaluate_def only_active_def h example_target Let_def)
  then have "?e = Inr (projr ?e)" by (rule sum.collapse(2) [symmetric])
  moreover have "hd_action (projr ?e) = OPEN_HEDGE"
    by (simp add: evaluate_def only_active_def h example_target example_economics times example_choice)
  moreover have "hd_order_size_delta (projr ?e) = - 100"
    by (simp add: evaluate_def only_active_def h example_target example_economics times example_choice)
  ultimately show ?thesis by metis
qed

text \<open>A tracked hedge of 150 against a primary position of 100 is cut back to its target.\<close>

lemma example_adjusts:
  "\<exists>d. evaluate example_config (with_hedge_size (- 150) example_snapshot) (Aware example_now)
          (Some example_cycle) = Inr d
     \<and> hd_action d = ADJUST_HEDGE \<and> hd_order_size_delta d = 50"
proof -
  let ?s = "with_hedge_size (- 150) example_snapshot"
  let ?e = "evaluate example_config ?s (Aware example_now) (Some example_cycle)"
  have h: "hedge_size ?s = - 150" by (simp add: example_defs)
  have ts: "target_size example_config ?s False = Inr (- 100, 100)" by code_simp
  have act: "only_active (Some example_cycle) = Some example_cycle"
    by (simp add: only_active_def active_def terminal_def example_cycle_def)
  have "\<not> isl ?e" by (simp add: evaluate_def h ts Let_def)
  then have e: "?e = Inr (projr ?e)" by (rule sum.collapse(2) [symmetric])
  have "funding_payment (hs_funding ?s) (primary_size ?s) = 85 / 2"
    by (simp add: funding_payment_def sign_of_def example_defs example_amounts)
  then have debit: "ec_primary_debit (hedge_economics_of example_config ?s (- 100)) = 85 / 2"
    by (simp add: hedge_economics_of_def Let_def)
  have "py_lower (primary_address ?s) \<noteq> py_lower (hedge_address ?s)" by code_simp
  moreover have "\<not> identity_mismatch example_config ?s example_cycle" by code_simp
  moreover have "dadd 100 (ddiv (quantum_of 3) 2) < 150" by code_simp
  moreover have "dsub (- 100) (- 150) = 50"
    using dsub_exact [of "- 100" "- 150" 0 50] by simp
  moreover have "primary_size ?s = 100" "fo_size_decimals (hs_funding ?s) = 3"
      "fo_market_data_available (hs_funding ?s)"
    by (simp_all add: example_defs)
  ultimately have "choose_action example_config ?s t st (Some example_cycle) secs age (- 100) 100
      (hedge_economics_of example_config ?s (- 100))
      = (ADJUST_HEDGE, ''hedge_exceeds_current_allowed_ratio'', 50, True)" for t st secs age
    using debit h
    by (simp add: choose_action_def choose_with_hedge_def sign_of_def example_amounts)
  then have "hd_action (projr ?e) = ADJUST_HEDGE" "hd_order_size_delta (projr ?e) = 50"
    by (simp_all add: evaluate_def act h ts Let_def)
  with e show ?thesis by metis
qed

section \<open>Properties of the policy\<close>

text \<open>
  C5. A decision to open a hedge is safe to execute. The two accounts differ, the hedge account
  is flat, has no unknown orders and no cycle in progress; the decision falls inside the window
  between the lead time and the cutoff before settlement; the order opposes the primary position
  and is not larger than it; and the expected funding credit covers the round-trip cost plus the
  configured minimum saving within the margin budget.
\<close>

theorem open_hedge_is_safe:
  assumes cfg: "wf_config cfg" and ev: "evaluate cfg s now cycle = Inr d"
    and act: "hd_action d = OPEN_HEDGE"
  shows "py_lower (primary_address s) \<noteq> py_lower (hedge_address s) \<and> hedge_size s = 0
       \<and> only_active cycle = None \<and> \<not> ha_unknown_open_orders (hs_hedge_account s)
       \<and> of_int (cf_latest_open_cutoff_seconds cfg) < hd_seconds_to_funding d
       \<and> hd_seconds_to_funding d \<le> of_int (cf_hedge_open_lead_seconds cfg)
       \<and> hd_order_size_delta d * primary_size s < 0
       \<and> \<bar>hd_order_size_delta d\<bar> \<le> dabs (primary_size s)
       \<and> hd_round_trip_cost_usd d \<le> hd_hedge_funding_credit_usd d
       \<and> cf_min_expected_saving_usd cfg \<le> hd_net_saving_usd d
       \<and> hd_required_margin_usd d \<le> margin_budget cfg s \<and> \<not> hd_reduce_only d"
proof -
  from ev obtain t target qty where
    ts: "target_size cfg s (hedge_size s = 0) = Inr (target, qty)"
    and secs: "hd_seconds_to_funding d = total_seconds (settlement_of s cycle - t)"
    and ch: "(hd_action d, hd_reason d, hd_order_size_delta d, hd_reduce_only d) =
           choose_action cfg s t (settlement_of s cycle) (only_active cycle)
             (total_seconds (settlement_of s cycle - t))
             (total_seconds (t - fo_observed_at (hs_funding s))) target qty
             (hedge_economics_of cfg s target)"
    and ec: "hd_hedge_funding_credit_usd d = ec_hedge_credit (hedge_economics_of cfg s target)"
      "hd_round_trip_cost_usd d = ec_round_trip_cost (hedge_economics_of cfg s target)"
      "hd_net_saving_usd d = ec_net_saving (hedge_economics_of cfg s target)"
      "hd_required_margin_usd d = ec_required_margin (hedge_economics_of cfg s target)"
    by (rule evaluate_Inr)
  note op = choose_open [OF ch [unfolded act, symmetric]]
  have ok: "list_all Not (map fst (entry_refusals cfg s (total_seconds (settlement_of s cycle - t))
      (total_seconds (t - fo_observed_at (hs_funding s))) qty (hedge_economics_of cfg s target)))"
    using op(5) by (simp add: first_error_None list_all_iff)
  note guards = ok [unfolded entry_refusals_def Let_def list.map fst_conv list.pred_inject not_le
      not_less not_not]
  note sizes = open_sizes [OF cfg ev act]
  have net: "cf_min_expected_saving_usd cfg \<le> hd_net_saving_usd d" using guards by (simp add: ec)
  moreover have "hd_net_saving_usd d = dsub (hd_hedge_funding_credit_usd d) (hd_round_trip_cost_usd d)"
    by (simp add: ec hedge_economics_of_def Let_def)
  ultimately have "0 \<le> dsub (hd_hedge_funding_credit_usd d) (hd_round_trip_cost_usd d)"
    using wf_configD(8) [OF cfg] by linarith
  then have "hd_round_trip_cost_usd d \<le> hd_hedge_funding_credit_usd d"
    by (simp add: dsub_def dec.rnd_ge0)
  with op sizes net guards secs ec show ?thesis by auto
qed

theorem open_hedge_is_safe_witness:
  "\<exists>d. evaluate example_config example_snapshot (Aware example_now) None = Inr d
     \<and> hd_action d = OPEN_HEDGE \<and> hd_order_size_delta d = - 100
     \<and> hd_order_size_delta d * primary_size example_snapshot < 0
     \<and> hd_round_trip_cost_usd d \<le> hd_hedge_funding_credit_usd d"
proof -
  obtain d where d: "evaluate example_config example_snapshot (Aware example_now) None = Inr d"
      "hd_action d = OPEN_HEDGE" "hd_order_size_delta d = - 100"
    using example_opens by blast
  show ?thesis using d open_hedge_is_safe [OF example_config_wf d(1,2)] by blast
qed

text \<open>
  The policy never increases exposure of an existing hedge. An order for a close or an
  adjustment is reduce-only, goes against the current hedge position and is at most as large; it
  is only issued for a tracked position. Every other decision than opening carries no order.
\<close>

theorem exit_orders_reduce:
  assumes ev: "evaluate cfg s now cycle = Inr d"
  shows "(hd_action d \<in> {CLOSE_HEDGE, ADJUST_HEDGE} \<longrightarrow>
            hd_reduce_only d \<and> only_active cycle \<noteq> None
            \<and> hd_order_size_delta d * hedge_size s < 0
            \<and> \<bar>hd_order_size_delta d\<bar> \<le> dabs (hedge_size s))
       \<and> (hd_action d \<in> {HOLD, WAIT_FOR_FUNDING, ACTION_RECOVERY_REQUIRED} \<longrightarrow>
            hd_order_size_delta d = 0 \<and> \<not> hd_reduce_only d)"
proof -
  from ev obtain t target qty where
    ts: "target_size cfg s (hedge_size s = 0) = Inr (target, qty)"
    and ch: "(hd_action d, hd_reason d, hd_order_size_delta d, hd_reduce_only d) =
           choose_action cfg s t (settlement_of s cycle) (only_active cycle)
             (total_seconds (settlement_of s cycle - t))
             (total_seconds (t - fo_observed_at (hs_funding s))) target qty
             (hedge_economics_of cfg s target)"
    by (rule evaluate_Inr)
  have plain: "hd_order_size_delta d = 0 \<and> \<not> hd_reduce_only d"
    if "hd_action d \<in> {HOLD, WAIT_FOR_FUNDING, ACTION_RECOVERY_REQUIRED}"
    using ch that
    by (auto simp: choose_action_def choose_with_hedge_def plain_choice_def close_choice_def
        dest: choose_flat_with_cycle_plain [OF sym] split: if_splits option.splits)
  show ?thesis using exit_sizes [OF ev] plain by auto
qed

theorem exit_orders_reduce_witness:
  "\<exists>d. evaluate example_config (with_hedge_size (- 150) example_snapshot) (Aware example_now)
          (Some example_cycle) = Inr d
     \<and> hd_action d = ADJUST_HEDGE \<and> hd_order_size_delta d = 50 \<and> hd_reduce_only d
     \<and> \<bar>hd_order_size_delta d\<bar> \<le> dabs (- 150)"
proof -
  obtain d where d: "evaluate example_config (with_hedge_size (- 150) example_snapshot)
        (Aware example_now) (Some example_cycle) = Inr d"
      "hd_action d = ADJUST_HEDGE" "hd_order_size_delta d = 50"
    using example_adjusts by blast
  have "hedge_size (with_hedge_size (- 150) example_snapshot) = - 150" by (simp add: example_defs)
  with d exit_orders_reduce [OF d(1)] show ?thesis by auto
qed



text \<open>
  The only ways an evaluation fails: a time without a zone, or a target whose number of lots
  needs more than 28 digits. In particular a snapshot of any ordinary size always gets a decision.
\<close>

theorem evaluate_failure:
  "evaluate cfg s now cycle = Inl e \<longleftrightarrow>
     (\<exists>t. now = Naive t \<and> e = ValueError ''now must include a timezone'')
     \<or> (\<exists>t. now = Aware t \<and> e = InvalidOperation
          \<and> 0 < uncut_quantity cfg s (hedge_size s = 0)
          \<and> 10 ^ 28 \<le> \<lfloor>uncut_quantity cfg s (hedge_size s = 0)
                        / quantum_of (max 0 (fo_size_decimals (hs_funding s)))\<rfloor>)"
proof (cases now)
  case (Naive t)
  then show ?thesis by (auto simp: evaluate_def)
next
  case (Aware t)
  have ts: "evaluate cfg s now cycle = Inl e \<longleftrightarrow> target_size cfg s (hedge_size s = 0) = Inl e"
    by (cases "target_size cfg s (hedge_size s = 0)") (auto simp: evaluate_def Aware Let_def)
  have "target_size cfg s b = Inl e \<longleftrightarrow>
      quantize_down (uncut_quantity cfg s b) (fo_size_decimals (hs_funding s)) = Inl e" for b
    by (cases "quantize_down (uncut_quantity cfg s b) (fo_size_decimals (hs_funding s))")
       (auto simp: target_size_def)
  then show ?thesis
    unfolding ts by (auto simp: Aware quantize_down_def quantize_trunc_def Let_def)
qed

end
