(* ===== verification/Hedge_Adapter.thy ===== *)
theory Hedge_Adapter
  imports Hedge_Codec Hedge_Policy
begin

text \<open>
  The reads behind every decision of the funding hedge
  (\<^verbatim>\<open>src/funding_fee_avoidance/hyperliquid_adapter.py\<close>): the parsers of the exchange's answers and
  \<open>load_snapshots\<close>, which asks for both accounts, the market, the fees, the open orders and the
  funding payments of every symbol and builds the snapshots.

  The REST reader is a parameter \<open>post\<close>: the answer to a request, or the exception it raised, given
  the requests before it. Requests and error texts are collected in the state. A stored size does
  not determine its exponent, so \<open>exponent_places\<close>, minus the exponent of a cycle's target size,
  is a parameter as well.
\<close>

section \<open>Parsers\<close>

type_synonym json_object = "(string \<times> json) list"

definition decimal_of :: "json \<Rightarrow> rat option" where
  "decimal_of v = (case decimal_literal (py_str v) of Finite x \<Rightarrow> Some x | _ \<Rightarrow> None)"

definition jfield :: "json_object \<Rightarrow> string \<Rightarrow> json" where
  "jfield d k = json_get d k JNull"

text \<open>\<^verbatim>\<open>str(d.get(k, "") or "")\<close>\<close>

definition str_field :: "json_object \<Rightarrow> string \<Rightarrow> string" where
  "str_field d k = py_str (py_or (json_get d k (JStr [])) (JStr []))"

definition items_of :: "json \<Rightarrow> json list" where
  "items_of v = (case v of JList xs \<Rightarrow> xs | _ \<Rightarrow> [])"

definition object_of :: "json \<Rightarrow> json_object option" where
  "object_of v = (case v of JObj d \<Rightarrow> Some d | _ \<Rightarrow> None)"

definition payload_with_dex :: "string \<Rightarrow> string \<Rightarrow> json_object \<Rightarrow> json" where
  "payload_with_dex kind dex extra =
     JObj ((''type'', JStr kind) # extra @ (if dex \<noteq> [] then [(''dex'', JStr dex)] else []))"

definition canonical_market_name :: "json \<Rightarrow> string \<Rightarrow> string" where
  "canonical_market_name raw dex =
     (let value = canonicalize_execution_symbol (py_str (py_or raw (JStr [])))
      in if value = [] then []
         else (case split_execution_symbol value of
           (raw_dex, asset) \<Rightarrow>
             if dex \<noteq> [] \<and> raw_dex = [] then canonicalize_execution_symbol (dex @ CHR '':'' # asset)
             else value))"

definition hour :: int where
  "hour = seconds 3600"

definition floor_hour :: "instant \<Rightarrow> instant" where
  "floor_hour t = t div hour * hour"

definition next_hour :: "instant \<Rightarrow> instant" where
  "next_hour now = floor_hour now + hour"

text \<open>The first position of the account in the symbol.\<close>

fun find_position :: "string \<Rightarrow> string \<Rightarrow> json list \<Rightarrow> json_object option" where
  "find_position dex symbol [] = None"
| "find_position dex symbol (w # ws) =
     (case object_of (case object_of w of None \<Rightarrow> JObj [] | Some d \<Rightarrow> json_get d ''position'' (JObj [])) of
        None \<Rightarrow> find_position dex symbol ws
      | Some position \<Rightarrow>
          if canonical_market_name (jfield position ''coin'') dex \<noteq> symbol
          then find_position dex symbol ws else Some position)"

definition or_zero :: "rat option \<Rightarrow> rat" where
  "or_zero x = (case x of None \<Rightarrow> 0 | Some v \<Rightarrow> v)"

definition position_from_state ::
  "json \<Rightarrow> string \<Rightarrow> string \<Rightarrow> (AccountPositionSnapshot \<times> rat) result"
where
  "position_from_state state address symbol =
     (let dex = fst (split_execution_symbol symbol);
          found = (case object_of state of
                     None \<Rightarrow> None
                   | Some d \<Rightarrow> find_position dex symbol (items_of (json_get d ''assetPositions'' (JList []))));
          sz = (case found of None \<Rightarrow> 0 | Some p \<Rightarrow> or_zero (decimal_of (jfield p ''szi'')));
          margin_used = (case found of None \<Rightarrow> 0 | Some p \<Rightarrow> max 0 (or_zero (decimal_of (jfield p ''marginUsed''))));
          withdrawable = (case object_of state of None \<Rightarrow> None | Some d \<Rightarrow> decimal_of (jfield d ''withdrawable''))
      in rbind (mk_position address symbol sz margin_used) (\<lambda>p. Inr (p, max 0 (or_zero withdrawable))))"

fun find_market :: "string \<Rightarrow> string \<Rightarrow> json list \<Rightarrow> json list \<Rightarrow> json_object \<times> json_object" where
  "find_market dex symbol (a # universe) (c # contexts) =
     (case object_of a of
        None \<Rightarrow> find_market dex symbol universe contexts
      | Some asset \<Rightarrow>
          if canonical_market_name (jfield asset ''name'') dex \<noteq> symbol
          then find_market dex symbol universe contexts
          else (asset, case object_of c of None \<Rightarrow> [] | Some d \<Rightarrow> d))"
| "find_market dex symbol universe contexts = ([], [])"

definition market_context :: "json \<Rightarrow> string \<Rightarrow> json_object \<times> json_object" where
  "market_context raw symbol =
     (case raw of
        JList (m # c # rest) \<Rightarrow>
          (let universe = (case object_of m of None \<Rightarrow> [] | Some d \<Rightarrow> items_of (json_get d ''universe'' (JList [])))
           in find_market (fst (split_execution_symbol symbol)) symbol universe (items_of c))
      | _ \<Rightarrow> ([], []))"

definition subaccount_addresses :: "json \<Rightarrow> string list" where
  "subaccount_addresses raw =
     map py_lower (filter (\<lambda>a. a \<noteq> []) (concat (map (\<lambda>item.
       case object_of item of
         None \<Rightarrow> []
       | Some d \<Rightarrow> [py_strip (py_str (py_or (jfield d ''subAccountUser'')
                      (py_or (jfield d ''subAccountAddress'') (py_or (jfield d ''user'') (JStr [])))))])
       (items_of raw))))"

definition nonempty_or :: "string \<Rightarrow> string \<Rightarrow> string" where
  "nonempty_or a b = (if a \<noteq> [] then a else b)"

definition order_status :: "json \<Rightarrow> string" where
  "order_status raw =
     (case object_of raw of
        None \<Rightarrow> ''unknown''
      | Some d \<Rightarrow>
          (let status = py_lower (py_strip (str_field d ''status''))
           in case object_of (jfield d ''order'') of
                Some order \<Rightarrow>
                  nonempty_or (py_lower (py_strip (str_field order ''status''))) (nonempty_or status ''unknown'')
              | None \<Rightarrow> nonempty_or status ''unknown''))"

text \<open>
  \<^verbatim>\<open>datetime.fromtimestamp(x, tz=UTC)\<close> of a double: whole seconds, and the fraction as microseconds
  rounded half to even. The text of the exception for a year out of range leaves out the year.
\<close>

definition datetime_from_timestamp :: "rat \<Rightarrow> instant result" where
  "datetime_from_timestamp x =
     (let t = seconds (trunc x) + round_half_even (fround ((x - of_int (trunc x)) * 1000000))
      in if datetime_range t then Inr t else Inl (ValueError ''year is out of range''))"

fun funding_record ::
  "string \<Rightarrow> string \<Rightarrow> instant \<Rightarrow> json list \<Rightarrow> (bool \<times> instant option \<times> rat option) result"
where
  "funding_record dex symbol settlement_at [] = Inr (False, None, None)"
| "funding_record dex symbol settlement_at (item # items) =
     (case object_of item of
        None \<Rightarrow> funding_record dex symbol settlement_at items
      | Some d \<Rightarrow>
          (let delta = (case object_of (jfield d ''delta'') of Some x \<Rightarrow> x | None \<Rightarrow> d)
           in case decimal_of (jfield d ''time'') of
                None \<Rightarrow> funding_record dex symbol settlement_at items
              | Some time_ms \<Rightarrow>
                  if canonical_market_name (jfield delta ''coin'') dex \<noteq> symbol
                  then funding_record dex symbol settlement_at items
                  else rbind (datetime_from_timestamp (fround (ddiv time_ms 1000))) (\<lambda>record_time.
                    if floor_hour record_time \<noteq> floor_hour settlement_at
                    then funding_record dex symbol settlement_at items
                    else Inr (True, Some record_time, decimal_of (jfield delta ''usdc'')))))"

fun perp_dex_info :: "json list \<Rightarrow> string \<Rightarrow> json_object" where
  "perp_dex_info [] dex = []"
| "perp_dex_info (item # items) dex =
     (case object_of item of
        Some d \<Rightarrow> if py_lower (str_field d ''name'') = dex then d else perp_dex_info items dex
      | None \<Rightarrow> perp_dex_info items dex)"

section \<open>Fees\<close>

definition unhashable :: "string \<Rightarrow> py_error" where
  "unhashable kind =
     TypeError (''unhashable type: '' @ [char_of (39 :: nat)] @ kind @ [char_of (39 :: nat)])"

definition growth_enabled :: "json \<Rightarrow> bool result" where
  "growth_enabled v =
     (if v = JStr ''enabled'' then Inr True
      else case v of
        JList xs \<Rightarrow> Inl (unhashable ''list'')
      | JObj d \<Rightarrow> Inl (unhashable ''dict'')
      | _ \<Rightarrow> if v = JNull \<or> v = JStr ''disabled'' then Inr False
             else Inl (ValueError (''unknown growthMode '' @ py_repr v)))"

definition hip3_formula :: "rat \<Rightarrow> rat \<Rightarrow> rat \<Rightarrow> rat \<Rightarrow> bool \<Rightarrow> bool \<Rightarrow> rat \<times> rat" where
  "hip3_formula taker_base maker_base referral deployer_scale growth aligned =
     (let hip3_scale = (if deployer_scale < 1 then dadd 1 deployer_scale else dmul 2 deployer_scale);
          deployer_share = (if deployer_scale < 1 then ddiv deployer_scale (dadd 1 deployer_scale) else 5 / 10);
          growth_scale = (if growth then 1 / 10 else 1);
          taker = dmul (dmul (dmul taker_base hip3_scale) growth_scale) (dsub 1 referral);
          taker = (if aligned
                   then dmul taker (dadd (dmul (dsub 1 deployer_share) (8 / 10)) deployer_share) else taker);
          maker = dmul maker_base growth_scale;
          maker = (if 0 < maker then dmul maker (dmul hip3_scale (dsub 1 referral))
                   else if aligned
                   then dmul maker (dadd (dmul (dsub 1 deployer_share) (15 / 10)) deployer_share) else maker)
      in (maker, taker))"

definition hip3_fee_rates ::
  "json_object \<Rightarrow> json_object \<Rightarrow> json_object \<Rightarrow> bool \<Rightarrow> (rat \<times> rat) result"
where
  "hip3_fee_rates user_fees dex_info asset_meta aligned =
     (case (decimal_of (jfield user_fees ''userCrossRate''), decimal_of (jfield user_fees ''userAddRate''),
            decimal_of (jfield user_fees ''activeReferralDiscount''),
            decimal_of (jfield dex_info ''deployerFeeScale'')) of
        (Some taker_base, Some maker_base, Some referral, Some deployer_scale) \<Rightarrow>
          if taker_base < 0 \<or> \<not> (0 \<le> referral \<and> referral \<le> 1)
          then Inl (ValueError ''invalid user fee inputs'')
          else if \<not> (0 \<le> deployer_scale \<and> deployer_scale \<le> 3)
          then Inl (ValueError ''invalid deployerFeeScale'')
          else rbind (growth_enabled (jfield asset_meta ''growthMode'')) (\<lambda>growth.
            if growth \<and> 1 < deployer_scale
            then Inl (ValueError ''growth-mode deployerFeeScale cannot exceed 1'')
            else Inr (hip3_formula taker_base maker_base referral deployer_scale growth aligned))
      | _ \<Rightarrow> Inl (ValueError ''incomplete userFees/perpDexs fee inputs''))"

section \<open>The adapter\<close>

type_synonym reader = "json list \<Rightarrow> json \<Rightarrow> json result"

record adapter =
  ad_requests :: "json list"
  ad_errors :: "string list"

text \<open>\<^verbatim>\<open>str(exc)\<close>\<close>

fun exc_text :: "py_error \<Rightarrow> string" where
  "exc_text (ValueError m) = m"
| "exc_text (RuntimeError m) = m"
| "exc_text (TypeError m) = m"
| "exc_text (KeyError k) = repr_text k"
| "exc_text AssertionError = []"
| "exc_text (OverflowError m) = m"
| "exc_text InvalidOperation = ''decimal.InvalidOperation''"
| "exc_text ValidationError = ''validation error''"

definition post_info :: "reader \<Rightarrow> json \<Rightarrow> adapter \<Rightarrow> json result \<times> adapter" where
  "post_info post payload ad =
     (post (ad_requests ad) payload, ad\<lparr>ad_requests := ad_requests ad @ [payload]\<rparr>)"

definition add_error :: "string \<Rightarrow> adapter \<Rightarrow> adapter" where
  "add_error e ad = ad\<lparr>ad_errors := ad_errors ad @ [e]\<rparr>"

definition account_addresses :: "StrategyConfig \<Rightarrow> string \<Rightarrow> (string \<times> string) result" where
  "account_addresses cfg reader_address =
     (let primary = nonempty_or (cf_primary_account_address cfg) reader_address;
          hedge = cf_hedge_account_address cfg
      in guarded
           [(primary = [], RuntimeError ''HL_ACCOUNT_ADDRESS is required''),
            (hedge = [], RuntimeError ''FUNDING_HEDGE_ACCOUNT_ADDRESS is required''),
            (py_lower primary = py_lower hedge,
             RuntimeError ''primary and hedge account addresses must differ'')]
           (primary, hedge))"

definition state_request :: "string \<Rightarrow> string \<Rightarrow> json" where
  "state_request address dex = payload_with_dex ''clearinghouseState'' dex [(''user'', JStr address)]"

definition fresh_state :: "reader \<Rightarrow> string \<Rightarrow> string \<Rightarrow> adapter \<Rightarrow> json result \<times> adapter" where
  "fresh_state post address dex = post_info post (state_request address dex)"

definition context_request :: "string \<Rightarrow> json" where
  "context_request symbol = payload_with_dex ''metaAndAssetCtxs'' (fst (split_execution_symbol symbol)) []"

definition fresh_context ::
  "reader \<Rightarrow> string \<Rightarrow> adapter \<Rightarrow> (json_object \<times> json_object) result \<times> adapter"
where
  "fresh_context post symbol ad =
     (case post_info post (context_request symbol) ad of
        (r, ad') \<Rightarrow> (rbind r (\<lambda>raw. Inr (market_context raw symbol)), ad'))"

definition subaccounts_request :: "string \<Rightarrow> json" where
  "subaccounts_request primary = JObj [(''type'', JStr ''subAccounts''), (''user'', JStr primary)]"

definition ownership_verified :: "reader \<Rightarrow> StrategyConfig \<Rightarrow> string \<Rightarrow> string \<Rightarrow> adapter \<Rightarrow> bool \<times> adapter" where
  "ownership_verified post cfg primary hedge ad =
     (if cf_hedge_account_kind cfg = ''wallet'' then (True, ad)
      else case post_info post (subaccounts_request primary) ad of
        (Inl e, ad') \<Rightarrow> (False, add_error (''subaccount ownership lookup failed: '' @ exc_text e) ad')
      | (Inr raw, ad') \<Rightarrow> (py_lower hedge \<in> set (subaccount_addresses raw), ad'))"

definition fees_request :: "string \<Rightarrow> json" where
  "fees_request hedge = JObj [(''type'', JStr ''userFees''), (''user'', JStr hedge)]"

definition user_fees :: "reader \<Rightarrow> string \<Rightarrow> adapter \<Rightarrow> json_object \<times> adapter" where
  "user_fees post hedge ad =
     (case post_info post (fees_request hedge) ad of
        (Inl e, ad') \<Rightarrow>
          ([], add_error ''hedge account fee inputs are unavailable''
                 (add_error (''hedge account fee lookup failed: '' @ exc_text e) ad'))
      | (Inr raw, ad') \<Rightarrow>
          (case object_of raw of
             Some d \<Rightarrow> (d, ad')
           | None \<Rightarrow> ([], add_error ''hedge account fee inputs are unavailable'' ad')))"

text \<open>The open orders of the symbol: their identifiers, and whether one is not the cycle's.\<close>

definition expected_cloids :: "HedgeCycleState option \<Rightarrow> string list" where
  "expected_cloids cycle =
     (case cycle of
        None \<Rightarrow> []
      | Some c \<Rightarrow> map py_lower (filter (\<lambda>v. v \<noteq> []) [hc_open_cloid c, hc_close_cloid c, hc_pending_adjust_cloid c]))"

definition symbol_orders :: "string \<Rightarrow> string \<Rightarrow> json \<Rightarrow> string list" where
  "symbol_orders dex symbol raw =
     concat (map (\<lambda>order.
       case object_of order of
         None \<Rightarrow> []
       | Some d \<Rightarrow>
           if canonical_market_name (jfield d ''coin'') dex \<noteq> symbol then []
           else [py_strip (str_field d ''cloid'')]) (items_of raw))"

definition orders_request :: "string \<Rightarrow> string \<Rightarrow> json" where
  "orders_request hedge dex = payload_with_dex ''frontendOpenOrders'' dex [(''user'', JStr hedge)]"

definition open_orders ::
  "reader \<Rightarrow> string \<Rightarrow> string \<Rightarrow> string \<Rightarrow> HedgeCycleState option \<Rightarrow> adapter \<Rightarrow> (string list \<times> bool) \<times> adapter"
where
  "open_orders post hedge symbol dex cycle ad =
     (case post_info post (orders_request hedge dex) ad of
        (Inl e, ad') \<Rightarrow>
          (([], True), add_error (symbol @ '': open-order lookup failed: '' @ exc_text e) ad')
      | (Inr raw, ad') \<Rightarrow>
          (let cloids = symbol_orders dex symbol raw
           in ((filter (\<lambda>c. c \<noteq> []) cloids,
                list_ex (\<lambda>c. c = [] \<or> py_lower c \<notin> set (expected_cloids cycle)) cloids), ad')))"

definition phase_status ::
  "reader \<Rightarrow> string \<Rightarrow> string \<Rightarrow> string \<Rightarrow> string \<Rightarrow> adapter \<Rightarrow> string \<times> adapter"
where
  "phase_status post hedge symbol phase cloid ad =
     (if cloid = [] then ([], ad)
      else case post_info post
          (JObj [(''type'', JStr ''orderStatus''), (''user'', JStr hedge), (''oid'', JStr cloid)]) ad of
        (Inl e, ad') \<Rightarrow>
          (''unknown'', add_error (symbol @ '': '' @ phase @ '' order-status lookup failed: '' @ exc_text e) ad')
      | (Inr raw, ad') \<Rightarrow> (order_status raw, ad'))"

definition adapter_orders ::
  "reader \<Rightarrow> string \<Rightarrow> string \<Rightarrow> string \<Rightarrow> HedgeCycleState option \<Rightarrow> adapter
     \<Rightarrow> (string list \<times> bool \<times> string \<times> string \<times> string) \<times> adapter"
where
  "adapter_orders post hedge symbol dex cycle ad =
     (let ((cloids, unknown), ad1) = open_orders post hedge symbol dex cycle ad
      in case cycle of
           None \<Rightarrow> ((cloids, unknown, [], [], []), ad1)
         | Some c \<Rightarrow>
             (let (open_status, ad2) = phase_status post hedge symbol ''open'' (hc_open_cloid c) ad1;
                  (close_status, ad3) = phase_status post hedge symbol ''close'' (hc_close_cloid c) ad2;
                  (adjust_status, ad4) = phase_status post hedge symbol ''adjust'' (hc_pending_adjust_cloid c) ad3
              in ((cloids, unknown, open_status, close_status, adjust_status), ad4)))"

definition funding_confirmation ::
  "reader \<Rightarrow> string \<Rightarrow> string \<Rightarrow> HedgeCycleState option \<Rightarrow> instant \<Rightarrow> adapter
     \<Rightarrow> (bool \<times> instant option \<times> rat option) \<times> adapter"
where
  "funding_confirmation post hedge symbol cycle now ad =
     (case only_active cycle of
        None \<Rightarrow> ((False, None, None), ad)
      | Some c \<Rightarrow>
          if now < hc_settlement_at c then ((False, None, None), ad)
          else
            (let (r, ad') = post_info post
               (JObj [(''type'', JStr ''userFunding''), (''user'', JStr hedge),
                      (''startTime'', JInt (timestamp_ms (hc_settlement_at c - seconds 60))),
                      (''endTime'', JInt (timestamp_ms now))]) ad
             in case rbind r (\<lambda>raw. funding_record (fst (split_execution_symbol symbol)) symbol
                                      (hc_settlement_at c) (items_of raw)) of
                  Inl e \<Rightarrow> ((False, None, None),
                            add_error (symbol @ '': userFunding lookup failed: '' @ exc_text e) ad')
                | Inr v \<Rightarrow> (v, ad')))"

section \<open>Loading the snapshots\<close>

text \<open>What is read once per load: addresses, ownership, fees, dexs and the margin mode.\<close>

record load_context =
  lc_primary :: string
  lc_hedge :: string
  lc_ownership :: bool
  lc_fees :: json_object
  lc_perp_dexs :: json
  lc_margin_verified :: bool

definition dexs_request :: json where
  "dexs_request = JObj [(''type'', JStr ''perpDexs'')]"

definition read_perp_dexs :: "reader \<Rightarrow> adapter \<Rightarrow> json \<times> adapter" where
  "read_perp_dexs post ad =
     (case post_info post dexs_request ad of
        (Inl e, ad') \<Rightarrow> (JList [], add_error (''perpDexs fee-scale lookup failed: '' @ exc_text e) ad')
      | (Inr raw, ad') \<Rightarrow> (raw, ad'))"

definition abstraction_request :: "string \<Rightarrow> json" where
  "abstraction_request hedge = JObj [(''type'', JStr ''userAbstraction''), (''user'', JStr hedge)]"

definition read_abstraction :: "reader \<Rightarrow> string \<Rightarrow> adapter \<Rightarrow> string \<times> adapter" where
  "read_abstraction post hedge ad =
     (case post_info post (abstraction_request hedge) ad of
        (Inl e, ad') \<Rightarrow> (''unknown'', add_error (''hedge account abstraction lookup failed: '' @ exc_text e) ad')
      | (Inr raw, ad') \<Rightarrow> (py_strip (py_str (py_or raw (JStr []))), ad'))"

definition load_preamble :: "reader \<Rightarrow> StrategyConfig \<Rightarrow> string \<Rightarrow> string \<Rightarrow> adapter \<Rightarrow> load_context \<times> adapter" where
  "load_preamble post cfg primary hedge ad =
     (let (owned, ad1) = ownership_verified post cfg primary hedge ad;
          (fees, ad2) = user_fees post hedge ad1;
          (perp_dexs, ad3) = read_perp_dexs post ad2;
          (abstraction, ad4) = read_abstraction post hedge ad3;
          verified = (abstraction = ''disabled'');
          ad5 = (if verified then ad4
                 else add_error (''hedge available margin is not verified for this account abstraction; ''
                                 @ ''new hedges are blocked'') ad4)
      in (\<lparr>lc_primary = primary, lc_hedge = hedge, lc_ownership = owned, lc_fees = fees,
           lc_perp_dexs = perp_dexs, lc_margin_verified = verified\<rparr>, ad5))"

text \<open>The configured symbols, then those of other active cycles.\<close>

definition load_symbols :: "StrategyConfig \<Rightarrow> cycles \<Rightarrow> string list" where
  "load_symbols cfg cs =
     foldl (\<lambda>symbols e. if active (snd e) \<and> fst e \<notin> set symbols then symbols @ [fst e] else symbols)
       (cf_symbols cfg) cs"

text \<open>
  The primary position. It may be missing for an active cycle, whose hedge is then shut down; a
  constructor that raises there raises out of the load.
\<close>

datatype 'a read = Read 'a | Skip | Escape py_error

definition read_primary ::
  "reader \<Rightarrow> load_context \<Rightarrow> string \<Rightarrow> HedgeCycleState option \<Rightarrow> adapter \<Rightarrow> AccountPositionSnapshot read \<times> adapter"
where
  "read_primary post lc symbol cycle ad =
     (let (r, ad') = fresh_state post (lc_primary lc) (fst (split_execution_symbol symbol)) ad
      in case rbind r (\<lambda>state. position_from_state state (lc_primary lc) symbol) of
           Inr (p, _) \<Rightarrow> (Read p, ad')
         | Inl e \<Rightarrow>
             if only_active cycle = None
             then (Skip, add_error (symbol @ '': primary account state unavailable: '' @ exc_text e) ad')
             else
               (let ad'' = add_error (symbol @ '': primary account state unavailable; tracked hedge will be shut down: ''
                                      @ exc_text e) ad'
                in case mk_position (lc_primary lc) symbol 0 0 of
                     Inl x \<Rightarrow> (Escape x, ad'')
                   | Inr p \<Rightarrow> (Read p, ad'')))"

record market_data =
  md_oracle :: rat
  md_mark :: rat
  md_rate :: rat
  md_size_decimals :: int
  md_available :: bool

definition market_values :: "json_object \<Rightarrow> json_object \<Rightarrow> market_data result" where
  "market_values asset context =
     (case (decimal_of (jfield context ''oraclePx''), decimal_of (jfield context ''funding'')) of
        (Some oracle, Some rate) \<Rightarrow>
          if oracle \<le> 0 then Inl (ValueError ''incomplete fresh metaAndAssetCtxs data'')
          else
            (let mark = (case decimal_of (jfield context ''markPx'') of
                           Some m \<Rightarrow> if 0 < m then m else oracle | None \<Rightarrow> oracle)
             in case py_int (json_get asset ''szDecimals'' (JInt 0)) of
                  Inr n \<Rightarrow> Inr \<lparr>md_oracle = oracle, md_mark = mark, md_rate = rate, md_size_decimals = n,
                               md_available = True\<rparr>
                | Inl (TypeError m) \<Rightarrow> Inl (ValueError ''invalid size precision'')
                | Inl (ValueError m) \<Rightarrow> Inl (ValueError ''invalid size precision'')
                | Inl e \<Rightarrow> Inl e)
      | _ \<Rightarrow> Inl (ValueError ''incomplete fresh metaAndAssetCtxs data''))"

definition read_market ::
  "reader \<Rightarrow> (HedgeCycleState \<Rightarrow> int) \<Rightarrow> string \<Rightarrow> HedgeCycleState option \<Rightarrow> adapter
     \<Rightarrow> (market_data \<times> json_object) read \<times> adapter"
where
  "read_market post exponent_places symbol cycle ad =
     (let (r, ad') = fresh_context post symbol ad;
          asset = (case r of Inl e \<Rightarrow> [] | Inr ac \<Rightarrow> fst ac)
      in case rbind r (\<lambda>ac. market_values (fst ac) (snd ac)) of
           Inr md \<Rightarrow> (Read (md, asset), ad')
         | Inl e \<Rightarrow>
             (case only_active cycle of
                None \<Rightarrow> (Skip, add_error (symbol @ '': market data unavailable; skipped: '' @ exc_text e) ad')
              | Some c \<Rightarrow>
                  (Read (\<lparr>md_oracle = 1, md_mark = 1, md_rate = 0,
                          md_size_decimals = max 0 (exponent_places c), md_available = False\<rparr>, asset),
                   add_error (symbol @ '': market data unavailable; only tracked-hedge shutdown is allowed: ''
                              @ exc_text e) ad')))"

text \<open>The taker fee, its source, and whether the HIP-3 formula gave it.\<close>

definition main_dex_fee :: "json_object \<Rightarrow> rat result" where
  "main_dex_fee fees =
     (case (decimal_of (jfield fees ''userCrossRate''), decimal_of (jfield fees ''activeReferralDiscount'')) of
        (Some base_rate, Some referral) \<Rightarrow>
          if 0 \<le> referral \<and> referral \<le> 1 then Inr (dmul base_rate (dsub 1 referral))
          else Inl (ValueError ''invalid main-dex fee inputs'')
      | _ \<Rightarrow> Inl (ValueError ''invalid main-dex fee inputs''))"

definition read_fees ::
  "StrategyConfig \<Rightarrow> load_context \<Rightarrow> string \<Rightarrow> json_object \<Rightarrow> adapter \<Rightarrow> (rat \<times> string \<times> bool) \<times> adapter"
where
  "read_fees cfg lc symbol asset ad =
     (let dex = fst (split_execution_symbol symbol);
          outcome =
            (if dex \<noteq> []
             then rbind (hip3_fee_rates (lc_fees lc) (perp_dex_info (items_of (lc_perp_dexs lc)) dex) asset False)
                    (\<lambda>mt. Inr (snd mt, ''official_hip3_fee_formula'', True))
             else rbind (main_dex_fee (lc_fees lc)) (\<lambda>fee. Inr (fee, ''hyperliquid_userFees'', False)))
      in case outcome of
           Inr v \<Rightarrow> (v, ad)
         | Inl e \<Rightarrow>
             ((cf_fallback_taker_fee_rate cfg, ''configured_fallback'', False),
              add_error (symbol @ '': dynamic fee calculation unavailable; configured ''
                         @ ''fallback used and new HIP-3 opens remain blocked: '' @ exc_text e) ad))"

definition build_snapshot ::
  "StrategyConfig \<Rightarrow> load_context \<Rightarrow> instant \<Rightarrow> string \<Rightarrow> AccountPositionSnapshot \<Rightarrow> AccountPositionSnapshot \<Rightarrow> rat
     \<Rightarrow> market_data \<Rightarrow> rat \<times> string \<times> bool \<Rightarrow> string list \<times> bool \<times> string \<times> string \<times> string
     \<Rightarrow> bool \<times> instant option \<times> rat option \<Rightarrow> HedgeSnapshot result"
where
  "build_snapshot cfg lc now symbol primary_position hedge_position withdrawable md fees orders funded =
     (case (fees, orders, funded) of
        ((taker_fee, fee_source, hip3_verified), (cloids, unknown, open_status, close_status, adjust_status),
         (confirmed, record_time, delta)) \<Rightarrow>
          rbind (check_hedge_account
            \<lparr>ha_position = hedge_position, ha_withdrawable_usd = withdrawable, ha_taker_fee_rate = taker_fee,
             ha_fee_rate_source = fee_source, ha_hip3_fee_formula_verified = hip3_verified,
             ha_account_kind = cf_hedge_account_kind cfg, ha_ownership_verified = lc_ownership lc,
             ha_margin_available_verified = lc_margin_verified lc, ha_funding_confirmed = confirmed,
             ha_funding_record_time = record_time, ha_funding_delta_usd = delta,
             ha_open_order_cloids = cloids, ha_unknown_open_orders = unknown,
             ha_open_order_status = open_status, ha_close_order_status = close_status,
             ha_adjust_order_status = adjust_status\<rparr> (map_option Aware record_time)) (\<lambda>account.
          rbind (mk_funding symbol (md_oracle md) (md_mark md) (md_rate md) (Aware now) (Aware (next_hour now))
                   (md_size_decimals md) (md_available md)) (\<lambda>funding.
          mk_snapshot primary_position account funding)))"

definition load_symbol ::
  "reader \<Rightarrow> (HedgeCycleState \<Rightarrow> int) \<Rightarrow> StrategyConfig \<Rightarrow> load_context \<Rightarrow> instant \<Rightarrow> cycles \<Rightarrow> string \<Rightarrow> adapter
     \<Rightarrow> HedgeSnapshot read \<times> adapter"
where
  "load_symbol post exponent_places cfg lc now cs raw_symbol ad =
     (let symbol = canonicalize_execution_symbol raw_symbol;
          dex = fst (split_execution_symbol symbol);
          cycle = dict_get cs symbol
      in case fresh_state post (lc_hedge lc) dex ad of
           (Inl e, ad1) \<Rightarrow>
             (Skip, add_error (symbol @ '': hedge account state unavailable; no order can be sent: '' @ exc_text e) ad1)
         | (Inr hedge_state, ad1) \<Rightarrow>
         (case read_primary post lc symbol cycle ad1 of
            (Escape x, ad2) \<Rightarrow> (Escape x, ad2)
          | (Skip, ad2) \<Rightarrow> (Skip, ad2)
          | (Read primary_position, ad2) \<Rightarrow>
         (case position_from_state hedge_state (lc_hedge lc) symbol of
            Inl x \<Rightarrow> (Escape x, ad2)
          | Inr (hedge_position, withdrawable) \<Rightarrow>
         (case read_market post exponent_places symbol cycle ad2 of
            (Escape x, ad3) \<Rightarrow> (Escape x, ad3)
          | (Skip, ad3) \<Rightarrow> (Skip, ad3)
          | (Read (md, asset), ad3) \<Rightarrow>
              (let (fees, ad4) = read_fees cfg lc symbol asset ad3;
                   (orders, ad5) = adapter_orders post (lc_hedge lc) symbol dex cycle ad4;
                   (funded, ad6) = funding_confirmation post (lc_hedge lc) symbol cycle now ad5
               in case build_snapshot cfg lc now symbol primary_position hedge_position withdrawable md fees orders funded of
                    Inr s \<Rightarrow> (Read s, ad6)
                  | Inl e \<Rightarrow> (Skip, add_error (symbol @ '': snapshot read failed: '' @ exc_text e) ad6))))))"

fun load_each ::
  "reader \<Rightarrow> (HedgeCycleState \<Rightarrow> int) \<Rightarrow> StrategyConfig \<Rightarrow> load_context \<Rightarrow> instant \<Rightarrow> cycles \<Rightarrow> string list \<Rightarrow> adapter
     \<Rightarrow> HedgeSnapshot list result \<times> adapter"
where
  "load_each post places cfg lc now cs [] ad = (Inr [], ad)"
| "load_each post places cfg lc now cs (raw_symbol # symbols) ad =
     (case load_symbol post places cfg lc now cs raw_symbol ad of
        (Escape x, ad') \<Rightarrow> (Inl x, ad')
      | (Skip, ad') \<Rightarrow> load_each post places cfg lc now cs symbols ad'
      | (Read s, ad') \<Rightarrow>
          (case load_each post places cfg lc now cs symbols ad' of
             (r, ad'') \<Rightarrow> (rbind r (\<lambda>ss. Inr (s # ss)), ad'')))"

definition load_snapshots ::
  "reader \<Rightarrow> (HedgeCycleState \<Rightarrow> int) \<Rightarrow> StrategyConfig \<Rightarrow> string \<Rightarrow> instant \<Rightarrow> cycles \<Rightarrow> json list
     \<Rightarrow> (HedgeSnapshot list \<times> string list) result \<times> json list"
where
  "load_snapshots post places cfg reader_address now cs requests =
     (case account_addresses cfg reader_address of
        Inl e \<Rightarrow> (Inl e, requests)
      | Inr (primary, hedge) \<Rightarrow>
          (let (lc, ad) = load_preamble post cfg primary hedge \<lparr>ad_requests = requests, ad_errors = []\<rparr>;
               (r, ad') = load_each post places cfg lc now cs (load_symbols cfg cs) ad
           in (rbind r (\<lambda>ss. Inr (ss, ad_errors ad')), ad_requests ad')))"

end
