(* ===== verification/Hedge_Reads.thy ===== *)
theory Hedge_Reads
  imports Hedge_Adapter
begin

text \<open>
  What the snapshots of the adapter are worth: every one is well-formed and of the configured
  accounts, no symbol is dropped without an error text, and an opening decision rests on answers
  given during the load.
\<close>

section \<open>Requests and answers of a load\<close>

text \<open>The state of the adapter only grows.\<close>

definition extends :: "adapter \<Rightarrow> adapter \<Rightarrow> bool" where
  "extends ad ad' \<longleftrightarrow>
     (\<exists>rs es. ad_requests ad' = ad_requests ad @ rs \<and> ad_errors ad' = ad_errors ad @ es)"

definition answered :: "reader \<Rightarrow> json list \<Rightarrow> json list \<Rightarrow> json \<Rightarrow> json \<Rightarrow> bool" where
  "answered post before after payload raw \<longleftrightarrow>
     (\<exists>pre rest. after = pre @ payload # rest \<and> length before \<le> length pre \<and> post pre payload = Inr raw)"

lemma extends_refl [simp]: "extends ad ad"
  by (simp add: extends_def)

lemma extends_trans: "extends a b \<Longrightarrow> extends b c \<Longrightarrow> extends a c"
  by (auto simp: extends_def)

lemma extends_add_error [simp]: "extends ad ad' \<Longrightarrow> extends ad (add_error e ad')"
  by (auto simp: extends_def add_error_def)

lemma extends_post: "extends ad (snd (post_info post payload ad))"
  by (simp add: post_info_def extends_def)

lemma post_info_extends: "post_info post payload ad = (r, ad') \<Longrightarrow> extends ad ad'"
  using extends_post [of ad post payload] by simp

lemma post_info_answered:
  "post_info post payload ad = (Inr raw, ad') \<Longrightarrow> answered post (ad_requests ad) (ad_requests ad') payload raw"
  unfolding answered_def post_info_def by (intro exI [of _ "ad_requests ad"] exI [of _ "[]"]) auto

lemma answered_mono:
  assumes "answered post (ad_requests b) (ad_requests c) payload raw" "extends a b" "extends c d"
  shows "answered post (ad_requests a) (ad_requests d) payload raw"
proof -
  obtain pre rest where "ad_requests c = pre @ payload # rest" "length (ad_requests b) \<le> length pre"
    "post pre payload = Inr raw" using assms(1) by (auto simp: answered_def)
  moreover obtain rs where "ad_requests d = ad_requests c @ rs" using assms(3) by (auto simp: extends_def)
  moreover have "length (ad_requests a) \<le> length (ad_requests b)" using assms(2) by (auto simp: extends_def)
  ultimately show ?thesis unfolding answered_def
    by (intro exI [of _ pre] exI [of _ "rest @ rs"]) auto
qed

lemma fresh_state_extends: "fresh_state post address dex ad = (r, ad') \<Longrightarrow> extends ad ad'"
  by (simp add: fresh_state_def post_info_extends)

lemma fresh_context_extends: "fresh_context post symbol ad = (r, ad') \<Longrightarrow> extends ad ad'"
  by (auto simp: fresh_context_def post_info_extends split: prod.splits)

lemma ownership_extends: "ownership_verified post cfg primary hedge ad = (b, ad') \<Longrightarrow> extends ad ad'"
  by (auto simp: ownership_verified_def post_info_extends split: prod.splits sum.splits if_splits)

lemma user_fees_extends: "user_fees post hedge ad = (d, ad') \<Longrightarrow> extends ad ad'"
  by (auto simp: user_fees_def post_info_extends split: prod.splits sum.splits option.splits)

lemma read_perp_dexs_extends: "read_perp_dexs post ad = (d, ad') \<Longrightarrow> extends ad ad'"
  by (auto simp: read_perp_dexs_def post_info_extends split: prod.splits sum.splits)

lemma read_abstraction_extends: "read_abstraction post hedge ad = (d, ad') \<Longrightarrow> extends ad ad'"
  by (auto simp: read_abstraction_def post_info_extends split: prod.splits sum.splits)

lemma open_orders_extends: "open_orders post hedge symbol dex cycle ad = (d, ad') \<Longrightarrow> extends ad ad'"
  by (auto simp: open_orders_def Let_def post_info_extends split: prod.splits sum.splits)

lemma phase_status_extends: "phase_status post hedge symbol phase cloid ad = (d, ad') \<Longrightarrow> extends ad ad'"
  by (auto simp: phase_status_def post_info_extends split: prod.splits sum.splits if_splits)

lemma adapter_orders_extends: "adapter_orders post hedge symbol dex cycle ad = (d, ad') \<Longrightarrow> extends ad ad'"
  by (auto simp: adapter_orders_def Let_def split: prod.splits option.splits
      dest!: open_orders_extends phase_status_extends intro: extends_trans)

lemma funding_confirmation_extends: "funding_confirmation post hedge symbol cycle now ad = (d, ad') \<Longrightarrow> extends ad ad'"
  by (auto simp: funding_confirmation_def Let_def post_info_extends
      split: prod.splits sum.splits option.splits if_splits)

lemma read_fees_extends: "read_fees cfg lc symbol asset ad = (d, ad') \<Longrightarrow> extends ad ad'"
  by (auto simp: read_fees_def Let_def split: sum.splits)

lemma read_primary_extends: "read_primary post lc symbol cycle ad = (d, ad') \<Longrightarrow> extends ad ad'"
  by (auto simp: read_primary_def Let_def fresh_state_extends split: prod.splits sum.splits if_splits)

lemma read_market_extends: "read_market post places symbol cycle ad = (d, ad') \<Longrightarrow> extends ad ad'"
  by (auto simp: read_market_def Let_def fresh_context_extends split: prod.splits sum.splits option.splits)

lemmas extends_rules =
  fresh_state_extends fresh_context_extends ownership_extends user_fees_extends read_perp_dexs_extends
  read_abstraction_extends adapter_orders_extends funding_confirmation_extends read_fees_extends
  read_primary_extends read_market_extends

section \<open>One symbol\<close>

definition symbol_read ::
  "reader \<Rightarrow> (HedgeCycleState \<Rightarrow> int) \<Rightarrow> StrategyConfig \<Rightarrow> load_context \<Rightarrow> instant \<Rightarrow> cycles \<Rightarrow> string \<Rightarrow> adapter \<Rightarrow> adapter
    \<Rightarrow> HedgeSnapshot \<Rightarrow> bool"
where
  "symbol_read post places cfg lc now cs symbol ad ad' s \<longleftrightarrow>
     (\<exists>hedge_state ad1 primary ad2 hedge withdrawable md asset ad3 fees ad4 orders ad5 funded.
        fresh_state post (lc_hedge lc) (fst (split_execution_symbol symbol)) ad = (Inr hedge_state, ad1)
        \<and> read_primary post lc symbol (dict_get cs symbol) ad1 = (Read primary, ad2)
        \<and> position_from_state hedge_state (lc_hedge lc) symbol = Inr (hedge, withdrawable)
        \<and> read_market post places symbol (dict_get cs symbol) ad2 = (Read (md, asset), ad3)
        \<and> read_fees cfg lc symbol asset ad3 = (fees, ad4)
        \<and> adapter_orders post (lc_hedge lc) symbol (fst (split_execution_symbol symbol)) (dict_get cs symbol) ad4
            = (orders, ad5)
        \<and> funding_confirmation post (lc_hedge lc) symbol (dict_get cs symbol) now ad5 = (funded, ad')
        \<and> build_snapshot cfg lc now symbol primary hedge withdrawable md fees orders funded = Inr s)"

lemma load_symbol_Read:
  assumes "load_symbol post places cfg lc now cs raw ad = (Read s, ad')"
  shows "symbol_read post places cfg lc now cs (canonicalize_execution_symbol raw) ad ad' s"
  using assms unfolding load_symbol_def symbol_read_def Let_def
  by (auto split: prod.splits sum.splits read.splits)

lemma load_symbol_extends: "load_symbol post places cfg lc now cs raw ad = (r, ad') \<Longrightarrow> extends ad ad'"
  unfolding load_symbol_def Let_def
  by (auto split: prod.splits sum.splits read.splits dest!: extends_rules)
    (meson extends_trans extends_add_error)+

lemma load_each_extends: "load_each post places cfg lc now cs symbols ad = (r, ad') \<Longrightarrow> extends ad ad'"
proof (induction symbols arbitrary: ad r)
  case (Cons raw symbols)
  obtain r1 ad1 where step: "load_symbol post places cfg lc now cs raw ad = (r1, ad1)" by force
  have ext: "extends ad ad1" using load_symbol_extends [OF step] .
  show ?case
  proof (cases r1)
    case (Read s)
    then show ?thesis using Cons step ext by (auto split: prod.splits intro: extends_trans)
  qed (use Cons step ext in \<open>auto intro: extends_trans\<close>)
qed simp

lemma load_each_member:
  assumes "load_each post places cfg lc now cs symbols ad = (Inr ss, ad')" "s \<in> set ss"
  shows "\<exists>raw ad1 ad2. raw \<in> set symbols \<and> extends ad ad1 \<and> extends ad2 ad'
    \<and> symbol_read post places cfg lc now cs (canonicalize_execution_symbol raw) ad1 ad2 s"
  using assms
proof (induction symbols arbitrary: ad ss)
  case (Cons raw symbols)
  obtain r ad1 where step: "load_symbol post places cfg lc now cs raw ad = (r, ad1)" by force
  note ext = load_symbol_extends [OF step]
  obtain r2 ad2 where rest: "load_each post places cfg lc now cs symbols ad1 = (r2, ad2)" by force
  show ?case
  proof (cases r)
    case Skip
    then have "load_each post places cfg lc now cs symbols ad1 = (Inr ss, ad')" using Cons.prems(1) step by simp
    from Cons.IH [OF this Cons.prems(2)] extends_trans [OF ext] show ?thesis by (meson list.set_intros(2))
  next
    case (Escape x)
    then show ?thesis using Cons.prems step by simp
  next
    case (Read s')
    then obtain ss' where ss: "load_each post places cfg lc now cs symbols ad1 = (Inr ss', ad')" "ss = s' # ss'"
      using Cons.prems(1) step rest by (auto simp: rbind_Inr_iff)
    have ext': "extends ad1 ad'" using load_each_extends [OF ss(1)] .
    show ?thesis
    proof (cases "s = s'")
      case True
      then have "symbol_read post places cfg lc now cs (canonicalize_execution_symbol raw) ad ad1 s"
        using load_symbol_Read [of post places cfg lc now cs raw ad s ad1] step Read by simp
      then show ?thesis using ext' extends_refl by (meson list.set_intros(1))
    next
      case False
      then have "s \<in> set ss'" using Cons.prems(2) ss(2) by simp
      from Cons.IH [OF ss(1) this] extends_trans [OF ext] show ?thesis by (meson list.set_intros(2))
    qed
  qed
qed simp


section \<open>What the values of a snapshot rest on\<close>

lemma fresh_state_answered:
  "fresh_state post address dex ad = (Inr raw, ad') \<Longrightarrow>
     answered post (ad_requests ad) (ad_requests ad') (state_request address dex) raw"
  by (simp add: fresh_state_def post_info_answered)

lemma read_primary_rests:
  assumes "read_primary post lc symbol cycle ad = (Read p, ad')" "ap_size p \<noteq> 0"
  shows "\<exists>raw m. answered post (ad_requests ad) (ad_requests ad')
      (state_request (lc_primary lc) (fst (split_execution_symbol symbol))) raw
    \<and> position_from_state raw (lc_primary lc) symbol = Inr (p, m)"
proof -
  obtain r ad1 where st: "fresh_state post (lc_primary lc) (fst (split_execution_symbol symbol)) ad = (r, ad1)"
    by force
  have "ap_size q = 0" if "mk_position a b 0 0 = Inr q" for a b q
    using that by (auto simp: mk_position_def rbind_Inr_iff guarded_Inr)
  then show ?thesis
    using assms st fresh_state_answered
    by (auto simp: read_primary_def Let_def rbind_Inr_iff split: sum.splits if_splits prod.splits)
      (metis rbind_Inr_iff)+
qed

lemma position_address: "position_from_state state address symbol = Inr (p, w) \<Longrightarrow> ap_account_address p = py_strip address"
  by (auto simp: position_from_state_def Let_def rbind_Inr_iff mk_position_def guarded_Inr)

lemma read_primary_address:
  "read_primary post lc symbol cycle ad = (Read p, ad') \<Longrightarrow> ap_account_address p = py_strip (lc_primary lc)"
  by (auto simp: read_primary_def Let_def rbind_Inr_iff mk_position_def guarded_Inr
      split: sum.splits if_splits prod.splits dest!: position_address)

lemma next_hour_bounds: "now < next_hour now" "next_hour now \<le> now + hour" "hour dvd next_hour now"
proof -
  have h: "hour = 3600000000" by (simp add: hour_def seconds_def)
  have "now = floor_hour now + now mod hour" by (simp add: floor_hour_def)
  moreover have "0 \<le> now mod hour" "now mod hour < hour" by (simp_all add: h)
  ultimately show "now < next_hour now" "next_hour now \<le> now + hour" unfolding next_hour_def by linarith+
  show "hour dvd next_hour now" by (simp add: next_hour_def floor_hour_def)
qed

lemma read_market_rests:
  assumes "read_market post places symbol cycle ad = (Read (md, asset), ad')" "md_available md"
  shows "\<exists>raw. answered post (ad_requests ad) (ad_requests ad') (context_request symbol) raw
    \<and> asset = fst (market_context raw symbol)
    \<and> market_values asset (snd (market_context raw symbol)) = Inr md"
proof -
  obtain r ad1 where p: "post_info post (context_request symbol) ad = (r, ad1)" by force
  show ?thesis
  proof (cases r)
    case (Inl e)
    then show ?thesis using assms p by (auto simp: read_market_def fresh_context_def split: option.splits)
  next
    case (Inr raw)
    then show ?thesis
      using assms p post_info_answered [of post "context_request symbol" ad raw ad1]
      by (auto simp: read_market_def fresh_context_def Let_def split: option.splits sum.splits)
  qed
qed

lemma adapter_orders_rests:
  assumes "adapter_orders post hedge symbol dex cycle ad = ((cloids, unknown, x), ad')" "\<not> unknown"
  shows "\<exists>raw. answered post (ad_requests ad) (ad_requests ad') (orders_request hedge dex) raw
    \<and> list_all (\<lambda>c. py_lower c \<in> set (expected_cloids cycle)) (symbol_orders dex symbol raw)"
proof -
  obtain r ad1 where p: "post_info post (orders_request hedge dex) ad = (r, ad1)" by force
  obtain q ad2 where oo: "open_orders post hedge symbol dex cycle ad = (q, ad2)" by (metis surj_pair)
  have q: "q = (cloids, unknown)" and ext: "extends ad2 ad'"
    using assms(1) oo
    by (auto simp: adapter_orders_def Let_def split: prod.splits option.splits
        dest!: phase_status_extends intro: extends_trans)
  from oo q assms(2) obtain raw where raw: "r = Inr raw" "ad2 = ad1"
    "\<not> list_ex (\<lambda>c. c = [] \<or> py_lower c \<notin> set (expected_cloids cycle)) (symbol_orders dex symbol raw)"
    by (cases r) (auto simp: open_orders_def p Let_def)
  have "answered post (ad_requests ad) (ad_requests ad') (orders_request hedge dex) raw"
    using post_info_answered [of post "orders_request hedge dex" ad raw ad1] p raw ext
      answered_mono [OF _ extends_refl ext] by simp
  then show ?thesis using raw(3) by (auto simp: list_all_iff list_ex_iff)
qed

lemma decimal_of_null: "decimal_of JNull = None"
  by code_simp

lemma hip3_fee_rates_inputs:
  assumes "hip3_fee_rates fees info asset aligned = Inr v"
  shows "fees \<noteq> []" "info \<noteq> []"
  using assms by (auto simp: hip3_fee_rates_def jfield_def json_get_def decimal_of_null split: option.splits)

lemma preamble_rests:
  assumes "load_preamble post cfg primary hedge ad = (lc, ad')"
  shows "lc_primary lc = primary" "lc_hedge lc = hedge" "extends ad ad'"
    "lc_ownership lc \<Longrightarrow> cf_hedge_account_kind cfg = ''wallet''
      \<or> (\<exists>raw. answered post (ad_requests ad) (ad_requests ad') (subaccounts_request primary) raw
           \<and> py_lower hedge \<in> set (subaccount_addresses raw))"
    "lc_margin_verified lc \<Longrightarrow> \<exists>raw. answered post (ad_requests ad) (ad_requests ad') (abstraction_request hedge) raw
       \<and> py_strip (py_str (py_or raw (JStr []))) = ''disabled''"
    "lc_fees lc \<noteq> [] \<Longrightarrow> answered post (ad_requests ad) (ad_requests ad') (fees_request hedge) (JObj (lc_fees lc))"
    "lc_perp_dexs lc \<noteq> JList [] \<Longrightarrow> answered post (ad_requests ad) (ad_requests ad') dexs_request (lc_perp_dexs lc)"
proof -
  obtain owned ad1 where o: "ownership_verified post cfg primary hedge ad = (owned, ad1)" by force
  obtain fees ad2 where f: "user_fees post hedge ad1 = (fees, ad2)" by force
  obtain dexs ad3 where d: "read_perp_dexs post ad2 = (dexs, ad3)" by force
  obtain abstraction ad4 where a: "read_abstraction post hedge ad3 = (abstraction, ad4)" by force
  note ext = ownership_extends [OF o] user_fees_extends [OF f] read_perp_dexs_extends [OF d]
    read_abstraction_extends [OF a]
  have lc: "lc = \<lparr>lc_primary = primary, lc_hedge = hedge, lc_ownership = owned, lc_fees = fees,
           lc_perp_dexs = dexs, lc_margin_verified = (abstraction = ''disabled'')\<rparr>"
    and ext4: "extends ad4 ad'"
    using assms by (auto simp: load_preamble_def Let_def o f d a split: if_splits)
  note ext3 = extends_trans [OF ext(4) ext4] and ext0 = extends_trans [OF ext(1) ext(2)]
  note ext2 = extends_trans [OF ext(3) ext3] and ext03 = extends_trans [OF ext0 ext(3)]
  note ext1 = extends_trans [OF ext(2) ext2]
  show "lc_primary lc = primary" "lc_hedge lc = hedge" by (simp_all add: lc)
  show "extends ad ad'" by (rule extends_trans [OF ext(1) ext1])
  show "cf_hedge_account_kind cfg = ''wallet''
      \<or> (\<exists>raw. answered post (ad_requests ad) (ad_requests ad') (subaccounts_request primary) raw
           \<and> py_lower hedge \<in> set (subaccount_addresses raw))" if "lc_ownership lc"
  proof (rule disjCI)
    assume "\<not> (\<exists>raw. answered post (ad_requests ad) (ad_requests ad') (subaccounts_request primary) raw
           \<and> py_lower hedge \<in> set (subaccount_addresses raw))"
    then show "cf_hedge_account_kind cfg = ''wallet''"
      using that o answered_mono [OF post_info_answered extends_refl ext1]
      by (auto simp: lc ownership_verified_def split: if_splits prod.splits sum.splits)
  qed
  show "\<exists>raw. answered post (ad_requests ad) (ad_requests ad') (abstraction_request hedge) raw
       \<and> py_strip (py_str (py_or raw (JStr []))) = ''disabled''" if "lc_margin_verified lc"
    using that a answered_mono [OF post_info_answered ext03 ext4]
    by (auto simp: lc read_abstraction_def split: prod.splits sum.splits)
  show "answered post (ad_requests ad) (ad_requests ad') (fees_request hedge) (JObj (lc_fees lc))" if "lc_fees lc \<noteq> []"
    using that f answered_mono [OF post_info_answered ext(1) ext2]
    by (auto simp: lc user_fees_def object_of_def split: prod.splits sum.splits option.splits json.splits)
  show "answered post (ad_requests ad) (ad_requests ad') dexs_request (lc_perp_dexs lc)" if "lc_perp_dexs lc \<noteq> JList []"
    using that d answered_mono [OF post_info_answered ext0 ext3]
    by (auto simp: lc read_perp_dexs_def split: prod.splits sum.splits)
qed


lemma read_fees_rests:
  assumes "read_fees cfg lc symbol asset ad = ((fee, source, True), ad')"
  shows "\<exists>maker. hip3_fee_rates (lc_fees lc) (perp_dex_info (items_of (lc_perp_dexs lc)) (fst (split_execution_symbol symbol)))
      asset False = Inr (maker, fee)
    \<and> lc_fees lc \<noteq> [] \<and> lc_perp_dexs lc \<noteq> JList []"
proof -
  let ?info = "perp_dex_info (items_of (lc_perp_dexs lc)) (fst (split_execution_symbol symbol))"
  obtain maker where hip3: "hip3_fee_rates (lc_fees lc) ?info asset False = Inr (maker, fee)"
    using assms by (auto simp: read_fees_def Let_def rbind_Inr_iff split: sum.splits if_splits)
  have "?info \<noteq> []" using hip3_fee_rates_inputs(2) [OF hip3] .
  then have "lc_perp_dexs lc \<noteq> JList []" by (auto simp: items_of_def)
  then show ?thesis using hip3 hip3_fee_rates_inputs(1) [OF hip3] by blast
qed

text \<open>The fields of a built snapshot.\<close>

lemma build_snapshot_fields:
  assumes "build_snapshot cfg lc now symbol primary hedge withdrawable md (fee, source, hip3)
      (cloids, unknown, statuses) funded = Inr s"
  shows "hs_primary_position s = primary" "ha_position (hs_hedge_account s) = hedge"
    "ha_withdrawable_usd (hs_hedge_account s) = withdrawable"
    "ha_taker_fee_rate (hs_hedge_account s) = fee" "ha_hip3_fee_formula_verified (hs_hedge_account s) = hip3"
    "ha_unknown_open_orders (hs_hedge_account s) = unknown"
    "ha_account_kind (hs_hedge_account s) = cf_hedge_account_kind cfg"
    "ha_ownership_verified (hs_hedge_account s) = lc_ownership lc"
    "ha_margin_available_verified (hs_hedge_account s) = lc_margin_verified lc"
    "canonical_symbol symbol = Inr (snapshot_symbol s)"
    "fo_oracle_price (hs_funding s) = md_oracle md" "fo_mark_price (hs_funding s) = md_mark md"
    "fo_funding_rate (hs_funding s) = md_rate md" "fo_market_data_available (hs_funding s) = md_available md"
    "fo_observed_at (hs_funding s) = now" "fo_next_funding_at (hs_funding s) = next_hour now"
    "wf_snapshot s"
proof -
  obtain os cl aj where st: "statuses = (os, cl, aj)" by (metis surj_pair)
  obtain cf rt dl where fd: "funded = (cf, rt, dl)" by (metis surj_pair)
  from assms obtain account funding where
    account: "check_hedge_account
            \<lparr>ha_position = hedge, ha_withdrawable_usd = withdrawable, ha_taker_fee_rate = fee,
             ha_fee_rate_source = source, ha_hip3_fee_formula_verified = hip3,
             ha_account_kind = cf_hedge_account_kind cfg, ha_ownership_verified = lc_ownership lc,
             ha_margin_available_verified = lc_margin_verified lc, ha_funding_confirmed = cf,
             ha_funding_record_time = rt, ha_funding_delta_usd = dl,
             ha_open_order_cloids = cloids, ha_unknown_open_orders = unknown,
             ha_open_order_status = os, ha_close_order_status = cl,
             ha_adjust_order_status = aj\<rparr> (map_option Aware rt) = Inr account"
    and funding: "mk_funding symbol (md_oracle md) (md_mark md) (md_rate md) (Aware now) (Aware (next_hour now))
                   (md_size_decimals md) (md_available md) = Inr funding"
    and snap: "mk_snapshot primary account funding = Inr s"
    by (auto simp: build_snapshot_def st fd rbind_Inr_iff)
  have s: "s = \<lparr>hs_primary_position = primary, hs_hedge_account = account, hs_funding = funding\<rparr>"
    using snap by (simp add: mk_snapshot_def split: if_splits)
  show "wf_snapshot s"
    using mk_snapshot_wf [OF snap check_hedge_account_wf [OF account] mk_funding_wf [OF funding]] .
  show "hs_primary_position s = primary" by (simp add: s)
  show "ha_position (hs_hedge_account s) = hedge"
    "ha_withdrawable_usd (hs_hedge_account s) = withdrawable"
    "ha_taker_fee_rate (hs_hedge_account s) = fee" "ha_hip3_fee_formula_verified (hs_hedge_account s) = hip3"
    "ha_unknown_open_orders (hs_hedge_account s) = unknown"
    "ha_account_kind (hs_hedge_account s) = cf_hedge_account_kind cfg"
    "ha_ownership_verified (hs_hedge_account s) = lc_ownership lc"
    "ha_margin_available_verified (hs_hedge_account s) = lc_margin_verified lc"
    using account by (auto simp: s check_hedge_account_def guarded_Inr)
  show "canonical_symbol symbol = Inr (snapshot_symbol s)"
    "fo_oracle_price (hs_funding s) = md_oracle md" "fo_mark_price (hs_funding s) = md_mark md"
    "fo_funding_rate (hs_funding s) = md_rate md" "fo_market_data_available (hs_funding s) = md_available md"
    "fo_observed_at (hs_funding s) = now" "fo_next_funding_at (hs_funding s) = next_hour now"
    using funding by (auto simp: s mk_funding_def rbind_Inr_iff guarded_Inr snapshot_symbol_def)
qed

text \<open>What the policy demands of a snapshot before it opens.\<close>

lemma opening_flags:
  assumes "evaluate cfg s t cycle = Inr d" "hd_action d = OPEN_HEDGE"
  shows "primary_size s \<noteq> 0" "fo_market_data_available (hs_funding s)"
    "\<not> ha_unknown_open_orders (hs_hedge_account s)" "ha_margin_available_verified (hs_hedge_account s)"
    "ha_account_kind (hs_hedge_account s) = ''subaccount'' \<Longrightarrow> cf_require_verified_subaccount cfg
       \<Longrightarrow> ha_ownership_verified (hs_hedge_account s)"
    "CHR '':'' \<in> set (snapshot_symbol s) \<Longrightarrow> \<not> cf_hip3_extra_fee_rate_known cfg
       \<Longrightarrow> ha_hip3_fee_formula_verified (hs_hedge_account s)"
proof -
  from assms(1) obtain u target qty where
    ch: "(hd_action d, hd_reason d, hd_order_size_delta d, hd_reduce_only d) =
           choose_action cfg s u (settlement_of s cycle) (only_active cycle)
             (total_seconds (settlement_of s cycle - u))
             (total_seconds (u - fo_observed_at (hs_funding s))) target qty
             (hedge_economics_of cfg s target)"
    by (rule evaluate_Inr)
  note op = choose_open [OF ch [unfolded assms(2), symmetric]]
  note guards = op(5) [unfolded entry_refusals_def guard_simps]
  show "primary_size s \<noteq> 0" "fo_market_data_available (hs_funding s)"
    "\<not> ha_unknown_open_orders (hs_hedge_account s)" "ha_margin_available_verified (hs_hedge_account s)"
    "ha_account_kind (hs_hedge_account s) = ''subaccount'' \<Longrightarrow> cf_require_verified_subaccount cfg
       \<Longrightarrow> ha_ownership_verified (hs_hedge_account s)"
    "CHR '':'' \<in> set (snapshot_symbol s) \<Longrightarrow> \<not> cf_hip3_extra_fee_rate_known cfg
       \<Longrightarrow> ha_hip3_fee_formula_verified (hs_hedge_account s)"
    using guards op(3) by auto
qed


lemma canonical_colon:
  assumes "canonical_symbol symbol = Inr v" "fst (split_execution_symbol symbol) \<noteq> []"
  shows "CHR '':'' \<in> set v"
  using assms by (auto simp: canonical_symbol_def canonicalize_execution_symbol_def Let_def split: if_splits)

lemma load_member:
  assumes "load_snapshots post places cfg reader_address now cs requests = (Inr (ss, errs), requests')" "s \<in> set ss"
  obtains primary hedge lc ad ad1 ad2 ad3 raw where
    "account_addresses cfg reader_address = Inr (primary, hedge)"
    "load_preamble post cfg primary hedge \<lparr>ad_requests = requests, ad_errors = []\<rparr> = (lc, ad)"
    "raw \<in> set (load_symbols cfg cs)"
    "symbol_read post places cfg lc now cs (canonicalize_execution_symbol raw) ad1 ad2 s"
    "extends ad ad1" "extends ad2 ad3" "requests' = ad_requests ad3"
proof -
  from assms(1) obtain primary hedge where ad: "account_addresses cfg reader_address = Inr (primary, hedge)"
    by (auto simp: load_snapshots_def split: sum.splits)
  obtain lc ad0 where pre: "load_preamble post cfg primary hedge \<lparr>ad_requests = requests, ad_errors = []\<rparr> = (lc, ad0)"
    by (metis surj_pair)
  obtain r ad3 where each: "load_each post places cfg lc now cs (load_symbols cfg cs) ad0 = (r, ad3)" by (metis surj_pair)
  have r: "r = Inr ss" "requests' = ad_requests ad3"
    using assms(1) by (auto simp: load_snapshots_def ad pre each rbind_Inr_iff)
  from load_each_member [OF each [unfolded r(1)] assms(2)] show thesis
    using that [OF ad pre _ _ _ _ r(2)] by blast
qed

text \<open>What a snapshot of one symbol rests on, as far as its flags claim it.\<close>

lemma symbol_read_rests:
  assumes "symbol_read post places cfg lc now cs symbol ad ad' s"
  defines "dex \<equiv> fst (split_execution_symbol symbol)"
    and "asked \<equiv> answered post (ad_requests ad) (ad_requests ad')"
  shows "extends ad ad'" "canonical_symbol symbol = Inr (snapshot_symbol s)" "wf_snapshot s"
    "fo_observed_at (hs_funding s) = now" "fo_next_funding_at (hs_funding s) = next_hour now"
    "ha_account_kind (hs_hedge_account s) = cf_hedge_account_kind cfg"
    "ha_ownership_verified (hs_hedge_account s) = lc_ownership lc"
    "ha_margin_available_verified (hs_hedge_account s) = lc_margin_verified lc"
    "primary_address s = py_strip (lc_primary lc)"
    "primary_size s \<noteq> 0 \<Longrightarrow> \<exists>raw m. asked (state_request (lc_primary lc) dex) raw
       \<and> position_from_state raw (lc_primary lc) symbol = Inr (hs_primary_position s, m)"
    "\<exists>raw. asked (state_request (lc_hedge lc) dex) raw
       \<and> position_from_state raw (lc_hedge lc) symbol
           = Inr (ha_position (hs_hedge_account s), ha_withdrawable_usd (hs_hedge_account s))"
    "\<not> ha_unknown_open_orders (hs_hedge_account s) \<Longrightarrow> \<exists>raw. asked (orders_request (lc_hedge lc) dex) raw
       \<and> list_all (\<lambda>c. py_lower c \<in> set (expected_cloids (dict_get cs symbol))) (symbol_orders dex symbol raw)"
    "fo_market_data_available (hs_funding s) \<Longrightarrow> \<exists>raw md. asked (context_request symbol) raw
       \<and> market_values (fst (market_context raw symbol)) (snd (market_context raw symbol)) = Inr md
       \<and> fo_oracle_price (hs_funding s) = md_oracle md \<and> fo_mark_price (hs_funding s) = md_mark md
       \<and> fo_funding_rate (hs_funding s) = md_rate md
       \<and> (ha_hip3_fee_formula_verified (hs_hedge_account s) \<longrightarrow> lc_fees lc \<noteq> [] \<and> lc_perp_dexs lc \<noteq> JList []
           \<and> (\<exists>maker. hip3_fee_rates (lc_fees lc) (perp_dex_info (items_of (lc_perp_dexs lc)) dex)
                (fst (market_context raw symbol)) False = Inr (maker, ha_taker_fee_rate (hs_hedge_account s))))"
proof -
  from assms(1) obtain hedge_state b1 pp b2 hp w md asset b3 fees b4 orders b5 funded where
    hs: "fresh_state post (lc_hedge lc) dex ad = (Inr hedge_state, b1)"
    and pr: "read_primary post lc symbol (dict_get cs symbol) b1 = (Read pp, b2)"
    and hp: "position_from_state hedge_state (lc_hedge lc) symbol = Inr (hp, w)"
    and mk: "read_market post places symbol (dict_get cs symbol) b2 = (Read (md, asset), b3)"
    and fe: "read_fees cfg lc symbol asset b3 = (fees, b4)"
    and od: "adapter_orders post (lc_hedge lc) symbol dex (dict_get cs symbol) b4 = (orders, b5)"
    and fu: "funding_confirmation post (lc_hedge lc) symbol (dict_get cs symbol) now b5 = (funded, ad')"
    and bs: "build_snapshot cfg lc now symbol pp hp w md fees orders funded = Inr s"
    unfolding symbol_read_def dex_def by metis
  obtain fee source hip3 where fees: "fees = (fee, source, hip3)" by (metis surj_pair)
  obtain cloids unknown statuses where orders: "orders = (cloids, unknown, statuses)" by (metis surj_pair)
  note f = build_snapshot_fields [OF bs [unfolded fees orders]]
  note e = extends_rules
  have b: "extends ad b1" "extends b1 b2" "extends b2 b3" "extends b3 b4" "extends b4 b5" "extends b5 ad'"
    using e(1) [OF hs] e(10) [OF pr] e(11) [OF mk] e(9) [OF fe] e(7) [OF od] e(8) [OF fu] by blast+
  note to3 = extends_trans [OF b(4) extends_trans [OF b(5) b(6)]]
  note to2 = extends_trans [OF b(3) to3] note to1 = extends_trans [OF b(2) to2]
  note up2 = extends_trans [OF b(1) b(2)] note up4 = extends_trans [OF up2 extends_trans [OF b(3) b(4)]]
  show "extends ad ad'" using extends_trans [OF b(1) to1] .
  show "canonical_symbol symbol = Inr (snapshot_symbol s)" "wf_snapshot s"
    "fo_observed_at (hs_funding s) = now" "fo_next_funding_at (hs_funding s) = next_hour now"
    "ha_account_kind (hs_hedge_account s) = cf_hedge_account_kind cfg"
    "ha_ownership_verified (hs_hedge_account s) = lc_ownership lc"
    "ha_margin_available_verified (hs_hedge_account s) = lc_margin_verified lc"
    using f by blast+
  show "primary_address s = py_strip (lc_primary lc)" using read_primary_address [OF pr] f(1) by simp
  show "\<exists>raw m. asked (state_request (lc_primary lc) dex) raw
       \<and> position_from_state raw (lc_primary lc) symbol = Inr (hs_primary_position s, m)" if "primary_size s \<noteq> 0"
    using read_primary_rests [OF pr] that f(1) answered_mono [OF _ b(1) to2] unfolding asked_def dex_def by blast
  show "\<exists>raw. asked (state_request (lc_hedge lc) dex) raw
       \<and> position_from_state raw (lc_hedge lc) symbol
           = Inr (ha_position (hs_hedge_account s), ha_withdrawable_usd (hs_hedge_account s))"
    using answered_mono [OF fresh_state_answered [OF hs] extends_refl to1] hp f(2,3) unfolding asked_def by blast
  show "\<exists>raw. asked (orders_request (lc_hedge lc) dex) raw
       \<and> list_all (\<lambda>c. py_lower c \<in> set (expected_cloids (dict_get cs symbol))) (symbol_orders dex symbol raw)"
    if "\<not> ha_unknown_open_orders (hs_hedge_account s)"
    using adapter_orders_rests [OF od [unfolded orders]] that f(6) answered_mono [OF _ up4 b(6)]
    unfolding asked_def by blast
  have fee_rests: "ha_hip3_fee_formula_verified (hs_hedge_account s) \<longrightarrow> lc_fees lc \<noteq> [] \<and> lc_perp_dexs lc \<noteq> JList []
      \<and> (\<exists>maker. hip3_fee_rates (lc_fees lc) (perp_dex_info (items_of (lc_perp_dexs lc)) dex) asset False
           = Inr (maker, ha_taker_fee_rate (hs_hedge_account s)))"
    using read_fees_rests [of cfg lc symbol asset b3 fee source b4] fe fees f(4,5) by (auto simp: dex_def)
  assume "fo_market_data_available (hs_funding s)"
  then obtain raw where raw: "answered post (ad_requests b2) (ad_requests b3) (context_request symbol) raw"
    "asset = fst (market_context raw symbol)" "market_values asset (snd (market_context raw symbol)) = Inr md"
    using read_market_rests [OF mk] f(14) by auto
  show "\<exists>raw md. asked (context_request symbol) raw
       \<and> market_values (fst (market_context raw symbol)) (snd (market_context raw symbol)) = Inr md
       \<and> fo_oracle_price (hs_funding s) = md_oracle md \<and> fo_mark_price (hs_funding s) = md_mark md
       \<and> fo_funding_rate (hs_funding s) = md_rate md
       \<and> (ha_hip3_fee_formula_verified (hs_hedge_account s) \<longrightarrow> lc_fees lc \<noteq> [] \<and> lc_perp_dexs lc \<noteq> JList []
           \<and> (\<exists>maker. hip3_fee_rates (lc_fees lc) (perp_dex_info (items_of (lc_perp_dexs lc)) dex)
                (fst (market_context raw symbol)) False = Inr (maker, ha_taker_fee_rate (hs_hedge_account s))))"
    using answered_mono [OF raw(1) up2 to3] raw(2,3) f(11,12,13) fee_rests unfolding asked_def
    by (intro exI [of _ raw] exI [of _ md]) simp
qed


text \<open>
  Every snapshot is sound. Each snapshot of a load passes its checks, is of the two configured
  accounts, which differ, of a configured symbol or one of an active cycle, and carries the time
  of the load and the next full hour, at most an hour ahead, as its settlement.
\<close>

theorem snapshots_are_sound:
  assumes "load_snapshots post places cfg reader_address now cs requests = (Inr (ss, errs), requests')" "s \<in> set ss"
  shows "\<exists>primary hedge symbol. account_addresses cfg reader_address = Inr (primary, hedge)
    \<and> primary_address s = py_strip primary \<and> hedge_address s = py_strip hedge \<and> py_lower primary \<noteq> py_lower hedge
    \<and> symbol \<in> set (load_symbols cfg cs)
    \<and> canonical_symbol (canonicalize_execution_symbol symbol) = Inr (snapshot_symbol s)
    \<and> wf_snapshot s \<and> fo_observed_at (hs_funding s) = now
    \<and> now < fo_next_funding_at (hs_funding s) \<and> fo_next_funding_at (hs_funding s) \<le> now + hour
    \<and> hour dvd fo_next_funding_at (hs_funding s)"
  using assms
proof (rule load_member)
  fix primary hedge lc ad ad1 ad2 ad3 raw
  assume addr: "account_addresses cfg reader_address = Inr (primary, hedge)"
    and pre: "load_preamble post cfg primary hedge \<lparr>ad_requests = requests, ad_errors = []\<rparr> = (lc, ad)"
    and raw: "raw \<in> set (load_symbols cfg cs)"
    and read: "symbol_read post places cfg lc now cs (canonicalize_execution_symbol raw) ad1 ad2 s"
  note r = symbol_read_rests [OF read] and p = preamble_rests [OF pre]
  have "hedge_address s = py_strip hedge" using r(11) position_address p(2) by metis
  moreover have "py_lower primary \<noteq> py_lower hedge"
    using addr by (auto simp: account_addresses_def Let_def guarded_Inr)
  ultimately show ?thesis using addr raw r(2-5,9) p(1) next_hour_bounds [of now] by auto
qed


text \<open>A symbol without a snapshot has an error text that starts with it.\<close>

definition reported :: "string \<Rightarrow> string list \<Rightarrow> bool" where
  "reported symbol errors \<longleftrightarrow> (\<exists>rest. symbol @ '': '' @ rest \<in> set errors)"

lemma reported_add_error [simp]: "reported symbol (ad_errors (add_error (symbol @ CHR '':'' # CHR '' '' # rest) ad))"
  unfolding reported_def add_error_def by (intro exI [of _ rest]) simp

lemma reported_extends: "reported symbol (ad_errors ad) \<Longrightarrow> extends ad ad' \<Longrightarrow> reported symbol (ad_errors ad')"
  by (auto simp: reported_def extends_def)

lemma read_primary_skips: "read_primary post lc symbol cycle ad = (Skip, ad') \<Longrightarrow> reported symbol (ad_errors ad')"
  by (auto simp: read_primary_def Let_def split: sum.splits if_splits prod.splits)

lemma read_market_skips: "read_market post places symbol cycle ad = (Skip, ad') \<Longrightarrow> reported symbol (ad_errors ad')"
  by (auto simp: read_market_def Let_def split: sum.splits option.splits prod.splits)

lemma load_symbol_skips:
  "load_symbol post places cfg lc now cs raw ad = (Skip, ad') \<Longrightarrow>
     reported (canonicalize_execution_symbol raw) (ad_errors ad')"
  by (auto simp: load_symbol_def Let_def dest: read_primary_skips read_market_skips
      split: sum.splits read.splits prod.splits)

lemma load_each_accounts:
  assumes "load_each post places cfg lc now cs symbols ad = (Inr ss, ad')" "raw \<in> set symbols"
  shows "(\<exists>s \<in> set ss. canonical_symbol (canonicalize_execution_symbol raw) = Inr (snapshot_symbol s))
    \<or> reported (canonicalize_execution_symbol raw) (ad_errors ad')"
  using assms
proof (induction symbols arbitrary: ad ss)
  case (Cons raw' symbols)
  obtain r ad1 where step: "load_symbol post places cfg lc now cs raw' ad = (r, ad1)" by force
  show ?case
  proof (cases r)
    case Skip
    then have rest: "load_each post places cfg lc now cs symbols ad1 = (Inr ss, ad')" using Cons.prems(1) step by simp
    then show ?thesis
      using Cons.IH [OF rest] Cons.prems(2) load_symbol_skips [OF step [unfolded Skip]]
        reported_extends load_each_extends [OF rest] by auto
  next
    case (Escape x)
    then show ?thesis using Cons.prems step by simp
  next
    case (Read s)
    obtain r2 ad2 where "load_each post places cfg lc now cs symbols ad1 = (r2, ad2)" by force
    then obtain ss' where rest: "load_each post places cfg lc now cs symbols ad1 = (Inr ss', ad')" "ss = s # ss'"
      using Cons.prems(1) step Read by (auto simp: rbind_Inr_iff)
    have "canonical_symbol (canonicalize_execution_symbol raw') = Inr (snapshot_symbol s)"
      using symbol_read_rests(2) [OF load_symbol_Read [OF step [unfolded Read]]] .
    then show ?thesis using Cons.IH [OF rest(1)] Cons.prems(2) rest(2) by auto
  qed
qed simp

text \<open>
  C23. No symbol is dropped silently. Whatever answers fail, a load that returns has, for every
  configured symbol and every symbol of an active cycle, a snapshot or an error text for it.
\<close>

theorem every_symbol_is_accounted_for:
  assumes "load_snapshots post places cfg reader_address now cs requests = (Inr (ss, errs), requests')"
    and "raw \<in> set (cf_symbols cfg) \<or> (\<exists>c. (raw, c) \<in> set cs \<and> active c)"
  shows "(\<exists>s \<in> set ss. canonical_symbol (canonicalize_execution_symbol raw) = Inr (snapshot_symbol s))
    \<or> reported (canonicalize_execution_symbol raw) errs"
proof -
  from assms(1) obtain primary hedge where ad: "account_addresses cfg reader_address = Inr (primary, hedge)"
    by (auto simp: load_snapshots_def split: sum.splits)
  obtain lc ad0 where pre: "load_preamble post cfg primary hedge \<lparr>ad_requests = requests, ad_errors = []\<rparr> = (lc, ad0)"
    by (metis surj_pair)
  obtain r ad3 where each: "load_each post places cfg lc now cs (load_symbols cfg cs) ad0 = (r, ad3)" by (metis surj_pair)
  have r: "r = Inr ss" "errs = ad_errors ad3"
    using assms(1) by (auto simp: load_snapshots_def ad pre each rbind_Inr_iff)
  have fold: "set init \<subseteq> set (foldl (\<lambda>symbols e. if active (snd e) \<and> fst e \<notin> set symbols then symbols @ [fst e] else symbols) init es)
    \<and> ((k, c) \<in> set es \<longrightarrow> active c \<longrightarrow>
        k \<in> set (foldl (\<lambda>symbols e. if active (snd e) \<and> fst e \<notin> set symbols then symbols @ [fst e] else symbols) init es))"
    for init es k c
    by (induction es arbitrary: init) (auto, force+)
  have "raw \<in> set (load_symbols cfg cs)"
    using assms(2) fold [of "cf_symbols cfg" cs] unfolding load_symbols_def by blast
  from load_each_accounts [OF each [unfolded r(1)] this] show ?thesis by (simp add: r(2))
qed

text \<open>
  A position whose size cannot be read, or a state that is no object, counts as flat; the parser
  does not tell it apart from an account without the position.
\<close>

lemma unreadable_position_is_flat:
  assumes "position_from_state state address symbol = Inr (p, w)"
    and "case object_of state of None \<Rightarrow> True
      | Some d \<Rightarrow> (case find_position (fst (split_execution_symbol symbol)) symbol
            (items_of (json_get d ''assetPositions'' (JList []))) of
          None \<Rightarrow> True | Some q \<Rightarrow> decimal_of (jfield q ''szi'') = None)"
  shows "ap_size p = 0"
  using assms
  by (auto simp: position_from_state_def Let_def rbind_Inr_iff mk_position_def guarded_Inr or_zero_def split: option.splits)

section \<open>A worked load\<close>

text \<open>An exchange whose answers are those of the worked snapshot.\<close>

definition example_primary :: string where
  "example_primary = ''0x1111111111111111111111111111111111111111''"

definition example_hedge :: string where
  "example_hedge = ''0x2222222222222222222222222222222222222222''"

definition example_answers :: "(json \<times> json) list" where
  "example_answers =
     [(subaccounts_request example_primary, JList [JObj [(''subAccountUser'', JStr example_hedge)]]),
      (fees_request example_hedge,
       JObj [(''userCrossRate'', JStr ''0.00045''), (''userAddRate'', JStr ''0.00015''),
             (''activeReferralDiscount'', JStr ''0'')]),
      (dexs_request, JList [JNull, JObj [(''name'', JStr ''xyz''), (''deployerFeeScale'', JStr ''1.0'')]]),
      (abstraction_request example_hedge, JStr ''disabled''),
      (state_request example_hedge ''xyz'', JObj [(''assetPositions'', JList []), (''withdrawable'', JStr ''50000'')]),
      (state_request example_primary ''xyz'',
       JObj [(''assetPositions'', JList [JObj [(''position'', JObj [(''coin'', JStr ''xyz:SKHX''),
         (''szi'', JStr ''100''), (''marginUsed'', JStr ''2200'')])]])]),
      (context_request ''xyz:SKHX'',
       JList [JObj [(''universe'', JList [JObj [(''name'', JStr ''xyz:SKHX''), (''szDecimals'', JInt 3),
                (''growthMode'', JStr ''enabled'')]])],
              JList [JObj [(''oraclePx'', JStr ''212.5''), (''markPx'', JStr ''212.55''), (''funding'', JStr ''0.002'')]]]),
      (orders_request example_hedge ''xyz'', JList [])]"

definition example_reader :: reader where
  "example_reader before payload =
     (case dict_get example_answers payload of None \<Rightarrow> Inl (RuntimeError ''timeout'') | Some v \<Rightarrow> Inr v)"

lemma example_addresses: "account_addresses example_config [] = Inr (example_primary, example_hedge)"
  by code_simp

lemma example_preamble:
  "load_preamble example_reader example_config example_primary example_hedge \<lparr>ad_requests = [], ad_errors = []\<rparr> =
    (\<lparr>lc_primary = example_primary, lc_hedge = example_hedge, lc_ownership = True,
      lc_fees = [(''userCrossRate'', JStr ''0.00045''), (''userAddRate'', JStr ''0.00015''),
             (''activeReferralDiscount'', JStr ''0'')],
      lc_perp_dexs = JList [JNull, JObj [(''name'', JStr ''xyz''), (''deployerFeeScale'', JStr ''1.0'')]],
      lc_margin_verified = True\<rparr>,
     \<lparr>ad_requests = [subaccounts_request example_primary, fees_request example_hedge, dexs_request,
        abstraction_request example_hedge], ad_errors = []\<rparr>)"
  by code_simp

definition example_context :: load_context where
  "example_context =
     \<lparr>lc_primary = example_primary, lc_hedge = example_hedge, lc_ownership = True,
      lc_fees = [(''userCrossRate'', JStr ''0.00045''), (''userAddRate'', JStr ''0.00015''),
             (''activeReferralDiscount'', JStr ''0'')],
      lc_perp_dexs = JList [JNull, JObj [(''name'', JStr ''xyz''), (''deployerFeeScale'', JStr ''1.0'')]],
      lc_margin_verified = True\<rparr>"

definition example_adapter :: adapter where
  "example_adapter =
     \<lparr>ad_requests = [subaccounts_request example_primary, fees_request example_hedge, dexs_request,
        abstraction_request example_hedge], ad_errors = []\<rparr>"

definition example_asset :: json_object where
  "example_asset = [(''name'', JStr ''xyz:SKHX''), (''szDecimals'', JInt 3), (''growthMode'', JStr ''enabled'')]"

definition example_market :: market_data where
  "example_market =
     \<lparr>md_oracle = 2125 / 10, md_mark = 21255 / 100, md_rate = 2 / 1000, md_size_decimals = 3, md_available = True\<rparr>"

abbreviation after :: "json list \<Rightarrow> adapter" where
  "after rs \<equiv> \<lparr>ad_requests = ad_requests example_adapter @ rs, ad_errors = []\<rparr>"

lemma example_symbol:
  "load_symbols example_config [] = [''xyz:SKHX'']" "canonicalize_execution_symbol ''xyz:SKHX'' = ''xyz:SKHX''"
  "fst (split_execution_symbol ''xyz:SKHX'') = ''xyz''"
  by (code_simp, code_simp, code_simp)

lemma example_hedge_state:
  "fresh_state example_reader example_hedge ''xyz'' example_adapter =
     (Inr (JObj [(''assetPositions'', JList []), (''withdrawable'', JStr ''50000'')]),
      after [state_request example_hedge ''xyz''])"
  by code_simp

lemmas literal_simps = decimal_of_def py_str_def decimal_literal_def take_sign_def special_literal_def
  unsigned_literal_def exponent_of_def digits_value_def digit_value_def is_digit_def py_strip_def is_space_def
  py_lower_def lower_char_def

lemma example_inputs:
  "decimal_of (JStr ''0.00045'') = Some (45 / 100000)" "decimal_of (JStr ''0.00015'') = Some (15 / 100000)"
  "decimal_of (JStr ''0'') = Some 0" "decimal_of (JStr ''1.0'') = Some 1"
  "decimal_of (JStr ''50000'') = Some 50000" "decimal_of (JStr ''100'') = Some 100"
  "decimal_of (JStr ''2200'') = Some 2200" "decimal_of (JStr ''212.5'') = Some (2125 / 10)"
  "decimal_of (JStr ''212.55'') = Some (21255 / 100)" "decimal_of (JStr ''0.002'') = Some (2 / 1000)"
  by (simp_all add: literal_simps power_int_minus)

lemma example_names:
  "canonical_market_name (JStr ''xyz:SKHX'') ''xyz'' = ''xyz:SKHX''" "canonical_symbol ''xyz:SKHX'' = Inr ''xyz:SKHX''"
  "py_strip example_primary = example_primary" "py_strip example_hedge = example_hedge"
  by (code_simp, code_simp, code_simp, code_simp)

lemma example_hedge_read:
  "position_from_state (JObj [(''assetPositions'', JList []), (''withdrawable'', JStr ''50000'')]) example_hedge ''xyz:SKHX''
     = Inr (ha_position (hs_hedge_account example_snapshot), 50000)"
  using example_names
  by (simp add: position_from_state_def object_of_def json_get_def items_of_def or_zero_def jfield_def example_inputs
      mk_position_def guarded_def example_snapshot_def example_hedge_def)

lemma example_primary_state:
  "fresh_state example_reader example_primary ''xyz'' (after [state_request example_hedge ''xyz'']) =
     (Inr (JObj [(''assetPositions'', JList [JObj [(''position'', JObj [(''coin'', JStr ''xyz:SKHX''),
         (''szi'', JStr ''100''), (''marginUsed'', JStr ''2200'')])]])]),
      after [state_request example_hedge ''xyz'', state_request example_primary ''xyz''])"
  by code_simp

lemma example_primary_read:
  "read_primary example_reader example_context ''xyz:SKHX'' None (after [state_request example_hedge ''xyz'']) =
     (Read (hs_primary_position example_snapshot),
      after [state_request example_hedge ''xyz'', state_request example_primary ''xyz''])"
proof -
  have "find_position ''xyz'' ''xyz:SKHX'' [JObj [(''position'', JObj [(''coin'', JStr ''xyz:SKHX''),
         (''szi'', JStr ''100''), (''marginUsed'', JStr ''2200'')])]] = Some [(''coin'', JStr ''xyz:SKHX''),
         (''szi'', JStr ''100''), (''marginUsed'', JStr ''2200'')]"
    using example_names(1) by (simp add: object_of_def json_get_def jfield_def)
  then have "position_from_state (JObj [(''assetPositions'', JList [JObj [(''position'', JObj [(''coin'', JStr ''xyz:SKHX''),
         (''szi'', JStr ''100''), (''marginUsed'', JStr ''2200'')])]])]) example_primary ''xyz:SKHX''
     = Inr (hs_primary_position example_snapshot, 0)"
    using example_names
    by (simp add: position_from_state_def example_symbol object_of_def json_get_def items_of_def or_zero_def jfield_def
        example_inputs decimal_of_null mk_position_def guarded_def example_snapshot_def example_primary_def)
  moreover have "lc_primary example_context = example_primary" by (simp add: example_context_def)
  ultimately show ?thesis by (simp add: read_primary_def example_symbol example_primary_state)
qed

lemma example_market_answer:
  "post_info example_reader (context_request ''xyz:SKHX'') (after [state_request example_hedge ''xyz'', state_request example_primary ''xyz''])
   = (Inr (JList [JObj [(''universe'', JList [JObj [(''name'', JStr ''xyz:SKHX''), (''szDecimals'', JInt 3),
                (''growthMode'', JStr ''enabled'')]])],
              JList [JObj [(''oraclePx'', JStr ''212.5''), (''markPx'', JStr ''212.55''), (''funding'', JStr ''0.002'')]]]),
      after [state_request example_hedge ''xyz'', state_request example_primary ''xyz'', context_request ''xyz:SKHX''])"
  by code_simp

lemma example_market_read:
  "read_market example_reader (\<lambda>_. 0) ''xyz:SKHX'' None
     (after [state_request example_hedge ''xyz'', state_request example_primary ''xyz'']) =
     (Read (example_market, example_asset),
      after [state_request example_hedge ''xyz'', state_request example_primary ''xyz'', context_request ''xyz:SKHX''])"
  using example_names(1)
  by (simp add: read_market_def fresh_context_def example_market_answer market_context_def example_symbol object_of_def
      json_get_def items_of_def jfield_def market_values_def example_inputs py_int_def example_market_def example_asset_def)

lemma example_orders:
  "adapter_orders example_reader example_hedge ''xyz:SKHX'' ''xyz'' None
     (after [state_request example_hedge ''xyz'', state_request example_primary ''xyz'', context_request ''xyz:SKHX'']) =
     (([], False, [], [], []),
      after [state_request example_hedge ''xyz'', state_request example_primary ''xyz'', context_request ''xyz:SKHX'',
        orders_request example_hedge ''xyz''])"
  by code_simp

lemma example_build:
  "build_snapshot example_config example_context (example_now - seconds 5) ''xyz:SKHX''
     (hs_primary_position example_snapshot) (ha_position (hs_hedge_account example_snapshot)) 50000 example_market
     (9 / 100000, ''official_hip3_fee_formula'', True) ([], False, [], [], []) (False, None, None) = Inr example_snapshot"
  by code_simp

lemma example_products:
  "dmul 2 1 = 2" "dsub 1 0 = 1" "dmul (9 / 20000) 2 = 9 / 10000" "dmul (9 / 10000) (1 / 10) = 9 / 100000"
  "dmul (9 / 100000) 1 = 9 / 100000"
  by (code_simp, code_simp, code_simp, code_simp, code_simp)

lemma example_fees:
  "read_fees example_config example_context ''xyz:SKHX'' example_asset ad =
     ((9 / 100000, ''official_hip3_fee_formula'', True), ad)"
proof -
  have "perp_dex_info (items_of (lc_perp_dexs example_context)) ''xyz'' = [(''name'', JStr ''xyz''), (''deployerFeeScale'', JStr ''1.0'')]"
    "growth_enabled (JStr ''enabled'') = Inr True"
    by (code_simp, code_simp)
  then show ?thesis
    by (simp add: read_fees_def example_symbol hip3_fee_rates_def example_context_def jfield_def json_get_def
        example_inputs example_asset_def hip3_formula_def Let_def example_products)
qed

lemma example_load:
  "\<exists>requests'. load_snapshots example_reader (\<lambda>_. 0) example_config [] (example_now - seconds 5) [] []
     = (Inr ([example_snapshot], []), requests')"
proof -
  have lc: "lc_hedge example_context = example_hedge" by (simp add: example_context_def)
  have "load_symbol example_reader (\<lambda>_. 0) example_config example_context (example_now - seconds 5) [] ''xyz:SKHX'' example_adapter
    = (Read example_snapshot, after [state_request example_hedge ''xyz'', state_request example_primary ''xyz'',
        context_request ''xyz:SKHX'', orders_request example_hedge ''xyz''])"
    by (simp add: load_symbol_def example_symbol lc example_hedge_state example_primary_read example_hedge_read
        example_market_read example_fees example_orders funding_confirmation_def only_active_def example_build Let_def)
  then show ?thesis
    using example_preamble
    by (simp add: load_snapshots_def example_addresses example_symbol flip: example_context_def example_adapter_def)
qed


theorem snapshots_are_sound_witness:
  "\<exists>requests'. load_snapshots example_reader (\<lambda>_. 0) example_config [] (example_now - seconds 5) [] []
       = (Inr ([example_snapshot], []), requests')
     \<and> hour dvd fo_next_funding_at (hs_funding example_snapshot) \<and> wf_snapshot example_snapshot"
proof -
  obtain requests' where load: "load_snapshots example_reader (\<lambda>_. 0) example_config [] (example_now - seconds 5) [] []
     = (Inr ([example_snapshot], []), requests')" using example_load by blast
  have "example_snapshot \<in> set [example_snapshot]" by simp
  from snapshots_are_sound [OF load this] load show ?thesis by blast
qed

text \<open>A dead exchange: nothing is answered, and the one symbol is reported.\<close>

theorem every_symbol_is_accounted_for_witness:
  "\<exists>ss errs requests'. load_snapshots (\<lambda>_ _. Inl (RuntimeError ''timeout'')) (\<lambda>_. 0) example_config [] example_now [] []
       = (Inr (ss, errs), requests')
     \<and> ((\<exists>s \<in> set ss. canonical_symbol (canonicalize_execution_symbol ''xyz:SKHX'') = Inr (snapshot_symbol s))
        \<or> reported (canonicalize_execution_symbol ''xyz:SKHX'') errs)"
proof -
  let ?out = "load_snapshots (\<lambda>_ _. Inl (RuntimeError ''timeout'')) (\<lambda>_. 0) example_config [] example_now [] []"
  have "\<not> isl (fst ?out)"
    using example_symbol(1)
    by (simp add: load_snapshots_def example_addresses load_preamble_def split_def Let_def load_symbol_def
        fresh_state_def post_info_def)
  then obtain ss errs requests' where load: "?out = (Inr (ss, errs), requests')"
    by (cases ?out; cases "fst ?out") auto
  have "''xyz:SKHX'' \<in> set (cf_symbols example_config) \<or> (\<exists>c. (''xyz:SKHX'', c) \<in> set [] \<and> active c)"
    by (simp add: example_config_def default_config_def)
  from every_symbol_is_accounted_for [OF load this] load show ?thesis by blast
qed

end
