(* ===== verification/Hedge_Executor.thy ===== *)
theory Hedge_Executor
  imports Hedge_Models "HOL-Library.Sublist"
begin

text \<open>
  The write boundary of the funding hedge (\<^verbatim>\<open>src/funding_fee_avoidance/executor.py\<close>). The
  exchange SDK, the wallet library, the wall clock and the price helper are not part of the
  repository: they are the functions of the record \<open>sdk\<close>, each returning a value or the text of
  the exception it raises. The executor keeps the exchange object it built and the dexes it
  loaded; the model also keeps the list of calls it made on the exchange, in order.

  Two things are left out: \<^verbatim>\<open>reported_filled_size\<close>, an informational number recomputed from
  the raw response, and the conversion of the cloid text to the SDK's cloid object.
\<close>

section \<open>Responses\<close>

fun first_nonempty :: "string list \<Rightarrow> string" where
  "first_nonempty [] = []"
| "first_nonempty (x # xs) = (if x \<noteq> [] then x else first_nonempty xs)"

fun exchange_error :: "json \<Rightarrow> string" where
  "exchange_error (JObj d) =
     (if py_lower (py_str (py_or (json_get d ''status'' (JStr [])) (JStr []))) = ''err''
      then py_str (py_or (py_or (json_get d ''response'' JNull) (json_get d ''error'' JNull))
                         (JStr ''exchange error''))
      else let nested = first_nonempty (map (\<lambda>e. exchange_error (snd e)) d)
           in case json_get d ''error'' JNull of
                JStr e \<Rightarrow> if py_strip e \<noteq> [] then py_strip e else nested
              | _ \<Rightarrow> nested)"
| "exchange_error (JList xs) = first_nonempty (map exchange_error xs)"
| "exchange_error _ = []"

definition accepted_response :: "json \<Rightarrow> bool" where
  "accepted_response payload =
     (case payload of
        JObj d \<Rightarrow> py_lower (py_strip (py_str (py_or (json_get d ''status'' (JStr [])) (JStr [])))) = ''ok''
                  \<and> exchange_error payload = []
      | _ \<Rightarrow> False)"

record ExecutionResult =
  er_accepted :: bool
  er_requested_size :: rat
  er_raw :: json
  er_error :: string

section \<open>The SDK and the calls made on it\<close>

record order_request =
  or_coin :: string
  or_is_buy :: bool
  or_size :: rat
  or_limit_price :: rat
  or_tif :: string
  or_reduce_only :: bool
  or_cloid :: string

datatype exchange_call =
    SetExpiresAfter int
  | UpdateLeverage int string bool
  | SlippagePrice string bool rat
  | PlaceOrder order_request

record exchange_args =
  xa_account_address :: string
  xa_perp_dexs :: "string list"
  xa_timeout :: int
  xa_vault_address :: "string option"

record sdk =
  sdk_secret :: string
  sdk_wallet :: "string \<Rightarrow> string + string"           \<comment> \<open>the signer's address for a key\<close>
  sdk_connect :: "exchange_args \<Rightarrow> string + unit"
  sdk_update_leverage :: "int \<Rightarrow> string \<Rightarrow> bool \<Rightarrow> string + json"
  sdk_slippage_price :: "(string \<Rightarrow> bool \<Rightarrow> rat \<Rightarrow> string + rat) option"
  sdk_order :: "order_request \<Rightarrow> string + json"
  sdk_time_ms :: "nat \<Rightarrow> int"                          \<comment> \<open>the n-th reading of the wall clock\<close>

record executor_state =
  es_exchange :: "exchange_args option"
  es_loaded_dexes :: "string list"
  es_calls :: "exchange_call list"
  es_clock_reads :: nat

type_synonym 'a exec = "executor_state \<Rightarrow> (string + 'a) \<times> executor_state"

definition ebind :: "'a exec \<Rightarrow> ('a \<Rightarrow> 'b exec) \<Rightarrow> 'b exec" where
  "ebind m f st = (case m st of (Inl e, st') \<Rightarrow> (Inl e, st') | (Inr v, st') \<Rightarrow> f v st')"

definition ereturn :: "'a \<Rightarrow> 'a exec" where
  "ereturn v st = (Inr v, st)"

definition eraise :: "string \<Rightarrow> 'a exec" where
  "eraise e st = (Inl e, st)"

definition ecall :: "exchange_call \<Rightarrow> (string + 'a) \<Rightarrow> 'a exec" where
  "ecall c r st = (r, st\<lparr>es_calls := es_calls st @ [c]\<rparr>)"

definition read_time_ms :: "sdk \<Rightarrow> int exec" where
  "read_time_ms k st = (Inr (sdk_time_ms k (es_clock_reads st)),
                        st\<lparr>es_clock_reads := Suc (es_clock_reads st)\<rparr>)"

section \<open>Construction and the exchange object\<close>

definition check_executor_addresses :: "StrategyConfig \<Rightarrow> string \<Rightarrow> executor_state result" where
  "check_executor_addresses cfg reader_address =
     (let primary = (if cf_primary_account_address cfg \<noteq> [] then cf_primary_account_address cfg
                     else reader_address)
      in guarded
           [(primary = [] \<or> cf_hedge_account_address cfg = [],
               ValueError ''both primary and hedge account addresses are required''),
            (py_lower primary = py_lower (cf_hedge_account_address cfg),
               ValueError ''executor cannot route orders to the primary account'')]
           \<lparr>es_exchange = None, es_loaded_dexes = [], es_calls = [], es_clock_reads = 0\<rparr>)"

definition add_dex :: "string \<Rightarrow> string list \<Rightarrow> string list" where
  "add_dex dex dexes = (if dex \<noteq> [] \<and> dex \<notin> set dexes then dexes @ [dex] else dexes)"

definition dexes_to_load :: "StrategyConfig \<Rightarrow> string list \<Rightarrow> string \<Rightarrow> string list" where
  "dexes_to_load cfg loaded required_dex =
     add_dex required_dex
       (fold (\<lambda>symbol. add_dex (fst (split_execution_symbol symbol))) (cf_symbols cfg)
         (fold add_dex (sort loaded) [[]]))"

definition exchange_args_for :: "StrategyConfig \<Rightarrow> string list \<Rightarrow> exchange_args" where
  "exchange_args_for cfg dexes =
     \<lparr>xa_account_address = cf_hedge_account_address cfg, xa_perp_dexs = dexes,
      xa_timeout = cf_http_timeout_seconds cfg,
      xa_vault_address = (if cf_hedge_account_kind cfg = ''subaccount''
                          then Some (cf_hedge_account_address cfg) else None)\<rparr>"

definition ensure_exchange :: "sdk \<Rightarrow> StrategyConfig \<Rightarrow> string \<Rightarrow> exchange_args exec" where
  "ensure_exchange k cfg required_symbol st =
     (let required_dex = fst (split_execution_symbol required_symbol);
          secret = py_strip (sdk_secret k)
      in if es_exchange st \<noteq> None \<and> required_dex \<in> set (es_loaded_dexes st)
           then (Inr (the (es_exchange st)), st)
         else if secret = [] then (Inl ''FUNDING_HEDGE_SECRET_KEY is required for execution'', st)
         else case sdk_wallet k secret of
           Inl e \<Rightarrow> (Inl e, st)
         | Inr signer \<Rightarrow>
           if cf_hedge_account_kind cfg = ''wallet''
              \<and> py_lower signer \<noteq> py_lower (cf_hedge_account_address cfg)
           then (Inl ''independent-wallet signer does not match FUNDING_HEDGE_ACCOUNT_ADDRESS'', st)
           else let dexes = dexes_to_load cfg (es_loaded_dexes st) required_dex;
                    args = exchange_args_for cfg dexes
                in case sdk_connect k args of
                     Inl e \<Rightarrow> (Inl e, st)
                   | Inr _ \<Rightarrow> (Inr args, st\<lparr>es_exchange := Some args,
                                             es_loaded_dexes := remdups dexes\<rparr>))"

section \<open>Orders\<close>

definition validate_order ::
  "StrategyConfig \<Rightarrow> string \<Rightarrow> rat \<Rightarrow> string \<Rightarrow> bool \<Rightarrow> string exec" where
  "validate_order cfg symbol sz cloid require_allowlisted st =
     (let canonical = canonicalize_execution_symbol symbol
      in if require_allowlisted \<and> canonical \<notin> set (cf_symbols cfg)
           then (Inl (''symbol '' @ repr_text canonical @ '' is not in FUNDING_HEDGE_SYMBOLS''), st)
         else if sz \<le> 0 then (Inl ''order size must be positive'', st)
         else if \<not> starts_with ''0x'' cloid \<or> length cloid \<noteq> 34
           then (Inl ''cloid must be a 16-byte 0x-prefixed hex string'', st)
         else (Inr canonical, st))"

definition deadline_ms :: "instant \<Rightarrow> int" where
  "deadline_ms submit_deadline = timestamp_ms submit_deadline"

definition set_action_expiry :: "sdk \<Rightarrow> StrategyConfig \<Rightarrow> instant option \<Rightarrow> unit exec" where
  "set_action_expiry k cfg submit_deadline =
     ebind (read_time_ms k) (\<lambda>now_ms.
       let expiry_ms = now_ms + cf_action_expiry_seconds cfg * 1000
       in case submit_deadline of
            None \<Rightarrow> ecall (SetExpiresAfter expiry_ms) (Inr ())
          | Some deadline \<Rightarrow>
              if deadline_ms deadline \<le> now_ms
              then eraise ''hedge open deadline has already passed''
              else ecall (SetExpiresAfter (min expiry_ms (deadline_ms deadline))) (Inr ()))"

definition aggressive_ioc_price :: "sdk \<Rightarrow> StrategyConfig \<Rightarrow> string \<Rightarrow> bool \<Rightarrow> rat exec" where
  "aggressive_ioc_price k cfg symbol is_buy =
     (case sdk_slippage_price k of
        None \<Rightarrow> eraise ''installed Hyperliquid SDK does not expose the required IOC price helper''
      | Some price_fn \<Rightarrow>
          let slippage = fround (cf_max_order_slippage cfg)
          in ebind (ecall (SlippagePrice symbol is_buy slippage) (price_fn symbol is_buy slippage))
               (\<lambda>p. ereturn (fround p)))"

definition place_order ::
  "sdk \<Rightarrow> order_request \<Rightarrow> rat \<Rightarrow> string \<Rightarrow> ExecutionResult exec" where
  "place_order k req requested unrecognized =
     ebind (ecall (PlaceOrder req) (sdk_order k req)) (\<lambda>raw.
       let error = exchange_error raw; accepted = accepted_response raw
       in if \<not> accepted \<and> error = [] then eraise unrecognized
          else ereturn \<lparr>er_accepted = accepted, er_requested_size = requested, er_raw = raw,
                        er_error = error\<rparr>)"

definition open_hedge ::
  "sdk \<Rightarrow> StrategyConfig \<Rightarrow> string \<Rightarrow> rat \<Rightarrow> string \<Rightarrow> instant \<Rightarrow> ExecutionResult exec" where
  "open_hedge k cfg symbol signed_size cloid submit_deadline =
     ebind (validate_order cfg symbol (dabs signed_size) cloid True) (\<lambda>canonical.
     ebind (ensure_exchange k cfg canonical) (\<lambda>_.
     ebind (set_action_expiry k cfg (Some submit_deadline)) (\<lambda>_.
     (let leverage = \<lfloor>cf_assumed_hedge_leverage cfg\<rfloor>; cross = (cf_hedge_margin_mode cfg = ''cross'')
      in ebind (ecall (UpdateLeverage leverage canonical cross)
                 (sdk_update_leverage k leverage canonical cross)) (\<lambda>leverage_result.
         if \<not> accepted_response leverage_result
         then eraise (''failed to set hedge leverage/margin mode: ''
                      @ (if exchange_error leverage_result \<noteq> [] then exchange_error leverage_result
                         else ''unrecognized exchange response''))
         else let is_buy = 0 < signed_size
              in ebind (aggressive_ioc_price k cfg canonical is_buy) (\<lambda>limit_price.
                 ebind (set_action_expiry k cfg (Some submit_deadline)) (\<lambda>_.
                 place_order k
                   \<lparr>or_coin = canonical, or_is_buy = is_buy, or_size = fround (dabs signed_size),
                    or_limit_price = limit_price, or_tif = ''Ioc'', or_reduce_only = False,
                    or_cloid = cloid\<rparr>
                   (dabs signed_size) ''unrecognized exchange response after hedge open'')))))))"

definition close_hedge ::
  "sdk \<Rightarrow> StrategyConfig \<Rightarrow> string \<Rightarrow> rat \<Rightarrow> rat \<Rightarrow> string \<Rightarrow> ExecutionResult exec" where
  "close_hedge k cfg symbol current_signed_size sz cloid =
     (if current_signed_size = 0
      then eraise ''current_signed_size must be non-zero for reduce-only close''
      else
     ebind (validate_order cfg symbol sz cloid False) (\<lambda>canonical.
     ebind (ensure_exchange k cfg canonical) (\<lambda>_.
     (let is_buy = current_signed_size < 0
      in ebind (aggressive_ioc_price k cfg canonical is_buy) (\<lambda>limit_price.
         ebind (set_action_expiry k cfg None) (\<lambda>_.
         place_order k
           \<lparr>or_coin = canonical, or_is_buy = is_buy, or_size = fround sz,
            or_limit_price = limit_price, or_tif = ''Ioc'', or_reduce_only = True,
            or_cloid = cloid\<rparr>
           sz ''unrecognized exchange response after hedge close''))))))"

section \<open>Traces of calls\<close>

text \<open>
  \<open>emits m P\<close>: whatever state \<open>m\<close> starts in, the calls it appends and its result satisfy \<open>P\<close>.
\<close>

definition emits :: "'a exec \<Rightarrow> (string + 'a \<Rightarrow> exchange_call list \<Rightarrow> bool) \<Rightarrow> bool" where
  "emits m P = (\<forall>st r st'. m st = (r, st') \<longrightarrow> (\<exists>cs. es_calls st' = es_calls st @ cs \<and> P r cs))"

lemma emitsD: "emits m P \<Longrightarrow> m st = (r, st') \<Longrightarrow> \<exists>cs. es_calls st' = es_calls st @ cs \<and> P r cs"
  by (auto simp: emits_def)

lemma emits_bind:
  assumes "emits m P" and "\<And>e cs. P (Inl e) cs \<Longrightarrow> R (Inl e) cs"
    and "\<And>v cs. P (Inr v) cs \<Longrightarrow> emits (f v) (\<lambda>r cs'. R r (cs @ cs'))"
  shows "emits (ebind m f) R"
  unfolding emits_def
proof (intro allI impI)
  fix st r st' assume run: "ebind m f st = (r, st')"
  obtain r1 st1 where m: "m st = (r1, st1)" by force
  obtain cs where cs: "es_calls st1 = es_calls st @ cs" "P r1 cs" using emitsD [OF assms(1) m] by blast
  show "\<exists>cs. es_calls st' = es_calls st @ cs \<and> R r cs"
  proof (cases r1)
    case (Inl e) then show ?thesis using cs run m assms(2) by (auto simp: ebind_def)
  next
    case (Inr v)
    then have "f v st1 = (r, st')" using run m by (simp add: ebind_def)
    then show ?thesis using emitsD [OF assms(3)] Inr cs by fastforce
  qed
qed

lemma emits_raise: "P (Inl e) [] \<Longrightarrow> emits (eraise e) P" by (auto simp: emits_def eraise_def)
lemma emits_return: "P (Inr v) [] \<Longrightarrow> emits (ereturn v) P" by (auto simp: emits_def ereturn_def)
lemma emits_call: "P r [c] \<Longrightarrow> emits (ecall c r) P" by (auto simp: emits_def ecall_def)
lemma emits_mono: "emits m P \<Longrightarrow> (\<And>r cs. P r cs \<Longrightarrow> Q r cs) \<Longrightarrow> emits m Q" unfolding emits_def by metis

lemma emits_validate: "emits (validate_order cfg symbol sz cloid b) (\<lambda>r cs. cs = [] \<and>
    (\<forall>c. r = Inr c \<longrightarrow> c = canonicalize_execution_symbol symbol \<and> 0 < sz \<and> (b \<longrightarrow> c \<in> set (cf_symbols cfg)) \<and> length cloid = 34))"
  by (auto simp: emits_def validate_order_def Let_def split: if_splits)

lemma emits_ensure: "emits (ensure_exchange k cfg coin) (\<lambda>r cs. cs = [])"
  by (auto simp: emits_def ensure_exchange_def Let_def split: if_splits sum.splits)

lemma emits_expiry_Some: "emits (set_action_expiry k cfg (Some d)) (\<lambda>r cs. 
   (\<exists>e. r = Inl e \<and> cs = []) \<or> (\<exists>x. r = Inr () \<and> cs = [SetExpiresAfter x] \<and> x \<le> deadline_ms d))"
  by (auto simp: emits_def set_action_expiry_def ebind_def read_time_ms_def ecall_def eraise_def Let_def split: if_splits)

lemma emits_expiry_None: "emits (set_action_expiry k cfg None) (\<lambda>r cs. r = Inr () \<and> (\<exists>x. cs = [SetExpiresAfter x]))"
  by (auto simp: emits_def set_action_expiry_def ebind_def read_time_ms_def ecall_def Let_def)

lemma emits_price: "emits (aggressive_ioc_price k cfg coin b) (\<lambda>r cs. 
   (\<exists>e. r = Inl e \<and> cs = []) \<or> cs = [SlippagePrice coin b (fround (cf_max_order_slippage cfg))])"
  by (auto simp: emits_def aggressive_ioc_price_def ebind_def ecall_def eraise_def ereturn_def Let_def split: option.splits sum.splits)

lemma emits_place: "emits (place_order k req q u) (\<lambda>r cs. cs = [PlaceOrder req] \<and>
   (\<forall>res. r = Inr res \<longrightarrow> er_accepted res = (er_error res = []) \<and> er_requested_size res = q
    \<and> sdk_order k req = Inr (er_raw res)))"
  by (auto simp: emits_def place_order_def ebind_def ecall_def eraise_def ereturn_def Let_def accepted_response_def split: sum.splits if_splits json.splits)

definition open_request :: "string \<Rightarrow> rat \<Rightarrow> string \<Rightarrow> rat \<Rightarrow> order_request" where
  "open_request coin signed_size cloid limit_price =
     \<lparr>or_coin = coin, or_is_buy = 0 < signed_size, or_size = fround (dabs signed_size),
                    or_limit_price = limit_price, or_tif = ''Ioc'', or_reduce_only = False,
                    or_cloid = cloid\<rparr>"
definition open_calls ::
  "StrategyConfig \<Rightarrow> string \<Rightarrow> rat \<Rightarrow> string \<Rightarrow> int \<Rightarrow> int \<Rightarrow> rat \<Rightarrow> exchange_call list" where
  "open_calls cfg coin signed_size cloid expiry1 expiry2 price =
     [SetExpiresAfter expiry1,
      UpdateLeverage \<lfloor>cf_assumed_hedge_leverage cfg\<rfloor> coin (cf_hedge_margin_mode cfg = ''cross''),
      SlippagePrice coin (0 < signed_size) (fround (cf_max_order_slippage cfg)),
      SetExpiresAfter expiry2,
      PlaceOrder (open_request coin signed_size cloid price)]"

definition open_trace :: "StrategyConfig \<Rightarrow> string \<Rightarrow> rat \<Rightarrow> string \<Rightarrow> instant \<Rightarrow> string + ExecutionResult \<Rightarrow> exchange_call list \<Rightarrow> bool" where
  "open_trace cfg symbol sz cloid d r cs =
     (\<exists>x1 x2 p. x1 \<le> deadline_ms d \<and> x2 \<le> deadline_ms d \<and> (cs \<noteq> [] \<longrightarrow> canonicalize_execution_symbol symbol \<in> set (cf_symbols cfg))
        \<and> (let all = open_calls cfg (canonicalize_execution_symbol symbol) sz cloid x1 x2 p in
          prefix cs all \<and> (\<forall>res. r = Inr res \<longrightarrow> cs = all \<and> er_accepted res = (er_error res = []) \<and> er_requested_size res = dabs sz)))"

lemma emits_if:
  "(b \<Longrightarrow> emits m P) \<Longrightarrow> (\<not> b \<Longrightarrow> emits n P) \<Longrightarrow> emits (if b then m else n) P"
  by simp

lemma open_trace_partial:
  assumes "x1 \<le> deadline_ms d" "x2 \<le> deadline_ms d" "canonicalize_execution_symbol symbol \<in> set (cf_symbols cfg)"
    and "prefix cs (open_calls cfg (canonicalize_execution_symbol symbol) sz cloid x1 x2 p)"
  shows "open_trace cfg symbol sz cloid d (Inl e) cs"
  using assms unfolding open_trace_def Let_def by blast

lemma emits_open: "emits (open_hedge k cfg symbol sz cloid d) (open_trace cfg symbol sz cloid d)"
  unfolding open_hedge_def Let_def
  apply (rule emits_bind [OF emits_validate])
   apply (force simp: open_trace_def)
  apply (rule emits_bind [OF emits_ensure])
   apply (force simp: open_trace_def)
  apply (rule emits_bind [OF emits_expiry_Some])
   apply (force simp: open_trace_def)
  apply (elim conjE disjE exE; clarsimp)
  apply (rule emits_bind [OF emits_call [where P = "\<lambda>r cs. cs = [UpdateLeverage _ _ _]"]], rule refl)
   apply (rule open_trace_partial; simp add: open_calls_def)
  apply (rule emits_if)
   apply (rule emits_raise, rule open_trace_partial; simp add: open_calls_def)
  apply (rule emits_bind [OF emits_price])
   apply (rule open_trace_partial; auto simp: open_calls_def)
  apply (rule emits_bind [OF emits_expiry_Some])
   apply (rule open_trace_partial; auto simp: open_calls_def)
  apply (rule emits_mono [OF emits_place])
  apply (auto simp: open_trace_def open_calls_def open_request_def)
  done

definition close_request :: "string \<Rightarrow> rat \<Rightarrow> rat \<Rightarrow> string \<Rightarrow> rat \<Rightarrow> order_request" where
  "close_request coin current sz cloid limit_price =
     \<lparr>or_coin = coin, or_is_buy = current < 0, or_size = fround sz,
      or_limit_price = limit_price, or_tif = ''Ioc'', or_reduce_only = True, or_cloid = cloid\<rparr>"

definition close_calls ::
  "StrategyConfig \<Rightarrow> string \<Rightarrow> rat \<Rightarrow> rat \<Rightarrow> string \<Rightarrow> int \<Rightarrow> rat \<Rightarrow> exchange_call list" where
  "close_calls cfg coin current sz cloid expiry price =
     [SlippagePrice coin (current < 0) (fround (cf_max_order_slippage cfg)),
      SetExpiresAfter expiry,
      PlaceOrder (close_request coin current sz cloid price)]"

definition close_trace ::
  "StrategyConfig \<Rightarrow> string \<Rightarrow> rat \<Rightarrow> rat \<Rightarrow> string \<Rightarrow> string + ExecutionResult \<Rightarrow>
   exchange_call list \<Rightarrow> bool" where
  "close_trace cfg symbol current sz cloid r cs =
     (\<exists>x p. (cs \<noteq> [] \<longrightarrow> current \<noteq> 0 \<and> 0 < sz)
        \<and> (let all = close_calls cfg (canonicalize_execution_symbol symbol) current sz cloid x p
           in prefix cs all
              \<and> (\<forall>res. r = Inr res \<longrightarrow> cs = all \<and> er_accepted res = (er_error res = [])
                                        \<and> er_requested_size res = sz)))"

lemma close_trace_partial:
  assumes "current \<noteq> 0" and "0 < sz"
    and "prefix cs (close_calls cfg (canonicalize_execution_symbol symbol) current sz cloid x p)"
  shows "close_trace cfg symbol current sz cloid (Inl e) cs"
  using assms unfolding close_trace_def Let_def by blast

lemma emits_close:
  "emits (close_hedge k cfg symbol current sz cloid) (close_trace cfg symbol current sz cloid)"
  unfolding close_hedge_def Let_def
  apply (rule emits_if)
   apply (rule emits_raise, simp add: close_trace_def)
  apply (rule emits_bind [OF emits_validate])
   apply (force simp: close_trace_def)
  apply (rule emits_bind [OF emits_ensure])
   apply (force simp: close_trace_def)
  apply clarsimp
  apply (rule emits_bind [OF emits_price])
   apply (rule close_trace_partial; auto simp: close_calls_def)
  apply (rule emits_bind [OF emits_expiry_None])
   apply simp
  apply (rule emits_mono [OF emits_place])
  apply (auto simp: close_trace_def close_calls_def close_request_def)
  done

section \<open>The account the orders reach\<close>

definition bound_to_hedge :: "StrategyConfig \<Rightarrow> exchange_args \<Rightarrow> bool" where
  "bound_to_hedge cfg a =
     (xa_account_address a = cf_hedge_account_address cfg
      \<and> xa_vault_address a = (if cf_hedge_account_kind cfg = ''subaccount''
                              then Some (cf_hedge_account_address cfg) else None))"

text \<open>The exchange object, once built, is bound to the hedge; no call is made without one.\<close>

definition executor_inv :: "StrategyConfig \<Rightarrow> executor_state \<Rightarrow> bool" where
  "executor_inv cfg st =
     (case es_exchange st of
        None \<Rightarrow> es_calls st = []
      | Some a \<Rightarrow> bound_to_hedge cfg a)"

definition triple ::
  "(executor_state \<Rightarrow> bool) \<Rightarrow> 'a exec \<Rightarrow> (string + 'a \<Rightarrow> executor_state \<Rightarrow> bool) \<Rightarrow> bool" where
  "triple P m Q = (\<forall>st. P st \<longrightarrow> (case m st of (r, st') \<Rightarrow> Q r st'))"

lemma tripleD: "triple P m Q \<Longrightarrow> P st \<Longrightarrow> m st = (r, st') \<Longrightarrow> Q r st'"
  by (auto simp: triple_def)

lemma triple_bind:
  assumes "triple P m Q" and "\<And>e st. Q (Inl e) st \<Longrightarrow> R (Inl e) st"
    and "\<And>v. triple (Q (Inr v)) (f v) R"
  shows "triple P (ebind m f) R"
  unfolding triple_def
proof (intro allI impI)
  fix st assume "P st"
  obtain r st' where m: "m st = (r, st')" by force
  then have "Q r st'" using tripleD [OF assms(1) \<open>P st\<close>] by simp
  then show "case ebind m f st of (r, st') \<Rightarrow> R r st'"
    using assms(2,3) m by (cases r) (auto simp: ebind_def triple_def)
qed

lemma triple_if:
  "(b \<Longrightarrow> triple P m Q) \<Longrightarrow> (\<not> b \<Longrightarrow> triple P n Q) \<Longrightarrow> triple P (if b then m else n) Q"
  by simp

definition connected :: "StrategyConfig \<Rightarrow> executor_state \<Rightarrow> bool" where
  "connected cfg st = (\<exists>a. es_exchange st = Some a \<and> bound_to_hedge cfg a)"

lemma connected_inv: "connected cfg st \<Longrightarrow> executor_inv cfg st"
  by (auto simp: connected_def executor_inv_def)

lemma triple_validate:
  "triple (executor_inv cfg) (validate_order cfg symbol sz cloid b) (\<lambda>_. executor_inv cfg)"
  by (auto simp: triple_def validate_order_def Let_def)

lemma triple_ensure:
  "triple (executor_inv cfg) (ensure_exchange k cfg coin)
     (\<lambda>r st. case r of Inl _ \<Rightarrow> executor_inv cfg st | Inr _ \<Rightarrow> connected cfg st)"
  by (auto simp: triple_def ensure_exchange_def Let_def executor_inv_def connected_def
        bound_to_hedge_def exchange_args_for_def split: sum.splits option.splits)

lemma triple_connected:
  "triple (connected cfg) (eraise e) (\<lambda>_. connected cfg)"
  "triple (connected cfg) (ereturn v) (\<lambda>_. connected cfg)"
  "triple (connected cfg) (ecall c x) (\<lambda>_. connected cfg)"
  "triple (connected cfg) (read_time_ms k) (\<lambda>_. connected cfg)"
  by (auto simp: triple_def connected_def eraise_def ereturn_def ecall_def read_time_ms_def)

lemma triple_inv_raise: "triple (executor_inv cfg) (eraise e) (\<lambda>_. executor_inv cfg)"
  by (simp add: triple_def eraise_def)

lemma triple_then:
  "triple P m (\<lambda>_. P) \<Longrightarrow> (\<And>v. triple P (f v) (\<lambda>_. P)) \<Longrightarrow> triple P (ebind m f) (\<lambda>_. P)"
  by (rule triple_bind)

lemma triple_weaken:
  "triple P m (\<lambda>_. P) \<Longrightarrow> (\<And>st. P st \<Longrightarrow> Q st) \<Longrightarrow> triple P m (\<lambda>_. Q)"
  by (auto simp: triple_def split: prod.splits)

lemma triple_expiry: "triple (connected cfg) (set_action_expiry k c d) (\<lambda>_. connected cfg)"
  unfolding set_action_expiry_def Let_def
  by (rule triple_then [OF triple_connected(4)])
     (cases d; simp add: triple_connected split: if_splits)

lemma triple_price: "triple (connected cfg) (aggressive_ioc_price k c coin b) (\<lambda>_. connected cfg)"
  unfolding aggressive_ioc_price_def Let_def
  by (cases "sdk_slippage_price k") (simp_all add: triple_connected triple_then)

lemma triple_place: "triple (connected cfg) (place_order k req q u) (\<lambda>_. connected cfg)"
  unfolding place_order_def Let_def
  by (rule triple_then [OF triple_connected(3)]) (simp add: triple_connected split: if_splits)

lemmas connected_steps = triple_then triple_expiry triple_price triple_place triple_connected triple_if

lemma triple_after_ensure:
  assumes "\<And>v. triple (connected cfg) (f v) (\<lambda>_. connected cfg)"
  shows "triple (executor_inv cfg) (ebind (ensure_exchange k cfg coin) f) (\<lambda>_. executor_inv cfg)"
  by (rule triple_bind [OF triple_ensure])
     (auto intro!: triple_weaken [OF assms] simp: connected_inv)

lemma open_hedge_keeps:
  "triple (executor_inv cfg) (open_hedge k cfg symbol sz cloid d) (\<lambda>_. executor_inv cfg)"
  unfolding open_hedge_def Let_def
  by (intro triple_then [OF triple_validate] triple_after_ensure connected_steps)

lemma close_hedge_keeps:
  "triple (executor_inv cfg) (close_hedge k cfg symbol current sz cloid) (\<lambda>_. executor_inv cfg)"
  unfolding close_hedge_def Let_def
  by (intro triple_if triple_inv_raise triple_then [OF triple_validate] triple_after_ensure
        connected_steps)

section \<open>Properties\<close>

text \<open>
  C32. The protocol of an open. Whatever the exchange answers, the calls of an attempt are a prefix
  of: set an expiry, update leverage, ask for a price, set an expiry, place one order. The order is
  an IOC order for an allow-listed coin in the requested direction under the given cloid; no
  expiry lies beyond the submission deadline; a result is returned only after the whole sequence
  and is accepted exactly when it carries no error.
\<close>

theorem open_hedge_protocol:
  "case open_hedge k cfg symbol sz cloid d st of
     (r, st') \<Rightarrow> \<exists>cs. es_calls st' = es_calls st @ cs \<and> open_trace cfg symbol sz cloid d r cs"
  using emits_open [of k cfg symbol sz cloid d] by (auto simp: emits_def)

text \<open>
  The protocol of a close. Whatever the exchange answers, the calls of an attempt are a prefix
  of: ask for a price, set an expiry, place one reduce-only IOC order against the current position
  under the given cloid; nothing is sent for a flat position or a size that is not positive.
\<close>

theorem close_hedge_protocol:
  "case close_hedge k cfg symbol current sz cloid st of
     (r, st') \<Rightarrow> \<exists>cs. es_calls st' = es_calls st @ cs \<and> close_trace cfg symbol current sz cloid r cs"
  using emits_close [of k cfg symbol current sz cloid] by (auto simp: emits_def)

text \<open>
  Submission succeeds when everything it depends on does. For an allow-listed coin, a non-zero
  size and a well-formed cloid, with a connected exchange, two clock readings before the deadline,
  an accepted leverage update, a price and an accepted order, the call returns an accepted result
  for the full size after exactly the five calls.
\<close>

theorem open_hedge_accepted:
  assumes coin: "canonicalize_execution_symbol symbol = coin" "coin \<in> set (cf_symbols cfg)"
    and order: "sz \<noteq> 0" "starts_with ''0x'' cloid" "length cloid = 34"
    and conn: "es_exchange st = Some a" "fst (split_execution_symbol coin) \<in> set (es_loaded_dexes st)"
    and clock: "sdk_time_ms k (es_clock_reads st) < deadline_ms d"
      "sdk_time_ms k (Suc (es_clock_reads st)) < deadline_ms d"
    and lev: "sdk_update_leverage k \<lfloor>cf_assumed_hedge_leverage cfg\<rfloor> coin
                (cf_hedge_margin_mode cfg = ''cross'') = Inr lr" "accepted_response lr"
    and price: "sdk_slippage_price k = Some f"
      "f coin (0 < sz) (fround (cf_max_order_slippage cfg)) = Inr p"
    and raw: "sdk_order k (open_request coin sz cloid (fround p)) = Inr raw" "accepted_response raw"
  shows "\<exists>st' x1 x2.
           open_hedge k cfg symbol sz cloid d st =
             (Inr \<lparr>er_accepted = True, er_requested_size = dabs sz, er_raw = raw, er_error = []\<rparr>, st')
           \<and> es_calls st' = es_calls st @ open_calls cfg coin sz cloid x1 x2 (fround p)"
proof -
  have "exchange_error raw = []" using raw(2) by (auto simp: accepted_response_def split: json.splits)
  then show ?thesis using assms
    by (simp add: open_hedge_def ebind_def validate_order_def Let_def ensure_exchange_def
        set_action_expiry_def read_time_ms_def ecall_def aggressive_ioc_price_def ereturn_def
        place_order_def open_request_def open_calls_def dabs_pos not_le)
qed

definition example_sdk :: sdk where
  "example_sdk =
     \<lparr>sdk_secret = ''key'', sdk_wallet = (\<lambda>_. Inr ''0x3''), sdk_connect = (\<lambda>_. Inr ()),
      sdk_update_leverage = (\<lambda>_ _ _. Inr (JObj [(''status'', JStr ''ok'')])),
      sdk_slippage_price = Some (\<lambda>_ _ _. Inr 212),
      sdk_order = (\<lambda>_. Inr (JObj [(''status'', JStr ''ok'')])),
      sdk_time_ms = (\<lambda>n. 1783688310000 + int n)\<rparr>"

definition example_connected :: executor_state where
  "example_connected =
     \<lparr>es_exchange = Some (exchange_args_for example_config [[], ''xyz'']),
      es_loaded_dexes = [[], ''xyz''], es_calls = [], es_clock_reads = 0\<rparr>"

definition example_cloid :: string where
  "example_cloid = ''0x'' @ replicate 32 CHR ''a''"

lemma example_deadline: "deadline_ms example_settlement = 1783688400000"
  by code_simp

lemma example_ok: "accepted_response (JObj [(''status'', JStr ''ok'')])"
  by code_simp

lemma example_coin: "canonicalize_execution_symbol ''xyz:SKHX'' = ''xyz:SKHX''"
   "''xyz:SKHX'' \<in> set (cf_symbols example_config)"
   "fst (split_execution_symbol ''xyz:SKHX'') \<in> set [[], ''xyz'']"
  by code_simp+

theorem open_hedge_accepted_witness:
  "\<exists>st' x1 x2.
     open_hedge example_sdk example_config ''xyz:SKHX'' (- 100) example_cloid example_settlement
         example_connected =
       (Inr \<lparr>er_accepted = True, er_requested_size = dabs (- 100),
             er_raw = JObj [(''status'', JStr ''ok'')], er_error = []\<rparr>, st')
     \<and> es_calls st' = es_calls example_connected
         @ open_calls example_config ''xyz:SKHX'' (- 100) example_cloid x1 x2 (fround 212)"
  by (rule open_hedge_accepted [where a = "exchange_args_for example_config [[], ''xyz'']"
        and f = "\<lambda>_ _ _. Inr 212" and lr = "JObj [(''status'', JStr ''ok'')]"])
     (use example_coin example_ok in \<open>simp_all add: example_sdk_def example_connected_def example_cloid_def
        example_deadline\<close>)

end
