(* ===== verification/Hedge_Coordinator.thy ===== *)
theory Hedge_Coordinator
  imports Hedge_Policy Hedge_Store Hedge_Executor
begin

text \<open>
  The persistent single-action state machine of the funding hedge
  (\<^verbatim>\<open>src/funding_fee_avoidance/state_machine.py\<close>): reconciliation of a stored cycle with an
  exchange snapshot, and one processing step that evaluates the policy, stores its intent and
  submits at most one order.

  The executor is a record of two functions over a state of any type, so the results hold for
  every executor, the live one (\<open>live_executor\<close>) included. The hash behind the client order ids
  (\<^verbatim>\<open>hashlib.blake2b\<close>) is the parameter \<open>digest\<close>. A \<^verbatim>\<open>replace\<close> of a frozen cycle is a
  record update (see \<open>check_cycle_again\<close>). The transaction records, besides the stored cycles,
  every write of the state file and every order handed to the executor, in order.
\<close>

definition TERMINAL_ORDER_STATUSES :: "string list" where
  "TERMINAL_ORDER_STATUSES =
     [''filled'', ''canceled'', ''cancelled'', ''rejected'', ''margincanceled'']"

definition failed_order_statuses :: "string list" where
  "failed_order_statuses = [''canceled'', ''cancelled'', ''rejected'', ''margincanceled'']"

definition stable_cloid :: "(string \<Rightarrow> string) \<Rightarrow> string \<Rightarrow> string \<Rightarrow> string" where
  "stable_cloid digest cycle_key phase =
     ''0x'' @ digest (''funding-hedge|'' @ cycle_key @ ''|'' @ phase)"

record CoordinatorResult =
  cr_decision :: HedgeDecision
  cr_cycle :: "HedgeCycleState option"
  cr_execution :: "ExecutionResult option"
  cr_execution_error :: string

record 's hedge_executor =
  he_open :: "string \<Rightarrow> rat \<Rightarrow> string \<Rightarrow> instant \<Rightarrow> 's \<Rightarrow> (string + ExecutionResult) \<times> 's"
  he_close :: "string \<Rightarrow> rat \<Rightarrow> rat \<Rightarrow> string \<Rightarrow> 's \<Rightarrow> (string + ExecutionResult) \<times> 's"

definition live_executor :: "sdk \<Rightarrow> StrategyConfig \<Rightarrow> executor_state hedge_executor" where
  "live_executor k cfg = \<lparr>he_open = open_hedge k cfg, he_close = close_hedge k cfg\<rparr>"

definition execution_dict :: "CoordinatorResult \<Rightarrow> (bool \<times> rat \<times> string) option" where
  "execution_dict r =
     map_option (\<lambda>e. (er_accepted e, er_requested_size e, er_error e)) (cr_execution r)"

section \<open>Reconciliation\<close>

definition same_cycle_identity :: "StrategyConfig \<Rightarrow> HedgeCycleState \<Rightarrow> HedgeSnapshot \<Rightarrow> bool" where
  "same_cycle_identity cfg c s =
     (hc_symbol c = snapshot_symbol s
      \<and> py_lower (hc_primary_account_address c) = py_lower (primary_address s)
      \<and> py_lower (hc_hedge_account_address c) = py_lower (hedge_address s)
      \<and> hc_network c = cf_network cfg
      \<and> hc_hedge_account_kind c = cf_hedge_account_kind cfg)"

definition elapsed :: "instant \<Rightarrow> instant option \<Rightarrow> int \<Rightarrow> bool" where
  "elapsed now since secs = (case since of None \<Rightarrow> False | Some t \<Rightarrow> seconds secs \<le> now - t)"

text \<open>
  The adjustment, opening, closing and settlement phases of \<^verbatim>\<open>_reconcile\<close>, each on the cycle
  the phases before it left. A phase reads only the stored values of the fields it does not own.
\<close>

definition clear_adjustment :: "HedgeCycleState \<Rightarrow> HedgeCycleState" where
  "clear_adjustment c = c\<lparr>hc_pending_adjust_cloid := [], hc_pre_adjust_hedge_size := 0,
                          hc_adjust_submitted_at := None\<rparr>"

definition reconcile_adjust ::
  "StrategyConfig \<Rightarrow> HedgeSnapshot \<Rightarrow> instant \<Rightarrow> HedgeCycleState \<Rightarrow> HedgeCycleState" where
  "reconcile_adjust cfg s now c =
     (let actual = hedge_size s; st = py_lower (ha_adjust_order_status (hs_hedge_account s))
      in if hc_pending_adjust_cloid c = [] then c
         else if dabs actual < dabs (hc_pre_adjust_hedge_size c)
           then (clear_adjustment c)\<lparr>hc_status := HEDGED\<rparr>
         else if st \<in> set failed_order_statuses
           then (clear_adjustment c)
                  \<lparr>hc_status := HEDGED, hc_last_error := ''adjustment order ended with '' @ st\<rparr>
         else if st = ''filled'' \<and> actual = hc_pre_adjust_hedge_size c
           then c\<lparr>hc_status := RECOVERY_REQUIRED,
                  hc_last_error := ''adjustment reports filled but hedge position did not change''\<rparr>
         else if elapsed now (hc_adjust_submitted_at c) (cf_ambiguous_order_retry_seconds cfg)
                 \<and> actual = hc_pre_adjust_hedge_size c
           then (clear_adjustment c)
                  \<lparr>hc_status := HEDGED,
                   hc_last_error := ''ambiguous adjustment timed out after position reconciliation''\<rparr>
         else c)"

definition reconcile_open ::
  "StrategyConfig \<Rightarrow> HedgeSnapshot \<Rightarrow> instant \<Rightarrow> HedgeCycleState \<Rightarrow> HedgeCycleState" where
  "reconcile_open cfg s now c =
     (let actual = hedge_size s; st = py_lower (ha_open_order_status (hs_hedge_account s))
      in if hc_status c \<notin> {OPEN_SUBMITTED, OPEN_PARTIAL} then c
         else if actual \<noteq> 0
           then c\<lparr>hc_status := (if dabs actual < dabs (hc_target_hedge_size c)
                                then OPEN_PARTIAL else HEDGED)\<rparr>
         else if st \<in> set failed_order_statuses
           then c\<lparr>hc_status := ABORTED,
                  hc_last_error := ''open order ended with '' @ st @ '' and no hedge position''\<rparr>
         else if st = ''filled''
           then c\<lparr>hc_status := RECOVERY_REQUIRED,
                  hc_last_error := ''open order reports filled but hedge position is flat''\<rparr>
         else if elapsed now (hc_open_submitted_at c) (cf_open_reconciliation_timeout_seconds cfg)
           then c\<lparr>hc_status := ABORTED,
                  hc_last_error := ''ambiguous IOC open timed out with hedge position still flat''\<rparr>
         else c)"

definition reconcile_close ::
  "StrategyConfig \<Rightarrow> HedgeSnapshot \<Rightarrow> instant \<Rightarrow> HedgeCycleState \<Rightarrow> HedgeCycleState" where
  "reconcile_close cfg s now c =
     (let actual = hedge_size s; st = py_lower (ha_close_order_status (hs_hedge_account s))
      in if hc_status c \<notin> {CLOSE_SUBMITTED, CLOSE_PARTIAL} then c
         else if actual = 0 then c\<lparr>hc_status := COMPLETED\<rparr>
         else if st \<in> set TERMINAL_ORDER_STATUSES then c\<lparr>hc_status := CLOSE_PARTIAL\<rparr>
         else if elapsed now (hc_close_submitted_at c) (cf_ambiguous_order_retry_seconds cfg)
           then c\<lparr>hc_status := CLOSE_PARTIAL,
                  hc_last_error := ''ambiguous close timed out after position reconciliation''\<rparr>
         else c)"

definition reconcile_settlement :: "instant \<Rightarrow> HedgeCycleState \<Rightarrow> HedgeCycleState" where
  "reconcile_settlement now c =
     (if hc_status c \<in> {HEDGED, OPEN_PARTIAL} \<and> hc_settlement_at c \<le> now
      then c\<lparr>hc_status := AWAITING_FUNDING\<rparr> else c)"

definition record_observation ::
  "HedgeSnapshot \<Rightarrow> instant \<Rightarrow> HedgeCycleState \<Rightarrow> HedgeCycleState" where
  "record_observation s now c =
     (let h = hs_hedge_account s;
          c' = c\<lparr>hc_actual_hedge_size := hedge_size s, hc_updated_at := now\<rparr>
      in if ha_funding_confirmed h
         then c'\<lparr>hc_funding_confirmed_at :=
                   Some (case ha_funding_record_time h of Some t \<Rightarrow> t | None \<Rightarrow> now),
                 hc_funding_delta_usd := ha_funding_delta_usd h\<rparr>
         else c')"

definition reconcile ::
  "StrategyConfig \<Rightarrow> HedgeSnapshot \<Rightarrow> instant \<Rightarrow> HedgeCycleState option \<Rightarrow> HedgeCycleState option" where
  "reconcile cfg s now cycle =
     (case cycle of
        None \<Rightarrow> None
      | Some c \<Rightarrow>
        if \<not> active c then Some c
        else if \<not> same_cycle_identity cfg c s
          then Some (c\<lparr>hc_status := RECOVERY_REQUIRED, hc_updated_at := now,
                       hc_last_error := ''cycle identity differs from exchange snapshot''\<rparr>)
        else Some (record_observation s now
                    (reconcile_settlement now
                      (reconcile_close cfg s now
                        (reconcile_open cfg s now
                          (reconcile_adjust cfg s now c))))))"

section \<open>One processing step\<close>

definition put_if_changed ::
  "HedgeCycleState option \<Rightarrow> HedgeCycleState option \<Rightarrow> CycleTransaction \<Rightarrow> CycleTransaction" where
  "put_if_changed before after t =
     (case after of None \<Rightarrow> t | Some c \<Rightarrow> if after \<noteq> before then tx_put c t else t)"

definition new_cycle ::
  "(string \<Rightarrow> string) \<Rightarrow> StrategyConfig \<Rightarrow> HedgeDecision \<Rightarrow> instant \<Rightarrow> HedgeCycleState" where
  "new_cycle digest cfg d now =
     (let s = hd_snapshot d
      in \<lparr>hc_cycle_key = hd_cycle_key d, hc_status = ARMED, hc_symbol = snapshot_symbol s,
          hc_primary_account_address = primary_address s,
          hc_hedge_account_address = hedge_address s,
          hc_settlement_at = fo_next_funding_at (hs_funding s),
          hc_target_hedge_size = hd_target_hedge_size d,
          hc_open_cloid = stable_cloid digest (hd_cycle_key d) ''open:1'', hc_close_cloid = [],
          hc_created_at = now, hc_updated_at = now, hc_network = cf_network cfg,
          hc_hedge_account_kind = cf_hedge_account_kind cfg,
          hc_actual_hedge_size = hedge_size s, hc_close_attempt_count = 0,
          hc_adjustment_count = 0, hc_pending_adjust_cloid = [], hc_pre_adjust_hedge_size = 0,
          hc_open_submitted_at = None, hc_close_submitted_at = None,
          hc_adjust_submitted_at = None, hc_funding_confirmed_at = None,
          hc_funding_delta_usd = None, hc_last_error = []\<rparr>)"

definition submit :: "submission \<Rightarrow> CycleTransaction \<Rightarrow> CycleTransaction" where
  "submit order t = t\<lparr>ct_effects := ct_effects t @ [Submitted order]\<rparr>"

definition or_default :: "string \<Rightarrow> string \<Rightarrow> string" where
  "or_default text fallback = (if text \<noteq> [] then text else fallback)"

type_synonym 's step_outcome = "CoordinatorResult result \<times> CycleTransaction \<times> 's"

definition finished ::
  "HedgeDecision \<Rightarrow> HedgeCycleState option \<Rightarrow> CycleTransaction \<Rightarrow> 's \<Rightarrow> 's step_outcome" where
  "finished d c t st =
     (Inr \<lparr>cr_decision = d, cr_cycle = c, cr_execution = None, cr_execution_error = []\<rparr>, t, st)"

text \<open>The end of the three submitting branches: the executor's answer is stored in the cycle.\<close>

definition after_execution ::
  "HedgeDecision \<Rightarrow> (HedgeCycleState \<Rightarrow> string \<Rightarrow> HedgeCycleState) \<Rightarrow>
   (HedgeCycleState \<Rightarrow> string \<Rightarrow> HedgeCycleState) \<Rightarrow> HedgeCycleState \<Rightarrow> CycleTransaction \<Rightarrow>
   (string + ExecutionResult) \<times> 's \<Rightarrow> 's step_outcome" where
  "after_execution d rejected ambiguous c t answer =
     (case answer of
        (Inr e, st') \<Rightarrow>
          let c' = (if er_accepted e then c else rejected c (er_error e))
          in (Inr \<lparr>cr_decision = d, cr_cycle = Some c', cr_execution = Some e,
                   cr_execution_error = []\<rparr>, tx_put c' t, st')
      | (Inl exc, st') \<Rightarrow>
          let c' = ambiguous c exc
          in (Inr \<lparr>cr_decision = d, cr_cycle = Some c', cr_execution = None,
                   cr_execution_error = exc\<rparr>, tx_put c' t, st'))"

definition open_step ::
  "(string \<Rightarrow> string) \<Rightarrow> StrategyConfig \<Rightarrow> 's hedge_executor \<Rightarrow> HedgeSnapshot \<Rightarrow> instant \<Rightarrow>
   HedgeDecision \<Rightarrow> CycleTransaction \<Rightarrow> 's \<Rightarrow> 's step_outcome" where
  "open_step digest cfg ex s now d t st =
     (let armed = new_cycle digest cfg d now;
          t1 = tx_flush (tx_put armed t);
          c = armed\<lparr>hc_status := OPEN_SUBMITTED, hc_updated_at := now,
                    hc_open_submitted_at := Some now\<rparr>;
          t2 = tx_flush (tx_put c t1);
          deadline = hc_settlement_at c - seconds (cf_latest_open_cutoff_seconds cfg)
      in after_execution d
           (\<lambda>c error. c\<lparr>hc_status := ABORTED, hc_updated_at := now,
                        hc_last_error := or_default error ''open order rejected''\<rparr>)
           (\<lambda>c exc. c\<lparr>hc_updated_at := now,
                      hc_last_error := ''ambiguous open submission: '' @ exc\<rparr>)
           c
           (submit (OpenOrder (snapshot_symbol s) (hd_order_size_delta d) (hc_open_cloid c) deadline) t2)
           (he_open ex (snapshot_symbol s) (hd_order_size_delta d) (hc_open_cloid c) deadline st))"

definition wait_step ::
  "HedgeSnapshot \<Rightarrow> instant \<Rightarrow> HedgeDecision \<Rightarrow> HedgeCycleState \<Rightarrow> CycleTransaction \<Rightarrow> 's \<Rightarrow>
   's step_outcome" where
  "wait_step s now d c t st =
     (let h = hs_hedge_account s;
          c' = c\<lparr>hc_status :=
                   (if hc_settlement_at c \<le> now then AWAITING_FUNDING
                    else if dabs (hedge_size s) < dabs (hc_target_hedge_size c) then OPEN_PARTIAL
                    else HEDGED),
                 hc_actual_hedge_size := hedge_size s, hc_updated_at := now,
                 hc_funding_confirmed_at :=
                   (if ha_funding_confirmed h then ha_funding_record_time h
                    else hc_funding_confirmed_at c),
                 hc_funding_delta_usd :=
                   (if ha_funding_confirmed h then ha_funding_delta_usd h
                    else hc_funding_delta_usd c)\<rparr>
      in finished d (Some c') (tx_put c' t) st)"

definition adjust_step ::
  "(string \<Rightarrow> string) \<Rightarrow> 's hedge_executor \<Rightarrow> HedgeSnapshot \<Rightarrow> instant \<Rightarrow> HedgeDecision \<Rightarrow>
   HedgeCycleState \<Rightarrow> CycleTransaction \<Rightarrow> 's \<Rightarrow> 's step_outcome" where
  "adjust_step digest ex s now d c t st =
     (if hc_pending_adjust_cloid c \<noteq> [] then finished d (Some c) t st
      else
        let count = hc_adjustment_count c + 1;
            cloid = stable_cloid digest (hc_cycle_key c) (''adjust:'' @ int_text count);
            c' = c\<lparr>hc_adjustment_count := count, hc_pending_adjust_cloid := cloid,
                   hc_pre_adjust_hedge_size := hedge_size s, hc_updated_at := now,
                   hc_adjust_submitted_at := Some now\<rparr>;
            t' = tx_flush (tx_put c' t);
            sz = dabs (hd_order_size_delta d)
        in after_execution d
             (\<lambda>c error. (clear_adjustment c)
                          \<lparr>hc_last_error := or_default error ''adjustment order rejected''\<rparr>)
             (\<lambda>c exc. c\<lparr>hc_last_error := ''ambiguous adjustment submission: '' @ exc\<rparr>)
             c' (submit (CloseOrder (snapshot_symbol s) (hedge_size s) sz cloid) t')
             (he_close ex (snapshot_symbol s) (hedge_size s) sz cloid st))"

definition close_step ::
  "(string \<Rightarrow> string) \<Rightarrow> 's hedge_executor \<Rightarrow> HedgeSnapshot \<Rightarrow> instant \<Rightarrow> HedgeDecision \<Rightarrow>
   HedgeCycleState \<Rightarrow> CycleTransaction \<Rightarrow> 's \<Rightarrow> 's step_outcome" where
  "close_step digest ex s now d c t st =
     (if hc_status c = CLOSE_SUBMITTED
         \<and> py_lower (ha_close_order_status (hs_hedge_account s)) \<notin> set TERMINAL_ORDER_STATUSES
      then finished d (Some c) t st
      else
        let count = hc_close_attempt_count c + 1;
            cloid = stable_cloid digest (hc_cycle_key c) (''close:'' @ int_text count);
            c' = c\<lparr>hc_status := CLOSE_SUBMITTED, hc_close_attempt_count := count,
                   hc_close_cloid := cloid, hc_actual_hedge_size := hedge_size s,
                   hc_updated_at := now, hc_close_submitted_at := Some now\<rparr>;
            t' = tx_flush (tx_put c' t);
            sz = dabs (hedge_size s)
        in after_execution d
             (\<lambda>c error. c\<lparr>hc_status := CLOSE_PARTIAL,
                          hc_last_error := or_default error ''close order rejected''\<rparr>)
             (\<lambda>c exc. c\<lparr>hc_last_error := ''ambiguous close submission: '' @ exc\<rparr>)
             c' (submit (CloseOrder (snapshot_symbol s) (hedge_size s) sz cloid) t')
             (he_close ex (snapshot_symbol s) (hedge_size s) sz cloid st))"

definition recovery_step ::
  "instant \<Rightarrow> HedgeDecision \<Rightarrow> HedgeCycleState \<Rightarrow> CycleTransaction \<Rightarrow> 's \<Rightarrow> 's step_outcome" where
  "recovery_step now d c t st =
     (let c' = c\<lparr>hc_status := RECOVERY_REQUIRED, hc_updated_at := now,
                 hc_last_error := hd_reason d\<rparr>
      in finished d (Some c') (tx_put c' t) st)"

text \<open>A terminal cycle of the same settlement turns a decision to open into a hold.\<close>

definition hold_if_settled :: "HedgeCycleState option \<Rightarrow> HedgeDecision \<Rightarrow> HedgeDecision" where
  "hold_if_settled reconciled d =
     (case reconciled of
        Some c \<Rightarrow>
          if terminal (hc_status c) \<and> hd_action d = OPEN_HEDGE \<and> hd_cycle_key d = hc_cycle_key c
          then d\<lparr>hd_action := HOLD,
                 hd_reason := ''terminal_cycle_already_exists_for_this_settlement'',
                 hd_order_size_delta := 0, hd_reduce_only := False\<rparr>
          else d
      | None \<Rightarrow> d)"

text \<open>The branch of the decided action, after the reconciled cycle was stored.\<close>

definition dispatch ::
  "(string \<Rightarrow> string) \<Rightarrow> StrategyConfig \<Rightarrow> 's hedge_executor \<Rightarrow> HedgeSnapshot \<Rightarrow> instant \<Rightarrow>
   HedgeDecision \<Rightarrow> HedgeCycleState option \<Rightarrow> CycleTransaction \<Rightarrow> 's \<Rightarrow> 's step_outcome" where
  "dispatch digest cfg ex s now d reconciled t st =
     (case (hd_action d, only_active reconciled) of
        (OPEN_HEDGE, None) \<Rightarrow> open_step digest cfg ex s now d t st
      | (OPEN_HEDGE, Some c) \<Rightarrow> finished d (Some c) t st
      | (WAIT_FOR_FUNDING, Some c) \<Rightarrow> wait_step s now d c t st
      | (ADJUST_HEDGE, Some c) \<Rightarrow> adjust_step digest ex s now d c t st
      | (CLOSE_HEDGE, Some c) \<Rightarrow> close_step digest ex s now d c t st
      | (ACTION_RECOVERY_REQUIRED, Some c) \<Rightarrow> recovery_step now d c t st
      | _ \<Rightarrow> finished d reconciled t st)"

record 's HedgeCoordinator =
  co_config :: StrategyConfig
  co_executor :: "'s hedge_executor option"
  co_clock :: "instant option"     \<comment> \<open>what the configured clock reads, if there is one\<close>

definition evaluation_time :: "'s HedgeCoordinator \<Rightarrow> bool \<Rightarrow> instant \<Rightarrow> instant" where
  "evaluation_time co execute now =
     (case co_clock co of Some t \<Rightarrow> if execute then t else now | None \<Rightarrow> now)"

text \<open>The body of the transaction; an exception leaves it without the final flush.\<close>

definition process_body ::
  "(string \<Rightarrow> string) \<Rightarrow> 's HedgeCoordinator \<Rightarrow> HedgeSnapshot \<Rightarrow> instant \<Rightarrow> bool \<Rightarrow>
   CycleTransaction \<Rightarrow> 's \<Rightarrow> 's step_outcome" where
  "process_body digest co s now execute t st =
     (let cfg = co_config co;
          stored = tx_get t (snapshot_symbol s);
          reconciled = reconcile cfg s now stored
      in case evaluate cfg s (Aware now) (only_active reconciled) of
           Inl e \<Rightarrow> (Inl e, t, st)
         | Inr d0 \<Rightarrow>
           let d = hold_if_settled reconciled d0
           in if \<not> execute then finished d reconciled t st
              else if \<not> cf_execution_enabled cfg
                then (Inl (RuntimeError ''--execute also requires FUNDING_HEDGE_EXECUTE=true''), t, st)
              else case co_executor co of
                None \<Rightarrow> (Inl (RuntimeError ''hedge executor is not configured''), t, st)
              | Some ex \<Rightarrow>
                dispatch digest cfg ex s now d reconciled
                  (tx_flush (put_if_changed stored reconciled t)) st)"

definition process ::
  "(string \<Rightarrow> string) \<Rightarrow> 's HedgeCoordinator \<Rightarrow> HedgeSnapshot \<Rightarrow> datetime \<Rightarrow> bool \<Rightarrow> cycles \<Rightarrow> 's \<Rightarrow>
   's step_outcome" where
  "process digest co s now execute disk st =
     (case now of
        Naive t \<Rightarrow> (Inl (ValueError ''now must include a timezone''), tx_begin disk, st)
      | Aware t \<Rightarrow>
        (case process_body digest co s (evaluation_time co execute t) execute (tx_begin disk) st of
           (Inl e, t', st') \<Rightarrow> (Inl e, t', st')
         | (Inr r, t', st') \<Rightarrow> (Inr r, tx_flush t', st')))"

section \<open>Effects of a step\<close>

fun submission_symbol :: "submission \<Rightarrow> string" where
  "submission_symbol (OpenOrder symbol sz cloid deadline) = symbol"
| "submission_symbol (CloseOrder symbol current sz cloid) = symbol"

fun submission_cloid :: "submission \<Rightarrow> string" where
  "submission_cloid (OpenOrder symbol sz cloid deadline) = cloid"
| "submission_cloid (CloseOrder symbol current sz cloid) = cloid"

text \<open>A stored cycle announces an order when it carries its client order id in the right phase.\<close>

fun announces :: "HedgeCycleState \<Rightarrow> submission \<Rightarrow> bool" where
  "announces c (OpenOrder symbol sz cloid deadline) =
     (hc_status c = OPEN_SUBMITTED \<and> hc_open_cloid c = cloid \<and> hc_open_submitted_at c \<noteq> None)"
| "announces c (CloseOrder symbol current sz cloid) =
     (hc_status c = CLOSE_SUBMITTED \<and> hc_close_cloid c = cloid \<and> hc_close_submitted_at c \<noteq> None
      \<or> hc_pending_adjust_cloid c = cloid \<and> hc_pre_adjust_hedge_size c = current
        \<and> hc_adjust_submitted_at c \<noteq> None)"

text \<open>\<open>write_ahead disk es\<close>: at every submission the state file announces the order.\<close>

fun write_ahead :: "cycles \<Rightarrow> effect list \<Rightarrow> bool" where
  "write_ahead disk [] = True"
| "write_ahead disk (Flushed cs # es) = write_ahead cs es"
| "write_ahead disk (Submitted x # es) =
     ((case dict_get disk (submission_symbol x) of None \<Rightarrow> False | Some c \<Rightarrow> announces c x)
      \<and> write_ahead disk es)"

fun submissions :: "effect list \<Rightarrow> submission list" where
  "submissions [] = []"
| "submissions (Flushed cs # es) = submissions es"
| "submissions (Submitted x # es) = x # submissions es"

fun final_disk :: "cycles \<Rightarrow> effect list \<Rightarrow> cycles" where
  "final_disk disk [] = disk"
| "final_disk disk (Flushed cs # es) = final_disk cs es"
| "final_disk disk (Submitted x # es) = final_disk disk es"

lemma write_ahead_append:
  "write_ahead disk (es @ es') \<longleftrightarrow> write_ahead disk es \<and> write_ahead (final_disk disk es) es'"
  by (induction disk es rule: write_ahead.induct) auto

lemma submissions_append [simp]: "submissions (es @ es') = submissions es @ submissions es'"
  by (induction es rule: submissions.induct) auto

lemma submit_simps [simp, store_simps]:
  "ct_effects (submit x t) = ct_effects t @ [Submitted x]" "ct_disk (submit x t) = ct_disk t"
  "ct_cycles (submit x t) = ct_cycles t" "ct_dirty (submit x t) = ct_dirty t"
  by (simp_all add: submit_def)

section \<open>Evolution of a cycle\<close>

text \<open>
  One cycle over time: its identity never changes, its counters never decrease, and it stays as
  it is once terminal.
\<close>

definition same_cycle :: "HedgeCycleState \<Rightarrow> HedgeCycleState \<Rightarrow> bool" where
  "same_cycle c c' =
     (hc_cycle_key c' = hc_cycle_key c \<and> hc_symbol c' = hc_symbol c
      \<and> hc_primary_account_address c' = hc_primary_account_address c
      \<and> hc_hedge_account_address c' = hc_hedge_account_address c
      \<and> hc_settlement_at c' = hc_settlement_at c \<and> hc_target_hedge_size c' = hc_target_hedge_size c
      \<and> hc_open_cloid c' = hc_open_cloid c \<and> hc_created_at c' = hc_created_at c
      \<and> hc_network c' = hc_network c \<and> hc_hedge_account_kind c' = hc_hedge_account_kind c)"

definition evolves :: "HedgeCycleState \<Rightarrow> HedgeCycleState \<Rightarrow> bool" where
  "evolves c c' =
     (same_cycle c c' \<and> hc_adjustment_count c \<le> hc_adjustment_count c'
      \<and> hc_close_attempt_count c \<le> hc_close_attempt_count c'
      \<and> (terminal (hc_status c) \<longrightarrow> c' = c))"

lemma evolves_refl [simp]: "evolves c c"
  by (simp add: evolves_def same_cycle_def)

lemma evolves_trans: "evolves a b \<Longrightarrow> evolves b c \<Longrightarrow> evolves a c"
  by (auto simp: evolves_def same_cycle_def)

lemma evolves_update:
  "same_cycle c c' \<Longrightarrow> hc_adjustment_count c \<le> hc_adjustment_count c' \<Longrightarrow>
   hc_close_attempt_count c \<le> hc_close_attempt_count c' \<Longrightarrow> active c \<Longrightarrow> evolves c c'"
  by (simp add: evolves_def active_def)

lemma same_cycle_refl [simp]: "same_cycle c c"
  by (simp add: same_cycle_def)

lemma same_cycle_update [simp]:
  "same_cycle c (c'\<lparr>hc_status := x1\<rparr>) = same_cycle c c'"
  "same_cycle c (c'\<lparr>hc_close_cloid := x2\<rparr>) = same_cycle c c'"
  "same_cycle c (c'\<lparr>hc_updated_at := x3\<rparr>) = same_cycle c c'"
  "same_cycle c (c'\<lparr>hc_actual_hedge_size := x4\<rparr>) = same_cycle c c'"
  "same_cycle c (c'\<lparr>hc_close_attempt_count := x5\<rparr>) = same_cycle c c'"
  "same_cycle c (c'\<lparr>hc_adjustment_count := x6\<rparr>) = same_cycle c c'"
  "same_cycle c (c'\<lparr>hc_pending_adjust_cloid := x7\<rparr>) = same_cycle c c'"
  "same_cycle c (c'\<lparr>hc_pre_adjust_hedge_size := x8\<rparr>) = same_cycle c c'"
  "same_cycle c (c'\<lparr>hc_open_submitted_at := x9\<rparr>) = same_cycle c c'"
  "same_cycle c (c'\<lparr>hc_close_submitted_at := x10\<rparr>) = same_cycle c c'"
  "same_cycle c (c'\<lparr>hc_adjust_submitted_at := x11\<rparr>) = same_cycle c c'"
  "same_cycle c (c'\<lparr>hc_funding_confirmed_at := x12\<rparr>) = same_cycle c c'"
  "same_cycle c (c'\<lparr>hc_funding_delta_usd := x13\<rparr>) = same_cycle c c'"
  "same_cycle c (c'\<lparr>hc_last_error := x14\<rparr>) = same_cycle c c'"
  by (simp_all add: same_cycle_def)

text \<open>Reconciliation is a step of that evolution and leaves the counters alone.\<close>

lemma reconcile_phases:
  "same_cycle c (reconcile_adjust cfg s now c)" "same_cycle c (reconcile_open cfg s now c)"
  "same_cycle c (reconcile_close cfg s now c)" "same_cycle c (reconcile_settlement now c)"
  "same_cycle c (record_observation s now c)"
  by (simp_all add: reconcile_adjust_def reconcile_open_def reconcile_close_def
      reconcile_settlement_def record_observation_def clear_adjustment_def Let_def)

definition same_counts :: "HedgeCycleState \<Rightarrow> HedgeCycleState \<Rightarrow> bool" where
  "same_counts c c' = (hc_adjustment_count c' = hc_adjustment_count c
                       \<and> hc_close_attempt_count c' = hc_close_attempt_count c)"

lemma same_counts_refl [simp]: "same_counts c c"
  by (simp add: same_counts_def)

lemma same_counts_update [simp]:
  "same_counts c (c'\<lparr>hc_status := x15\<rparr>) = same_counts c c'"
  "same_counts c (c'\<lparr>hc_close_cloid := x16\<rparr>) = same_counts c c'"
  "same_counts c (c'\<lparr>hc_updated_at := x17\<rparr>) = same_counts c c'"
  "same_counts c (c'\<lparr>hc_actual_hedge_size := x18\<rparr>) = same_counts c c'"
  "same_counts c (c'\<lparr>hc_pending_adjust_cloid := x19\<rparr>) = same_counts c c'"
  "same_counts c (c'\<lparr>hc_pre_adjust_hedge_size := x20\<rparr>) = same_counts c c'"
  "same_counts c (c'\<lparr>hc_open_submitted_at := x21\<rparr>) = same_counts c c'"
  "same_counts c (c'\<lparr>hc_close_submitted_at := x22\<rparr>) = same_counts c c'"
  "same_counts c (c'\<lparr>hc_adjust_submitted_at := x23\<rparr>) = same_counts c c'"
  "same_counts c (c'\<lparr>hc_funding_confirmed_at := x24\<rparr>) = same_counts c c'"
  "same_counts c (c'\<lparr>hc_funding_delta_usd := x25\<rparr>) = same_counts c c'"
  "same_counts c (c'\<lparr>hc_last_error := x26\<rparr>) = same_counts c c'"
  by (simp_all add: same_counts_def)

lemma reconcile_counts:
  "same_counts c (reconcile_adjust cfg s now c)" "same_counts c (reconcile_open cfg s now c)"
  "same_counts c (reconcile_close cfg s now c)" "same_counts c (reconcile_settlement now c)"
  "same_counts c (record_observation s now c)"
  by (simp_all add: reconcile_adjust_def reconcile_open_def reconcile_close_def
      reconcile_settlement_def record_observation_def clear_adjustment_def Let_def)

lemma same_cycle_trans: "same_cycle a b \<Longrightarrow> same_cycle b c \<Longrightarrow> same_cycle a c"
  by (simp add: same_cycle_def)

lemma same_counts_trans: "same_counts a b \<Longrightarrow> same_counts b c \<Longrightarrow> same_counts a c"
  by (simp add: same_counts_def)

lemma reconcile_evolves:
  assumes "reconcile cfg s now (Some c) = Some c'"
  shows "evolves c c'" and "same_counts c c'"
proof -
  have "evolves c c' \<and> same_counts c c'"
  proof (cases "active c \<and> same_cycle_identity cfg c s")
    case True
    then have c': "c' = record_observation s now (reconcile_settlement now
        (reconcile_close cfg s now (reconcile_open cfg s now (reconcile_adjust cfg s now c))))"
      using assms by (simp add: reconcile_def)
    have "same_cycle c c'" unfolding c'
      by (rule same_cycle_trans [OF same_cycle_trans [OF same_cycle_trans
            [OF same_cycle_trans [OF reconcile_phases(1,2)] reconcile_phases(3)]
            reconcile_phases(4)] reconcile_phases(5)])
    moreover have "same_counts c c'" unfolding c'
      by (rule same_counts_trans [OF same_counts_trans [OF same_counts_trans
            [OF same_counts_trans [OF reconcile_counts(1,2)] reconcile_counts(3)]
            reconcile_counts(4)] reconcile_counts(5)])
    ultimately show ?thesis using True by (auto simp: same_counts_def intro: evolves_update)
  next
    case False
    then show ?thesis using assms
      by (auto simp: reconcile_def same_cycle_def same_counts_def active_def evolves_def
          split: if_splits)
  qed
  then show "evolves c c'" and "same_counts c c'" by auto
qed

lemma reconcile_None [simp]: "reconcile cfg s now None = None"
  by (simp add: reconcile_def)

lemma reconcile_Some: "\<exists>c'. reconcile cfg s now (Some c) = Some c'"
  by (simp add: reconcile_def)

section \<open>What a step does to the transaction\<close>

text \<open>The phase of an exit order names the counter that was just incremented.\<close>

definition exit_phase :: "HedgeCycleState \<Rightarrow> HedgeCycleState \<Rightarrow> string \<Rightarrow> bool" where
  "exit_phase b c p =
     (p = ''adjust:'' @ int_text (hc_adjustment_count c)
        \<and> hc_adjustment_count c = hc_adjustment_count b + 1
        \<and> hc_close_attempt_count c = hc_close_attempt_count b
      \<or> p = ''close:'' @ int_text (hc_close_attempt_count c)
        \<and> hc_close_attempt_count c = hc_close_attempt_count b + 1
        \<and> hc_adjustment_count c = hc_adjustment_count b)"

definition supersedes :: "HedgeCycleState option \<Rightarrow> HedgeCycleState \<Rightarrow> bool" where
  "supersedes b c =
     (hc_adjustment_count c = 0 \<and> hc_close_attempt_count c = 0
      \<and> (case b of None \<Rightarrow> True
         | Some b' \<Rightarrow> terminal (hc_status b') \<and> hc_cycle_key c \<noteq> hc_cycle_key b'))"

text \<open>
  A step on the cycle \<open>b\<close> writes nothing, stores a later stage of \<open>b\<close>, submits one exit order for
  it, or opens a new cycle; an order is submitted after the stage that announces it was flushed.
\<close>

inductive step_effect ::
  "(string \<Rightarrow> string) \<Rightarrow> string \<Rightarrow> HedgeCycleState option \<Rightarrow> CycleTransaction \<Rightarrow>
   CycleTransaction \<Rightarrow> bool"
  for digest k b t where
  untouched: "step_effect digest k b t t"
| stored: "step_effect digest k b t (tx_put c t)" if "b = Some b'" "evolves b' c"
| exited: "step_effect digest k b t (tx_put c' (submit x (tx_flush (tx_put c t))))"
    if "b = Some b'" "evolves b' c" "exit_phase b' c p" "announces c x"
       "submission_symbol x = hc_symbol c" "submission_cloid x = stable_cloid digest (hc_cycle_key c) p"
       "evolves c c'" "same_counts c c'"
| opened: "step_effect digest k b t
             (tx_put c' (submit x (tx_flush (tx_put c (tx_flush (tx_put a t))))))"
    if "supersedes b a" "hc_symbol a = k" "evolves a c" "same_counts a c" "announces c x"
       "submission_symbol x = hc_symbol c"
       "submission_cloid x = stable_cloid digest (hc_cycle_key c) ''open:1''"
       "evolves c c'" "same_counts c c'"

lemma after_execution_put:
  assumes "after_execution d rejected ambiguous c t answer = (r, t', st')"
  obtains c' where "t' = tx_put c' t" and "c' = c \<or> (\<exists>e. c' = rejected c e) \<or> (\<exists>e. c' = ambiguous c e)"
    and "st' = snd answer"
  using assms by (cases answer; cases "fst answer")
     (auto simp: after_execution_def Let_def split: if_splits)

lemma new_cycle_simps [simp]:
  "hc_symbol (new_cycle digest cfg d now) = snapshot_symbol (hd_snapshot d)"
  "hc_open_cloid (new_cycle digest cfg d now) = stable_cloid digest (hd_cycle_key d) ''open:1''"
  "hc_cycle_key (new_cycle digest cfg d now) = hd_cycle_key d"
  "hc_settlement_at (new_cycle digest cfg d now) = fo_next_funding_at (hs_funding (hd_snapshot d))"
  "hc_adjustment_count (new_cycle digest cfg d now) = 0"
  "hc_close_attempt_count (new_cycle digest cfg d now) = 0"
  "hc_status (new_cycle digest cfg d now) = ARMED"
  by (simp_all add: new_cycle_def Let_def)

lemmas evolution_simps = evolves_def same_cycle_def same_counts_def active_def terminal_def
  clear_adjustment_def

lemma open_step_effect:
  assumes run: "open_step digest cfg ex s now d t st = (r, t', st')" and "hd_snapshot d = s"
    and "supersedes b (new_cycle digest cfg d now)"
  shows "step_effect digest (snapshot_symbol s) b t t'"
  using run unfolding open_step_def Let_def
  by (rule after_execution_put)
     (use assms(2,3) in \<open>auto intro!: step_effect.opened simp: evolution_simps\<close>)

lemma adjust_step_effect:
  assumes run: "adjust_step digest ex s now d c t st = (r, t', st')" and "hc_symbol c = snapshot_symbol s"
    and "active c"
  shows "step_effect digest (snapshot_symbol s) (Some c) t t'"
  using run unfolding adjust_step_def Let_def
  by (simp add: finished_def untouched split: if_splits, elim after_execution_put)
     (use assms(2,3) in \<open>auto intro!: step_effect.exited simp: evolution_simps exit_phase_def\<close>)

lemma close_step_effect:
  assumes run: "close_step digest ex s now d c t st = (r, t', st')" and "hc_symbol c = snapshot_symbol s"
    and "active c"
  shows "step_effect digest (snapshot_symbol s) (Some c) t t'"
  using run unfolding close_step_def Let_def
  by (simp add: finished_def untouched split: if_splits, elim after_execution_put)
     (use assms(2,3) in \<open>auto intro!: step_effect.exited evolves_update simp: exit_phase_def same_counts_def same_cycle_def active_def terminal_def\<close>)

lemma only_active_idem [simp]: "only_active (only_active x) = only_active x"
  by (auto simp: only_active_def split: option.splits)

lemma only_active_Some: "only_active x = Some c \<longleftrightarrow> x = Some c \<and> active c"
  by (auto simp: only_active_def split: option.splits)

text \<open>A decision other than recovery for an active cycle concerns that cycle's own symbol.\<close>

lemma evaluate_identity:
  assumes "evaluate cfg s (Aware now) (Some c) = Inr d" and "active c"
    and "hd_action d \<noteq> ACTION_RECOVERY_REQUIRED"
  shows "\<not> identity_mismatch cfg s c"
  using assms(1)
  by (rule evaluate_Inr)
     (use assms(2,3) in \<open>auto simp: only_active_def choose_action_def plain_choice_def split: if_splits\<close>)

lemma evaluate_snapshot: "evaluate cfg s now c = Inr d \<Longrightarrow> hd_snapshot d = s"
  by (erule evaluate_Inr)

lemma hold_if_settled_simps [simp]:
  "hd_snapshot (hold_if_settled x d) = hd_snapshot d"
  "hd_cycle_key (hold_if_settled x d) = hd_cycle_key d"
  "hd_target_hedge_size (hold_if_settled x d) = hd_target_hedge_size d"
  by (simp_all add: hold_if_settled_def split: option.splits)

lemma hold_if_settled_cases:
  "hold_if_settled x d = d \<or> hd_action (hold_if_settled x d) = HOLD"
  by (simp add: hold_if_settled_def split: option.splits)

lemma evaluate_symbol:
  assumes "evaluate cfg s (Aware now) (only_active x) = Inr d" and "only_active x = Some c"
    and "hd_action d \<noteq> ACTION_RECOVERY_REQUIRED"
  shows "hc_symbol c = snapshot_symbol s"
  using evaluate_identity [of cfg s now c d] assms
  by (auto simp: only_active_Some identity_mismatch_def)


lemma evaluate_open:
  assumes "evaluate cfg s (Aware now) (only_active x) = Inr d" and "hd_action d = OPEN_HEDGE"
  shows "only_active x = None"
  using assms(1)
proof (rule evaluate_Inr)
  fix t target qty
  assume "(hd_action d, hd_reason d, hd_order_size_delta d, hd_reduce_only d) =
      choose_action cfg s t (settlement_of s (only_active x)) (only_active (only_active x))
        (total_seconds (settlement_of s (only_active x) - t))
        (total_seconds (t - fo_observed_at (hs_funding s))) target qty
        (hedge_economics_of cfg s target)"
  then show ?thesis using choose_open(2) assms(2) by (metis only_active_idem)
qed

lemma open_supersedes:
  assumes "evaluate cfg s (Aware now) (only_active x) = Inr d"
    and "hd_action (hold_if_settled x d) = OPEN_HEDGE"
  shows "supersedes x (new_cycle digest cfg (hold_if_settled x d) now)"
  using assms evaluate_open [OF assms(1)]
  by (auto simp: hold_if_settled_def supersedes_def only_active_def active_def
      split: option.splits if_splits)

lemma dispatch_Inr: "\<not> isl (fst (dispatch digest cfg ex s now d x t st))"
  by (auto simp: dispatch_def finished_def open_step_def wait_step_def adjust_step_def
      close_step_def recovery_step_def after_execution_def Let_def
      split: HedgeAction.splits option.splits prod.splits sum.splits)

lemma wait_step_effect:
  "wait_step s now d c t st = (r, t', st') \<Longrightarrow> active c \<Longrightarrow> step_effect digest (snapshot_symbol s) (Some c) t t'"
  by (auto simp: wait_step_def finished_def Let_def intro!: step_effect.stored evolves_update)

lemma recovery_step_effect:
  "recovery_step now d c t st = (r, t', st') \<Longrightarrow> active c \<Longrightarrow> step_effect digest k (Some c) t t'"
  by (auto simp: recovery_step_def finished_def Let_def intro!: step_effect.stored evolves_update)

lemma dispatch_effect:
  assumes run: "dispatch digest cfg ex s now (hold_if_settled x d) x t st = (r, t', st')"
    and ev: "evaluate cfg s (Aware now) (only_active x) = Inr d"
  shows "step_effect digest (snapshot_symbol s) x t t'"
proof (cases "hd_action (hold_if_settled x d) = HOLD")
  case True
  then show ?thesis using run
    by (auto simp: dispatch_def finished_def intro: step_effect.untouched split: option.splits)
next
  case False
  then have d: "hold_if_settled x d = d" using hold_if_settled_cases by blast
  have same: "hc_symbol c = snapshot_symbol s"
    if "only_active x = Some c" "hd_action d \<noteq> ACTION_RECOVERY_REQUIRED" for c
    using evaluate_symbol [OF ev] that by blast
  note opens = open_step_effect [OF _ evaluate_snapshot [OF ev], of digest cfg ex now t st r t' st' x]
  show ?thesis
  proof (cases "only_active x")
    case None
    then show ?thesis using run d opens open_supersedes [OF ev, of digest]
      by (auto simp: dispatch_def finished_def intro: step_effect.untouched
          split: HedgeAction.splits)
  next
    case (Some c)
    then have x: "x = Some c" "active c" by (auto simp: only_active_Some)
    show ?thesis using run d Some same [OF Some] x
      by (auto simp: dispatch_def finished_def split: HedgeAction.splits
          intro: step_effect.untouched wait_step_effect recovery_step_effect adjust_step_effect
            close_step_effect)
  qed
qed

lemma process_body_cases:
  assumes "process_body digest co s now execute t st = (r, t', st')"
  obtains (idle) "t' = t" and "st' = st"
      and "\<not> execute \<or> (\<exists>e. r = Inl e)"
  | (run) ex d where "execute" and "co_executor co = Some ex" and "cf_execution_enabled (co_config co)"
      and "evaluate (co_config co) s (Aware now)
             (only_active (reconcile (co_config co) s now (tx_get t (snapshot_symbol s)))) = Inr d"
      and "dispatch digest (co_config co) ex s now
             (hold_if_settled (reconcile (co_config co) s now (tx_get t (snapshot_symbol s))) d)
             (reconcile (co_config co) s now (tx_get t (snapshot_symbol s)))
             (tx_flush (put_if_changed (tx_get t (snapshot_symbol s))
                (reconcile (co_config co) s now (tx_get t (snapshot_symbol s))) t)) st = (r, t', st')"
  using assms unfolding process_body_def Let_def
  by (auto simp: finished_def split: sum.splits if_splits option.splits)

lemma process_cases:
  assumes "process digest co s now execute disk st = (r, t', st')"
  obtains (idle) "t' = tx_begin disk" and "st' = st" and "\<not> execute \<or> (\<exists>e. r = Inl e)"
  | (run) ex d t stored reconciled t1 t2 where "execute" and "co_executor co = Some ex"
      and "cf_execution_enabled (co_config co)"
      and "now = Aware t" 
      and "stored = dict_get disk (snapshot_symbol s)"
      and "reconciled = reconcile (co_config co) s (evaluation_time co True t) stored"
      and "t1 = tx_flush (put_if_changed stored reconciled (tx_begin disk))"
      and "evaluate (co_config co) s (Aware (evaluation_time co True t)) (only_active reconciled) = Inr d"
      and "dispatch digest (co_config co) ex s (evaluation_time co True t)
             (hold_if_settled reconciled d) reconciled t1 st = (r, t2, st')"
      and "t' = tx_flush t2"
proof (cases now)
  case (Naive t)
  then show thesis using assms idle by (auto simp: process_def)
next
  case (Aware t)
  obtain r1 t1 st1 where body:
    "process_body digest co s (evaluation_time co execute t) execute (tx_begin disk) st = (r1, t1, st1)"
    by (metis prod_cases3)
  from body show thesis
  proof (cases rule: process_body_cases)
    case idle
    then show thesis using assms Aware body that(1)
      by (auto simp: process_def split: sum.splits)
  next
    case (run ex d)
    then obtain v where "r1 = Inr v" using dispatch_Inr by (metis fst_conv sum.collapse(2))
    then show thesis using assms Aware body run that(2)
      by (auto simp: process_def)
  qed
qed

end
