(* ===== verification/Hedge_Lifetime.thy ===== *)
theory Hedge_Lifetime
  imports Hedge_Coordinator
begin

text \<open>
  Sequences of processing steps of the hedge coordinator
  (\<^verbatim>\<open>src/funding_fee_avoidance/state_machine.py\<close>), with crashes: a step may stop after any
  of its effects, and the next one starts from the state file as it was last written. The
  theory shows that the stored cycles evolve in order, that orders are announced in the state
  file before they are submitted, and that client order ids are never reused.
\<close>

section \<open>One process, up to any crash\<close>

text \<open>What an order of the stage \<open>c\<close> is called, given the cycle that was stored before.\<close>

definition fresh_phase :: "HedgeCycleState option \<Rightarrow> HedgeCycleState \<Rightarrow> string \<Rightarrow> bool" where
  "fresh_phase old c p =
     (case old of
        None \<Rightarrow> p = ''open:1''
      | Some b \<Rightarrow> if hc_cycle_key b = hc_cycle_key c then exit_phase b c p else p = ''open:1'')"

text \<open>How the cycle stored for a symbol may change: it evolves or gives way to another one.\<close>

definition advances :: "HedgeCycleState option \<Rightarrow> HedgeCycleState option \<Rightarrow> bool" where
  "advances old new =
     (case new of
        None \<Rightarrow> old = None
      | Some c \<Rightarrow>
        (case old of
           None \<Rightarrow> supersedes None c
         | Some b \<Rightarrow> evolves b c \<or> (\<exists>b'. evolves b b' \<and> same_counts b b' \<and> supersedes (Some b') c)))"

definition submits :: "(string \<Rightarrow> string) \<Rightarrow> HedgeCycleState option \<Rightarrow> HedgeCycleState option \<Rightarrow> string \<Rightarrow> submission list \<Rightarrow> bool" where
  "submits digest old new k xs =
     (xs = [] \<or> (\<exists>x c p. xs = [x] \<and> new = Some c \<and> submission_symbol x = k
        \<and> submission_cloid x = stable_cloid digest (hc_cycle_key c) p \<and> fresh_phase old c p))"

lemma advances_refl: "advances x x"
  by (simp add: advances_def split: option.splits)

lemma supersedes_evolves: "supersedes b a \<Longrightarrow> evolves a c \<Longrightarrow> same_counts a c \<Longrightarrow> supersedes b c"
  by (auto simp: supersedes_def evolves_def same_cycle_def same_counts_def split: option.splits)

lemma exit_phase_evolves:
  "exit_phase b' c p \<Longrightarrow> same_counts b b' \<Longrightarrow> same_counts c c' \<Longrightarrow> exit_phase b c' p"
  by (auto simp: exit_phase_def same_counts_def)

lemma evolves_key: "evolves a b \<Longrightarrow> hc_cycle_key b = hc_cycle_key a"
  by (simp add: evolves_def same_cycle_def)
lemma evolves_symbol: "evolves a b \<Longrightarrow> hc_symbol b = hc_symbol a"
  by (simp add: evolves_def same_cycle_def)

text \<open>The cycle stored before a step and the reconciled one.\<close>

abbreviation reconciled_from :: "HedgeCycleState option \<Rightarrow> HedgeCycleState option \<Rightarrow> bool" where
  "reconciled_from \<equiv> rel_option (\<lambda>c c'. evolves c c' \<and> same_counts c c')"

lemma reconcile_from: "reconciled_from old (reconcile cfg s now old)"
  using reconcile_evolves [of cfg s now] reconcile_Some [of cfg s now]
  by (cases old) (auto simp: rel_option_iff split: option.splits)

lemma advances_evolve:
  "reconciled_from old b \<Longrightarrow> b = Some b' \<Longrightarrow> evolves b' c \<Longrightarrow> advances old (Some c)"
  by (auto simp: advances_def option_rel_Some2 intro: evolves_trans)

lemma advances_reconciled: "reconciled_from old b \<Longrightarrow> advances old b"
  by (cases b) (auto simp: advances_def option_rel_Some2)

lemma advances_supersede:
  "reconciled_from old b \<Longrightarrow> supersedes b c \<Longrightarrow> advances old (Some c)"
  by (cases b) (auto simp: advances_def option_rel_Some2)

lemma fresh_open: "reconciled_from old b \<Longrightarrow> supersedes b c \<Longrightarrow> fresh_phase old c ''open:1''"
  by (cases b) (auto simp: fresh_phase_def supersedes_def option_rel_Some2 evolves_key)

lemma fresh_exit:
  "reconciled_from old b \<Longrightarrow> b = Some b' \<Longrightarrow> evolves b' c \<Longrightarrow> exit_phase b' c p \<Longrightarrow>
   evolves c c' \<Longrightarrow> same_counts c c' \<Longrightarrow> fresh_phase old c' p"
  by (auto simp: fresh_phase_def option_rel_Some2 evolves_key exit_phase_evolves)

lemma submits_none [simp]: "submits digest old new k []"
  by (simp add: submits_def)

lemma submits_one:
  "submission_symbol x = k \<Longrightarrow> submission_cloid x = stable_cloid digest (hc_cycle_key c) p \<Longrightarrow>
   fresh_phase old c p \<Longrightarrow> submits digest old (Some c) k [x]"
  by (auto simp: submits_def)

text \<open>The state file and the orders of a log, seen from the cycles stored before it.\<close>

definition sound_log ::
  "(string \<Rightarrow> string) \<Rightarrow> cycles \<Rightarrow> string \<Rightarrow> cycles \<Rightarrow> submission list \<Rightarrow> bool" where
  "sound_log digest disk k disk' xs =
     ((\<forall>k'. k' \<noteq> k \<longrightarrow> dict_get disk' k' = dict_get disk k') \<and> keyed disk'
      \<and> advances (dict_get disk k) (dict_get disk' k)
      \<and> submits digest (dict_get disk k) (dict_get disk' k) k xs)"

lemma sound_log_put:
  assumes "\<And>k'. k' \<noteq> k \<Longrightarrow> dict_get d k' = dict_get disk k'" and "keyed d" and "hc_symbol c = k"
    and "advances (dict_get disk k) (Some c)" and "submits digest (dict_get disk k) (Some c) k xs"
  shows "sound_log digest disk k (dict_put k c d) xs"
  using assms by (simp add: sound_log_def keyed_put)

lemma step_effect_write_ahead:
  assumes "step_effect digest k b t t'" and "\<not> ct_dirty t"
  shows "\<exists>es. ct_effects (tx_flush t') = ct_effects t @ es \<and> write_ahead disk es
           \<and> (ct_disk t = disk \<longrightarrow> ct_disk (tx_flush t') = final_disk disk es)
           \<and> length (submissions es) \<le> 1"
  using assms
  by (cases rule: step_effect.cases) auto

lemma step_effect_log:
  assumes step: "step_effect digest k b t t'" and clean: "\<not> ct_dirty t"
    and from_old: "reconciled_from (dict_get disk k) b"
    and sym: "\<And>c. b = Some c \<Longrightarrow> hc_symbol c = k"
    and others: "\<And>k'. k' \<noteq> k \<Longrightarrow> dict_get (ct_cycles t) k' = dict_get disk k'"
    and cur: "dict_get (ct_cycles t) k = b" and keyed: "keyed (ct_cycles t)"
  shows "\<exists>es. ct_effects (tx_flush t') = ct_effects t @ es
     \<and> (\<forall>es'. prefix es' es \<longrightarrow>
          sound_log digest disk k (final_disk (ct_cycles t) es') (submissions es'))"
proof -
  have start: "sound_log digest disk k (ct_cycles t) []"
    using others cur keyed advances_reconciled [OF from_old] by (auto simp: sound_log_def)
  from step show ?thesis
proof (cases rule: step_effect.cases)
  case untouched
  then show ?thesis using start clean by auto
next
  case (stored b' c)
  then have "sound_log digest disk k (dict_put k c (ct_cycles t)) []"
    using assms by (intro sound_log_put) (auto simp: evolves_symbol intro: advances_evolve)
  moreover have "hc_symbol c = k" using stored sym by (simp add: evolves_symbol)
  ultimately show ?thesis using stored(1) start
    by (intro exI [of _ "[Flushed (dict_put k c (ct_cycles t))]"]) (auto simp: prefix_Cons)
next
  case (exited b' c p x c')
  have ev: "evolves b' c" "evolves b' c'" using exited evolves_trans by blast+
  then have sy: "hc_symbol c = k" "hc_symbol c' = k" using exited sym by (simp_all add: evolves_symbol)
  have sub: "submits digest (dict_get disk k) (Some c) k [x]" "submits digest (dict_get disk k) (Some c') k [x]"
    using exited(6-9) sy fresh_exit [OF from_old exited(2,3,4)] evolves_key [OF exited(8)]
    by (auto intro!: submits_one [where p = p])
  note adv = ev [THEN advances_evolve [OF from_old exited(2)]]
  have "sound_log digest disk k (dict_put k c (ct_cycles t)) []"
    "sound_log digest disk k (dict_put k c (ct_cycles t)) [x]"
    using others keyed sy adv sub by (intro sound_log_put; auto)+
  moreover have "sound_log digest disk k (dict_put k c' (dict_put k c (ct_cycles t))) [x]"
    using others keyed sy adv sub by (intro sound_log_put keyed_put) auto
  ultimately show ?thesis using exited(1) start sy
    by (intro exI [of _ "[Flushed (dict_put k c (ct_cycles t)), Submitted x,
          Flushed (dict_put k c' (dict_put k c (ct_cycles t)))]"]) (auto simp: prefix_Cons)
next
  case (opened a c x c')
  have sy: "hc_symbol a = k" "hc_symbol c = k" "hc_symbol c' = k" using opened by (simp_all add: evolves_symbol)
  have sup: "supersedes b a" "supersedes b c" "supersedes b c'" using opened supersedes_evolves by blast+
  have sub: "submits digest (dict_get disk k) (Some c) k [x]" "submits digest (dict_get disk k) (Some c') k [x]"
    using opened(7,8) sy sup fresh_open [OF from_old] evolves_key [OF opened(9)]
    by (auto intro!: submits_one)
  note adv = sup [THEN advances_supersede [OF from_old]]
  have "sound_log digest disk k (dict_put k a (ct_cycles t)) []"
    using others keyed sy adv by (intro sound_log_put) auto
  moreover have "sound_log digest disk k (dict_put k c (dict_put k a (ct_cycles t))) []"
    "sound_log digest disk k (dict_put k c (dict_put k a (ct_cycles t))) [x]"
    using others keyed sy adv sub by (intro sound_log_put keyed_put; auto)+
  moreover have "sound_log digest disk k (dict_put k c' (dict_put k c (dict_put k a (ct_cycles t)))) [x]"
    using others keyed sy adv sub by (intro sound_log_put keyed_put) auto
  ultimately show ?thesis using opened(1) start sy
    by (intro exI [of _ "[Flushed (dict_put k a (ct_cycles t)),
          Flushed (dict_put k c (dict_put k a (ct_cycles t))), Submitted x,
          Flushed (dict_put k c' (dict_put k c (dict_put k a (ct_cycles t))))]"])
       (auto simp: prefix_Cons)
qed
qed

lemma put_if_changed_simps:
  "\<not> ct_dirty (tx_flush (put_if_changed a b t))"
  "ct_cycles (put_if_changed a b (tx_begin disk)) =
     (case b of None \<Rightarrow> disk | Some c \<Rightarrow> if b \<noteq> a then dict_put (hc_symbol c) c disk else disk)"
  "ct_effects (tx_flush (put_if_changed a b (tx_begin disk))) =
     (case b of None \<Rightarrow> [] | Some c \<Rightarrow> if b \<noteq> a then [Flushed (dict_put (hc_symbol c) c disk)] else [])"
  "ct_disk (tx_flush (put_if_changed a b (tx_begin disk))) =
     (case b of None \<Rightarrow> disk | Some c \<Rightarrow> if b \<noteq> a then dict_put (hc_symbol c) c disk else disk)"
  by (auto simp: put_if_changed_def split: option.splits)

lemma process_write_ahead:
  assumes "process digest co s now execute disk st = (r, t', st')"
  shows "write_ahead disk (ct_effects t')" and "ct_disk t' = final_disk disk (ct_effects t')"
    and "length (submissions (ct_effects t')) \<le> 1"
proof -
  have "write_ahead disk (ct_effects t') \<and> ct_disk t' = final_disk disk (ct_effects t')
        \<and> length (submissions (ct_effects t')) \<le> 1"
    using assms
  proof (cases rule: process_cases)
    case idle
    then show ?thesis by simp
  next
    case (run ex d t stored reconciled t1 t2)
    obtain es where es: "ct_effects t' = ct_effects t1 @ es" "write_ahead (ct_disk t1) es"
      "ct_disk t' = final_disk (ct_disk t1) es" "length (submissions es) \<le> 1"
      using step_effect_write_ahead [OF dispatch_effect [OF run(9,8)], of "ct_disk t1"]
        put_if_changed_simps(1) run(7,10) by blast
    then show ?thesis using run(7)
      by (auto simp: write_ahead_append put_if_changed_simps split: option.splits if_splits)
  qed
  then show "write_ahead disk (ct_effects t')" and "ct_disk t' = final_disk disk (ct_effects t')"
    and "length (submissions (ct_effects t')) \<le> 1" by auto
qed

lemma process_log:
  assumes "process digest co s now execute disk st = (r, t', st')" and "keyed disk"
    and "prefix es (ct_effects t')"
  shows "sound_log digest disk (snapshot_symbol s) (final_disk disk es) (submissions es)"
  using assms(1)
proof (cases rule: process_cases)
  case idle
  then show ?thesis using assms by (simp add: sound_log_def advances_refl)
next
  case (run ex d t stored reconciled t1 t2)
  let ?k = "snapshot_symbol s"
  have rec: "reconciled_from (dict_get disk ?k) reconciled"
    using run(5,6) reconcile_from by blast
  have sym: "hc_symbol c = ?k" if "reconciled = Some c" for c
    using rec that keyed_get [OF assms(2)] by (auto simp: option_rel_Some2 evolves_symbol)
  have cyc: "ct_cycles t1 = (case reconciled of None \<Rightarrow> disk
               | Some c \<Rightarrow> if reconciled \<noteq> stored then dict_put ?k c disk else disk)"
    using run(7) sym by (auto simp: put_if_changed_simps split: option.splits)
  obtain es1 where es1: "ct_effects t' = ct_effects t1 @ es1"
    "\<And>es'. prefix es' es1 \<Longrightarrow> sound_log digest disk ?k (final_disk (ct_cycles t1) es') (submissions es')"
  proof -
    have "reconciled = None \<Longrightarrow> dict_get disk ?k = None" using rec by simp
    then have "\<exists>es. ct_effects (tx_flush t2) = ct_effects t1 @ es \<and>
          (\<forall>es'. prefix es' es \<longrightarrow>
            sound_log digest disk ?k (final_disk (ct_cycles t1) es') (submissions es'))"
      using cyc rec sym assms(2) run(5,7)
      by (intro step_effect_log [OF dispatch_effect [OF run(9,8)]])
         (auto simp: put_if_changed_simps(1) keyed_put split: option.splits if_splits)
    then show thesis using that run(10) by blast
  qed
  have "sound_log digest disk ?k disk []"
    using assms(2) by (simp add: sound_log_def advances_refl)
  then show ?thesis using assms(3) es1(2) [of "[]"] es1 cyc run(7) sym
    by (auto simp: put_if_changed_simps prefix_Cons split: option.splits if_splits)
qed

section \<open>The life of a cycle\<close>

text \<open>
  The life of one cycle: any number of processes on any symbols, each run to its end or killed after
  any of its effects, after each of which the symbol \<open>k\<close> holds a cycle with the key \<open>key\<close>. The executor
  may restart in any state.
\<close>

inductive lifetime ::
  "(string \<Rightarrow> string) \<Rightarrow> string \<Rightarrow> string \<Rightarrow> cycles \<times> 's \<Rightarrow> submission list \<Rightarrow> cycles \<times> 's \<Rightarrow> bool"
  for digest k key start where
  unborn: "lifetime digest k key start [] start"
| lives: "lifetime digest k key start (xs @ filter (\<lambda>x. submission_symbol x = k) (submissions es))
            (final_disk disk es, st'')"
    if "lifetime digest k key start xs (disk, st)"
      "process digest co s now execute disk st = (r, t', st')"
      "prefix es (ct_effects t')"
      "\<And>c. dict_get (final_disk disk es) k = Some c \<Longrightarrow> hc_cycle_key c = key"

definition phase_used :: "HedgeCycleState \<Rightarrow> string \<Rightarrow> bool" where
  "phase_used c p =
     (p = ''open:1'' \<or> (\<exists>i \<le> hc_adjustment_count c. p = ''adjust:'' @ int_text i)
      \<or> (\<exists>i \<le> hc_close_attempt_count c. p = ''close:'' @ int_text i))"

lemma phase_used_mono:
  "phase_used b p \<Longrightarrow> evolves b c \<Longrightarrow> phase_used c p"
  by (auto simp: phase_used_def evolves_def)

lemma exit_phase_fresh: "exit_phase b c p \<Longrightarrow> \<not> phase_used b p \<and> phase_used c p"
  by (auto simp: exit_phase_def phase_used_def)

definition accounted :: "(string \<Rightarrow> string) \<Rightarrow> string \<Rightarrow> string \<Rightarrow> cycles \<Rightarrow> submission list \<Rightarrow> string list \<Rightarrow> bool" where
  "accounted digest k key disk xs ps =
     (map submission_cloid xs = map (stable_cloid digest key) ps \<and> distinct ps
      \<and> (ps \<noteq> [] \<longrightarrow> (\<exists>c. dict_get disk k = Some c \<and> hc_cycle_key c = key \<and> list_all (phase_used c) ps)))"

lemma accounted_step:
  assumes acc: "accounted digest k key disk xs ps" and log: "sound_log digest disk k disk' ys"
    and key: "\<And>c. dict_get disk' k = Some c \<Longrightarrow> hc_cycle_key c = key"
  shows "\<exists>ps. accounted digest k key disk' (xs @ ys) ps"
proof (cases "dict_get disk' k")
  case None
  then have "ys = []" "dict_get disk k = None"
    using log by (auto simp: sound_log_def submits_def advances_def)
  then show ?thesis using acc None by (auto simp: accounted_def)
next
  case (Some c)
  then have K: "hc_cycle_key c = key" by (rule key)
  have adv: "advances (dict_get disk k) (Some c)" and sub: "submits digest (dict_get disk k) (Some c) k ys"
    using log Some by (simp_all add: sound_log_def)
  have ev: "evolves b c" if "dict_get disk k = Some b" "hc_cycle_key b = key" for b
    using adv that K by (auto simp: advances_def supersedes_def evolves_key)
  then have old: "accounted digest k key disk' xs ps"
    using acc Some K phase_used_mono by (fastforce simp: accounted_def list_all_iff)
  show ?thesis
  proof (cases "ys = []")
    case True then show ?thesis using old by auto
  next
    case False
    then obtain x p where x: "ys = [x]" "submission_cloid x = stable_cloid digest key p"
      and fresh: "fresh_phase (dict_get disk k) c p"
      using sub K by (auto simp: submits_def)
    have "p \<notin> set ps \<and> phase_used c p"
    proof (cases "\<exists>b. dict_get disk k = Some b \<and> hc_cycle_key b = key")
      case True
      then show ?thesis using fresh K acc exit_phase_fresh
        by (auto simp: fresh_phase_def accounted_def list_all_iff)
    next
      case False
      then have "ps = []" using acc by (auto simp: accounted_def)
      moreover have "p = ''open:1''" using False fresh K
        by (auto simp: fresh_phase_def split: option.splits)
      ultimately show ?thesis by (simp add: phase_used_def)
    qed
    then have "accounted digest k key disk' (xs @ ys) (ps @ [p])"
      using old x Some K by (auto simp: accounted_def)
    then show ?thesis by blast
  qed
qed

lemma submits_symbol: "submits digest old new k xs \<Longrightarrow> filter (\<lambda>x. submission_symbol x = k') xs = (if k = k' then xs else [])"
  by (auto simp: submits_def)

lemma lifetime_accounted:
  assumes "lifetime digest k key start xs fin" and "keyed (fst start)"
  shows "keyed (fst fin) \<and> (\<exists>ps. accounted digest k key (fst fin) xs ps)"
  using assms
proof (induction rule: lifetime.induct)
  case unborn
  then show ?case by (auto simp: accounted_def intro!: exI [of _ "[]"])
next
  case (lives xs disk st co s now execute r t' st' es st'')
  obtain ps where ps: "accounted digest k key disk xs ps" and kd: "keyed disk" using lives by auto
  have log: "sound_log digest disk (snapshot_symbol s) (final_disk disk es) (submissions es)"
    using process_log [OF lives(2) kd lives(3)] .
  then have filt: "filter (\<lambda>x. submission_symbol x = k) (submissions es) =
      (if snapshot_symbol s = k then submissions es else [])"
    using submits_symbol unfolding sound_log_def by blast
  show ?case
  proof (cases "snapshot_symbol s = k")
    case True
    then show ?thesis using accounted_step [OF ps] log lives(4) filt by (auto simp: sound_log_def)
  next
    case False
    then have "dict_get (final_disk disk es) k = dict_get disk k" using log by (simp add: sound_log_def)
    then show ?thesis using False filt ps log by (auto simp: accounted_def sound_log_def)
  qed
qed

section \<open>Which order a step submits\<close>

definition planned_order ::
  "(string \<Rightarrow> string) \<Rightarrow> StrategyConfig \<Rightarrow> HedgeSnapshot \<Rightarrow> HedgeDecision \<Rightarrow> HedgeCycleState option \<Rightarrow>
   submission option" where
  "planned_order digest cfg s d reconciled =
     (case (hd_action d, only_active reconciled) of
        (OPEN_HEDGE, None) \<Rightarrow>
          Some (OpenOrder (snapshot_symbol s) (hd_order_size_delta d)
                 (stable_cloid digest (hd_cycle_key d) ''open:1'')
                 (fo_next_funding_at (hs_funding s) - seconds (cf_latest_open_cutoff_seconds cfg)))
      | (ADJUST_HEDGE, Some c) \<Rightarrow>
          if hc_pending_adjust_cloid c \<noteq> [] then None
          else Some (CloseOrder (snapshot_symbol s) (hedge_size s) (dabs (hd_order_size_delta d))
                 (stable_cloid digest (hc_cycle_key c)
                   (''adjust:'' @ int_text (hc_adjustment_count c + 1))))
      | (CLOSE_HEDGE, Some c) \<Rightarrow>
          if hc_status c = CLOSE_SUBMITTED
             \<and> py_lower (ha_close_order_status (hs_hedge_account s)) \<notin> set TERMINAL_ORDER_STATUSES
          then None
          else Some (CloseOrder (snapshot_symbol s) (hedge_size s) (dabs (hedge_size s))
                 (stable_cloid digest (hc_cycle_key c)
                   (''close:'' @ int_text (hc_close_attempt_count c + 1))))
      | _ \<Rightarrow> None)"

fun answer_to :: "'s hedge_executor \<Rightarrow> submission \<Rightarrow> 's \<Rightarrow> (string + ExecutionResult) \<times> 's" where
  "answer_to ex (OpenOrder symbol sz cloid deadline) st = he_open ex symbol sz cloid deadline st"
| "answer_to ex (CloseOrder symbol current sz cloid) st = he_close ex symbol current sz cloid st"

definition carries_out ::
  "'s hedge_executor \<Rightarrow> submission option \<Rightarrow> CycleTransaction \<Rightarrow> 's \<Rightarrow> CycleTransaction \<Rightarrow> 's \<Rightarrow> bool" where
  "carries_out ex plan t st t' st' =
     (submissions (ct_effects (tx_flush t')) = submissions (ct_effects t) @ (case plan of None \<Rightarrow> [] | Some x \<Rightarrow> [x])
      \<and> st' = (case plan of None \<Rightarrow> st | Some x \<Rightarrow> snd (answer_to ex x st)))"

lemma submissions_flush [simp]: "submissions (ct_effects (tx_flush t)) = submissions (ct_effects t)"
  by (simp add: tx_flush_def)

lemma carries_out_nothing:
  "submissions (ct_effects t') = submissions (ct_effects t) \<Longrightarrow> carries_out ex None t st t' st"
  by (simp add: carries_out_def)

lemma open_step_carries:
  assumes "open_step digest cfg ex s now d t st = (r, t', st')" and "hd_snapshot d = s"
  shows "carries_out ex (Some (OpenOrder (snapshot_symbol s) (hd_order_size_delta d)
                 (stable_cloid digest (hd_cycle_key d) ''open:1'')
                 (fo_next_funding_at (hs_funding s) - seconds (cf_latest_open_cutoff_seconds cfg)))) t st t' st'"
  using assms(1) unfolding open_step_def Let_def
  by (rule after_execution_put) (use assms(2) in \<open>simp add: carries_out_def\<close>)

lemma dispatch_carries:
  assumes run: "dispatch digest cfg ex s now d x t st = (r, t', st')" and snap: "hd_snapshot d = s"
  shows "carries_out ex (planned_order digest cfg s d x) t st t' st'"
proof (cases "only_active x")
  case None
  then show ?thesis using run open_step_carries [OF _ snap]
    by (auto simp: dispatch_def planned_order_def finished_def carries_out_nothing
        split: HedgeAction.splits)
next
  case (Some c)
  have adjust: "carries_out ex (planned_order digest cfg s d x) t st t' st'"
    if "hd_action d = ADJUST_HEDGE" "adjust_step digest ex s now d c t st = (r, t', st')"
    using that(2) unfolding adjust_step_def Let_def
    by (simp add: planned_order_def that(1) Some finished_def carries_out_nothing split: if_splits,
        elim after_execution_put)
       (simp add: carries_out_def)
  have close: "carries_out ex (planned_order digest cfg s d x) t st t' st'"
    if "hd_action d = CLOSE_HEDGE" "close_step digest ex s now d c t st = (r, t', st')"
    using that(2) unfolding close_step_def Let_def
    by (simp add: planned_order_def that(1) Some finished_def carries_out_nothing split: if_splits,
        elim after_execution_put)
       (auto simp: carries_out_def)
  show ?thesis using run Some adjust close
    by (auto simp: dispatch_def planned_order_def [of digest cfg s d x] finished_def
        wait_step_def recovery_step_def Let_def carries_out_nothing split: HedgeAction.splits)
qed

text \<open>The decision of a step, after a settled cycle turned an opening into a hold.\<close>

definition step_decision ::
  "StrategyConfig \<Rightarrow> HedgeSnapshot \<Rightarrow> instant \<Rightarrow> HedgeCycleState option \<Rightarrow> HedgeDecision result" where
  "step_decision cfg s now reconciled =
     rbind (evaluate cfg s (Aware now) (only_active reconciled))
       (\<lambda>d. Inr (hold_if_settled reconciled d))"

lemma dispatch_decision:
  assumes "dispatch digest cfg ex s now d x t st = (r, t', st')"
  obtains res where "r = Inr res" and "cr_decision res = d"
proof -
  have "\<exists>res. fst (dispatch digest cfg ex s now d x t st) = Inr res \<and> cr_decision res = d"
    by (auto simp: dispatch_def finished_def open_step_def wait_step_def adjust_step_def
        close_step_def recovery_step_def after_execution_def Let_def
        split: HedgeAction.splits option.splits prod.splits sum.splits)
  then show thesis using assms that by auto
qed

lemma process_runs:
  assumes "co_executor co = Some ex" and "cf_execution_enabled (co_config co)"
    and "now = evaluation_time co True t"
    and "stored = dict_get disk (snapshot_symbol s)"
    and "x = reconcile (co_config co) s now stored"
    and "step_decision (co_config co) s now x = Inr d"
    and "dispatch digest (co_config co) ex s now d x
           (tx_flush (put_if_changed stored x (tx_begin disk))) st = (Inr res, t', st')"
  shows "process digest co s (Aware t) True disk st = (Inr res, tx_flush t', st')"
  using assms
  by (auto simp: process_def process_body_def step_decision_def Let_def rbind_Inr_iff)

text \<open>
  A processing step does what its decision says. With execution enabled and an executor
  present, a step whose evaluation succeeds returns that decision, hands the executor exactly the
  planned order (or none), and leaves the executor in the state this one call leaves it in.
\<close>

theorem process_executes_plan:
  assumes ex: "co_executor co = Some ex" "cf_execution_enabled (co_config co)"
    and now: "now = evaluation_time co True t"
    and x: "x = reconcile (co_config co) s now (dict_get disk (snapshot_symbol s))"
    and d: "step_decision (co_config co) s now x = Inr d"
  shows "\<exists>res t' st'. process digest co s (Aware t) True disk st = (Inr res, t', st')
           \<and> cr_decision res = d
           \<and> submissions (ct_effects t') =
               (case planned_order digest (co_config co) s d x of None \<Rightarrow> [] | Some y \<Rightarrow> [y])
           \<and> st' = (case planned_order digest (co_config co) s d x of
                      None \<Rightarrow> st | Some y \<Rightarrow> snd (answer_to ex y st))"
proof -
  let ?t = "tx_flush (put_if_changed (dict_get disk (snapshot_symbol s)) x (tx_begin disk))"
  obtain r t' st' where run: "dispatch digest (co_config co) ex s now d x ?t st = (r, t', st')"
    by (metis prod_cases3)
  obtain res where res: "r = Inr res" "cr_decision res = d" using dispatch_decision [OF run] .
  have "hd_snapshot d = s"
    using d evaluate_snapshot by (auto simp: step_decision_def rbind_Inr_iff)
  then have "carries_out ex (planned_order digest (co_config co) s d x) ?t st t' st'"
    using dispatch_carries [OF run] by blast
  moreover have "submissions (ct_effects ?t) = []"
    by (simp add: put_if_changed_def split: option.splits)
  ultimately show ?thesis
    using process_runs [OF ex now refl x d run [unfolded res(1)]] res(2)
    by (simp add: carries_out_def)
qed

definition example_coordinator :: "executor_state HedgeCoordinator" where
  "example_coordinator =
     \<lparr>co_config = example_config, co_executor = Some (live_executor example_sdk example_config),
      co_clock = None\<rparr>"

lemma example_step:
  "\<exists>d. step_decision example_config example_snapshot example_now None = Inr d
     \<and> hd_action d = OPEN_HEDGE \<and> hd_order_size_delta d = - 100"
  using example_opens by (auto simp: step_decision_def only_active_def hold_if_settled_def)

theorem process_executes_plan_witness:
  "\<exists>d res t' st'.
     process (\<lambda>_. []) example_coordinator example_snapshot (Aware example_now) True [] example_connected
       = (Inr res, t', st')
     \<and> cr_decision res = d \<and> hd_action d = OPEN_HEDGE
     \<and> submissions (ct_effects t') =
         [OpenOrder (snapshot_symbol example_snapshot) (- 100) (stable_cloid (\<lambda>_. []) (hd_cycle_key d) ''open:1'')
            (fo_next_funding_at (hs_funding example_snapshot) - seconds (cf_latest_open_cutoff_seconds example_config))]"
proof -
  obtain d where d: "step_decision example_config example_snapshot example_now None = Inr d"
    "hd_action d = OPEN_HEDGE" "hd_order_size_delta d = - 100"
    using example_step by blast
  have co: "co_config example_coordinator = example_config"
    "co_executor example_coordinator = Some (live_executor example_sdk example_config)"
    "evaluation_time example_coordinator True example_now = example_now"
    by (simp_all add: example_coordinator_def evaluation_time_def)
  have "cf_execution_enabled example_config" by (simp add: example_config_def)
  then show ?thesis
    using process_executes_plan [where co = example_coordinator and t = example_now and
        disk = "[]" and s = example_snapshot and d = d and st = example_connected and digest = "\<lambda>_. []",
        OF co(2) _ refl refl]
    by (intro exI [of _ d]) (force simp: co d planned_order_def only_active_def)
qed

section \<open>Properties\<close>

text \<open>
  C6. Orders are announced before they are sent. Every step, whatever the policy decides and the
  executor answers, submits at most one order, and at the moment it is handed to the executor the
  state file already holds a cycle that announces it under its client order id.
\<close>

theorem submissions_are_announced:
  "case process digest co s now execute disk st of
     (r, t', st') \<Rightarrow> write_ahead disk (ct_effects t') \<and> length (submissions (ct_effects t')) \<le> 1
                     \<and> ct_disk t' = final_disk disk (ct_effects t')"
  using process_write_ahead [of digest co s now execute disk st]
  by (cases "process digest co s now execute disk st") auto

text \<open>
  C7. The stored cycles survive a crash at any point. If a process stops after any prefix of its
  effects, the state file is still keyed by symbol, and the cycle of every symbol is unchanged,
  is a later stage of itself (same identity, counters not decreased, unchanged once terminal),
  or was terminal and gave way to a new cycle with another key.
\<close>

theorem crash_safe_evolution:
  assumes "process digest co s now execute disk st = (r, t', st')" and "keyed disk"
    and "prefix es (ct_effects t')"
  shows "keyed (final_disk disk es)
    \<and> advances (dict_get disk k) (dict_get (final_disk disk es) k)"
proof
  have log: "sound_log digest disk (snapshot_symbol s) (final_disk disk es) (submissions es)"
    using process_log [OF assms] .
  then show "keyed (final_disk disk es)" by (simp add: sound_log_def)
  show "advances (dict_get disk k) (dict_get (final_disk disk es) k)"
    using log advances_refl by (cases "k = snapshot_symbol s") (auto simp: sound_log_def)
qed

lemma example_process:
  "\<exists>res t' st' x.
     process (\<lambda>_. []) example_coordinator example_snapshot (Aware example_now) True []
       example_connected = (Inr res, t', st')
     \<and> submissions (ct_effects t') = [x] \<and> submission_symbol x = ''xyz:SKHX''"
proof -
  obtain d where d: "step_decision example_config example_snapshot example_now None = Inr d"
    "hd_action d = OPEN_HEDGE" "hd_order_size_delta d = - 100"
    using example_step by blast
  let ?ex = "live_executor example_sdk example_config"
  have co: "co_config example_coordinator = example_config"
    "co_executor example_coordinator = Some ?ex"
    "evaluation_time example_coordinator True example_now = example_now"
    "cf_execution_enabled example_config"
    by (simp_all add: example_coordinator_def evaluation_time_def example_config_def)
  obtain r t' st' where run: "dispatch (\<lambda>_. []) example_config ?ex example_snapshot example_now d None
      (tx_begin []) example_connected = (r, t', st')" by (metis prod_cases3)
  obtain res where res: "r = Inr res" using dispatch_decision [OF run] .
  have "hd_snapshot d = example_snapshot"
    using d(1) evaluate_snapshot by (auto simp: step_decision_def rbind_Inr_iff)
  from dispatch_carries [OF run this]
  have "\<exists>x. submissions (ct_effects (tx_flush t')) = [x] \<and> submission_symbol x = ''xyz:SKHX''"
    by (simp add: carries_out_def planned_order_def d only_active_def snapshot_symbol_def
        example_snapshot_def)
  moreover have "process (\<lambda>_. []) example_coordinator example_snapshot (Aware example_now) True []
      example_connected = (Inr res, tx_flush t', st')"
    by (rule process_runs [OF co(2) _ refl refl refl])
       (use run res d in \<open>simp_all add: co put_if_changed_def\<close>)
  ultimately show ?thesis by blast
qed

text \<open>The end of a process is one of the points where it may stop.\<close>

theorem crash_safe_evolution_witness:
  "\<exists>es. submissions es \<noteq> [] \<and> keyed (final_disk [] es)
     \<and> advances None (dict_get (final_disk [] es) ''xyz:SKHX'')"
proof -
  obtain res t' st' x where run: "process (\<lambda>_. []) example_coordinator example_snapshot
      (Aware example_now) True [] example_connected = (Inr res, t', st')"
    and x: "submissions (ct_effects t') = [x]"
    using example_process by blast
  have "keyed []" by (simp add: keyed_def)
  note ok = crash_safe_evolution [OF run this prefix_order.refl]
  show ?thesis using ok [of "''xyz:SKHX''"] x by (intro exI [of _ "ct_effects t'"]) simp
qed


lemma example_lifetime:
  "\<exists>key x fin. lifetime (\<lambda>_. []) ''xyz:SKHX'' key ([], example_connected) [x] fin"
proof -
  obtain res t' st' x where run: "process (\<lambda>_. []) example_coordinator example_snapshot
      (Aware example_now) True [] example_connected = (Inr res, t', st')"
    and x: "submissions (ct_effects t') = [x]" "submission_symbol x = ''xyz:SKHX''"
    using example_process by blast
  obtain key where key: "\<And>c. dict_get (final_disk [] (ct_effects t')) ''xyz:SKHX'' = Some c \<Longrightarrow>
      hc_cycle_key c = key"
    by (cases "dict_get (final_disk [] (ct_effects t')) ''xyz:SKHX''") auto
  show ?thesis
    using lifetime.lives [OF lifetime.unborn run prefix_order.refl key] x by fastforce
qed


text \<open>
  Report-only mode is read-only. Without \<open>execute\<close>, with execution disabled or without an
  executor, a step writes nothing, submits nothing and leaves the executor alone.
\<close>

theorem report_only_changes_nothing:
  assumes "\<not> execute \<or> \<not> cf_execution_enabled (co_config co) \<or> co_executor co = None"
  shows "snd (process digest co s now execute disk st) = (tx_begin disk, st)"
proof -
  obtain r t' st' where p: "process digest co s now execute disk st = (r, t', st')"
    by (metis prod_cases3)
  from p show ?thesis by (cases rule: process_cases) (use assms p in auto)
qed

theorem report_only_changes_nothing_witness:
  "snd (process (\<lambda>_. []) example_coordinator example_snapshot (Aware example_now) False [] example_connected)
     = (tx_begin [], example_connected)"
  by (rule report_only_changes_nothing) simp

text \<open>
  A settlement is hedged at most once. When the stored cycle is terminal and belongs to the
  settlement the snapshot announces, a step writes nothing and submits nothing.
\<close>

theorem settled_cycle_is_final:
  assumes "dict_get disk (snapshot_symbol s) = Some c" and "terminal (hc_status c)"
    and "hc_cycle_key c = cycle_key_of (co_config co) s (fo_next_funding_at (hs_funding s))"
  shows "snd (process digest co s now execute disk st) = (tx_begin disk, st)"
proof -
  obtain r t' st' where p: "process digest co s now execute disk st = (r, t', st')"
    by (metis prod_cases3)
  from p show ?thesis
  proof (cases rule: process_cases)
    case idle
    then show ?thesis using p by simp
  next
    case (run ex d t stored reconciled t1 t2)
    have x: "reconciled = Some c" "stored = Some c" "only_active reconciled = None"
      using run(5,6) assms(1,2) by (simp_all add: reconcile_def active_def only_active_def)
    have "hd_cycle_key d = hc_cycle_key c"
      using run(8) by (rule evaluate_Inr)
        (simp add: x assms(3) settlement_of_def only_active_def)
    then have "hd_action (hold_if_settled reconciled d) \<noteq> OPEN_HEDGE"
      using assms(2) by (simp add: hold_if_settled_def x)
    then have "t2 = t1 \<and> st' = st"
      using run(9) x by (auto simp: dispatch_def finished_def split: HedgeAction.splits)
    then show ?thesis using run(7,10) p x by (simp add: put_if_changed_def)
  qed
qed

definition example_done :: HedgeCycleState where
  "example_done = example_cycle
     \<lparr>hc_status := COMPLETED,
      hc_cycle_key := cycle_key_of example_config example_snapshot example_settlement\<rparr>"

theorem settled_cycle_is_final_witness:
  "snd (process (\<lambda>_. []) example_coordinator example_snapshot (Aware example_now) True
          [(''xyz:SKHX'', example_done)] example_connected)
     = (tx_begin [(''xyz:SKHX'', example_done)], example_connected)"
  by (rule settled_cycle_is_final [of _ _ example_done])
     (simp_all add: snapshot_symbol_def example_snapshot_def example_done_def example_coordinator_def
        terminal_def)

section \<open>Reconciliation\<close>

lemma reconcile_status:
  assumes "active c" and "same_cycle_identity cfg c s"
  shows "\<exists>c'. reconcile cfg s now (Some c) = Some c'
           \<and> hc_status c' = hc_status (reconcile_settlement now (reconcile_close cfg s now
               (reconcile_open cfg s now (reconcile_adjust cfg s now c))))"
  using assms by (simp add: reconcile_def record_observation_def Let_def)

lemma reconcile_adjust_none: "hc_pending_adjust_cloid c = [] \<Longrightarrow> reconcile_adjust cfg s now c = c"
  by (simp add: reconcile_adjust_def Let_def)

lemma reconcile_close_skips:
  "hc_status c \<notin> {CLOSE_SUBMITTED, CLOSE_PARTIAL} \<Longrightarrow> reconcile_close cfg s now c = c"
  by (simp add: reconcile_close_def Let_def)

lemma reconcile_open_skips:
  "hc_status c \<notin> {OPEN_SUBMITTED, OPEN_PARTIAL} \<Longrightarrow> reconcile_open cfg s now c = c"
  by (simp add: reconcile_open_def Let_def)

lemma reconcile_open_status:
  assumes "hc_status c = OPEN_SUBMITTED" "elapsed now (hc_open_submitted_at c) (cf_open_reconciliation_timeout_seconds cfg)"
  shows "hc_status (reconcile_open cfg s now c) =
     (if hedge_size s \<noteq> 0 then if dabs (hedge_size s) < dabs (hc_target_hedge_size c) then OPEN_PARTIAL else HEDGED
      else if py_lower (ha_open_order_status (hs_hedge_account s)) = ''filled'' then RECOVERY_REQUIRED else ABORTED)"
  using assms by (simp add: reconcile_open_def failed_order_statuses_def Let_def)

text \<open>
  An ambiguous opening is resolved. For an open order submitted at least the reconciliation
  timeout ago, with no adjustment pending, reconciliation leaves the submitted state: a hedge that
  holds a position is partial, hedged or awaiting funding; a flat one is aborted, or needs recovery
  when the exchange reports a fill.
\<close>

theorem stale_open_is_resolved:
  assumes "hc_status c = OPEN_SUBMITTED" and "hc_pending_adjust_cloid c = []"
    and "same_cycle_identity cfg c s"
    and "hc_open_submitted_at c = Some t"
    and "t + seconds (cf_open_reconciliation_timeout_seconds cfg) \<le> now"
  shows "\<exists>c'. reconcile cfg s now (Some c) = Some c'
     \<and> (if hedge_size s = 0
        then hc_status c' = (if py_lower (ha_open_order_status (hs_hedge_account s)) = ''filled''
                             then RECOVERY_REQUIRED else ABORTED)
        else hc_status c' = (if hc_settlement_at c \<le> now then AWAITING_FUNDING
                             else if dabs (hedge_size s) < dabs (hc_target_hedge_size c)
                             then OPEN_PARTIAL else HEDGED))"
proof -
  let ?c = "reconcile_open cfg s now c"
  have el: "elapsed now (hc_open_submitted_at c) (cf_open_reconciliation_timeout_seconds cfg)"
    using assms(4,5) by (simp add: elapsed_def)
  note st = reconcile_open_status [OF assms(1) el, of s]
  have "hc_settlement_at ?c = hc_settlement_at c"
    using reconcile_phases(2) by (simp add: same_cycle_def)
  moreover have "reconcile_close cfg s now ?c = ?c"
    by (rule reconcile_close_skips) (simp add: st)
  ultimately show ?thesis
    using reconcile_status [OF _ assms(3), of now] assms(1) reconcile_adjust_none [OF assms(2)] st
    by (auto simp: active_def terminal_def reconcile_settlement_def)
qed

definition example_submitted :: HedgeCycleState where
  "example_submitted = example_cycle\<lparr>hc_status := OPEN_SUBMITTED, hc_actual_hedge_size := 0\<rparr>"

theorem stale_open_is_resolved_witness:
  "\<exists>c'. reconcile example_config example_snapshot (example_now + seconds 3600) (Some example_submitted)
          = Some c' \<and> hc_status c' = ABORTED"
proof -
  have h: "hedge_size example_snapshot = 0" "ha_open_order_status (hs_hedge_account example_snapshot) = []"
    by (simp_all add: example_snapshot_def)
  have "same_cycle_identity example_config example_submitted example_snapshot" by code_simp
  then show ?thesis
    using stale_open_is_resolved [of example_submitted example_config example_snapshot example_now
        "example_now + seconds 3600"] h
    by (simp add: example_submitted_def example_cycle_def example_config_def default_config_def seconds_def py_lower_def)
qed

text \<open>
  A close is followed up. With no adjustment pending, a submitted or partial close is completed
  as soon as the hedge is flat; a remaining position with an ended or stale order becomes a partial
  close, which the next close decision retries.
\<close>

theorem submitted_close_is_followed_up:
  assumes "hc_status c \<in> {CLOSE_SUBMITTED, CLOSE_PARTIAL}" and "hc_pending_adjust_cloid c = []"
    and "same_cycle_identity cfg c s"
    and "hedge_size s = 0
         \<or> py_lower (ha_close_order_status (hs_hedge_account s)) \<in> set TERMINAL_ORDER_STATUSES
         \<or> elapsed now (hc_close_submitted_at c) (cf_ambiguous_order_retry_seconds cfg)"
  shows "\<exists>c'. reconcile cfg s now (Some c) = Some c'
           \<and> hc_status c' = (if hedge_size s = 0 then COMPLETED else CLOSE_PARTIAL)"
proof -
  have st: "hc_status (reconcile_close cfg s now c) =
      (if hedge_size s = 0 then COMPLETED else CLOSE_PARTIAL)"
    using assms(1,4) by (auto simp: reconcile_close_def Let_def)
  have "reconcile_open cfg s now c = c" using assms(1) by (auto intro: reconcile_open_skips)
  then show ?thesis
    using reconcile_status [OF _ assms(3), of now] assms(1) reconcile_adjust_none [OF assms(2)] st
    by (auto simp: active_def terminal_def reconcile_settlement_def split: if_splits)
qed

theorem submitted_close_is_followed_up_witness:
  "\<exists>c'. reconcile example_config example_snapshot example_now
          (Some (example_cycle\<lparr>hc_status := CLOSE_SUBMITTED\<rparr>)) = Some c' \<and> hc_status c' = COMPLETED"
proof -
  have h: "hedge_size example_snapshot = 0" by (simp add: example_snapshot_def)
  have "same_cycle_identity example_config (example_cycle\<lparr>hc_status := CLOSE_SUBMITTED\<rparr>) example_snapshot"
    by code_simp
  then show ?thesis
    using submitted_close_is_followed_up [of "example_cycle\<lparr>hc_status := CLOSE_SUBMITTED\<rparr>"
        example_config example_snapshot example_now] h
    by (simp add: example_cycle_def)
qed

text \<open>
  C34. A close that succeeds while an adjustment is pending is not recognised. The pending
  adjustment is settled first and resets the status to hedged, so the flat hedge of a submitted
  close is not completed, and the next decision asks for recovery because the hedge disappeared.
\<close>

theorem close_lost_to_pending_adjustment:
  assumes "hc_status c = CLOSE_SUBMITTED" and "hc_pending_adjust_cloid c \<noteq> []"
    and "hc_pre_adjust_hedge_size c \<noteq> 0" and "same_cycle_identity cfg c s" and "hedge_size s = 0"
  shows "\<exists>c'. reconcile cfg s now (Some c) = Some c'
           \<and> hc_status c' = (if hc_settlement_at c \<le> now then AWAITING_FUNDING else HEDGED)
           \<and> (\<forall>d. evaluate cfg s (Aware now) (Some c') = Inr d \<longrightarrow>
                  hd_action d = ACTION_RECOVERY_REQUIRED)"
proof -
  let ?c = "(clear_adjustment c)\<lparr>hc_status := HEDGED\<rparr>"
  have "dabs 0 = 0" by (simp add: dabs_eq0)
  then have "dabs (hedge_size s) < dabs (hc_pre_adjust_hedge_size c)"
    using assms(3,5) by (simp add: dabs_pos)
  then have adj: "reconcile_adjust cfg s now c = ?c"
    using assms(2) by (simp add: reconcile_adjust_def Let_def)
  have "reconcile_close cfg s now ?c = ?c" "reconcile_open cfg s now ?c = ?c"
    by (simp_all add: reconcile_close_skips reconcile_open_skips)
  then obtain c' where c': "reconcile cfg s now (Some c) = Some c'"
    "hc_status c' = (if hc_settlement_at c \<le> now then AWAITING_FUNDING else HEDGED)"
    using reconcile_status [OF _ assms(4), of now] assms(1) adj
    by (auto simp: active_def terminal_def reconcile_settlement_def clear_adjustment_def)
  have "hd_action d = ACTION_RECOVERY_REQUIRED" if "evaluate cfg s (Aware now) (Some c') = Inr d" for d
    using that
    by (rule evaluate_Inr)
       (use c'(2) assms(5) in \<open>auto simp: only_active_def active_def terminal_def choose_action_def
          choose_flat_with_cycle_def plain_choice_def split: if_splits\<close>)
  with c' show ?thesis by blast
qed

theorem close_lost_to_pending_adjustment_witness:
  "\<exists>c'. reconcile example_config example_snapshot example_now
          (Some (example_cycle\<lparr>hc_status := CLOSE_SUBMITTED, hc_pending_adjust_cloid := ''0xadjust'',
                               hc_pre_adjust_hedge_size := - 150\<rparr>)) = Some c'
        \<and> hc_status c' = HEDGED"
proof -
  let ?c = "example_cycle\<lparr>hc_status := CLOSE_SUBMITTED, hc_pending_adjust_cloid := ''0xadjust'',
              hc_pre_adjust_hedge_size := - 150\<rparr>"
  have h: "hedge_size example_snapshot = 0" by (simp add: example_snapshot_def)
  have "same_cycle_identity example_config ?c example_snapshot" by code_simp
  then show ?thesis
    using close_lost_to_pending_adjustment [of ?c example_config example_snapshot example_now] h
    by (auto simp: example_cycle_def example_settlement_def example_now_def)
qed



end
