(* ===== verification/Hedge_Service.thy ===== *)
theory Hedge_Service
  imports Hedge_Lifetime
begin

text \<open>
  One polling iteration of the funding hedge (\<^verbatim>\<open>src/funding_fee_avoidance/service.py\<close>): the
  check of the stored cycles against the configuration, the loop over the snapshots with its
  preview, deferral and refresh before an opening, and the report.

  The adapter that reads the exchange is the parameter \<open>sv_load\<close>: the answer to the n-th request
  for the observation time and the stored cycles, as snapshots and error texts. The wall clock
  is \<open>sv_clock\<close>, its n-th reading. The executor is the given one, or built by \<open>sv_make\<close>; for the
  live service \<open>sv_make\<close> is \<open>make_live\<close>.
\<close>

record 's FundingHedgeService =
  sv_config :: StrategyConfig
  sv_executor :: "'s hedge_executor option"
  sv_make :: "('s hedge_executor \<times> 's) result"
  sv_load :: "nat \<Rightarrow> instant \<Rightarrow> cycles \<Rightarrow> HedgeSnapshot list \<times> string list"
  sv_clock :: "nat \<Rightarrow> instant"

definition make_live ::
  "sdk \<Rightarrow> StrategyConfig \<Rightarrow> string \<Rightarrow> (executor_state hedge_executor \<times> executor_state) result" where
  "make_live k cfg reader_address =
     rbind (check_executor_addresses cfg reader_address) (\<lambda>st. Inr (live_executor k cfg, st))"

text \<open>What an iteration threads through its calls.\<close>

record 's service_state =
  ss_disk :: cycles
  ss_exec :: 's
  ss_loads :: nat
  ss_ticks :: nat
  ss_effects :: "effect list"
  ss_errors :: "string list"
  ss_results :: "CoordinatorResult list"
  ss_open_attempted :: bool

definition config_mismatch :: "StrategyConfig \<Rightarrow> HedgeCycleState \<Rightarrow> bool" where
  "config_mismatch cfg c =
     (active c
      \<and> (py_lower (hc_primary_account_address c) \<noteq> py_lower (cf_primary_account_address cfg)
         \<or> py_lower (hc_hedge_account_address c) \<noteq> py_lower (cf_hedge_account_address cfg)
         \<or> hc_network c \<noteq> cf_network cfg
         \<or> hc_hedge_account_kind c \<noteq> cf_hedge_account_kind cfg))"

definition mismatch_error :: "HedgeCycleState \<Rightarrow> py_error" where
  "mismatch_error c =
     RuntimeError (''active cycle '' @ hc_cycle_key c @ '' does not match current network/account ''
       @ ''configuration; restore the original configuration before managing the tracked hedge'')"

definition coordinator_for ::
  "'s FundingHedgeService \<Rightarrow> 's hedge_executor option \<Rightarrow> nat \<Rightarrow> 's HedgeCoordinator" where
  "coordinator_for sv ex ticks =
     \<lparr>co_config = sv_config sv, co_executor = ex,
      co_clock = Some (sv_clock sv ticks)\<rparr>"

text \<open>One call of the coordinator: its clock is read only when it executes.\<close>

definition run_process ::
  "(string \<Rightarrow> string) \<Rightarrow> 's FundingHedgeService \<Rightarrow> 's hedge_executor option \<Rightarrow> HedgeSnapshot \<Rightarrow>
   instant \<Rightarrow> bool \<Rightarrow> 's service_state \<Rightarrow> CoordinatorResult result \<times> 's service_state" where
  "run_process digest sv ex s evaluated_at execute ss =
     (case process digest (coordinator_for sv ex (ss_ticks ss)) s (Aware evaluated_at)
             execute (ss_disk ss) (ss_exec ss) of
        (r, t, st) \<Rightarrow>
          (r, ss\<lparr>ss_disk := ct_disk t, ss_exec := st,
                 ss_ticks := (if execute then Suc (ss_ticks ss) else ss_ticks ss),
                 ss_effects := ss_effects ss @ ct_effects t\<rparr>))"

definition report_result :: "CoordinatorResult \<Rightarrow> 's service_state \<Rightarrow> 's service_state" where
  "report_result r ss = ss\<lparr>ss_results := ss_results ss @ [r]\<rparr>"

definition add_errors :: "string list \<Rightarrow> 's service_state \<Rightarrow> 's service_state" where
  "add_errors es ss = ss\<lparr>ss_errors := ss_errors ss @ es\<rparr>"

definition deferral_text :: "HedgeSnapshot \<Rightarrow> string" where
  "deferral_text s = snapshot_symbol s @ '': new hedge deferred; at most one new hedge ''
     @ ''is opened per polling iteration so margin can be refreshed''"

definition refresh_failure_text :: "HedgeSnapshot \<Rightarrow> string" where
  "refresh_failure_text s =
     snapshot_symbol s @ '': final pre-open refresh failed; no order sent''"

text \<open>
  The re-read before an opening: the snapshot of the same symbol, if the refresh has one. The
  clock is read for \<^verbatim>\<open>refreshed_at\<close>.
\<close>

definition refresh ::
  "'s FundingHedgeService \<Rightarrow> HedgeSnapshot \<Rightarrow> 's service_state \<Rightarrow>
   HedgeSnapshot option \<times> 's service_state" where
  "refresh sv s ss =
     (case sv_load sv (ss_loads ss) (sv_clock sv (ss_ticks ss)) (load_all (ss_disk ss)) of
        (refreshed, errors) \<Rightarrow>
          (find (\<lambda>item. snapshot_symbol item = snapshot_symbol s) refreshed,
           add_errors errors (ss\<lparr>ss_loads := Suc (ss_loads ss), ss_ticks := Suc (ss_ticks ss)\<rparr>)))"

definition execute_selected ::
  "(string \<Rightarrow> string) \<Rightarrow> 's FundingHedgeService \<Rightarrow> 's hedge_executor option \<Rightarrow> instant \<Rightarrow>
   HedgeSnapshot \<Rightarrow> 's service_state \<Rightarrow> unit result \<times> 's service_state" where
  "execute_selected digest sv ex evaluated_at s ss =
     (case run_process digest sv ex s evaluated_at True ss of
        (Inl e, ss') \<Rightarrow> (Inl e, ss')
      | (Inr r, ss') \<Rightarrow>
          let attempted = hd_action (cr_decision r) = OPEN_HEDGE
                          \<and> (cr_execution r \<noteq> None \<or> cr_execution_error r \<noteq> [])
          in (Inr (), report_result r
                (ss'\<lparr>ss_open_attempted := (ss_open_attempted ss' \<or> attempted)\<rparr>)))"

definition handle_snapshot ::
  "(string \<Rightarrow> string) \<Rightarrow> 's FundingHedgeService \<Rightarrow> 's hedge_executor option \<Rightarrow> instant \<Rightarrow> bool \<Rightarrow>
   HedgeSnapshot \<Rightarrow> 's service_state \<Rightarrow> unit result \<times> 's service_state" where
  "handle_snapshot digest sv ex evaluated_at execute s ss =
     (case run_process digest sv ex s evaluated_at False ss of
        (Inl e, ss1) \<Rightarrow> (Inl e, ss1)
      | (Inr preview, ss1) \<Rightarrow>
        let opening = (execute \<and> hd_action (cr_decision preview) = OPEN_HEDGE)
        in if opening \<and> ss_open_attempted ss1
             then (Inr (), report_result preview (add_errors [deferral_text s] ss1))
           else if opening then
             (case refresh sv s ss1 of
                (None, ss2) \<Rightarrow>
                  (Inr (), report_result preview (add_errors [refresh_failure_text s] ss2))
              | (Some item, ss2) \<Rightarrow> execute_selected digest sv ex evaluated_at item ss2)
           else if execute then execute_selected digest sv ex evaluated_at s ss1
           else (Inr (), report_result preview ss1))"

fun handle_snapshots ::
  "(string \<Rightarrow> string) \<Rightarrow> 's FundingHedgeService \<Rightarrow> 's hedge_executor option \<Rightarrow> instant \<Rightarrow> bool \<Rightarrow>
   HedgeSnapshot list \<Rightarrow> 's service_state \<Rightarrow> unit result \<times> 's service_state" where
  "handle_snapshots digest sv ex evaluated_at execute [] ss = (Inr (), ss)"
| "handle_snapshots digest sv ex evaluated_at execute (s # snapshots) ss =
     (case handle_snapshot digest sv ex evaluated_at execute s ss of
        (Inl e, ss') \<Rightarrow> (Inl e, ss')
      | (Inr _, ss') \<Rightarrow> handle_snapshots digest sv ex evaluated_at execute snapshots ss')"

section \<open>The report\<close>

record rendered_decision =
  rd_decision :: HedgeDecision
  rd_cycle :: "HedgeCycleState option"
  rd_execution :: "(bool \<times> rat \<times> string) option"
  rd_execution_error :: string

record service_report =
  rp_mode :: string
  rp_orders_enabled :: bool
  rp_evaluated_at :: instant
  rp_symbols_evaluated :: nat
  rp_action_counts :: "(string, nat) dict"
  rp_errors :: "string list"
  rp_decisions :: "rendered_decision list"

definition no_actions :: "(string, nat) dict" where
  "no_actions = [(''open_hedge'', 0), (''wait_for_funding'', 0), (''close_hedge'', 0),
                 (''adjust_hedge'', 0), (''recovery_required'', 0), (''hold'', 0)]"

definition count_action :: "HedgeDecision \<Rightarrow> (string, nat) dict \<Rightarrow> (string, nat) dict" where
  "count_action d counts =
     (let k = action_value (hd_action d)
      in case dict_get counts k of None \<Rightarrow> counts | Some n \<Rightarrow> dict_put k (Suc n) counts)"

definition results_by_key :: "CoordinatorResult list \<Rightarrow> (string, CoordinatorResult) dict" where
  "results_by_key results =
     fold (\<lambda>r d. dict_put (hd_cycle_key (cr_decision r)) r d) results []"

definition rendered ::
  "(string, CoordinatorResult) dict \<Rightarrow> HedgeDecision \<Rightarrow> rendered_decision" where
  "rendered by_key d =
     (case dict_get by_key (hd_cycle_key d) of
        None \<Rightarrow> \<lparr>rd_decision = d, rd_cycle = None, rd_execution = None, rd_execution_error = []\<rparr>
      | Some r \<Rightarrow> \<lparr>rd_decision = d, rd_cycle = cr_cycle r, rd_execution = execution_dict r,
                   rd_execution_error = cr_execution_error r\<rparr>)"

definition report ::
  "HedgeDecision list \<Rightarrow> CoordinatorResult list \<Rightarrow> instant \<Rightarrow> string list \<Rightarrow> bool \<Rightarrow> service_report" where
  "report decisions results evaluated_at errors execute =
     \<lparr>rp_mode = (if execute then ''live_execute'' else ''report_only''),
      rp_orders_enabled = execute, rp_evaluated_at = evaluated_at,
      rp_symbols_evaluated = length decisions,
      rp_action_counts = fold count_action decisions no_actions, rp_errors = errors,
      rp_decisions = map (rendered (results_by_key results)) decisions\<rparr>"

fun evaluate_all ::
  "StrategyConfig \<Rightarrow> HedgeSnapshot list \<Rightarrow> datetime \<Rightarrow> HedgeDecision list result" where
  "evaluate_all cfg [] now = Inr []"
| "evaluate_all cfg (s # snapshots) now =
     rbind (evaluate cfg s now None) (\<lambda>d.
       rbind (evaluate_all cfg snapshots now) (\<lambda>ds. Inr (d # ds)))"

definition evaluate_snapshots ::
  "StrategyConfig \<Rightarrow> HedgeSnapshot list \<Rightarrow> instant \<Rightarrow> string list \<Rightarrow> service_report result" where
  "evaluate_snapshots cfg snapshots now errors =
     rbind (evaluate_all cfg snapshots (Aware now)) (\<lambda>ds. Inr (report ds [] now errors False))"

section \<open>The iteration\<close>

text \<open>The executor the coordinator of the iteration gets: none when nothing is executed.\<close>

definition executor_for ::
  "'s FundingHedgeService \<Rightarrow> bool \<Rightarrow> 's \<Rightarrow> ('s hedge_executor option \<times> 's) result" where
  "executor_for sv execute st =
     (if \<not> execute then Inr (None, st)
      else case sv_executor sv of
        Some ex \<Rightarrow> Inr (Some ex, st)
      | None \<Rightarrow> rbind (sv_make sv) (\<lambda>p. Inr (Some (fst p), snd p)))"

definition initial_service_state ::
  "cycles \<Rightarrow> 's \<Rightarrow> string list \<Rightarrow> 's service_state" where
  "initial_service_state disk st errors =
     \<lparr>ss_disk = disk, ss_exec = st, ss_loads = 1, ss_ticks = 0, ss_effects = [],
      ss_errors = errors, ss_results = [], ss_open_attempted = False\<rparr>"

definition run_once ::
  "(string \<Rightarrow> string) \<Rightarrow> 's FundingHedgeService \<Rightarrow> instant \<Rightarrow> bool \<Rightarrow> cycles \<Rightarrow> 's \<Rightarrow>
   service_report result \<times> 's service_state" where
  "run_once digest sv evaluated_at execute disk st =
     (let start = initial_service_state disk st []
      in if execute \<and> \<not> cf_execution_enabled (sv_config sv)
           then (Inl (RuntimeError ''--execute also requires FUNDING_HEDGE_EXECUTE=true''), start)
         else case find (config_mismatch (sv_config sv)) (map snd (load_all disk)) of
           Some c \<Rightarrow> (Inl (mismatch_error c), start)
         | None \<Rightarrow>
           (case sv_load sv 0 evaluated_at (load_all disk) of
              (snapshots, errors) \<Rightarrow>
                (case executor_for sv execute st of
                   Inl e \<Rightarrow> (Inl e, start)
                 | Inr (ex, st') \<Rightarrow>
                   (case handle_snapshots digest sv ex evaluated_at execute snapshots
                           (initial_service_state disk st' errors) of
                      (Inl e, ss) \<Rightarrow> (Inl e, ss)
                    | (Inr _, ss) \<Rightarrow>
                        (Inr (report (map cr_decision (ss_results ss)) (ss_results ss) evaluated_at
                               (ss_errors ss) execute), ss)))))"

section \<open>Invariants of an iteration\<close>

text \<open>
  What every coordinator call keeps, and what does not depend on the bookkeeping of the loop, the
  whole loop keeps.
\<close>

locale iteration_invariant =
  fixes digest :: "string \<Rightarrow> string" and sv :: "'s FundingHedgeService"
    and ex :: "'s hedge_executor option" and I :: "'s service_state \<Rightarrow> bool"
  assumes process_keeps:
      "I ss \<Longrightarrow> run_process digest sv ex s t execute ss = (r, ss') \<Longrightarrow> I ss'"
    and bookkeeping: "I (ss\<lparr>ss_errors := es\<rparr>) = I ss" "I (ss\<lparr>ss_results := rs\<rparr>) = I ss"
      "I (ss\<lparr>ss_loads := n\<rparr>) = I ss" "I (ss\<lparr>ss_ticks := n\<rparr>) = I ss"
      "I (ss\<lparr>ss_open_attempted := b\<rparr>) = I ss"
begin

lemma execute_selected_keeps:
  "I ss \<Longrightarrow> execute_selected digest sv ex t s ss = (r, ss') \<Longrightarrow> I ss'"
  unfolding execute_selected_def
  by (auto simp: bookkeeping report_result_def Let_def dest: process_keeps
      split: prod.splits sum.splits)

lemma refresh_keeps: "I ss \<Longrightarrow> refresh sv s ss = (r, ss') \<Longrightarrow> I ss'"
  by (auto simp: refresh_def add_errors_def bookkeeping split: prod.splits)

lemma handle_snapshot_keeps:
  assumes "I ss" and run: "handle_snapshot digest sv ex t execute s ss = (r, ss')"
  shows "I ss'"
proof -
  obtain r1 ss1 where p: "run_process digest sv ex s t False ss = (r1, ss1)" by force
  then have I1: "I ss1" using process_keeps assms(1) by blast
  then have plain: "I (report_result x (add_errors es ss1))" "I (report_result x ss1)" for x es
    by (simp_all add: report_result_def add_errors_def bookkeeping)
  obtain r2 ss2 where f: "refresh sv s ss1 = (r2, ss2)" by force
  then have I2: "I ss2" "I (report_result x (add_errors es ss2))" for x es
    using refresh_keeps I1 by (simp_all add: report_result_def add_errors_def bookkeeping)
  show ?thesis
    using run p f I1 plain I2 execute_selected_keeps [OF I1] execute_selected_keeps [OF I2(1)]
    by (auto simp: handle_snapshot_def Let_def split: sum.splits if_splits option.splits)
qed

lemma handle_snapshots_keeps:
  "I ss \<Longrightarrow> handle_snapshots digest sv ex t execute snapshots ss = (r, ss') \<Longrightarrow> I ss'"
proof (induction snapshots arbitrary: ss)
  case (Cons s snapshots)
  obtain r1 ss1 where h: "handle_snapshot digest sv ex t execute s ss = (r1, ss1)" by force
  then have "I ss1" using handle_snapshot_keeps Cons.prems(1) by blast
  then show ?case using Cons.prems(2) Cons.IH h by (auto split: sum.splits)
qed simp

end

text \<open>The stored cycles: keyed, evolving, every order announced.\<close>

definition sound_history :: "cycles \<Rightarrow> 's service_state \<Rightarrow> bool" where
  "sound_history disk ss =
     (keyed (ss_disk ss) \<and> write_ahead disk (ss_effects ss)
      \<and> ss_disk ss = final_disk disk (ss_effects ss)
      \<and> (\<forall>k. advances\<^sup>*\<^sup>* (dict_get disk k) (dict_get (ss_disk ss) k)))"

lemma final_disk_append: "final_disk d (es @ es') = final_disk (final_disk d es) es'"
  by (induction d es rule: final_disk.induct) auto

interpretation cyc: iteration_invariant digest sv ex "sound_history disk" for digest sv ex disk
proof unfold_locales
  fix ss ss' s t execute r
  assume I: "sound_history disk ss"
    and run: "run_process digest sv ex s t execute ss = (r, ss')"
  obtain r' u st where p: "process digest (coordinator_for sv ex (ss_ticks ss)) s
      (Aware t) execute (ss_disk ss) (ss_exec ss) = (r', u, st)" by (metis prod_cases3)
  note wa = process_write_ahead [OF p]
  have keyed: "keyed (ss_disk ss)" using I unfolding sound_history_def by blast
  have log: "sound_log digest (ss_disk ss) (snapshot_symbol s) (ct_disk u) (submissions (ct_effects u))"
    using process_log [OF p keyed prefix_order.refl] wa(2) by simp
  have ss': "ss_disk ss' = ct_disk u" "ss_effects ss' = ss_effects ss @ ct_effects u"
    using run by (auto simp: run_process_def p)
  have "advances (dict_get (ss_disk ss) k) (dict_get (ct_disk u) k)" for k
    using log advances_refl by (cases "k = snapshot_symbol s") (auto simp: sound_log_def)
  then show "sound_history disk ss'"
    using I log wa by (auto simp: sound_history_def ss' write_ahead_append final_disk_append
        sound_log_def intro: rtranclp.rtrancl_into_rtrancl)
qed (simp_all add: sound_history_def)

text \<open>
  C31. A polling iteration keeps the stored cycles sound. Whatever the exchange, the executor and
  the clock answer, and whether it ends in a report or an exception: the state file stays keyed by
  symbol, every order was announced in it before it was submitted, and the cycle of every symbol
  went through a sequence of legal changes.
\<close>

theorem iteration_keeps_cycles_sound:
  assumes "keyed disk"
  shows "sound_history disk (snd (run_once digest sv now execute disk st))"
proof -
  have start: "sound_history disk (initial_service_state disk st' es)" for st' :: 'a and es
    using assms by (simp add: sound_history_def initial_service_state_def)
  have "sound_history disk ss'"
    if "handle_snapshots digest sv ex now execute snaps (initial_service_state disk st' es) = (r, ss')"
    for ex snaps st' es r ss'
    using cyc.handle_snapshots_keeps [OF start that] .
  then show ?thesis
    by (auto simp: run_once_def Let_def start split: option.splits prod.splits sum.splits)
qed

lemma process_answer:
  assumes "process digest co s now execute disk st = (r, t', st')"
  shows "st' = st \<or> (\<exists>ex x. co_executor co = Some ex \<and> st' = snd (answer_to ex x st))"
  using assms
proof (cases rule: process_cases)
  case (run ex d t stored reconciled t1 t2)
  have "hd_snapshot (hold_if_settled reconciled d) = s" using evaluate_snapshot [OF run(8)] by simp
  from dispatch_carries [OF run(9) this] run(2) show ?thesis
    by (auto simp: carries_out_def split: option.splits)
qed simp

lemma run_once_cases:
  assumes "run_once digest sv now execute disk st = (r, ss)"
  obtains (refused) "ss = initial_service_state disk st []" and "isl r"
  | (ran) ex st' snaps es r' where "executor_for sv execute st = Inr (ex, st')"
      and "handle_snapshots digest sv ex now execute snaps (initial_service_state disk st' es) = (r', ss)"
  using assms
  by (auto simp: run_once_def Let_def split: if_splits option.splits prod.splits sum.splits)

lemma live_answer_keeps:
  "executor_inv cfg st \<Longrightarrow> executor_inv cfg (snd (answer_to (live_executor k cfg) x st))"
  by (cases x)
     (auto simp: live_executor_def elim: tripleD [OF open_hedge_keeps _ surjective_pairing]
        tripleD [OF close_hedge_keeps _ surjective_pairing])

text \<open>The live executor never loses its binding to the hedge account.\<close>

interpretation acct: iteration_invariant digest sv "Some (live_executor k cfg)"
  "\<lambda>ss. executor_inv cfg (ss_exec ss)" for digest sv k cfg
proof unfold_locales
  fix ss ss' s t execute r
  assume I: "executor_inv cfg (ss_exec ss)"
    and run: "run_process digest sv (Some (live_executor k cfg)) s t execute ss = (r, ss')"
  obtain r' u st where p: "process digest
      (coordinator_for sv (Some (live_executor k cfg))  (ss_ticks ss)) s
      (Aware t) execute (ss_disk ss) (ss_exec ss) = (r', u, st)" by (metis prod_cases3)
  then have "ss_exec ss' = st" using run by (simp add: run_process_def) auto
  then show "executor_inv cfg (ss_exec ss')"
    using process_answer [OF p] I live_answer_keeps
    by (auto simp: coordinator_for_def split: if_splits)
qed simp_all

text \<open>Without an executor nothing changes.\<close>

interpretation idle: iteration_invariant digest sv None
  "\<lambda>ss. ss_exec ss = st \<and> ss_disk ss = disk \<and> ss_effects ss = []" for digest sv st disk
proof unfold_locales
  fix ss ss' s t execute r
  assume I: "ss_exec ss = st \<and> ss_disk ss = disk \<and> ss_effects ss = []"
    and run: "run_process digest sv None s t execute ss = (r, ss')"
  obtain r' u st' where p: "process digest (coordinator_for sv None (ss_ticks ss)) s
      (Aware t) execute (ss_disk ss) (ss_exec ss) = (r', u, st')" by (metis prod_cases3)
  then have "u = tx_begin (ss_disk ss) \<and> st' = ss_exec ss"
    by (cases rule: process_cases) (simp_all add: coordinator_for_def)
  then show "ss_exec ss' = st \<and> ss_disk ss' = disk \<and> ss_effects ss' = []"
    using run I p by (auto simp: run_process_def)
qed simp_all

text \<open>
  Orders reach only the hedge account. When the service builds its own executor, every call it
  ever makes on the exchange goes through an exchange object opened for the configured hedge
  address (as a vault address for a subaccount), and that address differs from the primary's.
\<close>

theorem orders_reach_only_the_hedge_account:
  fixes sv :: "executor_state FundingHedgeService"
  assumes "sv_executor sv = None" and "sv_make sv = make_live k (sv_config sv) reader_address"
    and "es_exchange st = None" and "es_calls st = []"
  shows "case run_once digest sv now execute disk st of
     (r, ss) \<Rightarrow> executor_inv (sv_config sv) (ss_exec ss)
       \<and> (es_calls (ss_exec ss) = []
          \<or> py_lower (cf_hedge_account_address (sv_config sv))
              \<noteq> py_lower (cf_primary_account_address (sv_config sv)))"
proof -
  let ?cfg = "sv_config sv"
  obtain r ss where run: "run_once digest sv now execute disk st = (r, ss)" by force
  have start: "executor_inv ?cfg st" using assms(3,4) by (simp add: executor_inv_def)
  from run have "executor_inv ?cfg (ss_exec ss) \<and> (es_calls (ss_exec ss) = []
      \<or> py_lower (cf_hedge_account_address ?cfg) \<noteq> py_lower (cf_primary_account_address ?cfg))"
  proof (cases rule: run_once_cases)
    case refused
    then show ?thesis using start assms(4) by (simp add: initial_service_state_def)
  next
    case (ran ex st' snaps es r')
    show ?thesis
    proof (cases execute)
      case True
      then have "check_executor_addresses ?cfg reader_address = Inr st'"
        and ex': "ex = Some (live_executor k ?cfg)"
        using ran(1) assms(1,2) by (auto simp: executor_for_def make_live_def rbind_Inr_iff)
      then have "executor_inv ?cfg st'"
        and ne: "py_lower (cf_hedge_account_address ?cfg) \<noteq> py_lower (cf_primary_account_address ?cfg)"
        by (auto simp: check_executor_addresses_def Let_def guarded_Inr executor_inv_def py_lower_def
            split: if_splits)
      then show ?thesis using ne ran(2) ex'
          acct.handle_snapshots_keeps [of ?cfg "initial_service_state disk st' es" digest sv k]
        by (auto simp: initial_service_state_def)
    next
      case False
      then have "ss_exec ss = st"
        using ran idle.handle_snapshots_keeps [of "initial_service_state disk st es" st disk digest sv]
        by (auto simp: executor_for_def initial_service_state_def)
      then show ?thesis using start assms(4) by simp
    qed
  qed
  then show ?thesis using run by simp
qed

text \<open>
  A report-only iteration changes nothing: the state file, its write log and the executor are
  left as they were, and nothing is submitted, even if an executor is configured.
\<close>

theorem report_only_iteration_is_pure:
  "case run_once digest sv now False disk st of
     (r, ss) \<Rightarrow> ss_disk ss = disk \<and> ss_exec ss = st \<and> ss_effects ss = []"
proof -
  obtain r ss where run: "run_once digest sv now False disk st = (r, ss)" by force
  then have "ss_exec ss = st \<and> ss_disk ss = disk \<and> ss_effects ss = []"
  proof (cases rule: run_once_cases)
    case (ran ex st' snaps es r')
    then show ?thesis
      using idle.handle_snapshots_keeps [of "initial_service_state disk st es" st disk digest sv]
      by (auto simp: executor_for_def initial_service_state_def)
  qed (simp add: initial_service_state_def)
  then show ?thesis using run by simp
qed

text \<open>
  A changed configuration stops the service before it does anything. If some active stored
  cycle belongs to other accounts, another network or another account kind, the iteration raises
  the mismatch error of such a cycle without reading the exchange, writing or submitting.
\<close>

theorem config_change_is_refused:
  assumes "c \<in> set (map snd disk)" and "config_mismatch (sv_config sv) c"
    and "execute \<longrightarrow> cf_execution_enabled (sv_config sv)"
  shows "\<exists>c'. config_mismatch (sv_config sv) c' \<and> c' \<in> set (map snd disk)
           \<and> run_once digest sv now execute disk st =
               (Inl (mismatch_error c'), initial_service_state disk st [])"
proof -
  obtain c' where f: "find (config_mismatch (sv_config sv)) (map snd disk) = Some c'"
    using assms(1,2) by (cases "find (config_mismatch (sv_config sv)) (map snd disk)")
      (auto simp: find_None_iff)
  then have "config_mismatch (sv_config sv) c' \<and> c' \<in> set (map snd disk)"
    by (metis find_Some_iff nth_mem)
  then show ?thesis using f assms(3) by (auto simp: run_once_def load_all_id Let_def)
qed

section \<open>Counts\<close>

lemma count_action_get:
  "dict_get (fold count_action ds counts) k =
     map_option (\<lambda>n. n + length (filter (\<lambda>d. action_value (hd_action d) = k) ds)) (dict_get counts k)"
proof (induction ds arbitrary: counts)
  case Nil
  then show ?case by (cases "dict_get counts k") auto
next
  case (Cons d ds)
  then show ?case
    by (auto simp: count_action_def Let_def split: option.splits)
qed

text \<open>
  The report counts every decision. For each action the summary holds exactly the number of
  decisions with that action, and the counts add up to the number of symbols evaluated.
\<close>

theorem report_counts_decisions:
  "dict_get (rp_action_counts (report ds rs now es execute)) (action_value a) =
     Some (length (filter (\<lambda>d. hd_action d = a) ds))"
proof -
  have "action_value b = action_value a \<longleftrightarrow> b = a" for b by (cases a; cases b) auto
  then have f: "filter (\<lambda>d. action_value (hd_action d) = action_value a) ds
      = filter (\<lambda>d. hd_action d = a) ds" by simp
  show ?thesis
    unfolding report_def using f by (cases a) (simp_all add: count_action_get no_actions_def)
qed

section \<open>Openings in one iteration\<close>

lemma preview_run:
  assumes "dict_get (ss_disk ss) (snapshot_symbol s) = None"
    and "evaluate (sv_config sv) s (Aware now) None = Inr d"
  shows "run_process digest sv ex s now False ss =
           (Inr \<lparr>cr_decision = d, cr_cycle = None, cr_execution = None, cr_execution_error = []\<rparr>, ss)"
  using assms
  by (simp add: run_process_def process_def process_body_def coordinator_for_def evaluation_time_def
      only_active_def hold_if_settled_def finished_def Let_def)

lemma open_run:
  assumes none: "dict_get (ss_disk ss) (snapshot_symbol s) = None" and "keyed (ss_disk ss)"
    and ev: "evaluate (sv_config sv) s (Aware (sv_clock sv (ss_ticks ss))) None = Inr d"
    and "hd_action d = OPEN_HEDGE" and "cf_execution_enabled (sv_config sv)"
  obtains res ss' x where "run_process digest sv (Some ex) s now True ss = (Inr res, ss')"
    and "submissions (ss_effects ss') = submissions (ss_effects ss) @ [x]"
    and "\<exists>sz cloid dl. x = OpenOrder (snapshot_symbol s) sz cloid dl"
    and "keyed (ss_disk ss')" and "ss_ticks ss' = Suc (ss_ticks ss)"
    and "\<And>k. k \<noteq> snapshot_symbol s \<Longrightarrow> dict_get (ss_disk ss') k = dict_get (ss_disk ss) k"
proof -
  let ?co = "coordinator_for sv (Some ex) (ss_ticks ss)" and ?now = "sv_clock sv (ss_ticks ss)"
  have co: "co_executor ?co = Some ex" "co_config ?co = sv_config sv" "evaluation_time ?co True now = ?now"
    by (simp_all add: coordinator_for_def evaluation_time_def)
  have d: "step_decision (sv_config sv) s ?now None = Inr d"
    using ev by (simp add: step_decision_def only_active_def hold_if_settled_def)
  obtain r t' st' where run: "dispatch digest (sv_config sv) ex s ?now d None (tx_begin (ss_disk ss))
      (ss_exec ss) = (r, t', st')" by (metis prod_cases3)
  obtain res where res: "r = Inr res" using dispatch_decision [OF run] .
  have p: "process digest ?co s (Aware now) True (ss_disk ss) (ss_exec ss) = (Inr res, tx_flush t', st')"
    by (rule process_runs [OF co(1) _ refl refl refl])
       (use run res d assms(5) in \<open>simp_all add: co none put_if_changed_def\<close>)
  have "submissions (ct_effects (tx_flush t')) =
      [OpenOrder (snapshot_symbol s) (hd_order_size_delta d)
         (stable_cloid digest (hd_cycle_key d) ''open:1'')
         (fo_next_funding_at (hs_funding s) - seconds (cf_latest_open_cutoff_seconds (sv_config sv)))]"
    using dispatch_carries [OF run evaluate_snapshot [OF ev]] assms(4)
    by (simp add: carries_out_def planned_order_def only_active_def)
  moreover have "sound_log digest (ss_disk ss) (snapshot_symbol s) (ct_disk (tx_flush t'))
      (submissions (ct_effects (tx_flush t')))"
    using process_log [OF p assms(2) prefix_order.refl] process_write_ahead(2) [OF p] by simp
  ultimately show thesis
    using that [of res "ss\<lparr>ss_disk := ct_disk (tx_flush t'), ss_exec := st',
        ss_ticks := Suc (ss_ticks ss), ss_effects := ss_effects ss @ ct_effects (tx_flush t')\<rparr>"]
    by (simp add: run_process_def p sound_log_def)
qed

lemma late_open:
  assumes "dict_get (ss_disk ss) (snapshot_symbol s) = None" and "keyed (ss_disk ss)"
    and "evaluate (sv_config sv) s (Aware now) None = Inr p" and "hd_action p = HOLD"
    and "evaluate (sv_config sv) s (Aware (sv_clock sv (ss_ticks ss))) None = Inr d"
    and "hd_action d = OPEN_HEDGE" and "cf_execution_enabled (sv_config sv)"
  obtains ss' x where "handle_snapshot digest sv (Some ex) now True s ss = (Inr (), ss')"
    and "submissions (ss_effects ss') = submissions (ss_effects ss) @ [x]"
    and "\<exists>sz cloid dl. x = OpenOrder (snapshot_symbol s) sz cloid dl"
    and "keyed (ss_disk ss')" and "ss_ticks ss' = Suc (ss_ticks ss)"
    and "\<And>k. k \<noteq> snapshot_symbol s \<Longrightarrow> dict_get (ss_disk ss') k = dict_get (ss_disk ss) k"
proof -
  obtain res ss' x where run: "run_process digest sv (Some ex) s now True ss = (Inr res, ss')"
    and facts: "submissions (ss_effects ss') = submissions (ss_effects ss) @ [x]"
      "\<exists>sz cloid dl. x = OpenOrder (snapshot_symbol s) sz cloid dl" "keyed (ss_disk ss')"
      "ss_ticks ss' = Suc (ss_ticks ss)"
      "\<And>k. k \<noteq> snapshot_symbol s \<Longrightarrow> dict_get (ss_disk ss') k = dict_get (ss_disk ss) k"
    using open_run [OF assms(1,2,5-7)] by blast
  show thesis
    by (rule that [of "report_result res (ss'\<lparr>ss_open_attempted := ss_open_attempted ss'
          \<or> hd_action (cr_decision res) = OPEN_HEDGE
            \<and> (cr_execution res \<noteq> None \<or> cr_execution_error res \<noteq> [])\<rparr>)" x])
       (use facts assms(4) in \<open>simp_all add: handle_snapshot_def preview_run [OF assms(1,3)]
          execute_selected_def run Let_def report_result_def\<close>)
qed

text \<open>
  C36. Two hedges can be opened in one polling iteration. The limit of one opening, and the refresh
  before it, apply only when the preview decides to open; the preview uses the time the iteration
  started, the execution the current clock. If the window opens in between, each of two symbols
  with a holding preview submits its own opening order in the same iteration.
\<close>

theorem two_opens_in_one_iteration:
  assumes "sv_executor sv = Some ex" and "cf_execution_enabled (sv_config sv)"
    and "sv_load sv 0 now [] = ([s1, s2], errors)" and "snapshot_symbol s1 \<noteq> snapshot_symbol s2"
    and "evaluate (sv_config sv) s1 (Aware now) None = Inr p1" and "hd_action p1 = HOLD"
    and "evaluate (sv_config sv) s2 (Aware now) None = Inr p2" and "hd_action p2 = HOLD"
    and "evaluate (sv_config sv) s1 (Aware (sv_clock sv 0)) None = Inr d1" and "hd_action d1 = OPEN_HEDGE"
    and "evaluate (sv_config sv) s2 (Aware (sv_clock sv 1)) None = Inr d2" and "hd_action d2 = OPEN_HEDGE"
  shows "\<exists>r ss sz1 cloid1 dl1 sz2 cloid2 dl2.
           run_once digest sv now True [] st = (Inr r, ss)
           \<and> submissions (ss_effects ss) = [OpenOrder (snapshot_symbol s1) sz1 cloid1 dl1,
                                            OpenOrder (snapshot_symbol s2) sz2 cloid2 dl2]"
proof -
  let ?ss = "initial_service_state [] st errors"
  have "dict_get (ss_disk ?ss) (snapshot_symbol s1) = None" "keyed (ss_disk ?ss)" "ss_ticks ?ss = 0"
      "submissions (ss_effects ?ss) = []"
    by (simp_all add: initial_service_state_def keyed_def)
  note start = this
  have ev1: "evaluate (sv_config sv) s1 (Aware (sv_clock sv (ss_ticks ?ss))) None = Inr d1"
    using assms(9) start(3) by simp
  obtain ss1 x1 where h1: "handle_snapshot digest sv (Some ex) now True s1 ?ss = (Inr (), ss1)"
    and f1: "submissions (ss_effects ss1) = submissions (ss_effects ?ss) @ [x1]"
      "\<exists>sz cloid dl. x1 = OpenOrder (snapshot_symbol s1) sz cloid dl" "keyed (ss_disk ss1)"
      "ss_ticks ss1 = Suc (ss_ticks ?ss)"
      "\<And>k. k \<noteq> snapshot_symbol s1 \<Longrightarrow> dict_get (ss_disk ss1) k = dict_get (ss_disk ?ss) k"
    by (rule late_open [OF start(1,2) assms(5,6) ev1 assms(10,2)]) (rule that)
  have none2: "dict_get (ss_disk ss1) (snapshot_symbol s2) = None"
    using f1(5) assms(4) by (simp add: initial_service_state_def)
  have ev2: "evaluate (sv_config sv) s2 (Aware (sv_clock sv (ss_ticks ss1))) None = Inr d2"
    using assms(11) f1(4) start(3) by simp
  obtain ss2 x2 where h2: "handle_snapshot digest sv (Some ex) now True s2 ss1 = (Inr (), ss2)"
    and f2: "submissions (ss_effects ss2) = submissions (ss_effects ss1) @ [x2]"
      "\<exists>sz cloid dl. x2 = OpenOrder (snapshot_symbol s2) sz cloid dl"
    by (rule late_open [OF none2 f1(3) assms(7,8) ev2 assms(12,2)]) (rule that)
  have "run_once digest sv now True [] st =
      (Inr (report (map cr_decision (ss_results ss2)) (ss_results ss2) now (ss_errors ss2) True), ss2)"
    using assms(1-3) h1 h2 by (simp add: run_once_def load_all_id executor_for_def Let_def)
  then show ?thesis using f1(1,2) f2 start(4) by auto
qed

text \<open>A second market with the same numbers, and an iteration that starts before the window.\<close>

definition with_symbol :: "string \<Rightarrow> HedgeSnapshot \<Rightarrow> HedgeSnapshot" where
  "with_symbol symbol s =
     s\<lparr>hs_primary_position := (hs_primary_position s)\<lparr>ap_symbol := symbol\<rparr>,
       hs_hedge_account := (hs_hedge_account s)
         \<lparr>ha_position := (ha_position (hs_hedge_account s))\<lparr>ap_symbol := symbol\<rparr>\<rparr>,
       hs_funding := (hs_funding s)\<lparr>fo_symbol := symbol\<rparr>\<rparr>"

definition early :: instant where
  "early = example_settlement - seconds 600"

definition example_service :: "unit FundingHedgeService" where
  "example_service =
     \<lparr>sv_config = example_config,
      sv_executor = Some \<lparr>he_open = (\<lambda>_ _ _ _ st. (Inl ''timeout'', st)),
                          he_close = (\<lambda>_ _ _ _ st. (Inl ''timeout'', st))\<rparr>,
      sv_make = Inl (ValueError []),
      sv_load = (\<lambda>_ _ _. ([example_snapshot, with_symbol ''BTC'' example_snapshot], [])),
      sv_clock = (\<lambda>_. example_now)\<rparr>"

lemma flat_choice:
  assumes "hedge_size s = 0" and "\<not> ha_unknown_open_orders (hs_hedge_account s)"
    and "py_lower (primary_address s) \<noteq> py_lower (hedge_address s)"
  shows "fst (choose_action cfg s t st None secs age target qty ec) =
           (if first_error (entry_refusals cfg s secs age qty ec) = None then OPEN_HEDGE else HOLD)"
  using assms by (auto simp: choose_action_def plain_choice_def split: option.splits)

lemma evaluate_flat:
  assumes "hedge_size s = 0" and "\<not> ha_unknown_open_orders (hs_hedge_account s)"
    and "py_lower (primary_address s) \<noteq> py_lower (hedge_address s)"
    and "target_size cfg s True = Inr (target, qty)"
  shows "\<exists>d. evaluate cfg s (Aware t) None = Inr d \<and> hd_action d =
     (if first_error (entry_refusals cfg s (total_seconds (fo_next_funding_at (hs_funding s) - t))
            (total_seconds (t - fo_observed_at (hs_funding s))) qty (hedge_economics_of cfg s target)) = None
      then OPEN_HEDGE else HOLD)"
  using assms by (simp add: evaluate_def only_active_def Let_def flat_choice)

lemma with_symbol_simps [simp]:
  "primary_address (with_symbol x s) = primary_address s" "hedge_address (with_symbol x s) = hedge_address s"
  "hedge_size (with_symbol x s) = hedge_size s" "primary_size (with_symbol x s) = primary_size s"
  "ha_unknown_open_orders (hs_hedge_account (with_symbol x s)) = ha_unknown_open_orders (hs_hedge_account s)"
  "fo_next_funding_at (hs_funding (with_symbol x s)) = fo_next_funding_at (hs_funding s)"
  "fo_observed_at (hs_funding (with_symbol x s)) = fo_observed_at (hs_funding s)"
  "target_size cfg (with_symbol x s) b = target_size cfg s b"
  "hedge_economics_of cfg (with_symbol x s) target = hedge_economics_of cfg s target"
  "snapshot_symbol (with_symbol x s) = x"
  by (simp_all add: with_symbol_def target_size_def uncut_quantity_def margin_budget_def
      hedge_economics_of_def funding_payment_def round_trip_rate_def snapshot_symbol_def Let_def)

lemma example_markets:
  assumes "s = example_snapshot \<or> s = with_symbol ''BTC'' example_snapshot"
  shows "\<exists>d. evaluate example_config s (Aware early) None = Inr d \<and> hd_action d = HOLD"
    and "\<exists>d. evaluate example_config s (Aware example_now) None = Inr d \<and> hd_action d = OPEN_HEDGE"
proof -
  have "py_lower (primary_address example_snapshot) \<noteq> py_lower (hedge_address example_snapshot)"
    by code_simp
  then have ne: "py_lower (primary_address s) \<noteq> py_lower (hedge_address s)" using assms by auto
  have h: "hedge_size s = 0" "\<not> ha_unknown_open_orders (hs_hedge_account s)"
    using assms by (auto simp: example_defs)
  have target: "target_size example_config s True = Inr (- 100, 100)"
    using assms example_target by auto
  have ec: "hedge_economics_of example_config s (- 100) =
      hedge_economics_of example_config example_snapshot (- 100)"
    using assms by auto
  have early_refused: "first_error (entry_refusals example_config s
      (total_seconds (fo_next_funding_at (hs_funding s) - early)) age 100 ec) \<noteq> None" for age ec
    using assms
    by (auto simp: first_error_None entry_refusals_def Let_def total_seconds_def early_def example_defs)
  have accepted: "first_error (entry_refusals example_config s
      (total_seconds (fo_next_funding_at (hs_funding s) - example_now))
      (total_seconds (example_now - fo_observed_at (hs_funding s))) 100
      (hedge_economics_of example_config s (- 100))) = None"
    unfolding ec example_economics
    using assms by (auto simp: entry_refusals_def snapshot_symbol_def margin_budget_def example_defs
        total_seconds_def with_symbol_def example_amounts)
  show "\<exists>d. evaluate example_config s (Aware early) None = Inr d \<and> hd_action d = HOLD"
    using evaluate_flat [OF h ne target, of early] early_refused by auto
  show "\<exists>d. evaluate example_config s (Aware example_now) None = Inr d \<and> hd_action d = OPEN_HEDGE"
    using evaluate_flat [OF h ne target, of example_now] accepted by auto
qed

theorem two_opens_in_one_iteration_witness:
  "\<exists>r ss sz1 cloid1 dl1 sz2 cloid2 dl2.
     run_once (\<lambda>_. []) example_service early True [] () = (Inr r, ss)
     \<and> submissions (ss_effects ss) = [OpenOrder ''xyz:SKHX'' sz1 cloid1 dl1,
                                      OpenOrder ''BTC'' sz2 cloid2 dl2]"
proof -
  let ?s1 = example_snapshot and ?s2 = "with_symbol ''BTC'' example_snapshot"
  have sym: "snapshot_symbol ?s1 = ''xyz:SKHX''"
    by (simp add: snapshot_symbol_def example_snapshot_def)
  obtain ex where ex: "sv_executor example_service = Some ex"
    by (simp add: example_service_def)
  obtain p1 p2 d1 d2 where
    "evaluate example_config ?s1 (Aware early) None = Inr p1" "hd_action p1 = HOLD"
    "evaluate example_config ?s2 (Aware early) None = Inr p2" "hd_action p2 = HOLD"
    "evaluate example_config ?s1 (Aware example_now) None = Inr d1" "hd_action d1 = OPEN_HEDGE"
    "evaluate example_config ?s2 (Aware example_now) None = Inr d2" "hd_action d2 = OPEN_HEDGE"
    using example_markets by metis
  then have "\<exists>r ss sz1 cloid1 dl1 sz2 cloid2 dl2.
     run_once (\<lambda>_. []) example_service early True [] () = (Inr r, ss)
     \<and> submissions (ss_effects ss) = [OpenOrder (snapshot_symbol ?s1) sz1 cloid1 dl1,
                                      OpenOrder (snapshot_symbol ?s2) sz2 cloid2 dl2]"
    by (intro two_opens_in_one_iteration [where errors = "[]" and ?p1.0 = p1 and
          ?p2.0 = p2 and ?d1.0 = d1 and ?d2.0 = d2, OF ex])
       (simp_all add: example_service_def sym example_config_def)
  then show ?thesis by (simp add: sym)
qed

section \<open>Witnesses\<close>

theorem iteration_keeps_cycles_sound_witness:
  "sound_history [(''xyz:SKHX'', example_cycle)]
     (snd (run_once (\<lambda>_. []) example_service early True [(''xyz:SKHX'', example_cycle)] ()))"
  by (rule iteration_keeps_cycles_sound) (simp add: keyed_def example_cycle_def)

definition example_live_service :: "executor_state FundingHedgeService" where
  "example_live_service =
     \<lparr>sv_config = example_config, sv_executor = None,
      sv_make = make_live example_sdk example_config [],
      sv_load = (\<lambda>_ _ _. ([example_snapshot], [])), sv_clock = (\<lambda>_. example_now)\<rparr>"

theorem orders_reach_only_the_hedge_account_witness:
  "case run_once (\<lambda>_. []) example_live_service example_now True []
          \<lparr>es_exchange = None, es_loaded_dexes = [], es_calls = [], es_clock_reads = 0\<rparr> of
     (r, ss) \<Rightarrow> executor_inv example_config (ss_exec ss)"
proof -
  have "sv_config example_live_service = example_config" by (simp add: example_live_service_def)
  then show ?thesis
    using orders_reach_only_the_hedge_account [of example_live_service example_sdk "[]"
        "\<lparr>es_exchange = None, es_loaded_dexes = [], es_calls = [], es_clock_reads = 0\<rparr>"
        "\<lambda>_. []" example_now True "[]"]
    by (auto simp: example_live_service_def split: prod.splits)
qed

theorem config_change_is_refused_witness:
  "run_once (\<lambda>_. []) (example_service\<lparr>sv_config := example_config\<lparr>cf_network := ''testnet''\<rparr>\<rparr>)
      early True [(''xyz:SKHX'', example_cycle)] () =
   (Inl (mismatch_error example_cycle), initial_service_state [(''xyz:SKHX'', example_cycle)] () [])"
proof -
  have "config_mismatch (example_config\<lparr>cf_network := ''testnet''\<rparr>) example_cycle"
    by (simp add: config_mismatch_def active_def terminal_def example_cycle_def example_config_def)
  then show ?thesis
    using config_change_is_refused [of example_cycle "[(''xyz:SKHX'', example_cycle)]"
        "example_service\<lparr>sv_config := example_config\<lparr>cf_network := ''testnet''\<rparr>\<rparr>" True
        "\<lambda>_. []" early "()"]
    by (auto simp: example_config_def)
qed

end
