(* ===== verification/Harness_State_Machine.thy ===== *)
theory Harness_State_Machine
  imports Harness_Contracts
begin

text \<open>
  Validation and application of harness transitions
  (\<^verbatim>\<open>src/market_agent/workflow_state_machine.py\<close>): the three transition tables, the evidence a
  candidate has to carry, the checks in their order with their reasons, and the update of the
  folded session view.

  An input is validated again before use: its contract is checked and every text of it is
  searched for secrets. The check for undeclared attributes has no counterpart, records have
  no others. The search works on ASCII text, lower-cased; the regular expression
  \<^verbatim>\<open>_SENSITIVE_VALUE\<close> is the disjunction \<open>sensitive_at\<close>, tried at every position.
\<close>

section \<open>Transition tables\<close>

definition RUN_TERMINAL_STATES :: "RunState list" where
  "RUN_TERMINAL_STATES = [R_SUCCEEDED, R_DEGRADED, R_FAILED, R_CANCELLED]"

definition WORK_ITEM_TERMINAL_STATES :: "WorkItemState list" where
  "WORK_ITEM_TERMINAL_STATES = [W_SUCCEEDED, W_BLOCKED, W_FAILED, W_CANCELLED]"

definition ATTEMPT_TERMINAL_STATES :: "AttemptState list" where
  "ATTEMPT_TERMINAL_STATES =
     [A_COMPLETED, A_TIMED_OUT, A_REJECTED, A_FAILED, A_STALE, A_CANCELLED]"

definition RUN_EDGES :: "(RunState option, RunState list) dict" where
  "RUN_EDGES =
     [(None, [R_CREATED]),
      (Some R_CREATED, [R_ADMITTED, R_CANCELLED]),
      (Some R_ADMITTED, [R_PLANNED, R_CANCELLED]),
      (Some R_PLANNED, [R_READY, R_CANCELLED]),
      (Some R_READY, [R_RUNNING, R_CANCELLED]),
      (Some R_RUNNING, [R_RECONCILING, R_WAITING_APPROVAL, R_WAITING_RECONCILIATION, R_DEGRADING,
                        R_SUMMARIZING, R_CANCELLED]),
      (Some R_RECONCILING, [R_RUNNING, R_WAITING_RECONCILIATION, R_DEGRADING, R_SUMMARIZING,
                            R_FAILED, R_CANCELLED]),
      (Some R_WAITING_APPROVAL, [R_RUNNING, R_FAILED, R_CANCELLED]),
      (Some R_WAITING_RECONCILIATION, [R_RECONCILING, R_FAILED, R_CANCELLED]),
      (Some R_DEGRADING, [R_RUNNING, R_SUMMARIZING, R_DEGRADED, R_FAILED, R_CANCELLED]),
      (Some R_SUMMARIZING, [R_SUCCEEDED, R_DEGRADED, R_FAILED, R_CANCELLED])]"

definition WORK_ITEM_EDGES :: "(WorkItemState option, WorkItemState list) dict" where
  "WORK_ITEM_EDGES =
     [(None, [W_PENDING]),
      (Some W_PENDING, [W_READY]),
      (Some W_READY, [W_LEASED]),
      (Some W_LEASED, [W_RUNNING, W_RETRY_WAIT]),
      (Some W_RUNNING, [W_VALIDATING, W_RETRY_WAIT]),
      (Some W_VALIDATING, [W_SUCCEEDED, W_RETRY_WAIT]),
      (Some W_RETRY_WAIT, [W_READY])]"

definition ATTEMPT_EDGES :: "(AttemptState option, AttemptState list) dict" where
  "ATTEMPT_EDGES =
     [(None, [A_RESERVED]),
      (Some A_RESERVED, [A_DISPATCHED]),
      (Some A_DISPATCHED, [A_STREAMING, A_VALIDATING]),
      (Some A_STREAMING, [A_VALIDATING]),
      (Some A_VALIDATING, [A_SETTLING]),
      (Some A_SETTLING, [A_COMPLETED])]"

definition successors :: "('s option, 's list) dict \<Rightarrow> 's option \<Rightarrow> 's list" where
  "successors table source = (case dict_get table source of None \<Rightarrow> [] | Some ts \<Rightarrow> ts)"

text \<open>The targets of a work item and of an attempt: the table, and the ends open to any source.\<close>

definition work_item_targets :: "WorkItemState option \<Rightarrow> WorkItemState list" where
  "work_item_targets source = successors WORK_ITEM_EDGES source
     @ (if source \<noteq> None then [W_BLOCKED, W_FAILED, W_CANCELLED] else [])"

definition attempt_targets :: "AttemptState option \<Rightarrow> AttemptState list" where
  "attempt_targets source = successors ATTEMPT_EDGES source
     @ (if source \<noteq> None then [A_TIMED_OUT, A_REJECTED, A_FAILED, A_STALE, A_CANCELLED] else [])"

definition source_value :: "(string \<times> 's) list \<Rightarrow> 's option \<Rightarrow> string" where
  "source_value members source =
     (case source of None \<Rightarrow> ''none'' | Some s \<Rightarrow> enum_value members s)"

section \<open>Secrets\<close>

definition word_char :: "char \<Rightarrow> bool" where
  "word_char c = (let n = code_of (lower_char c)
                  in (48 \<le> n \<and> n \<le> 57) \<or> (97 \<le> n \<and> n \<le> 122) \<or> n = 95)"

definition digit_char :: "char \<Rightarrow> bool" where
  "digit_char c = (48 \<le> code_of c \<and> code_of c \<le> 57)"

definition after_word :: "string \<Rightarrow> string \<Rightarrow> string option" where
  "after_word w s = (if starts_with w s then Some (drop (length w) s) else None)"

text \<open>\<^verbatim>\<open>\S+[?&](?:token|key|secret|signature)=\<close>, after the scheme.\<close>

fun url_credential :: "bool \<Rightarrow> string \<Rightarrow> bool" where
  "url_credential seen [] = False"
| "url_credential seen (c # s) =
     (seen \<and> c \<in> {CHR ''?'', CHR ''&''}
        \<and> list_ex (\<lambda>w. starts_with w s) [''token='', ''key='', ''secret='', ''signature='']
      \<or> \<not> is_space c \<and> url_credential True s)"

definition sensitive_words :: "string list" where
  "sensitive_words =
     [''password'', ''secret'', ''credential'', ''apikey'', ''api key'', ''api_key'', ''api-key'',
      ''authorization'']"

definition sensitive_at :: "char option \<Rightarrow> string \<Rightarrow> bool" where
  "sensitive_at before s =
     ((case after_word ''bearer'' s of
         Some (c # _) \<Rightarrow> is_space c \<and> (case before of None \<Rightarrow> True | Some b \<Rightarrow> \<not> word_char b)
       | _ \<Rightarrow> False)
      \<or> (case before of None \<Rightarrow> True | Some b \<Rightarrow> \<not> word_char b \<or> b = CHR ''_'')
        \<and> (starts_with ''sk-'' s \<or> starts_with ''sk_'' s)
      \<or> (case after_word ''fence-'' s of
           Some (c # r) \<Rightarrow> digit_char c \<and> starts_with ''-'' (dropWhile digit_char r)
         | _ \<Rightarrow> False)
      \<or> list_ex (\<lambda>w. case after_word w s of
                       Some r \<Rightarrow> (case dropWhile is_space r of
                                    c # _ \<Rightarrow> c = CHR '':'' \<or> c = CHR ''=''
                                  | [] \<Rightarrow> False)
                     | None \<Rightarrow> False) sensitive_words
      \<or> list_ex (\<lambda>w. case after_word w s of Some r \<Rightarrow> url_credential False r | None \<Rightarrow> False)
          [''http://'', ''https://'']
      \<or> (case after_word ''-----begin'' s of
           Some r \<Rightarrow> contains_text ''private key-----'' (takeWhile (\<lambda>c. code_of c \<noteq> 10) r)
         | None \<Rightarrow> False))"

fun sensitive_from :: "char option \<Rightarrow> string \<Rightarrow> bool" where
  "sensitive_from before [] = False"
| "sensitive_from before (c # s) = (sensitive_at before (c # s) \<or> sensitive_from (Some c) s)"

definition sensitive_value :: "string \<Rightarrow> bool" where
  "sensitive_value s = sensitive_from None (py_lower s)"

section \<open>Evidence\<close>

record TransitionEvidence =
  te_run_id :: string
  te_trace_id :: string
  te_entity_id :: string
  te_expected_state_revision :: int
  te_plan_revision :: int
  te_dependency_versions :: "(string \<times> int) list"

record LeaseEvidence =
  le_reservation_id :: string
  le_grant_id :: string
  le_lease_epoch :: int
  le_fencing_token_digest :: string

datatype Authorization =
    RunTransitionEvidence TransitionEvidence
  | WorkItemTransitionAuthorization TransitionEvidence LeaseEvidence
  | AttemptTransitionAuthorization TransitionEvidence LeaseEvidence

fun evidence_of :: "Authorization \<Rightarrow> TransitionEvidence" where
  "evidence_of (RunTransitionEvidence e) = e"
| "evidence_of (WorkItemTransitionAuthorization e l) = e"
| "evidence_of (AttemptTransitionAuthorization e l) = e"

fun lease_of :: "Authorization \<Rightarrow> LeaseEvidence option" where
  "lease_of (RunTransitionEvidence e) = None"
| "lease_of (WorkItemTransitionAuthorization e l) = Some l"
| "lease_of (AttemptTransitionAuthorization e l) = Some l"

fun kind_of :: "Authorization \<Rightarrow> EntityKind" where
  "kind_of (RunTransitionEvidence e) = K_run"
| "kind_of (WorkItemTransitionAuthorization e l) = K_work_item"
| "kind_of (AttemptTransitionAuthorization e l) = K_attempt"

record ReconciliationResolution =
  rs_run_id :: string
  rs_trace_id :: string
  rs_entity_id :: string
  rs_expected_state_revision :: int
  rs_plan_revision :: int
  rs_reconciliation_id :: string
  rs_broker_observation_digest :: string

record StaleAttemptRetryAuthorization =
  sr_run_id :: string
  sr_trace_id :: string
  sr_work_item_id :: string
  sr_attempt_id :: string
  sr_expected_state_revision :: int
  sr_plan_revision :: int
  sr_lease_epoch :: int
  sr_fencing_token_digest :: string

record PermanentFailureDecision =
  pf_run_id :: string
  pf_trace_id :: string
  pf_expected_state_revision :: int
  pf_plan_revision :: int
  pf_from_state :: RunState
  pf_reason_code :: string
  pf_idempotency_key :: string

datatype Candidate = Transition HarnessTransition | PermanentFailure PermanentFailureDecision

section \<open>Revalidation\<close>

definition evidence_contract :: "TransitionEvidence \<Rightarrow> bool" where
  "evidence_contract e =
     (list_all short_text [te_run_id e, te_trace_id e, te_entity_id e]
      \<and> 0 \<le> te_expected_state_revision e \<and> 0 \<le> te_plan_revision e
      \<and> length (te_dependency_versions e) \<le> 64
      \<and> list_all (\<lambda>d. short_text (fst d) \<and> 0 \<le> snd d) (te_dependency_versions e)
      \<and> require_unique (map fst (te_dependency_versions e)))"

definition lease_evidence_contract :: "LeaseEvidence \<Rightarrow> bool" where
  "lease_evidence_contract l =
     (short_text (le_reservation_id l) \<and> short_text (le_grant_id l) \<and> 0 < le_lease_epoch l
      \<and> digest_text (le_fencing_token_digest l))"

definition authorization_contract :: "Authorization \<Rightarrow> bool" where
  "authorization_contract a =
     (evidence_contract (evidence_of a) \<and> optional lease_evidence_contract (lease_of a))"

definition reconciliation_contract :: "ReconciliationResolution \<Rightarrow> bool" where
  "reconciliation_contract r =
     (list_all short_text [rs_run_id r, rs_trace_id r, rs_entity_id r, rs_reconciliation_id r]
      \<and> 0 \<le> rs_expected_state_revision r \<and> 0 \<le> rs_plan_revision r
      \<and> digest_text (rs_broker_observation_digest r))"

definition retry_contract :: "StaleAttemptRetryAuthorization \<Rightarrow> bool" where
  "retry_contract r =
     (list_all short_text [sr_run_id r, sr_trace_id r, sr_work_item_id r, sr_attempt_id r]
      \<and> 0 \<le> sr_expected_state_revision r \<and> 0 \<le> sr_plan_revision r \<and> 0 < sr_lease_epoch r
      \<and> digest_text (sr_fencing_token_digest r))"

definition failure_contract :: "PermanentFailureDecision \<Rightarrow> bool" where
  "failure_contract f =
     (list_all short_text [pf_run_id f, pf_trace_id f, pf_reason_code f, pf_idempotency_key f]
      \<and> 0 \<le> pf_expected_state_revision f \<and> 0 \<le> pf_plan_revision f)"

fun candidate_contract :: "Candidate \<Rightarrow> bool" where
  "candidate_contract (Transition x) = transition_contract x"
| "candidate_contract (PermanentFailure f) = failure_contract f"

text \<open>
  The texts a dump of the value contains. Values of enumerations are members of \<^verbatim>\<open>str\<close> and
  none of them is sensitive, as the schema version \<^verbatim>\<open>v1\<close> is not; they are left out.
\<close>

abbreviation opt_list :: "'a option \<Rightarrow> 'a list" where
  "opt_list x \<equiv> (case x of None \<Rightarrow> [] | Some v \<Rightarrow> [v])"

definition transition_texts :: "HarnessTransition \<Rightarrow> string list" where
  "transition_texts x =
     [ht_run_id x, ht_trace_id x, ht_entity_id x, ht_from_state x, ht_to_state x,
      ht_reason_code x, ht_idempotency_key x] @ opt_list (ht_fencing_token_digest x)"

fun candidate_texts :: "Candidate \<Rightarrow> string list" where
  "candidate_texts (Transition x) = transition_texts x"
| "candidate_texts (PermanentFailure f) =
     [pf_run_id f, pf_trace_id f, pf_reason_code f, pf_idempotency_key f]"

definition authority_texts :: "TransitionAuthorityRecord \<Rightarrow> string list" where
  "authority_texts x =
     [ta_run_id x, ta_trace_id x, ta_entity_id x, ta_from_state x, ta_to_state x,
      ta_reason_code x, ta_idempotency_key x] @ map fst (ta_dependency_versions x)
     @ opt_list (ta_reservation_id x) @ opt_list (ta_grant_id x)
     @ opt_list (ta_fencing_token_digest x)"

definition ownership_texts :: "AttemptWorkItemOwnershipRecord \<Rightarrow> string list" where
  "ownership_texts x = [ao_run_id x, ao_trace_id x, ao_attempt_id x, ao_work_item_id x]"

definition resolution_texts :: "ReconciliationResolutionRecord \<Rightarrow> string list" where
  "resolution_texts x =
     [rr_run_id x, rr_trace_id x, rr_reconciliation_id x, rr_broker_observation_digest x]"

definition view_texts :: "HarnessSessionView \<Rightarrow> string list" where
  "view_texts v =
     opt_list (hv_run_id v) @ opt_list (hv_trace_id v) @ opt_list (hv_request_digest v)
     @ opt_list (hv_prompt_release_digest v) @ opt_list (hv_accepted_result_digest v)
     @ map ho_terminal_reason (opt_list (hv_outcome v)) @ dict_keys (hv_work_item_states v)
     @ dict_keys (hv_attempt_states v) @ dict_keys (hv_dependency_versions v)
     @ concat (map authority_texts (hv_transition_authorities v))
     @ concat (map ownership_texts (hv_attempt_work_item_owners v))
     @ concat (map resolution_texts (hv_reconciliation_resolutions v))
     @ hv_applied_idempotency_keys v @ opt_list (hv_last_event_hash v)"

definition authorization_texts :: "Authorization \<Rightarrow> string list" where
  "authorization_texts a =
     (let e = evidence_of a
      in [te_run_id e, te_trace_id e, te_entity_id e] @ map fst (te_dependency_versions e)
         @ (case lease_of a of
              None \<Rightarrow> []
            | Some l \<Rightarrow> [le_reservation_id l, le_grant_id l, le_fencing_token_digest l]))"

definition retry_texts :: "StaleAttemptRetryAuthorization \<Rightarrow> string list" where
  "retry_texts r =
     [sr_run_id r, sr_trace_id r, sr_work_item_id r, sr_attempt_id r, sr_fencing_token_digest r]"

definition reconciliation_texts :: "ReconciliationResolution \<Rightarrow> string list" where
  "reconciliation_texts r =
     [rs_run_id r, rs_trace_id r, rs_entity_id r, rs_reconciliation_id r,
      rs_broker_observation_digest r]"

definition fresh_contract :: "('a \<Rightarrow> bool) \<Rightarrow> ('a \<Rightarrow> string list) \<Rightarrow> 'a \<Rightarrow> bool" where
  "fresh_contract contract texts x =
     (\<not> list_ex sensitive_value (texts x) \<and> contract x)"

definition revalidate_public_inputs ::
  "Candidate \<Rightarrow> HarnessSessionView \<Rightarrow> Authorization option \<Rightarrow>
   StaleAttemptRetryAuthorization option \<Rightarrow> ReconciliationResolution option \<Rightarrow> bool" where
  "revalidate_public_inputs candidate view authorization retry resolution =
     (fresh_contract candidate_contract candidate_texts candidate
      \<and> fresh_contract view_contract view_texts view
      \<and> optional (fresh_contract authorization_contract authorization_texts) authorization
      \<and> optional (fresh_contract retry_contract retry_texts) retry
      \<and> optional (fresh_contract reconciliation_contract reconciliation_texts) resolution)"

section \<open>Validation\<close>

text \<open>A validation is the reason of the rejection, or none when the candidate is allowed.\<close>

type_synonym validation = "string option"

definition authority_record :: "HarnessTransition \<Rightarrow> Authorization \<Rightarrow> TransitionAuthorityRecord" where
  "authority_record x a =
     (let e = evidence_of a
      in \<lparr>ta_run_id = te_run_id e, ta_trace_id = te_trace_id e, ta_entity_kind = ht_entity_kind x,
          ta_entity_id = te_entity_id e, ta_from_state = ht_from_state x, ta_to_state = ht_to_state x,
          ta_expected_state_revision = te_expected_state_revision e,
          ta_plan_revision = te_plan_revision e, ta_reason_code = ht_reason_code x,
          ta_idempotency_key = ht_idempotency_key x,
          ta_dependency_versions = te_dependency_versions e,
          ta_reservation_id = map_option le_reservation_id (lease_of a),
          ta_grant_id = map_option le_grant_id (lease_of a),
          ta_lease_epoch = map_option le_lease_epoch (lease_of a),
          ta_fencing_token_digest = map_option le_fencing_token_digest (lease_of a)\<rparr>)"

definition validate_evidence ::
  "HarnessTransition \<Rightarrow> HarnessSessionView \<Rightarrow> Authorization option \<Rightarrow> validation" where
  "validate_evidence x v authorization =
     (case authorization of
        None \<Rightarrow> Some ''required transition evidence is missing''
      | Some a \<Rightarrow>
        (let e = evidence_of a; non_run = (ht_entity_kind x \<noteq> K_run)
         in first_error
              [(non_run \<and> (hv_run_id v = None \<or> hv_trace_id v = None \<or> hv_run_state v = None),
                  ''non-run transition requires active run''),
               (non_run \<and> (case hv_run_state v of None \<Rightarrow> False | Some r \<Rightarrow> r \<in> set RUN_TERMINAL_STATES),
                  ''non-run transition requires nonterminal run''),
               (kind_of a \<noteq> ht_entity_kind x, ''transition evidence type is incompatible''),
               (te_run_id e \<noteq> ht_run_id x \<or> (hv_run_id v \<noteq> None \<and> hv_run_id v \<noteq> Some (te_run_id e)),
                  ''evidence run identity does not match''),
               (te_trace_id e \<noteq> ht_trace_id x
                  \<or> (hv_trace_id v \<noteq> None \<and> hv_trace_id v \<noteq> Some (te_trace_id e))
                  \<or> te_entity_id e \<noteq> ht_entity_id x,
                  ''evidence identity does not match''),
               (te_expected_state_revision e \<noteq> ht_expected_state_revision x
                  \<or> te_expected_state_revision e \<noteq> hv_state_revision v,
                  ''evidence state revision is stale''),
               (te_plan_revision e \<noteq> ht_plan_revision x \<or> te_plan_revision e \<noteq> hv_plan_revision v,
                  ''evidence plan revision is stale''),
               (te_dependency_versions e \<noteq> hv_dependency_versions v,
                  ''evidence dependency versions do not match''),
               (case lease_of a of
                  None \<Rightarrow> False
                | Some l \<Rightarrow> ht_lease_epoch x \<noteq> Some (le_lease_epoch l)
                            \<or> ht_fencing_token_digest x \<noteq> Some (le_fencing_token_digest l),
                  ''durable lease evidence does not match''),
               (authority_record x a \<notin> set (hv_transition_authorities v),
                  ''committed transition authority is missing'')]))"

definition resolution_record :: "ReconciliationResolution \<Rightarrow> ReconciliationResolutionRecord" where
  "resolution_record r =
     \<lparr>rr_run_id = rs_run_id r, rr_trace_id = rs_trace_id r,
      rr_reconciliation_id = rs_reconciliation_id r,
      rr_expected_state_revision = rs_expected_state_revision r,
      rr_plan_revision = rs_plan_revision r,
      rr_broker_observation_digest = rs_broker_observation_digest r\<rparr>"

definition resolution_matches ::
  "ReconciliationResolution option \<Rightarrow> HarnessTransition \<Rightarrow> HarnessSessionView \<Rightarrow> bool" where
  "resolution_matches resolution x v =
     (case resolution of
        None \<Rightarrow> False
      | Some r \<Rightarrow>
          rs_run_id r = ht_run_id x \<and> Some (ht_run_id x) = hv_run_id v
          \<and> rs_trace_id r = ht_trace_id x \<and> Some (ht_trace_id x) = hv_trace_id v
          \<and> rs_entity_id r = ht_entity_id x
          \<and> rs_expected_state_revision r = ht_expected_state_revision x
          \<and> ht_expected_state_revision x = hv_state_revision v
          \<and> rs_plan_revision r = ht_plan_revision x \<and> ht_plan_revision x = hv_plan_revision v
          \<and> filter (\<lambda>k. semantic_authority_key k = semantic_authority_key (resolution_record r))
              (hv_reconciliation_resolutions v) = [resolution_record r])"

definition validate_run ::
  "HarnessTransition \<Rightarrow> HarnessSessionView \<Rightarrow> ReconciliationResolution option \<Rightarrow> validation" where
  "validate_run x v resolution =
     (if ht_entity_id x \<noteq> ht_run_id x then Some ''run entity identity does not match''
      else case enum_of run_states (ht_to_state x) of
        None \<Rightarrow> Some ''unknown run target state''
      | Some target \<Rightarrow>
        (let source = hv_run_state v
         in first_error
              [(ht_from_state x \<noteq> source_value run_states source, ''run source state does not match''),
               (case source of None \<Rightarrow> False | Some r \<Rightarrow> r \<in> set RUN_TERMINAL_STATES,
                  ''terminal run state is absorbing''),
               (hv_external_side_effect_unknown v \<and> \<not> resolution_matches resolution x v,
                  ''unknown external effects require reconciliation''),
               (hv_external_side_effect_unknown v
                  \<and> (source \<noteq> Some R_WAITING_RECONCILIATION \<or> target \<noteq> R_RECONCILING),
                  ''reconciliation proof has invalid edge''),
               (\<not> hv_external_side_effect_unknown v \<and> resolution \<noteq> None,
                  ''reconciliation proof is not applicable''),
               (target \<notin> set (successors RUN_EDGES source), ''illegal run transition'')]))"

text \<open>
  The comparison of the retry proof keeps the chained operators of the source:
  \<^verbatim>\<open>retry.run_id != transition.run_id == view.run_id\<close> is a conjunction.
\<close>

definition retry_mismatch ::
  "StaleAttemptRetryAuthorization \<Rightarrow> HarnessTransition \<Rightarrow> HarnessSessionView \<Rightarrow> bool" where
  "retry_mismatch r x v =
     (sr_run_id r \<noteq> ht_run_id x \<and> Some (ht_run_id x) = hv_run_id v
      \<or> sr_trace_id r \<noteq> ht_trace_id x \<and> Some (ht_trace_id x) = hv_trace_id v
      \<or> sr_work_item_id r \<noteq> ht_entity_id x
      \<or> sr_expected_state_revision r \<noteq> ht_expected_state_revision x
      \<or> sr_expected_state_revision r \<noteq> hv_state_revision v
      \<or> sr_plan_revision r \<noteq> ht_plan_revision x \<or> sr_plan_revision r \<noteq> hv_plan_revision v
      \<or> ht_lease_epoch x \<noteq> Some (sr_lease_epoch r)
      \<or> ht_fencing_token_digest x \<noteq> Some (sr_fencing_token_digest r))"

definition retry_ownership :: "StaleAttemptRetryAuthorization \<Rightarrow> AttemptWorkItemOwnershipRecord" where
  "retry_ownership r =
     \<lparr>ao_run_id = sr_run_id r, ao_trace_id = sr_trace_id r, ao_attempt_id = sr_attempt_id r,
      ao_work_item_id = sr_work_item_id r, ao_plan_revision = sr_plan_revision r\<rparr>"

definition validate_retry_authorization ::
  "StaleAttemptRetryAuthorization option \<Rightarrow> HarnessTransition \<Rightarrow> HarnessSessionView \<Rightarrow>
   WorkItemState option \<Rightarrow> validation" where
  "validate_retry_authorization retry x v source =
     (if source \<notin> {Some W_LEASED, Some W_RUNNING, Some W_VALIDATING}
        then Some ''retry wait source is not retryable''
      else case retry of
        None \<Rightarrow> Some ''stale attempt retry proof is missing''
      | Some r \<Rightarrow>
          first_error
            [(retry_mismatch r x v, ''stale attempt retry proof does not match''),
             (dict_get (hv_attempt_states v) (sr_attempt_id r) \<noteq> Some A_STALE,
                ''retry attempt is not stale''),
             (retry_ownership r \<notin> set (hv_attempt_work_item_owners v),
                ''committed attempt ownership is missing'')])"

definition validate_work_item ::
  "HarnessTransition \<Rightarrow> HarnessSessionView \<Rightarrow> StaleAttemptRetryAuthorization option \<Rightarrow> validation" where
  "validate_work_item x v retry =
     (case enum_of work_item_states (ht_to_state x) of
        None \<Rightarrow> Some ''unknown work-item target state''
      | Some target \<Rightarrow>
        (let source = dict_get (hv_work_item_states v) (ht_entity_id x)
         in if ht_from_state x \<noteq> source_value work_item_states source
              then Some ''work-item source state does not match''
            else if (case source of None \<Rightarrow> False | Some w \<Rightarrow> w \<in> set WORK_ITEM_TERMINAL_STATES)
              then Some ''terminal work-item state is absorbing''
            else if target = W_RETRY_WAIT then validate_retry_authorization retry x v source
            else if retry \<noteq> None then Some ''retry proof is only valid for retry wait''
            else if target \<notin> set (work_item_targets source) then Some ''illegal work-item transition''
            else None))"

definition validate_attempt :: "HarnessTransition \<Rightarrow> HarnessSessionView \<Rightarrow> validation" where
  "validate_attempt x v =
     (case enum_of attempt_states (ht_to_state x) of
        None \<Rightarrow> Some ''unknown attempt target state''
      | Some target \<Rightarrow>
        (let source = dict_get (hv_attempt_states v) (ht_entity_id x)
         in if ht_from_state x \<noteq> source_value attempt_states source
              then Some ''attempt source state does not match''
            else if (case source of None \<Rightarrow> False | Some w \<Rightarrow> w \<in> set ATTEMPT_TERMINAL_STATES)
              then Some ''terminal attempt state is absorbing''
            else if target \<notin> set (attempt_targets source) then Some ''illegal attempt transition''
            else None))"

definition validate_edge ::
  "HarnessTransition \<Rightarrow> HarnessSessionView \<Rightarrow> StaleAttemptRetryAuthorization option \<Rightarrow>
   ReconciliationResolution option \<Rightarrow> validation" where
  "validate_edge x v retry resolution =
     (if ht_entity_kind x = K_run then validate_run x v resolution
      else if resolution \<noteq> None then Some ''reconciliation proof requires run transition''
      else if ht_entity_kind x = K_work_item then validate_work_item x v retry
      else if retry \<noteq> None then Some ''retry proof requires work-item transition''
      else validate_attempt x v)"

definition validate_permanent_failure ::
  "PermanentFailureDecision \<Rightarrow> HarnessSessionView \<Rightarrow> validation" where
  "validate_permanent_failure f v =
     first_error
       [(hv_run_id v = None \<or> hv_trace_id v = None \<or> hv_run_state v = None,
           ''permanent failure requires active run''),
        (case hv_run_state v of None \<Rightarrow> False | Some r \<Rightarrow> r \<in> set RUN_TERMINAL_STATES,
           ''terminal run state is absorbing''),
        (hv_external_side_effect_unknown v, ''unknown external effects require reconciliation''),
        (Some (pf_run_id f) \<noteq> hv_run_id v \<or> Some (pf_trace_id f) \<noteq> hv_trace_id v,
           ''permanent failure identity does not match''),
        (Some (pf_from_state f) \<noteq> hv_run_state v, ''permanent failure source state does not match''),
        (pf_expected_state_revision f \<noteq> hv_state_revision v,
           ''permanent failure state revision is stale''),
        (pf_plan_revision f \<noteq> hv_plan_revision v, ''permanent failure plan revision is stale''),
        (pf_idempotency_key f \<in> set (hv_applied_idempotency_keys v), ''duplicate idempotency key'')]"

definition validate_revalidated ::
  "Candidate \<Rightarrow> HarnessSessionView \<Rightarrow> Authorization option \<Rightarrow>
   StaleAttemptRetryAuthorization option \<Rightarrow> ReconciliationResolution option \<Rightarrow> validation" where
  "validate_revalidated candidate v authorization retry resolution =
     (case candidate of
        PermanentFailure f \<Rightarrow> validate_permanent_failure f v
      | Transition x \<Rightarrow>
        (case validate_evidence x v authorization of
           Some reason \<Rightarrow> Some reason
         | None \<Rightarrow>
             if ht_idempotency_key x \<in> set (hv_applied_idempotency_keys v)
             then Some ''duplicate idempotency key''
             else validate_edge x v retry resolution))"

definition validate ::
  "Candidate \<Rightarrow> HarnessSessionView \<Rightarrow> Authorization option \<Rightarrow>
   StaleAttemptRetryAuthorization option \<Rightarrow> ReconciliationResolution option \<Rightarrow> validation" where
  "validate candidate v authorization retry resolution =
     (if \<not> revalidate_public_inputs candidate v authorization retry resolution
      then Some ''invalid state-machine input''
      else validate_revalidated candidate v authorization retry resolution)"

section \<open>Application\<close>

datatype StateMachineError =
    InvalidTransitionError string
  | StaleTransitionError string
  | IdentityMismatchError string
  | IdempotencyConflictError string
  | DependencyVersionError string
  | LeaseEvidenceError string
  | SideEffectReconciliationRequiredError string
  | ContractViolation      \<comment> \<open>the \<^verbatim>\<open>ValidationError\<close> of the final \<^verbatim>\<open>model_validate\<close>\<close>

definition error_for :: "string \<Rightarrow> StateMachineError" where
  "error_for message =
     (if contains_text ''stale'' message \<and> \<not> contains_text ''attempt'' message
        then StaleTransitionError message
      else if contains_text ''identity'' message then IdentityMismatchError message
      else if contains_text ''idempotency'' message then IdempotencyConflictError message
      else if contains_text ''dependency'' message then DependencyVersionError message
      else if contains_text ''lease'' message then LeaseEvidenceError message
      else if contains_text ''unknown external effects'' message
        then SideEffectReconciliationRequiredError message
      else InvalidTransitionError message)"

definition replace_state :: "(string, 's) dict \<Rightarrow> string \<Rightarrow> 's \<Rightarrow> (string, 's) dict" where
  "replace_state values identifier state = sort_key fst (dict_put identifier state values)"

fun transition_of :: "Candidate \<Rightarrow> HarnessTransition" where
  "transition_of (Transition x) = x"
| "transition_of (PermanentFailure f) =
     \<lparr>ht_run_id = pf_run_id f, ht_trace_id = pf_trace_id f, ht_entity_kind = K_run,
      ht_entity_id = pf_run_id f, ht_from_state = enum_value run_states (pf_from_state f),
      ht_to_state = enum_value run_states R_FAILED,
      ht_expected_state_revision = pf_expected_state_revision f,
      ht_plan_revision = pf_plan_revision f, ht_reason_code = pf_reason_code f,
      ht_idempotency_key = pf_idempotency_key f, ht_lease_epoch = None,
      ht_fencing_token_digest = None\<rparr>"

definition changed_entity ::
  "HarnessTransition \<Rightarrow> ReconciliationResolution option \<Rightarrow> HarnessSessionView \<Rightarrow> HarnessSessionView" where
  "changed_entity x resolution v =
     (case ht_entity_kind x of
        K_run \<Rightarrow>
          v\<lparr>hv_run_state := enum_of run_states (ht_to_state x),
            hv_external_side_effect_unknown :=
              (if resolution \<noteq> None then False else hv_external_side_effect_unknown v)\<rparr>
      | K_work_item \<Rightarrow>
          (case enum_of work_item_states (ht_to_state x) of
             None \<Rightarrow> v
           | Some w \<Rightarrow> v\<lparr>hv_work_item_states :=
               replace_state (hv_work_item_states v) (ht_entity_id x) w\<rparr>)
      | K_attempt \<Rightarrow>
          (case enum_of attempt_states (ht_to_state x) of
             None \<Rightarrow> v
           | Some a \<Rightarrow> v\<lparr>hv_attempt_states :=
               replace_state (hv_attempt_states v) (ht_entity_id x) a\<rparr>))"

definition changed_view ::
  "HarnessTransition \<Rightarrow> ReconciliationResolution option \<Rightarrow> HarnessSessionView \<Rightarrow> HarnessSessionView" where
  "changed_view x resolution v =
     changed_entity x resolution
       (v\<lparr>hv_sequence := hv_sequence v + 1,
          hv_state_revision := hv_state_revision v + 1,
          hv_plan_revision := ht_plan_revision x,
          hv_run_id := (case hv_run_id v of None \<Rightarrow> Some (ht_run_id x) | r \<Rightarrow> r),
          hv_trace_id := (case hv_trace_id v of None \<Rightarrow> Some (ht_trace_id x) | t \<Rightarrow> t),
          hv_applied_idempotency_keys := hv_applied_idempotency_keys v @ [ht_idempotency_key x]\<rparr>)"

definition apply_candidate ::
  "Candidate \<Rightarrow> HarnessSessionView \<Rightarrow> Authorization option \<Rightarrow>
   StaleAttemptRetryAuthorization option \<Rightarrow> ReconciliationResolution option \<Rightarrow>
   StateMachineError + HarnessSessionView" where
  "apply_candidate candidate v authorization retry resolution =
     (if \<not> revalidate_public_inputs candidate v authorization retry resolution
      then Inl (InvalidTransitionError ''invalid state-machine input'')
      else case validate_revalidated candidate v authorization retry resolution of
        Some reason \<Rightarrow> Inl (error_for reason)
      | None \<Rightarrow>
          (let v' = changed_view (transition_of candidate) resolution v
           in if view_contract v' then Inr v' else Inl ContractViolation))"

end
