(* ===== verification/Harness_Lifecycle.thy ===== *)
theory Harness_Lifecycle
  imports Harness_State_Machine "HOL-Library.Multiset"
begin

text \<open>
  What the transitions of \<^verbatim>\<open>src/market_agent/workflow_state_machine.py\<close> guarantee. The tables are
  three instances of one life cycle; an allowed candidate is a step of an abstract machine over
  the states of the run, its work items and its attempts; application performs exactly what
  validation allows; and histories of applied transitions keep what has ended, apply each key once
  and are bounded by the contract of the view.
\<close>

section \<open>Life cycles\<close>

text \<open>
  What the three tables have in common: members and texts correspond, no target leads back to
  the absent state, terminal states end, and every state that is not terminal can be left.
\<close>

locale lifecycle =
  fixes members :: "(string \<times> 's) list" and targets :: "'s option \<Rightarrow> 's list"
    and terminal_states :: "'s list"
  assumes value_of: "enum_of members (enum_value members s) = Some s"
    and of_value: "enum_of members text = Some s \<Longrightarrow> enum_value members s = text"
    and not_none: "enum_value members s \<noteq> ''none''"
    and exit: "s \<notin> set terminal_states \<Longrightarrow> \<exists>u \<in> set (targets (Some s)). u \<in> set terminal_states"
begin

inductive leads :: "'s \<Rightarrow> 's \<Rightarrow> bool" where
  stay: "leads s s"
| move: "leads s u \<Longrightarrow> u \<notin> set terminal_states \<Longrightarrow> w \<in> set (targets (Some u)) \<Longrightarrow> leads s w"

lemma source_value_inj: "source_value members a = source_value members b \<longleftrightarrow> a = b"
proof -
  have "enum_value members s = enum_value members u \<Longrightarrow> s = u" for s u
    using value_of by (metis option.inject)
  then show ?thesis using not_none not_none [symmetric]
    by (cases a; cases b) (auto simp: source_value_def)
qed

lemma terminal_is_final: "leads s u \<Longrightarrow> s \<in> set terminal_states \<Longrightarrow> u = s"
  by (induction rule: leads.induct) auto

lemma leads_trans: "leads u w \<Longrightarrow> leads s u \<Longrightarrow> leads s w"
  by (induction rule: leads.induct) (auto intro: leads.intros)

lemma one_move: "s \<notin> set terminal_states \<Longrightarrow> w \<in> set (targets (Some s)) \<Longrightarrow> leads s w"
  by (rule leads.move [OF leads.stay])

lemma can_finish: "\<exists>u \<in> set terminal_states. leads s u"
proof (cases "s \<in> set terminal_states")
  case False
  then show ?thesis using exit one_move by blast
qed (auto intro: leads.stay)

end

text \<open>A decision of permanent failure ends a run from any state.\<close>

definition run_targets :: "RunState option \<Rightarrow> RunState list" where
  "run_targets source = successors RUN_EDGES source @ (if source \<noteq> None then [R_FAILED] else [])"

lemmas table_simps = run_targets_def RUN_EDGES_def WORK_ITEM_EDGES_def ATTEMPT_EDGES_def successors_def
  work_item_targets_def attempt_targets_def RUN_TERMINAL_STATES_def WORK_ITEM_TERMINAL_STATES_def
  ATTEMPT_TERMINAL_STATES_def

lemmas enum_simps = enum_of_def enum_value_def run_states_def work_item_states_def attempt_states_def

interpretation run: lifecycle run_states run_targets RUN_TERMINAL_STATES
proof unfold_locales
  show "enum_of run_states (enum_value run_states s) = Some s" for s
    by (cases s) (simp_all add: enum_simps)
  show "enum_of run_states t = Some s \<Longrightarrow> enum_value run_states s = t" for t s
    by (auto simp: enum_simps split: if_splits)
  show "enum_value run_states s \<noteq> ''none''" for s
    by (cases s) (simp_all add: enum_simps)
  show "s \<notin> set RUN_TERMINAL_STATES \<Longrightarrow> \<exists>u \<in> set (run_targets (Some s)). u \<in> set RUN_TERMINAL_STATES" for s
    by (cases s) (auto simp: table_simps)
qed

interpretation item: lifecycle work_item_states work_item_targets WORK_ITEM_TERMINAL_STATES
proof unfold_locales
  show "enum_of work_item_states (enum_value work_item_states s) = Some s" for s
    by (cases s) (simp_all add: enum_simps)
  show "enum_of work_item_states t = Some s \<Longrightarrow> enum_value work_item_states s = t" for t s
    by (auto simp: enum_simps split: if_splits)
  show "enum_value work_item_states s \<noteq> ''none''" for s
    by (cases s) (simp_all add: enum_simps)
  show "s \<notin> set WORK_ITEM_TERMINAL_STATES \<Longrightarrow> \<exists>u \<in> set (work_item_targets (Some s)). u \<in> set WORK_ITEM_TERMINAL_STATES" for s
    by (cases s) (auto simp: table_simps)
qed

interpretation attempt: lifecycle attempt_states attempt_targets ATTEMPT_TERMINAL_STATES
proof unfold_locales
  show "enum_of attempt_states (enum_value attempt_states s) = Some s" for s
    by (cases s) (simp_all add: enum_simps)
  show "enum_of attempt_states t = Some s \<Longrightarrow> enum_value attempt_states s = t" for t s
    by (auto simp: enum_simps split: if_splits)
  show "enum_value attempt_states s \<noteq> ''none''" for s
    by (cases s) (simp_all add: enum_simps)
  show "s \<notin> set ATTEMPT_TERMINAL_STATES \<Longrightarrow> \<exists>u \<in> set (attempt_targets (Some s)). u \<in> set ATTEMPT_TERMINAL_STATES" for s
    by (cases s) (auto simp: table_simps)
qed

section \<open>Applied candidates\<close>

lemma apply_Inr:
  "apply_candidate c v a r k = Inr v' \<longleftrightarrow>
     revalidate_public_inputs c v a r k \<and> validate_revalidated c v a r k = None
     \<and> v' = changed_view (transition_of c) k v \<and> view_contract v'"
  by (auto simp: apply_candidate_def Let_def split: option.splits if_splits)

lemma changed_entity_other [simp]:
  "hv_sequence (changed_entity x k v) = hv_sequence v"
  "hv_state_revision (changed_entity x k v) = hv_state_revision v"
  "hv_plan_revision (changed_entity x k v) = hv_plan_revision v"
  "hv_run_id (changed_entity x k v) = hv_run_id v"
  "hv_trace_id (changed_entity x k v) = hv_trace_id v"
  "hv_request_digest (changed_entity x k v) = hv_request_digest v"
  "hv_prompt_release_digest (changed_entity x k v) = hv_prompt_release_digest v"
  "hv_accepted_result_digest (changed_entity x k v) = hv_accepted_result_digest v"
  "hv_outcome (changed_entity x k v) = hv_outcome v"
  "hv_dependency_versions (changed_entity x k v) = hv_dependency_versions v"
  "hv_transition_authorities (changed_entity x k v) = hv_transition_authorities v"
  "hv_attempt_work_item_owners (changed_entity x k v) = hv_attempt_work_item_owners v"
  "hv_reconciliation_resolutions (changed_entity x k v) = hv_reconciliation_resolutions v"
  "hv_applied_idempotency_keys (changed_entity x k v) = hv_applied_idempotency_keys v"
  "hv_last_event_hash (changed_entity x k v) = hv_last_event_hash v"
  by (simp_all add: changed_entity_def split: EntityKind.splits option.splits)

lemma changed_entity_states:
  "hv_run_state (changed_entity x k v) =
     (if ht_entity_kind x = K_run then enum_of run_states (ht_to_state x) else hv_run_state v)"
  "hv_external_side_effect_unknown (changed_entity x k v) =
     (hv_external_side_effect_unknown v \<and> \<not> (ht_entity_kind x = K_run \<and> k \<noteq> None))"
  by (auto simp: changed_entity_def split: EntityKind.splits option.splits)

text \<open>The rules of a candidate that is allowed.\<close>

lemma evidence_ok:
  assumes "validate_evidence x v a = None"
  obtains e where "a = Some e" and "kind_of e = ht_entity_kind x"
    and "ht_entity_kind x \<noteq> K_run \<Longrightarrow> \<exists>r. hv_run_state v = Some r \<and> r \<notin> set RUN_TERMINAL_STATES"
    and "ht_entity_kind x \<noteq> K_run \<Longrightarrow> hv_run_id v \<noteq> None \<and> hv_trace_id v \<noteq> None"
    and "hv_run_id v = None \<or> hv_run_id v = Some (ht_run_id x)"
    and "hv_trace_id v = None \<or> hv_trace_id v = Some (ht_trace_id x)"
    and "ht_expected_state_revision x = hv_state_revision v" and "ht_plan_revision x = hv_plan_revision v"
    and "te_dependency_versions (evidence_of e) = hv_dependency_versions v"
    and "authority_record x e \<in> set (hv_transition_authorities v)"
proof -
  obtain e where e: "a = Some e" using assms by (cases a) (auto simp: validate_evidence_def)
  note ok = assms [unfolded e validate_evidence_def option.case guard_simps]
  show thesis
  proof (rule that [OF e])
    show "kind_of e = ht_entity_kind x" using ok by blast
    show "hv_run_id v = None \<or> hv_run_id v = Some (ht_run_id x)" using ok by metis
    show "hv_trace_id v = None \<or> hv_trace_id v = Some (ht_trace_id x)" using ok by metis
    show "ht_expected_state_revision x = hv_state_revision v" using ok by metis
    show "ht_plan_revision x = hv_plan_revision v" using ok by metis
    show "te_dependency_versions (evidence_of e) = hv_dependency_versions v" using ok by blast
    show "authority_record x e \<in> set (hv_transition_authorities v)" using ok by blast
    show "hv_run_id v \<noteq> None \<and> hv_trace_id v \<noteq> None" if "ht_entity_kind x \<noteq> K_run"
      using ok that by blast
    show "\<exists>r. hv_run_state v = Some r \<and> r \<notin> set RUN_TERMINAL_STATES" if "ht_entity_kind x \<noteq> K_run"
      using ok that by (cases "hv_run_state v") simp_all
  qed
qed

section \<open>The abstract state machine\<close>

text \<open>
  What a session is to its readers: the state of the run, of each work item and of each attempt,
  and whether an external side effect is unresolved. One step moves one of them along its table.
\<close>

record session_state =
  ss_run :: "RunState option"
  ss_items :: "string \<Rightarrow> WorkItemState option"
  ss_attempts :: "string \<Rightarrow> AttemptState option"
  ss_unknown :: bool

definition session_of :: "HarnessSessionView \<Rightarrow> session_state" where
  "session_of v =
     \<lparr>ss_run = hv_run_state v, ss_items = dict_get (hv_work_item_states v),
      ss_attempts = dict_get (hv_attempt_states v), ss_unknown = hv_external_side_effect_unknown v\<rparr>"

definition unfinished :: "'s list \<Rightarrow> 's option \<Rightarrow> bool" where
  "unfinished terminal_states s = (case s of None \<Rightarrow> True | Some u \<Rightarrow> u \<notin> set terminal_states)"

inductive session_step :: "session_state \<Rightarrow> session_state \<Rightarrow> bool" where
  run_moves: "unfinished RUN_TERMINAL_STATES (ss_run s) \<Longrightarrow> \<not> ss_unknown s \<Longrightarrow>
    r \<in> set (successors RUN_EDGES (ss_run s)) \<Longrightarrow> session_step s (s\<lparr>ss_run := Some r\<rparr>)"
| run_reconciles: "ss_run s = Some R_WAITING_RECONCILIATION \<Longrightarrow> ss_unknown s \<Longrightarrow>
    session_step s (s\<lparr>ss_run := Some R_RECONCILING, ss_unknown := False\<rparr>)"
| run_fails: "ss_run s = Some r \<Longrightarrow> r \<notin> set RUN_TERMINAL_STATES \<Longrightarrow> \<not> ss_unknown s \<Longrightarrow>
    session_step s (s\<lparr>ss_run := Some R_FAILED\<rparr>)"
| item_moves: "ss_run s = Some r \<Longrightarrow> r \<notin> set RUN_TERMINAL_STATES \<Longrightarrow>
    unfinished WORK_ITEM_TERMINAL_STATES (ss_items s i) \<Longrightarrow>
    w \<in> set (work_item_targets (ss_items s i)) \<Longrightarrow>
    session_step s (s\<lparr>ss_items := (ss_items s)(i \<mapsto> w)\<rparr>)"
| attempt_moves: "ss_run s = Some r \<Longrightarrow> r \<notin> set RUN_TERMINAL_STATES \<Longrightarrow>
    unfinished ATTEMPT_TERMINAL_STATES (ss_attempts s i) \<Longrightarrow>
    a \<in> set (attempt_targets (ss_attempts s i)) \<Longrightarrow>
    session_step s (s\<lparr>ss_attempts := (ss_attempts s)(i \<mapsto> a)\<rparr>)"

inductive_cases session_stepE: "session_step s s'"

lemma replace_state_lookup:
  assumes "distinct (dict_keys d)"
  shows "dict_get (replace_state d i s) = (dict_get d)(i \<mapsto> s)"
proof -
  have "distinct (map fst (sort_key fst (dict_put i s d)))"
    using distinct_dict_put [OF assms] by (simp add: distinct_map)
  then show ?thesis
    using map_of_inject_set [OF _ distinct_dict_put [OF assms, of i s], of "replace_state d i s"]
    by (auto simp: replace_state_def fun_eq_iff)
qed

lemma replace_state_keys:
  "set (dict_keys (replace_state d i s)) = insert i (set (dict_keys d))"
  "distinct (dict_keys d) \<Longrightarrow> distinct (dict_keys (replace_state d i s))"
  using dict_keys_put [of i s d] distinct_dict_put [of d i s]
  by (auto simp: replace_state_def distinct_map)

text \<open>The rules of a candidate that is allowed, by its kind.\<close>

lemma run_ok:
  assumes "validate_run x v k = None"
  obtains r where "ht_entity_id x = ht_run_id x" and "enum_of run_states (ht_to_state x) = Some r"
    and "unfinished RUN_TERMINAL_STATES (hv_run_state v)"
    and "r \<in> set (successors RUN_EDGES (hv_run_state v))"
    and "hv_external_side_effect_unknown v \<Longrightarrow> resolution_matches k x v
           \<and> hv_run_state v = Some R_WAITING_RECONCILIATION \<and> r = R_RECONCILING"
    and "\<not> hv_external_side_effect_unknown v \<Longrightarrow> k = None"
proof -
  obtain r where r: "enum_of run_states (ht_to_state x) = Some r" and i: "ht_entity_id x = ht_run_id x"
    using assms by (auto simp: validate_run_def split: if_splits option.splits)
  have ok: "list_all Not (map fst
              [(ht_from_state x \<noteq> source_value run_states (hv_run_state v), ''run source state does not match''),
               (case hv_run_state v of None \<Rightarrow> False | Some r \<Rightarrow> r \<in> set RUN_TERMINAL_STATES,
                  ''terminal run state is absorbing''),
               (hv_external_side_effect_unknown v \<and> \<not> resolution_matches k x v,
                  ''unknown external effects require reconciliation''),
               (hv_external_side_effect_unknown v
                  \<and> (hv_run_state v \<noteq> Some R_WAITING_RECONCILIATION \<or> r \<noteq> R_RECONCILING),
                  ''reconciliation proof has invalid edge''),
               (\<not> hv_external_side_effect_unknown v \<and> k \<noteq> None,
                  ''reconciliation proof is not applicable''),
               (r \<notin> set (successors RUN_EDGES (hv_run_state v)), ''illegal run transition'')])"
    using assms i r unfolding validate_run_def Let_def no_error_iff [symmetric] by simp
  show thesis
  proof (rule that [OF i r])
    show "unfinished RUN_TERMINAL_STATES (hv_run_state v)"
      using ok unfolding list.map fst_conv list.pred_inject unfinished_def
      by (cases "hv_run_state v") simp_all
  qed (use ok in \<open>unfold list.map fst_conv list.pred_inject, blast+\<close>)
qed

lemma retry_source_ok:
  "validate_retry_authorization t x v source = None \<Longrightarrow> W_RETRY_WAIT \<in> set (work_item_targets source)"
  by (auto simp: validate_retry_authorization_def table_simps split: if_splits)

lemma item_ok:
  assumes "validate_work_item x v t = None"
  obtains w where "enum_of work_item_states (ht_to_state x) = Some w"
    and "unfinished WORK_ITEM_TERMINAL_STATES (dict_get (hv_work_item_states v) (ht_entity_id x))"
    and "w \<in> set (work_item_targets (dict_get (hv_work_item_states v) (ht_entity_id x)))"
  using assms retry_source_ok
  by (auto simp: validate_work_item_def Let_def unfinished_def split: option.splits if_splits)

lemma attempt_ok:
  assumes "validate_attempt x v = None"
  obtains w where "enum_of attempt_states (ht_to_state x) = Some w"
    and "unfinished ATTEMPT_TERMINAL_STATES (dict_get (hv_attempt_states v) (ht_entity_id x))"
    and "w \<in> set (attempt_targets (dict_get (hv_attempt_states v) (ht_entity_id x)))"
  using assms
  by (auto simp: validate_attempt_def Let_def unfinished_def split: option.splits if_splits)

lemma failure_ok:
  assumes "validate_permanent_failure f v = None"
  obtains r where "hv_run_state v = Some r" and "r \<notin> set RUN_TERMINAL_STATES"
    and "\<not> hv_external_side_effect_unknown v" and "hv_run_id v = Some (pf_run_id f)"
    and "hv_trace_id v = Some (pf_trace_id f)" and "pf_expected_state_revision f = hv_state_revision v"
    and "pf_plan_revision f = hv_plan_revision v"
    and "pf_idempotency_key f \<notin> set (hv_applied_idempotency_keys v)"
proof -
  note ok = assms [unfolded validate_permanent_failure_def guard_simps]
  then obtain r where r: "hv_run_state v = Some r" by (cases "hv_run_state v") simp_all
  show thesis
    by (rule that [OF r]) (use ok r in \<open>simp_all\<close>)
qed

section \<open>Validation allows exactly what application performs\<close>

lemma edge_ok:
  assumes "validate_revalidated (Transition x) v a t k = None"
  shows "validate_evidence x v a = None" and "ht_idempotency_key x \<notin> set (hv_applied_idempotency_keys v)"
    and "validate_edge x v t k = None"
  using assms by (auto simp: validate_revalidated_def split: option.splits if_splits)

lemma edge_cases:
  assumes "validate_edge x v t k = None"
  obtains "ht_entity_kind x = K_run" and "validate_run x v k = None"
  | "ht_entity_kind x = K_work_item" and "k = None" and "validate_work_item x v t = None"
  | "ht_entity_kind x = K_attempt" and "k = None" and "t = None" and "validate_attempt x v = None"
  using assms by (cases "ht_entity_kind x") (auto simp: validate_edge_def split: if_splits)

lemma changed_view_simps [simp]:
  "hv_sequence (changed_view x k v) = hv_sequence v + 1"
  "hv_state_revision (changed_view x k v) = hv_state_revision v + 1"
  "hv_plan_revision (changed_view x k v) = ht_plan_revision x"
  "hv_run_id (changed_view x k v) = (case hv_run_id v of None \<Rightarrow> Some (ht_run_id x) | r \<Rightarrow> r)"
  "hv_trace_id (changed_view x k v) = (case hv_trace_id v of None \<Rightarrow> Some (ht_trace_id x) | r \<Rightarrow> r)"
  "hv_request_digest (changed_view x k v) = hv_request_digest v"
  "hv_prompt_release_digest (changed_view x k v) = hv_prompt_release_digest v"
  "hv_accepted_result_digest (changed_view x k v) = hv_accepted_result_digest v"
  "hv_outcome (changed_view x k v) = hv_outcome v"
  "hv_dependency_versions (changed_view x k v) = hv_dependency_versions v"
  "hv_transition_authorities (changed_view x k v) = hv_transition_authorities v"
  "hv_attempt_work_item_owners (changed_view x k v) = hv_attempt_work_item_owners v"
  "hv_reconciliation_resolutions (changed_view x k v) = hv_reconciliation_resolutions v"
  "hv_applied_idempotency_keys (changed_view x k v) =
     hv_applied_idempotency_keys v @ [ht_idempotency_key x]"
  "hv_last_event_hash (changed_view x k v) = hv_last_event_hash v"
  "hv_external_side_effect_unknown (changed_view x k v) =
     (hv_external_side_effect_unknown v \<and> \<not> (ht_entity_kind x = K_run \<and> k \<noteq> None))"
  "hv_run_state (changed_view x k v) =
     (if ht_entity_kind x = K_run then enum_of run_states (ht_to_state x) else hv_run_state v)"
  by (simp_all add: changed_view_def changed_entity_states)

lemma changed_view_items:
  "hv_work_item_states (changed_view x k v) =
     (case (ht_entity_kind x, enum_of work_item_states (ht_to_state x)) of
        (K_work_item, Some w) \<Rightarrow> replace_state (hv_work_item_states v) (ht_entity_id x) w
      | _ \<Rightarrow> hv_work_item_states v)"
  "hv_attempt_states (changed_view x k v) =
     (case (ht_entity_kind x, enum_of attempt_states (ht_to_state x)) of
        (K_attempt, Some w) \<Rightarrow> replace_state (hv_attempt_states v) (ht_entity_id x) w
      | _ \<Rightarrow> hv_attempt_states v)"
  by (simp_all add: changed_view_def changed_entity_def split: EntityKind.splits option.splits)

lemma transition_of_failure [simp]:
  "ht_entity_kind (transition_of (PermanentFailure f)) = K_run"
  "ht_idempotency_key (transition_of (PermanentFailure f)) = pf_idempotency_key f"
  "ht_plan_revision (transition_of (PermanentFailure f)) = pf_plan_revision f"
  "ht_expected_state_revision (transition_of (PermanentFailure f)) = pf_expected_state_revision f"
  "ht_run_id (transition_of (PermanentFailure f)) = pf_run_id f"
  "ht_trace_id (transition_of (PermanentFailure f)) = pf_trace_id f"
  "enum_of run_states (ht_to_state (transition_of (PermanentFailure f))) = Some R_FAILED"
  by (simp_all add: run.value_of)

text \<open>A run with unresolved side effects moves with a committed resolution only.\<close>

lemma resolution_given: "resolution_matches k x v \<Longrightarrow> k \<noteq> None"
  by (cases k) (simp_all add: resolution_matches_def)

lemma unknown_run_move:
  assumes "validate_revalidated c v a t k = None" and "hv_external_side_effect_unknown v"
    and "ht_entity_kind (transition_of c) = K_run"
  shows "resolution_matches k (transition_of c) v"
    and "hv_run_state v = Some R_WAITING_RECONCILIATION"
    and "enum_of run_states (ht_to_state (transition_of c)) = Some R_RECONCILING"
proof -
  obtain x where c: "c = Transition x"
    using assms(1,2) by (cases c) (auto simp: validate_revalidated_def elim: failure_ok)
  then have "validate_run x v k = None"
    using edge_ok(3) [OF assms(1) [unfolded c]] assms(3) by (simp add: validate_edge_def)
  then show "resolution_matches k (transition_of c) v"
    and "hv_run_state v = Some R_WAITING_RECONCILIATION"
    and "enum_of run_states (ht_to_state (transition_of c)) = Some R_RECONCILING"
    using assms(2) by (auto simp: c elim: run_ok)
qed

text \<open>What every allowed candidate is bound to.\<close>

lemma allowed_binding:
  assumes "validate_revalidated c v a t k = None"
  shows "ht_expected_state_revision (transition_of c) = hv_state_revision v"
    and "ht_plan_revision (transition_of c) = hv_plan_revision v"
    and "ht_idempotency_key (transition_of c) \<notin> set (hv_applied_idempotency_keys v)"
    and "hv_run_id v = None \<or> hv_run_id v = Some (ht_run_id (transition_of c))"
    and "hv_trace_id v = None \<or> hv_trace_id v = Some (ht_trace_id (transition_of c))"
    and "hv_run_state v \<noteq> None \<Longrightarrow> unfinished RUN_TERMINAL_STATES (hv_run_state v)"
proof -
  have "ht_expected_state_revision (transition_of c) = hv_state_revision v
    \<and> ht_plan_revision (transition_of c) = hv_plan_revision v
    \<and> ht_idempotency_key (transition_of c) \<notin> set (hv_applied_idempotency_keys v)
    \<and> (hv_run_id v = None \<or> hv_run_id v = Some (ht_run_id (transition_of c)))
    \<and> (hv_trace_id v = None \<or> hv_trace_id v = Some (ht_trace_id (transition_of c)))
    \<and> unfinished RUN_TERMINAL_STATES (hv_run_state v)"
  proof (cases c)
    case (PermanentFailure f)
    then have "validate_permanent_failure f v = None" using assms by (simp add: validate_revalidated_def)
    then show ?thesis
      by (rule failure_ok) (simp add: PermanentFailure unfinished_def)
  next
    case (Transition x)
    note ok = edge_ok [OF assms [unfolded Transition]]
    have "unfinished RUN_TERMINAL_STATES (hv_run_state v)"
    proof (cases "ht_entity_kind x = K_run")
      case True
      then have "validate_run x v k = None" using ok(3) by (simp add: validate_edge_def)
      then show ?thesis by (rule run_ok)
    next
      case False
      then show ?thesis using ok(1) by (elim evidence_ok) (auto simp: unfinished_def)
    qed
    then show ?thesis using ok by (elim evidence_ok) (simp add: Transition)
  qed
  then show "ht_expected_state_revision (transition_of c) = hv_state_revision v"
    and "ht_plan_revision (transition_of c) = hv_plan_revision v"
    and "ht_idempotency_key (transition_of c) \<notin> set (hv_applied_idempotency_keys v)"
    and "hv_run_id v = None \<or> hv_run_id v = Some (ht_run_id (transition_of c))"
    and "hv_trace_id v = None \<or> hv_trace_id v = Some (ht_trace_id (transition_of c))"
    and "hv_run_state v \<noteq> None \<Longrightarrow> unfinished RUN_TERMINAL_STATES (hv_run_state v)"
    by simp_all
qed

text \<open>An allowed candidate is a step of the abstract machine.\<close>

lemma session_of_simps [simp]:
  "ss_run (session_of v) = hv_run_state v"
  "ss_items (session_of v) = dict_get (hv_work_item_states v)"
  "ss_attempts (session_of v) = dict_get (hv_attempt_states v)"
  "ss_unknown (session_of v) = hv_external_side_effect_unknown v"
  by (simp_all add: session_of_def)

lemma session_of_changed:
  assumes "view_contract v"
  shows "session_of (changed_view x k v) =
    (case ht_entity_kind x of
       K_run \<Rightarrow> (session_of v)\<lparr>ss_run := enum_of run_states (ht_to_state x),
                  ss_unknown := hv_external_side_effect_unknown v \<and> k = None\<rparr>
     | K_work_item \<Rightarrow> (case enum_of work_item_states (ht_to_state x) of
          None \<Rightarrow> session_of v
        | Some w \<Rightarrow> (session_of v)\<lparr>ss_items := (dict_get (hv_work_item_states v))(ht_entity_id x \<mapsto> w)\<rparr>)
     | K_attempt \<Rightarrow> (case enum_of attempt_states (ht_to_state x) of
          None \<Rightarrow> session_of v
        | Some w \<Rightarrow> (session_of v)\<lparr>ss_attempts := (dict_get (hv_attempt_states v))(ht_entity_id x \<mapsto> w)\<rparr>))"
  using assms
  by (simp add: session_of_def changed_view_items replace_state_lookup view_contract_def
      view_consistent_def split: EntityKind.splits option.splits)

lemma allowed_step:
  assumes "validate_revalidated c v a t k = None" and "view_contract v"
  shows "session_step (session_of v) (session_of (changed_view (transition_of c) k v))"
proof (cases c)
  case (PermanentFailure f)
  then have "validate_permanent_failure f v = None" using assms by (simp add: validate_revalidated_def)
  then obtain r where r: "hv_run_state v = Some r" "r \<notin> set RUN_TERMINAL_STATES"
    "\<not> hv_external_side_effect_unknown v" by (rule failure_ok)
  have "session_of (changed_view (transition_of c) k v) = (session_of v)\<lparr>ss_run := Some R_FAILED\<rparr>"
    unfolding session_of_changed [OF assms(2)] PermanentFailure
    using r by (simp add: session_of_def run.value_of)
  then show ?thesis using session_step.run_fails [of "session_of v" r] r by simp
next
  case (Transition x)
  note ok = edge_ok [OF assms(1) [unfolded Transition]]
  from ok(3) show ?thesis
  proof (cases rule: edge_cases)
    case 1
    from 1(2) obtain r where r: "enum_of run_states (ht_to_state x) = Some r"
      "unfinished RUN_TERMINAL_STATES (hv_run_state v)"
      "r \<in> set (successors RUN_EDGES (hv_run_state v))"
      and u: "hv_external_side_effect_unknown v \<Longrightarrow> resolution_matches k x v
           \<and> hv_run_state v = Some R_WAITING_RECONCILIATION \<and> r = R_RECONCILING"
      and n: "\<not> hv_external_side_effect_unknown v \<Longrightarrow> k = None"
      by (rule run_ok) (rule that)
    show ?thesis
    proof (cases "hv_external_side_effect_unknown v")
      case True
      then have "k \<noteq> None" using u resolution_given by blast
      then have "session_of (changed_view x k v)
        = (session_of v)\<lparr>ss_run := Some R_RECONCILING, ss_unknown := False\<rparr>"
        using session_of_changed [OF assms(2)] 1(1) r u [OF True] by simp
      then show ?thesis
        using session_step.run_reconciles [of "session_of v"] u [OF True] True Transition by simp
    next
      case False
      then have "session_of (changed_view x k v) = (session_of v)\<lparr>ss_run := Some r\<rparr>"
        unfolding session_of_changed [OF assms(2)] using 1(1) r n [OF False] False
        by (simp add: session_of_def)
      then show ?thesis using session_step.run_moves [of "session_of v" r] r False Transition by simp
    qed
  next
    case 2
    obtain q where q: "hv_run_state v = Some q" "q \<notin> set RUN_TERMINAL_STATES"
      using ok(1) 2(1) by (elim evidence_ok) auto
    from 2(3) obtain w where "enum_of work_item_states (ht_to_state x) = Some w"
      "unfinished WORK_ITEM_TERMINAL_STATES (dict_get (hv_work_item_states v) (ht_entity_id x))"
      "w \<in> set (work_item_targets (dict_get (hv_work_item_states v) (ht_entity_id x)))" by (rule item_ok)
    then show ?thesis
      using session_step.item_moves [of "session_of v" q "ht_entity_id x" w] q
        session_of_changed [OF assms(2)] 2(1) Transition by simp
  next
    case 3
    obtain q where q: "hv_run_state v = Some q" "q \<notin> set RUN_TERMINAL_STATES"
      using ok(1) 3(1) by (elim evidence_ok) auto
    from 3(4) obtain w where "enum_of attempt_states (ht_to_state x) = Some w"
      "unfinished ATTEMPT_TERMINAL_STATES (dict_get (hv_attempt_states v) (ht_entity_id x))"
      "w \<in> set (attempt_targets (dict_get (hv_attempt_states v) (ht_entity_id x)))" by (rule attempt_ok)
    then show ?thesis
      using session_step.attempt_moves [of "session_of v" q "ht_entity_id x" w] q
        session_of_changed [OF assms(2)] 3(1) Transition by simp
  qed
qed

text \<open>A view that accepts a candidate stays within its contract until 64 keys are applied.\<close>

lemma outcome_terminal: "outcome_contract x \<Longrightarrow> ho_terminal_state x \<in> set RUN_TERMINAL_STATES"
  by (auto simp: outcome_contract_def allowed_reasons_def RUN_TERMINAL_STATES_def
      split: option.splits if_splits)

lemma candidate_short:
  assumes "candidate_contract c"
  shows "short_text (ht_run_id (transition_of c))" and "short_text (ht_trace_id (transition_of c))"
    and "short_text (ht_entity_id (transition_of c))"
    and "short_text (ht_idempotency_key (transition_of c))" and "0 \<le> ht_plan_revision (transition_of c)"
  using assms by (cases c; simp add: transition_contract_def failure_contract_def)+

lemma target_known:
  assumes "validate_revalidated c v a t k = None"
  shows "ht_entity_kind (transition_of c) = K_run \<Longrightarrow> enum_of run_states (ht_to_state (transition_of c)) \<noteq> None"
proof (cases c)
  case (Transition x)
  assume "ht_entity_kind (transition_of c) = K_run"
  then have "validate_run x v k = None"
    using edge_ok(3) [OF assms [unfolded Transition]] Transition by (simp add: validate_edge_def)
  then show ?thesis by (rule run_ok) (simp add: Transition)
qed (simp add: run.value_of)

lemma changed_view_contract:
  assumes "validate_revalidated c v a t k = None" and "candidate_contract c" and "view_contract v"
  shows "view_contract (changed_view (transition_of c) k v) \<longleftrightarrow> length (hv_applied_idempotency_keys v) < 64"
proof -
  note b = allowed_binding [OF assms(1)] and s = candidate_short [OF assms(2)]
  let ?x = "transition_of c"
  have f: "view_fields v" and g: "view_consistent v" using assms(3) by (simp_all add: view_contract_def)
  have o: "hv_outcome v = None"
  proof (rule ccontr)
    assume "hv_outcome v \<noteq> None"
    then obtain y where y: "hv_outcome v = Some y" by blast
    then have "outcome_contract y" "hv_run_state v = Some (ho_terminal_state y)"
      using f g by (simp_all add: view_fields_def view_consistent_def optional_def)
    then show False using b(6) outcome_terminal by (simp add: unfinished_def)
  qed
  have items: "list_all short_text (dict_keys (hv_work_item_states (changed_view ?x k v)))"
    "distinct (dict_keys (hv_work_item_states (changed_view ?x k v)))"
    using f g s(3) by (auto simp: changed_view_items view_fields_def view_consistent_def list_all_iff
        replace_state_keys simp del: set_map list.set_map split: EntityKind.splits option.splits)
  have attempts: "list_all short_text (dict_keys (hv_attempt_states (changed_view ?x k v)))"
    "distinct (dict_keys (hv_attempt_states (changed_view ?x k v)))"
    using f g s(3) by (auto simp: changed_view_items view_fields_def view_consistent_def list_all_iff
        replace_state_keys simp del: set_map list.set_map split: EntityKind.splits option.splits)
  have unknown: "hv_external_side_effect_unknown (changed_view ?x k v) \<Longrightarrow>
      hv_run_state (changed_view ?x k v) = Some R_WAITING_RECONCILIATION"
  proof -
    assume u: "hv_external_side_effect_unknown (changed_view ?x k v)"
    have "ht_entity_kind ?x \<noteq> K_run"
      using u unknown_run_move(1) [OF assms(1)] resolution_given by auto
    then show ?thesis using u g by (simp add: view_consistent_def)
  qed
  have ids: "list_all (optional short_text) [hv_run_id (changed_view ?x k v), hv_trace_id (changed_view ?x k v)]"
    using f s by (auto simp: view_fields_def optional_def split: option.splits)
  have "(hv_run_id (changed_view ?x k v) = None) = (hv_trace_id (changed_view ?x k v) = None)"
    by (auto split: option.splits)
  moreover have "view_fields (changed_view ?x k v) \<longleftrightarrow> length (hv_applied_idempotency_keys v) < 64"
    using f s ids items attempts o by (auto simp: view_fields_def target_ids_def)
  moreover have "distinct (hv_applied_idempotency_keys v @ [ht_idempotency_key ?x])"
    using g b(3) by (simp add: view_consistent_def)
  ultimately show ?thesis
    using g o unknown items attempts by (simp add: view_contract_def view_consistent_def)
qed

section \<open>Histories\<close>

text \<open>
  The transitions applied one after the other to a view. Between them records are committed: they
  may change what the view knows of authorities, owners, resolutions and digests, and its place in
  the event stream, but neither a state nor the applied keys.
\<close>

definition recorded :: "HarnessSessionView \<Rightarrow> HarnessSessionView \<Rightarrow> bool" where
  "recorded u w =
     (hv_run_state w = hv_run_state u \<and> hv_work_item_states w = hv_work_item_states u
      \<and> hv_attempt_states w = hv_attempt_states u
      \<and> hv_external_side_effect_unknown w = hv_external_side_effect_unknown u
      \<and> hv_state_revision w = hv_state_revision u \<and> hv_plan_revision w = hv_plan_revision u
      \<and> hv_applied_idempotency_keys w = hv_applied_idempotency_keys u)"

inductive history :: "HarnessSessionView \<Rightarrow> HarnessTransition list \<Rightarrow> HarnessSessionView \<Rightarrow> bool" where
  start: "history v [] v"
| commit: "history v xs u \<Longrightarrow> recorded u w \<Longrightarrow> history v xs w"
| extend: "history v xs u \<Longrightarrow> apply_candidate c u a t k = Inr w \<Longrightarrow> history v (xs @ [transition_of c]) w"

lemma apply_step:
  assumes "apply_candidate c v a t k = Inr v'"
  shows "validate_revalidated c v a t k = None" and "v' = changed_view (transition_of c) k v"
    and "view_contract v" and "candidate_contract c" and "view_contract v'"
    and "session_step (session_of v) (session_of v')"
proof -
  show ok: "validate_revalidated c v a t k = None" and v': "v' = changed_view (transition_of c) k v"
    and v: "view_contract v" and "candidate_contract c" and "view_contract v'"
    using assms by (auto simp: apply_Inr revalidate_public_inputs_def fresh_contract_def)
  show "session_step (session_of v) (session_of v')" using allowed_step [OF ok v] v' by simp
qed

lemma history_counts:
  assumes "history v xs u"
  shows "hv_applied_idempotency_keys u = hv_applied_idempotency_keys v @ map ht_idempotency_key xs"
    and "hv_state_revision u = hv_state_revision v + int (length xs)"
    and "xs \<noteq> [] \<Longrightarrow> distinct (hv_applied_idempotency_keys u) \<and> length (hv_applied_idempotency_keys u) \<le> 64"
  using assms
proof (induction rule: history.induct)
  case (extend v xs u c a t k w)
  note s = apply_step [OF extend.hyps(2)]
  {
    case 1
    then show ?case using extend.IH by (simp add: s(2))
  next
    case 2
    then show ?case using extend.IH by (simp add: s(2))
  next
    case 3
    then show ?case
      using s(5) by (simp add: view_contract_def view_fields_def view_consistent_def target_ids_def)
  }
qed (simp_all add: recorded_def)

text \<open>A step keeps every entity on its life cycle.\<close>

lemma step_leads:
  assumes "session_step s s'"
  shows "ss_run s = Some r \<Longrightarrow> \<exists>r'. ss_run s' = Some r' \<and> run.leads r r'"
    and "ss_items s i = Some w \<Longrightarrow> \<exists>w'. ss_items s' i = Some w' \<and> item.leads w w'"
    and "ss_attempts s i = Some x \<Longrightarrow> \<exists>x'. ss_attempts s' i = Some x' \<and> attempt.leads x x'"
proof -
  have "R_RECONCILING \<in> set (run_targets (Some R_WAITING_RECONCILIATION))"
    and "R_WAITING_RECONCILIATION \<notin> set RUN_TERMINAL_STATES"
    and "q \<in> set (successors RUN_EDGES (Some r)) \<Longrightarrow> q \<in> set (run_targets (Some r))"
    and "R_FAILED \<in> set (run_targets (Some r))" for q
    by (simp_all add: table_simps)
  note runs = this
  show "ss_run s = Some r \<Longrightarrow> \<exists>r'. ss_run s' = Some r' \<and> run.leads r r'"
    and "ss_items s i = Some w \<Longrightarrow> \<exists>w'. ss_items s' i = Some w' \<and> item.leads w w'"
    and "ss_attempts s i = Some x \<Longrightarrow> \<exists>x'. ss_attempts s' i = Some x' \<and> attempt.leads x x'"
    using assms runs
    by (induction rule: session_step.induct)
      (auto simp: unfinished_def intro: run.leads.stay item.leads.stay attempt.leads.stay
        run.one_move item.one_move attempt.one_move)
qed

lemma history_leads:
  assumes "history v xs u"
  shows "hv_run_state v = Some r \<Longrightarrow> \<exists>r'. hv_run_state u = Some r' \<and> run.leads r r'"
    and "dict_get (hv_work_item_states v) i = Some w \<Longrightarrow>
      \<exists>w'. dict_get (hv_work_item_states u) i = Some w' \<and> item.leads w w'"
    and "dict_get (hv_attempt_states v) i = Some x \<Longrightarrow>
      \<exists>x'. dict_get (hv_attempt_states u) i = Some x' \<and> attempt.leads x x'"
  using assms
proof (induction rule: history.induct)
  case (extend v xs u c a t k z)
  note s = step_leads [OF apply_step(6) [OF extend.hyps(2)], unfolded session_of_simps]
  {
    case 1
    then show ?case using extend.IH(1) s(1) run.leads_trans by blast
  next
    case 2
    then show ?case using extend.IH(2) s(2) item.leads_trans by blast
  next
    case 3
    then show ?case using extend.IH(3) s(3) attempt.leads_trans by blast
  }
qed (auto simp: recorded_def intro: run.leads.stay item.leads.stay attempt.leads.stay)

lemma no_step_after_end:
  assumes "session_step s s'" and "ss_run s = Some r"
  shows "r \<notin> set RUN_TERMINAL_STATES"
  using assms by (induction rule: session_step.induct) (auto simp: unfinished_def RUN_TERMINAL_STATES_def)

lemma terminal_history:
  assumes "history v xs u" and "hv_run_state v = Some r" and "r \<in> set RUN_TERMINAL_STATES"
  shows "xs = [] \<and> session_of u = session_of v"
  using assms
proof (induction rule: history.induct)
  case (extend v xs u c a t k z)
  then have "hv_run_state u = Some r" by (metis session_of_simps(1))
  then show ?case
    using no_step_after_end [OF apply_step(6) [OF extend.hyps(2)]] extend.prems by simp
qed (auto simp: recorded_def session_of_def)

section \<open>Capacity\<close>

text \<open>How far a work item has come on the way to success; other ends count as one step.\<close>

definition item_rank :: "WorkItemState \<Rightarrow> nat" where
  "item_rank w = (case w of
     W_PENDING \<Rightarrow> 1 | W_READY \<Rightarrow> 2 | W_LEASED \<Rightarrow> 3 | W_RUNNING \<Rightarrow> 4 | W_VALIDATING \<Rightarrow> 5
   | W_SUCCEEDED \<Rightarrow> 6 | _ \<Rightarrow> 1)"

definition total_rank :: "(string, WorkItemState) dict \<Rightarrow> nat" where
  "total_rank d = sum_list (map (\<lambda>e. item_rank (snd e)) d)"

lemma rank_step:
  "w \<in> set (work_item_targets source) \<Longrightarrow>
     item_rank w \<le> Suc (case source of None \<Rightarrow> 0 | Some s \<Rightarrow> item_rank s)"
  by (cases source; cases "the source") (auto simp: table_simps item_rank_def)

lemma rank_put:
  "total_rank (dict_put i w d) + (case dict_get d i of None \<Rightarrow> 0 | Some s \<Rightarrow> item_rank s)
     = total_rank d + item_rank w"
  by (induction i w d rule: dict_put.induct) (auto simp: total_rank_def split: option.splits)

lemma total_rank_mset: "total_rank d = sum_mset (image_mset (\<lambda>e. item_rank (snd e)) (mset d))"
  unfolding total_rank_def mset_map [symmetric] sum_mset_sum_list ..

lemma rank_replace: "total_rank (replace_state d i w) = total_rank (dict_put i w d)"
  unfolding total_rank_mset replace_state_def mset_sort ..

lemma rank_of_successes: "6 * length (filter (\<lambda>e. snd e = W_SUCCEEDED) d) \<le> total_rank d"
  by (induction d) (auto simp: total_rank_def item_rank_def)

lemma apply_rank:
  assumes "apply_candidate c v a t k = Inr v'"
  shows "total_rank (hv_work_item_states v') \<le> Suc (total_rank (hv_work_item_states v))"
proof -
  note ok = apply_step [OF assms]
  show ?thesis
  proof (cases "ht_entity_kind (transition_of c) = K_work_item")
    case False
    then show ?thesis by (simp add: ok(2) changed_view_items split: EntityKind.splits)
  next
    case True
    then obtain x where x: "c = Transition x" by (cases c) simp_all
    then have "validate_work_item x v t = None"
      using edge_ok(3) [OF ok(1) [unfolded x]] True by (simp add: validate_edge_def split: if_splits)
    then obtain w where w: "enum_of work_item_states (ht_to_state x) = Some w"
      "unfinished WORK_ITEM_TERMINAL_STATES (dict_get (hv_work_item_states v) (ht_entity_id x))"
      "w \<in> set (work_item_targets (dict_get (hv_work_item_states v) (ht_entity_id x)))" by (rule item_ok)
    show ?thesis
      using rank_step [OF w(3)] rank_put [of "ht_entity_id x" w "hv_work_item_states v"] True x w
      by (simp add: ok(2) changed_view_items rank_replace)
  qed
qed

lemma history_rank:
  "history v xs u \<Longrightarrow>
     total_rank (hv_work_item_states u) \<le> total_rank (hv_work_item_states v) + length xs"
proof (induction rule: history.induct)
  case (extend v xs u c a t k w)
  then show ?case using apply_rank [OF extend.hyps(2)] by simp
qed (simp_all add: recorded_def)

section \<open>Properties\<close>

text \<open>
  Applying a candidate is its validation, followed by the update of the view. What the
  validation allows is performed as long as fewer than 64 keys are applied; from then on every
  allowed candidate is refused by the contract of the view. What it rejects is
  reported under the error of the reason.
\<close>

theorem apply_is_validated_update:
  "apply_candidate c v a t k =
     (case validate c v a t k of
        Some reason \<Rightarrow> Inl (error_for reason)
      | None \<Rightarrow> if length (hv_applied_idempotency_keys v) < 64
                then Inr (changed_view (transition_of c) k v) else Inl ContractViolation)"
proof (cases "revalidate_public_inputs c v a t k \<and> validate_revalidated c v a t k = None")
  case True
  then have "view_contract v" and "candidate_contract c"
    by (simp_all add: revalidate_public_inputs_def fresh_contract_def)
  then show ?thesis
    using True changed_view_contract [of c v a t k] by (simp add: apply_candidate_def validate_def)
next
  case False
  have "error_for ''invalid state-machine input'' = InvalidTransitionError ''invalid state-machine input''"
    by code_simp
  then show ?thesis using False by (auto simp: apply_candidate_def validate_def split: option.splits)
qed

text \<open>
  C4. An applied candidate is one step of the abstract state machine: it moves the run, one work
  item or one attempt along its table (or fails the run), never out of a terminal state and never
  an entity of a finished run. The revision and the sequence advance by one, the idempotency key
  is new and is recorded, the plan revision, the identity, the authorities, the ownership
  records and the resolutions are kept, and the result satisfies the contract of a view.
\<close>

theorem applied_candidate_is_one_step:
  assumes "apply_candidate c v a t k = Inr v'"
  shows "session_step (session_of v) (session_of v') \<and> view_contract v'
    \<and> ht_expected_state_revision (transition_of c) = hv_state_revision v
    \<and> hv_state_revision v' = hv_state_revision v + 1 \<and> hv_sequence v' = hv_sequence v + 1
    \<and> hv_plan_revision v' = hv_plan_revision v
    \<and> ht_idempotency_key (transition_of c) \<notin> set (hv_applied_idempotency_keys v)
    \<and> hv_applied_idempotency_keys v' = hv_applied_idempotency_keys v @ [ht_idempotency_key (transition_of c)]
    \<and> hv_run_id v' = Some (ht_run_id (transition_of c)) \<and> (hv_run_id v \<noteq> None \<longrightarrow> hv_run_id v' = hv_run_id v)
    \<and> hv_transition_authorities v' = hv_transition_authorities v
    \<and> hv_attempt_work_item_owners v' = hv_attempt_work_item_owners v
    \<and> hv_reconciliation_resolutions v' = hv_reconciliation_resolutions v
    \<and> hv_outcome v' = hv_outcome v"
  using apply_step [OF assms] allowed_binding [OF apply_step(1) [OF assms]]
  by (auto split: option.splits)

text \<open>
  What has ended stays as it is: no transition is applied once the run is in a terminal state,
  and a work item or an attempt in a terminal state keeps it through every history.
\<close>

theorem terminal_states_are_final:
  assumes "history v xs u"
  shows "(hv_run_state v = Some r \<and> r \<in> set RUN_TERMINAL_STATES \<longrightarrow> xs = [] \<and> session_of u = session_of v)
    \<and> (dict_get (hv_work_item_states v) i = Some w \<and> w \<in> set WORK_ITEM_TERMINAL_STATES \<longrightarrow>
         dict_get (hv_work_item_states u) i = Some w)
    \<and> (dict_get (hv_attempt_states v) i = Some x \<and> x \<in> set ATTEMPT_TERMINAL_STATES \<longrightarrow>
         dict_get (hv_attempt_states u) i = Some x)"
  using terminal_history [OF assms] history_leads [OF assms] item.terminal_is_final
    attempt.terminal_is_final by blast

text \<open>
  A transition is applied at most once: the keys of a history are distinct and none of them
  had been applied before.
\<close>

theorem transitions_apply_once:
  assumes "history v xs u" and "distinct (hv_applied_idempotency_keys v)"
  shows "distinct (map ht_idempotency_key xs)
    \<and> set (map ht_idempotency_key xs) \<inter> set (hv_applied_idempotency_keys v) = {}
    \<and> hv_state_revision u = hv_state_revision v + int (length xs)"
proof (cases "xs = []")
  case False
  then have "distinct (hv_applied_idempotency_keys u)"
    using history_counts(3) [OF assms(1)] by simp
  then show ?thesis using history_counts(1,2) [OF assms(1)] by auto
qed (use assms history_counts(2) [OF assms(1)] in simp)

text \<open>
  C38. A session never applies more than 64 transitions, so no more than ten of its work items can
  succeed: each takes six transitions. A plan may have 256 work items.
\<close>

theorem session_capacity:
  assumes "history empty_view xs u"
  shows "length xs \<le> 64 \<and> length (filter (\<lambda>e. snd e = W_SUCCEEDED) (hv_work_item_states u)) \<le> 10"
proof -
  have "length xs \<le> 64"
    using history_counts(1,3) [OF assms] by (cases "xs = []") (auto simp: empty_view_def)
  moreover have "total_rank (hv_work_item_states u) \<le> length xs"
    using history_rank [OF assms] by (simp add: total_rank_def empty_view_def)
  ultimately show ?thesis using rank_of_successes [of "hv_work_item_states u"] by simp
qed

text \<open>
  C37. While an external side effect is unresolved the run does not move, but for one way: from
  waiting to reconciling, with a resolution of this run, revision and plan whose record, with
  the broker's observation, is committed in the session.
\<close>

theorem unresolved_effects_need_a_committed_resolution:
  assumes "apply_candidate c v a t k = Inr v'" and "hv_external_side_effect_unknown v"
  shows "hv_external_side_effect_unknown v' \<and> hv_run_state v' = hv_run_state v
    \<or> (\<exists>r. k = Some r \<and> resolution_record r \<in> set (hv_reconciliation_resolutions v)
         \<and> Some (rs_run_id r) = hv_run_id v \<and> rs_expected_state_revision r = hv_state_revision v
         \<and> rs_plan_revision r = hv_plan_revision v \<and> hv_run_state v = Some R_WAITING_RECONCILIATION
         \<and> hv_run_state v' = Some R_RECONCILING \<and> \<not> hv_external_side_effect_unknown v')"
proof (cases "ht_entity_kind (transition_of c) = K_run")
  case False
  then show ?thesis using assms(2) apply_step(2) [OF assms(1)] by simp
next
  case True
  note m = unknown_run_move [OF apply_step(1) [OF assms(1)] assms(2) True]
  then obtain r where r: "k = Some r" using resolution_given by blast
  have "resolution_record r \<in> set (hv_reconciliation_resolutions v)"
    using m(1) in_set_conv_decomp by (force simp: r resolution_matches_def filter_eq_Cons_iff)
  then show ?thesis
    using m True apply_step(2) [OF assms(1)] by (auto simp: r resolution_matches_def)
qed

section \<open>Examples\<close>

definition example_create :: HarnessTransition where
  "example_create =
     \<lparr>ht_run_id = ''run-1'', ht_trace_id = ''trace-1'', ht_entity_kind = K_run, ht_entity_id = ''run-1'',
      ht_from_state = ''none'', ht_to_state = ''created'', ht_expected_state_revision = 0,
      ht_plan_revision = 0, ht_reason_code = ''admission'', ht_idempotency_key = ''key-1'',
      ht_lease_epoch = None, ht_fencing_token_digest = None\<rparr>"

definition example_evidence :: Authorization where
  "example_evidence = RunTransitionEvidence
     \<lparr>te_run_id = ''run-1'', te_trace_id = ''trace-1'', te_entity_id = ''run-1'',
      te_expected_state_revision = 0, te_plan_revision = 0, te_dependency_versions = []\<rparr>"

definition example_view :: HarnessSessionView where
  "example_view = empty_view\<lparr>hv_sequence := 1, hv_run_id := Some ''run-1'', hv_trace_id := Some ''trace-1'',
     hv_transition_authorities := [authority_record example_create example_evidence]\<rparr>"

definition created_view :: HarnessSessionView where
  "created_view = example_view\<lparr>hv_sequence := 2, hv_state_revision := 1, hv_run_state := Some R_CREATED,
     hv_applied_idempotency_keys := [''key-1'']\<rparr>"

text \<open>A run that waits for the resolution of a side effect.\<close>

definition example_resolution :: ReconciliationResolution where
  "example_resolution =
     \<lparr>rs_run_id = ''run-1'', rs_trace_id = ''trace-1'', rs_entity_id = ''run-1'',
      rs_expected_state_revision = 0, rs_plan_revision = 0, rs_reconciliation_id = ''rec-1'',
      rs_broker_observation_digest = replicate 64 CHR ''a''\<rparr>"

definition example_reconcile :: HarnessTransition where
  "example_reconcile = example_create\<lparr>ht_from_state := ''waiting_reconciliation'', ht_to_state := ''reconciling''\<rparr>"

definition waiting_view :: HarnessSessionView where
  "waiting_view = example_view\<lparr>hv_run_state := Some R_WAITING_RECONCILIATION,
     hv_external_side_effect_unknown := True,
     hv_transition_authorities := [authority_record example_reconcile example_evidence],
     hv_reconciliation_resolutions := [resolution_record example_resolution]\<rparr>"

lemma example_applied:
  "apply_candidate (Transition example_create) example_view (Some example_evidence) None None = Inr created_view"
  by code_simp

definition reconciling_view :: HarnessSessionView where
  "reconciling_view = waiting_view\<lparr>hv_sequence := 2, hv_state_revision := 1, hv_run_state := Some R_RECONCILING,
     hv_external_side_effect_unknown := False, hv_applied_idempotency_keys := [''key-1'']\<rparr>"

lemma example_reconciled:
  "apply_candidate (Transition example_reconcile) waiting_view (Some example_evidence) None
     (Some example_resolution) = Inr reconciling_view"
  by code_simp

lemma example_history: "history empty_view [example_create] created_view"
proof -
  have "recorded empty_view example_view" by code_simp
  then show ?thesis
    using history.extend [OF history.commit [OF history.start] example_applied] by simp
qed

theorem applied_candidate_is_one_step_witness:
  "session_step (session_of example_view) (session_of created_view) \<and> hv_state_revision created_view = 1
   \<and> hv_run_state created_view = Some R_CREATED"
proof -
  have "hv_state_revision created_view = 1" and "hv_run_state created_view = Some R_CREATED"
    by (simp_all add: created_view_def)
  then show ?thesis using applied_candidate_is_one_step [OF example_applied] by blast
qed

theorem terminal_states_are_final_witness:
  "dict_get (hv_work_item_states (created_view\<lparr>hv_work_item_states := [(''w'', W_FAILED)]\<rparr>)) ''w'' = Some W_FAILED"
proof -
  have "apply_candidate (Transition example_create) (example_view\<lparr>hv_work_item_states := [(''w'', W_FAILED)]\<rparr>)
          (Some example_evidence) None None = Inr (created_view\<lparr>hv_work_item_states := [(''w'', W_FAILED)]\<rparr>)"
    by code_simp
  then show ?thesis
    using terminal_states_are_final [OF history.extend [OF history.start], of _ _ _ _ _ _ R_FAILED "''w''" W_FAILED A_FAILED]
    by (simp add: WORK_ITEM_TERMINAL_STATES_def)
qed

theorem transitions_apply_once_witness:
  "history empty_view [example_create] created_view \<and> hv_state_revision created_view = 1
   \<and> distinct (map ht_idempotency_key [example_create])"
  using transitions_apply_once [OF example_history] example_history
  by (simp add: empty_view_def)

theorem session_capacity_witness:
  "history empty_view [example_create] created_view \<and> length [example_create] \<le> 64"
  using session_capacity [OF example_history] example_history by blast

theorem unresolved_effects_need_a_committed_resolution_witness:
  "hv_external_side_effect_unknown waiting_view \<and> \<not> hv_external_side_effect_unknown reconciling_view
   \<and> hv_run_state waiting_view = Some R_WAITING_RECONCILIATION"
  using unresolved_effects_need_a_committed_resolution [OF example_reconciled]
  by (simp add: waiting_view_def reconciling_view_def)

end
