(* ===== verification/Harness_Session.thy ===== *)
theory Harness_Session
  imports Harness_Lifecycle
begin

text \<open>
  The event-sourced session of a harness run (\<^verbatim>\<open>src/market_agent/workflow_session.py\<close>): events and
  their contract, the fold of a committed stream into a session view, and the SQLite store with
  its leases, as functions from the tables to the tables.

  Two hashes are parameters: \<open>digest\<close> stands for \<^verbatim>\<open>canonical_event_hash\<close> of the values of
  an event (SHA-256 of its canonical JSON without the hash itself), \<open>sha\<close> for the SHA-256 of a
  fencing token. The random part of a token and the reading of the monotonic clock are
  arguments. A transaction that raises is rolled back: the operations return an error and no new
  store. The schema version is the literal \<^verbatim>\<open>v1\<close> and is left out; texts are ASCII and
  stripped, as in the contracts.
\<close>

section \<open>Events\<close>

record HarnessEvent =
  ev_event_id :: string
  ev_trace_id :: string
  ev_span_id :: string
  ev_parent_span_id :: "string option"
  ev_run_id :: string
  ev_work_item_id :: "string option"
  ev_attempt_id :: "string option"
  ev_sequence :: int
  ev_state_revision :: int
  ev_event_type :: string
  ev_occurred_at :: int
  ev_utc_offset :: "int option"
  ev_monotonic_offset :: rat
  ev_actor :: string
  ev_payload :: "(string \<times> json) list"
  ev_transition :: "HarnessTransition option"
  ev_transition_authority :: "TransitionAuthorityRecord option"
  ev_attempt_ownership :: "AttemptWorkItemOwnershipRecord option"
  ev_reconciliation_resolution :: "ReconciliationResolutionRecord option"
  ev_previous_event_hash :: "string option"
  ev_event_hash :: "string option"

definition sensitive_key_markers :: "string list" where
  "sensitive_key_markers =
     [''authorization'', ''cookie'', ''credential'', ''fencingtoken'', ''password'', ''privatekey'',
      ''secret'', ''apikey'', ''accesstoken'', ''refreshtoken'']"

definition sensitive_key :: "string \<Rightarrow> bool" where
  "sensitive_key k =
     (let compact_key = filter (\<lambda>c. word_char c \<and> c \<noteq> CHR ''_'') (py_lower k)
      in list_ex (\<lambda>marker. contains_text marker compact_key) sensitive_key_markers)"

fun sensitive_payload :: "json \<Rightarrow> bool" where
  "sensitive_payload (JObj d) = list_ex (\<lambda>e. sensitive_key (fst e) \<or> sensitive_payload (snd e)) d"
| "sensitive_payload (JList xs) = list_ex sensitive_payload xs"
| "sensitive_payload (JStr s) = sensitive_value s"
| "sensitive_payload v = False"

definition record_texts :: "HarnessEvent \<Rightarrow> string list" where
  "record_texts e =
     concat (map transition_texts (opt_list (ev_transition e)))
     @ concat (map authority_texts (opt_list (ev_transition_authority e)))
     @ concat (map ownership_texts (opt_list (ev_attempt_ownership e)))
     @ concat (map resolution_texts (opt_list (ev_reconciliation_resolution e)))"

definition event_texts :: "HarnessEvent \<Rightarrow> string list" where
  "event_texts e =
     [ev_event_id e, ev_trace_id e, ev_span_id e] @ opt_list (ev_parent_span_id e) @ [ev_run_id e]
     @ opt_list (ev_work_item_id e) @ opt_list (ev_attempt_id e) @ [ev_event_type e, ev_actor e]"

text \<open>The identity of the record an authority event has to carry; none for any other event type.\<close>

definition reserved_record :: "HarnessEvent \<Rightarrow> (string \<times> string) option option" where
  "reserved_record e =
     (if ev_event_type e = ''transition_authorized''
        then Some (map_option (\<lambda>r. (ta_run_id r, ta_trace_id r)) (ev_transition_authority e))
      else if ev_event_type e = ''attempt_ownership_recorded''
        then Some (map_option (\<lambda>r. (ao_run_id r, ao_trace_id r)) (ev_attempt_ownership e))
      else if ev_event_type e = ''reconciliation_resolved''
        then Some (map_option (\<lambda>r. (rr_run_id r, rr_trace_id r)) (ev_reconciliation_resolution e))
      else None)"

definition authority_count :: "HarnessEvent \<Rightarrow> nat" where
  "authority_count e =
     length (opt_list (ev_transition_authority e)) + length (opt_list (ev_attempt_ownership e))
     + length (opt_list (ev_reconciliation_resolution e))"

definition transition_mismatch :: "HarnessEvent \<Rightarrow> HarnessTransition \<Rightarrow> string option" where
  "transition_mismatch e x =
     first_error
       [(ht_run_id x \<noteq> ev_run_id e \<or> ht_trace_id x \<noteq> ev_trace_id e,
           ''event and transition identity must match''),
        (ht_entity_kind x = K_run \<and> ht_entity_id x \<noteq> ev_run_id e,
           ''run transition entity must match the event run''),
        (ht_entity_kind x = K_work_item \<and> ev_work_item_id e \<noteq> Some (ht_entity_id x),
           ''work-item transition entity must match the event''),
        (ht_entity_kind x = K_attempt \<and> ev_attempt_id e \<noteq> Some (ht_entity_id x),
           ''attempt transition entity must match the event'')]"

definition validate_transition_identity :: "HarnessEvent \<Rightarrow> string option" where
  "validate_transition_identity e =
     (if sensitive_payload (JObj (ev_payload e)) then Some ''harness event payload is sensitive''
      else if list_ex sensitive_value (record_texts e @ event_texts e)
        then Some ''harness event contains a sensitive value''
      else if authority_count e > 1 then Some ''harness authority event must carry one record''
      else case reserved_record e of
        Some None \<Rightarrow> Some ''reserved harness authority event requires its corresponding record''
      | Some (Some (r, t)) \<Rightarrow>
          first_error
            [(ev_transition e \<noteq> None, ''harness authority event cannot carry a transition''),
             (r \<noteq> ev_run_id e \<or> t \<noteq> ev_trace_id e,
                ''harness authority identity must match the event'')]
      | None \<Rightarrow>
          if authority_count e > 0 then
            (if ev_transition e \<noteq> None then Some ''harness authority event cannot carry a transition''
             else Some ''harness authority event type is not allowlisted'')
          else case ev_transition e of None \<Rightarrow> None | Some x \<Rightarrow> transition_mismatch e x)"

definition event_fields :: "HarnessEvent \<Rightarrow> bool" where
  "event_fields e =
     (list_all short_text [ev_event_id e, ev_trace_id e, ev_span_id e, ev_run_id e, ev_event_type e,
        ev_actor e]
      \<and> list_all (optional short_text) [ev_parent_span_id e, ev_work_item_id e, ev_attempt_id e]
      \<and> 0 \<le> ev_sequence e \<and> 0 \<le> ev_state_revision e \<and> 0 \<le> ev_monotonic_offset e
      \<and> ev_utc_offset e = Some 0
      \<and> optional transition_contract (ev_transition e)
      \<and> optional authority_contract (ev_transition_authority e)
      \<and> optional ownership_contract (ev_attempt_ownership e)
      \<and> optional resolution_contract (ev_reconciliation_resolution e)
      \<and> list_all (optional digest_text) [ev_previous_event_hash e, ev_event_hash e])"

definition event_contract :: "HarnessEvent \<Rightarrow> bool" where
  "event_contract e = (event_fields e \<and> validate_transition_identity e = None)"

section \<open>Folding\<close>

datatype session_error =
    EventIntegrityError string
  | OptimisticConcurrencyError string
  | LeaseConflictError string
  | StoreValueError string        \<comment> \<open>\<^verbatim>\<open>ValueError\<close>\<close>
  | StoreValidationError          \<comment> \<open>the \<^verbatim>\<open>ValidationError\<close> of a lease that violates its contract\<close>
  | StoreIntegrityError           \<comment> \<open>\<^verbatim>\<open>sqlite3.IntegrityError\<close>\<close>

type_synonym 'a session_result = "session_error + 'a"

abbreviation integrity :: "string \<Rightarrow> 'a session_result" where
  "integrity m \<equiv> Inl (EventIntegrityError m)"

definition canonical_event_hash :: "(HarnessEvent \<Rightarrow> string) \<Rightarrow> HarnessEvent \<Rightarrow> string" where
  "canonical_event_hash digest e = digest (e\<lparr>ev_event_hash := None\<rparr>)"

definition validated_event :: "HarnessEvent \<Rightarrow> HarnessEvent session_result" where
  "validated_event e =
     (if event_contract e then Inr e
      else integrity ''schema mismatch or invalid harness event'')"

definition validated_view :: "HarnessSessionView \<Rightarrow> HarnessSessionView session_result" where
  "validated_view v =
     (if view_contract v then Inr v else integrity ''invalid or conflicting folded authority'')"

text \<open>The fields every committed event sets.\<close>

definition placed :: "HarnessEvent \<Rightarrow> string \<Rightarrow> string \<Rightarrow> HarnessSessionView \<Rightarrow> HarnessSessionView" where
  "placed e run trace v =
     v\<lparr>hv_sequence := ev_sequence e, hv_run_id := Some run, hv_trace_id := Some trace,
       hv_last_event_hash := ev_event_hash e\<rparr>"

text \<open>\<^verbatim>\<open>event.payload.get(name)\<close>, where a null is like no entry.\<close>

definition payload_value :: "HarnessEvent \<Rightarrow> string \<Rightarrow> json option" where
  "payload_value e name =
     (case dict_get (ev_payload e) name of None \<Rightarrow> None | Some JNull \<Rightarrow> None | Some v \<Rightarrow> Some v)"

definition digest_conflict :: "json option \<Rightarrow> string option \<Rightarrow> bool" where
  "digest_conflict new old =
     (case (new, old) of (Some v, Some d) \<Rightarrow> v \<noteq> JStr d | _ \<Rightarrow> False)"

text \<open>A value that is no text is refused by the contract of the view, as any other bad digest is.\<close>

definition digest_acceptable :: "json option \<Rightarrow> bool" where
  "digest_acceptable new =
     (case new of None \<Rightarrow> True | Some (JStr d) \<Rightarrow> digest_text d | Some _ \<Rightarrow> False)"

definition digest_change :: "json option \<Rightarrow> string option \<Rightarrow> string option" where
  "digest_change new old = (case new of Some (JStr d) \<Rightarrow> Some d | _ \<Rightarrow> old)"

definition replay_entity ::
  "HarnessTransition \<Rightarrow> HarnessSessionView \<Rightarrow> HarnessSessionView session_result" where
  "replay_entity x v =
     (case ht_entity_kind x of
        K_run \<Rightarrow>
          if ht_from_state x \<noteq> source_value run_states (hv_run_state v)
          then integrity ''run transition source does not match replay state''
          else (case enum_of run_states (ht_to_state x) of
                  None \<Rightarrow> integrity ''unknown run state in transition''
                | Some r \<Rightarrow> Inr (v\<lparr>hv_run_state := Some r\<rparr>))
      | K_work_item \<Rightarrow>
          if ht_from_state x
               \<noteq> source_value work_item_states (dict_get (hv_work_item_states v) (ht_entity_id x))
          then integrity ''work-item transition source does not match replay state''
          else (case enum_of work_item_states (ht_to_state x) of
                  None \<Rightarrow> integrity ''unknown work-item state in transition''
                | Some w \<Rightarrow> Inr (v\<lparr>hv_work_item_states :=
                    replace_state (hv_work_item_states v) (ht_entity_id x) w\<rparr>))
      | K_attempt \<Rightarrow>
          if ht_from_state x
               \<noteq> source_value attempt_states (dict_get (hv_attempt_states v) (ht_entity_id x))
          then integrity ''attempt transition source does not match replay state''
          else (case enum_of attempt_states (ht_to_state x) of
                  None \<Rightarrow> integrity ''unknown attempt state in transition''
                | Some w \<Rightarrow> Inr (v\<lparr>hv_attempt_states :=
                    replace_state (hv_attempt_states v) (ht_entity_id x) w\<rparr>)))"

text \<open>The refusals of a transition before its entity is looked at, in their order.\<close>

definition replay_refusals ::
  "HarnessEvent \<Rightarrow> HarnessTransition \<Rightarrow> string \<Rightarrow> string \<Rightarrow> HarnessSessionView \<Rightarrow> (bool \<times> string) list" where
  "replay_refusals e x run trace v =
     [(ht_expected_state_revision x \<noteq> hv_state_revision v,
         ''transition expected state revision is stale''),
      (ev_state_revision e \<noteq> hv_state_revision v + 1, ''transition did not advance state revision''),
      (ht_plan_revision x \<noteq> hv_plan_revision v,
         ''transition plan revision differs from active plan revision''),
      (ht_run_id x \<noteq> run \<or> ht_trace_id x \<noteq> trace, ''transition identity changed during replay''),
      (digest_conflict (payload_value e ''request_digest'') (hv_request_digest v),
         ''workflow request digest changed during replay''),
      (digest_conflict (payload_value e ''prompt_release_digest'') (hv_prompt_release_digest v),
         ''workflow prompt digest changed during replay''),
      (digest_conflict (payload_value e ''accepted_result_digest'') (hv_accepted_result_digest v),
         ''accepted workflow result digest changed during replay''),
      (ht_idempotency_key x \<in> set (hv_applied_idempotency_keys v),
         ''duplicate transition idempotency key'')]"

definition payload_digests :: "HarnessEvent \<Rightarrow> json option list" where
  "payload_digests e =
     map (payload_value e) [''request_digest'', ''prompt_release_digest'', ''accepted_result_digest'']"

definition replay_changes ::
  "HarnessEvent \<Rightarrow> HarnessTransition \<Rightarrow> string \<Rightarrow> string \<Rightarrow> HarnessSessionView \<Rightarrow> HarnessSessionView" where
  "replay_changes e x run trace v =
     (placed e run trace v)
       \<lparr>hv_state_revision := ev_state_revision e, hv_plan_revision := ht_plan_revision x,
        hv_applied_idempotency_keys := hv_applied_idempotency_keys v @ [ht_idempotency_key x],
        hv_request_digest := digest_change (payload_value e ''request_digest'') (hv_request_digest v),
        hv_prompt_release_digest :=
          digest_change (payload_value e ''prompt_release_digest'') (hv_prompt_release_digest v),
        hv_accepted_result_digest :=
          digest_change (payload_value e ''accepted_result_digest'') (hv_accepted_result_digest v)\<rparr>"

definition replay_transition ::
  "HarnessEvent \<Rightarrow> HarnessTransition \<Rightarrow> string \<Rightarrow> string \<Rightarrow> HarnessSessionView \<Rightarrow>
   HarnessSessionView session_result" where
  "replay_transition e x run trace v =
     (case first_error (replay_refusals e x run trace v) of
        Some m \<Rightarrow> integrity m
      | None \<Rightarrow>
          (case replay_entity x (replay_changes e x run trace v) of
             Inl err \<Rightarrow> Inl err
           | Inr v' \<Rightarrow>
               if list_all digest_acceptable (payload_digests e) \<and> view_contract v' then Inr v'
               else integrity ''committed event produces an invalid session view''))"

definition apply_committed_event ::
  "HarnessSessionView \<Rightarrow> HarnessEvent \<Rightarrow> HarnessSessionView session_result" where
  "apply_committed_event v e =
     (case (case hv_run_id v of
              None \<Rightarrow> Inr (ev_run_id e, ev_trace_id e)
            | Some r \<Rightarrow>
                if ev_run_id e \<noteq> r then integrity ''run identity changed during replay''
                else if Some (ev_trace_id e) \<noteq> hv_trace_id v
                  then integrity ''trace identity changed during replay''
                else Inr (r, ev_trace_id e)) of
        Inl err \<Rightarrow> Inl err
      | Inr (run, trace) \<Rightarrow>
          (case ev_transition_authority e of
             Some record \<Rightarrow> validated_view ((placed e run trace v)
               \<lparr>hv_transition_authorities := hv_transition_authorities v @ [record]\<rparr>)
           | None \<Rightarrow>
          (case ev_attempt_ownership e of
             Some record \<Rightarrow> validated_view ((placed e run trace v)
               \<lparr>hv_attempt_work_item_owners := hv_attempt_work_item_owners v @ [record]\<rparr>)
           | None \<Rightarrow>
          (case ev_reconciliation_resolution e of
             Some record \<Rightarrow> validated_view ((placed e run trace v)
               \<lparr>hv_reconciliation_resolutions := hv_reconciliation_resolutions v @ [record]\<rparr>)
           | None \<Rightarrow>
          (case ev_transition e of
             None \<Rightarrow> if ev_state_revision e \<noteq> hv_state_revision v
                     then integrity ''non-transition changed state revision''
                     else Inr (placed e run trace v)
           | Some x \<Rightarrow> replay_transition e x run trace v)))))"

definition fold_step ::
  "(HarnessEvent \<Rightarrow> string) \<Rightarrow> int \<Rightarrow> HarnessSessionView \<Rightarrow> HarnessEvent \<Rightarrow> HarnessSessionView session_result" where
  "fold_step digest expected_sequence v e =
     (if ev_sequence e \<noteq> expected_sequence then integrity ''non-contiguous run sequence''
      else if hv_run_id v \<noteq> None \<and> Some (ev_run_id e) \<noteq> hv_run_id v
        then integrity ''run identity changed during replay''
      else if hv_trace_id v \<noteq> None \<and> Some (ev_trace_id e) \<noteq> hv_trace_id v
        then integrity ''trace identity changed during replay''
      else case validated_event e of
        Inl err \<Rightarrow> Inl err
      | Inr e \<Rightarrow>
          if ev_previous_event_hash e \<noteq> hv_last_event_hash v
            then integrity ''invalid previous event hash link''
          else if ev_event_hash e = None then integrity ''committed event hash is missing''
          else if Some (canonical_event_hash digest e) \<noteq> ev_event_hash e
            then integrity ''event hash does not match canonical content''
          else apply_committed_event v e)"

fun fold_from ::
  "(HarnessEvent \<Rightarrow> string) \<Rightarrow> int \<Rightarrow> HarnessSessionView \<Rightarrow> HarnessEvent list \<Rightarrow> HarnessSessionView session_result" where
  "fold_from digest n v [] = Inr v"
| "fold_from digest n v (e # es) =
     (case fold_step digest n v e of Inl err \<Rightarrow> Inl err | Inr v' \<Rightarrow> fold_from digest (n + 1) v' es)"

definition fold_events :: "(HarnessEvent \<Rightarrow> string) \<Rightarrow> HarnessEvent list \<Rightarrow> HarnessSessionView session_result" where
  "fold_events digest es = fold_from digest 1 empty_view es"

section \<open>The store\<close>

text \<open>
  The four tables. An event row has the columns the store writes beside the JSON; the JSON is kept
  as the event it decodes to, or none when it does not decode.
\<close>

record run_row =
  rw_trace_id :: string
  rw_sequence :: int
  rw_state_revision :: int
  rw_last_event_hash :: "string option"

record event_row =
  er_event_id :: string
  er_run_id :: string
  er_trace_id :: string
  er_sequence :: int
  er_state_revision :: int
  er_event_hash :: "string option"
  er_previous_event_hash :: "string option"
  er_event :: "HarnessEvent option"

record outbox_row =
  ob_event_id :: string
  ob_run_id :: string
  ob_sequence :: int
  ob_event :: HarnessEvent
  ob_published :: bool

record lease_row =
  lr_attempt_id :: string
  lr_lease_epoch :: int
  lr_fencing_token_digest :: string
  lr_holder_id :: string
  lr_expires_at_monotonic :: rat

record event_store =
  es_runs :: "(string, run_row) dict"
  es_events :: "event_row list"
  es_outbox :: "outbox_row list"
  es_leases :: "(string \<times> string, lease_row) dict"

definition empty_store :: event_store where
  "empty_store = \<lparr>es_runs = [], es_events = [], es_outbox = [], es_leases = []\<rparr>"

definition row_of :: "HarnessEvent \<Rightarrow> event_row" where
  "row_of e =
     \<lparr>er_event_id = ev_event_id e, er_run_id = ev_run_id e, er_trace_id = ev_trace_id e,
      er_sequence = ev_sequence e, er_state_revision = ev_state_revision e,
      er_event_hash = ev_event_hash e, er_previous_event_hash = ev_previous_event_hash e,
      er_event = Some e\<rparr>"

definition row_event :: "event_row \<Rightarrow> HarnessEvent option" where
  "row_event r = (case er_event r of None \<Rightarrow> None | Some e \<Rightarrow> if event_contract e then Some e else None)"

definition row_matches :: "event_row \<Rightarrow> HarnessEvent \<Rightarrow> bool" where
  "row_matches r e =
     (ev_event_id e = er_event_id r \<and> ev_run_id e = er_run_id r \<and> ev_trace_id e = er_trace_id r
      \<and> ev_sequence e = er_sequence r \<and> ev_state_revision e = er_state_revision r
      \<and> ev_event_hash e = er_event_hash r \<and> ev_previous_event_hash e = er_previous_event_hash r)"

definition run_rows :: "event_store \<Rightarrow> string \<Rightarrow> event_row list" where
  "run_rows s run_id = sort_key er_sequence (filter (\<lambda>r. er_run_id r = run_id) (es_events s))"

definition load_events :: "event_store \<Rightarrow> string \<Rightarrow> HarnessEvent list session_result" where
  "load_events s run_id =
     (let rows = run_rows s run_id; events = map row_event rows
      in if None \<in> set events then integrity ''persisted harness event is invalid''
         else if \<not> list_all2 (\<lambda>r e. row_matches r (the e)) rows events
           then integrity ''persisted event JSON does not match row membership''
         else Inr (map the events))"

definition snapshot :: "(HarnessEvent \<Rightarrow> string) \<Rightarrow> event_store \<Rightarrow> string \<Rightarrow> HarnessSessionView session_result" where
  "snapshot digest s run_id =
     (case load_events s run_id of Inl err \<Rightarrow> Inl err | Inr es \<Rightarrow> fold_events digest es)"

section \<open>Leases\<close>

text \<open>
  The lease proof of a transition. The clock reading is none when it is no finite number; \<open>sha\<close>
  is the hexadecimal SHA-256 of a token.
\<close>

definition lease_mismatch :: "(string \<Rightarrow> string) \<Rightarrow> lease_row option \<Rightarrow> LeaseToken \<Rightarrow> bool" where
  "lease_mismatch sha row lease =
     (case row of
        None \<Rightarrow> True
      | Some r \<Rightarrow> lr_attempt_id r \<noteq> lt_attempt_id lease \<or> lr_lease_epoch r \<noteq> lt_lease_epoch lease
          \<or> lr_fencing_token_digest r \<noteq> sha (lt_fencing_token lease)
          \<or> lr_holder_id r \<noteq> lt_holder_id lease
          \<or> lr_expires_at_monotonic r \<noteq> lt_expires_at_monotonic lease)"

definition lease_refusals ::
  "(string \<Rightarrow> string) \<Rightarrow> rat option \<Rightarrow> event_store \<Rightarrow> HarnessEvent \<Rightarrow> HarnessTransition \<Rightarrow> LeaseToken \<Rightarrow>
   (bool \<times> string) list" where
  "lease_refusals sha now s e x lease =
     [(\<not> lease_contract lease, ''lease proof violates its strict contract''),
      (ev_work_item_id e = None \<or> ev_attempt_id e = None,
         ''lease proof requires work and attempt identity''),
      (lt_run_id lease \<noteq> ev_run_id e \<or> Some (lt_work_item_id lease) \<noteq> ev_work_item_id e
         \<or> Some (lt_attempt_id lease) \<noteq> ev_attempt_id e,
         ''lease proof identity does not match event''),
      (ht_lease_epoch x \<noteq> Some (lt_lease_epoch lease)
         \<or> ht_fencing_token_digest x \<noteq> Some (sha (lt_fencing_token lease)),
         ''lease proof does not match durable evidence''),
      (lease_mismatch sha (dict_get (es_leases s) (ev_run_id e, the (ev_work_item_id e))) lease,
         ''stale lease identity, epoch, or fencing token''),
      (case now of None \<Rightarrow> True | Some t \<Rightarrow> t < 0, ''monotonic clock returned an invalid point''),
      (lt_expires_at_monotonic lease \<le> the now, ''lease proof is expired'')]"

definition validate_lease_authorization ::
  "(string \<Rightarrow> string) \<Rightarrow> rat option \<Rightarrow> event_store \<Rightarrow> HarnessEvent \<Rightarrow> LeaseToken option \<Rightarrow> string option" where
  "validate_lease_authorization sha now s e lease =
     (case ev_transition e of
        None \<Rightarrow> if lease \<noteq> None then Some ''non-transition cannot carry lease proof'' else None
      | Some x \<Rightarrow>
          if ht_entity_kind x = K_run then
            (if lease \<noteq> None then Some ''run transition cannot carry lease proof'' else None)
          else (case lease of
                  None \<Rightarrow> Some ''work transition requires out-of-band lease proof''
                | Some l \<Rightarrow> first_error (lease_refusals sha now s e x l)))"

definition acquire_lease ::
  "(string \<Rightarrow> string) \<Rightarrow> string \<Rightarrow> string \<Rightarrow> string \<Rightarrow> string \<Rightarrow> string \<Rightarrow> rat \<Rightarrow> int \<Rightarrow> event_store \<Rightarrow>
   (LeaseToken \<times> event_store) session_result" where
  "acquire_lease sha token run_id work_item_id attempt_id holder_id expires expected_epoch s =
     (if expected_epoch < 0
        then Inl (StoreValueError ''expected lease epoch must be a nonnegative integer'')
      else if dict_get (es_runs s) run_id = None
        then integrity ''cannot lease work for an unknown run''
      else
        let current = (case dict_get (es_leases s) (run_id, work_item_id) of
                         None \<Rightarrow> 0 | Some r \<Rightarrow> lr_lease_epoch r)
        in if current \<noteq> expected_epoch then Inl (LeaseConflictError ''lease epoch changed'')
           else
             let lease = \<lparr>lt_run_id = run_id, lt_work_item_id = work_item_id, lt_attempt_id = attempt_id,
                          lt_lease_epoch = current + 1,
                          lt_fencing_token = ''fence-'' @ int_text (current + 1) @ ''-'' @ token,
                          lt_holder_id = holder_id, lt_expires_at_monotonic = expires\<rparr>
             in if \<not> lease_contract lease then Inl StoreValidationError
                else Inr (lease, s\<lparr>es_leases := dict_put (run_id, work_item_id)
                       \<lparr>lr_attempt_id = attempt_id, lr_lease_epoch = current + 1,
                        lr_fencing_token_digest = sha (lt_fencing_token lease),
                        lr_holder_id = holder_id, lr_expires_at_monotonic = expires\<rparr> (es_leases s)\<rparr>))"

section \<open>Appending\<close>

text \<open>The run row, or the one that is inserted for a new run.\<close>

definition run_row_for :: "HarnessEvent \<Rightarrow> event_store \<Rightarrow> run_row" where
  "run_row_for e s =
     (case dict_get (es_runs s) (ev_run_id e) of
        Some r \<Rightarrow> r
      | None \<Rightarrow> \<lparr>rw_trace_id = ev_trace_id e, rw_sequence = 0, rw_state_revision = 0,
                 rw_last_event_hash = None\<rparr>)"

definition committed_event ::
  "(HarnessEvent \<Rightarrow> string) \<Rightarrow> run_row \<Rightarrow> HarnessEvent \<Rightarrow> HarnessEvent" where
  "committed_event digest row e =
     (let c = e\<lparr>ev_sequence := rw_sequence row + 1,
                ev_state_revision := rw_state_revision row + (if ev_transition e \<noteq> None then 1 else 0),
                ev_previous_event_hash := rw_last_event_hash row\<rparr>
      in c\<lparr>ev_event_hash := Some (canonical_event_hash digest c)\<rparr>)"

definition append_refusals ::
  "(string \<Rightarrow> string) \<Rightarrow> rat option \<Rightarrow> HarnessEvent \<Rightarrow> int \<Rightarrow> int \<Rightarrow> LeaseToken option \<Rightarrow> event_store \<Rightarrow>
   (bool \<times> session_error) list" where
  "append_refusals sha now e expected_sequence expected_state_revision lease s =
     (let row = run_row_for e s
      in [(ev_sequence e \<noteq> 0 \<or> ev_state_revision e \<noteq> 0 \<or> ev_previous_event_hash e \<noteq> None
             \<or> ev_event_hash e \<noteq> None,
             StoreValueError ''event counters and hashes are assigned by the store''),
          (expected_sequence < 0 \<or> expected_state_revision < 0,
             StoreValueError ''expected counters must be nonnegative integers''),
          (rw_trace_id row \<noteq> ev_trace_id e, EventIntegrityError ''trace identity changed within run''),
          (rw_sequence row \<noteq> expected_sequence \<or> rw_state_revision row \<noteq> expected_state_revision,
             OptimisticConcurrencyError ''run sequence or state revision changed''),
          (case ev_transition e of
             None \<Rightarrow> False
           | Some x \<Rightarrow> ht_expected_state_revision x \<noteq> rw_state_revision row,
             OptimisticConcurrencyError ''transition expected state revision changed''),
          (validate_lease_authorization sha now s e lease \<noteq> None,
             LeaseConflictError (case validate_lease_authorization sha now s e lease of
                                   None \<Rightarrow> [] | Some m \<Rightarrow> m))])"

definition persist :: "HarnessEvent \<Rightarrow> event_store \<Rightarrow> event_store session_result" where
  "persist c s =
     (if list_ex (\<lambda>r. er_event_id r = ev_event_id c
                      \<or> er_run_id r = ev_run_id c \<and> er_sequence r = ev_sequence c) (es_events s)
        then Inl (OptimisticConcurrencyError ''append-only event commit raced with another writer'')
      else if list_ex (\<lambda>r. ob_event_id r = ev_event_id c) (es_outbox s) then Inl StoreIntegrityError
      else Inr (s\<lparr>es_events := es_events s @ [row_of c],
                  es_outbox := es_outbox s @ [\<lparr>ob_event_id = ev_event_id c, ob_run_id = ev_run_id c,
                    ob_sequence = ev_sequence c, ob_event = c, ob_published = False\<rparr>],
                  es_runs := dict_put (ev_run_id c)
                    \<lparr>rw_trace_id = ev_trace_id c, rw_sequence = ev_sequence c,
                     rw_state_revision = ev_state_revision c, rw_last_event_hash = ev_event_hash c\<rparr>
                    (es_runs s)\<rparr>))"

definition append_event ::
  "(HarnessEvent \<Rightarrow> string) \<Rightarrow> (string \<Rightarrow> string) \<Rightarrow> rat option \<Rightarrow> HarnessEvent \<Rightarrow> int \<Rightarrow> int \<Rightarrow>
   LeaseToken option \<Rightarrow> event_store \<Rightarrow> (HarnessEvent \<times> event_store) session_result" where
  "append_event digest sha now e expected_sequence expected_state_revision lease s =
     rbind (validated_event e) (\<lambda>e.
     case first_error (append_refusals sha now e expected_sequence expected_state_revision lease s) of
       Some err \<Rightarrow> Inl err
     | None \<Rightarrow>
       rbind (validated_event (committed_event digest (run_row_for e s) e)) (\<lambda>c.
       rbind (load_events s (ev_run_id e)) (\<lambda>prior.
       rbind (fold_events digest (prior @ [c])) (\<lambda>_.
       rbind (persist c s) (\<lambda>s'. Inr (c, s'))))))"

section \<open>What a fold establishes\<close>

lemma fold_step_ok:
  assumes "fold_step digest n v e = Inr v'"
  shows "ev_sequence e = n" and "event_contract e" and "ev_previous_event_hash e = hv_last_event_hash v"
    and "ev_event_hash e = Some (canonical_event_hash digest e)" and "apply_committed_event v e = Inr v'"
  using assms
  by (auto simp: fold_step_def validated_event_def split: if_splits sum.splits)

lemma fold_from_append:
  "fold_from digest n v (es @ fs) =
     rbind (fold_from digest n v es) (\<lambda>u. fold_from digest (n + int (length es)) u fs)"
proof (induction es arbitrary: n v)
  case (Cons e es)
  show ?case
    by (cases "fold_step digest n v e") (simp_all add: Cons.IH add.assoc add.commute [of 1])
qed simp

lemma fold_from_Cons_Inr:
  "fold_from digest n v (e # es) = Inr w \<longleftrightarrow>
     (\<exists>u. fold_step digest n v e = Inr u \<and> fold_from digest (n + 1) u es = Inr w)"
  by (auto split: sum.splits)

text \<open>The invariant of a fold, step by step.\<close>

lemma fold_from_invariant:
  assumes "fold_from digest n v es = Inr w" and "I n v"
    and "\<And>n v e u. fold_step digest n v e = Inr u \<Longrightarrow> e \<in> set es \<Longrightarrow> I n v \<Longrightarrow> I (n + 1) u"
  shows "I (n + int (length es)) w"
  using assms
proof (induction es arbitrary: n v)
  case (Cons e es)
  then obtain u where u: "fold_step digest n v e = Inr u" "fold_from digest (n + 1) u es = Inr w"
    unfolding fold_from_Cons_Inr by blast
  have "I (n + 1) u" using Cons.prems(2,3) u(1) by simp
  then have "I (n + 1 + int (length es)) w" using Cons.IH [OF u(2)] Cons.prems(3) by simp
  then show ?case by (simp add: add.assoc)
qed simp

text \<open>Event kinds exclude each other.\<close>

lemma contract_kinds:
  assumes "event_contract e"
  shows "ev_transition e \<noteq> None \<Longrightarrow> ev_transition_authority e = None \<and> ev_attempt_ownership e = None
           \<and> ev_reconciliation_resolution e = None"
    and "ev_transition e = Some x \<Longrightarrow> ht_run_id x = ev_run_id e \<and> ht_trace_id x = ev_trace_id e"
proof -
  have ok: "validate_transition_identity e = None" using assms by (simp add: event_contract_def)
  show none: "ev_transition e \<noteq> None \<Longrightarrow> ev_transition_authority e = None \<and> ev_attempt_ownership e = None
           \<and> ev_reconciliation_resolution e = None"
    using ok by (auto simp: validate_transition_identity_def authority_count_def split: if_splits option.splits)
  assume x: "ev_transition e = Some x"
  then have "transition_mismatch e x = None"
    using ok none by (auto simp: validate_transition_identity_def split: if_splits option.splits)
  then show "ht_run_id x = ev_run_id e \<and> ht_trace_id x = ev_trace_id e"
    by (auto simp: transition_mismatch_def split: if_splits)
qed

lemma placed_simps [simp]:
  "hv_sequence (placed e r t v) = ev_sequence e"
  "hv_run_id (placed e r t v) = Some r" "hv_trace_id (placed e r t v) = Some t"
  "hv_last_event_hash (placed e r t v) = ev_event_hash e"
  "hv_state_revision (placed e r t v) = hv_state_revision v"
  "hv_plan_revision (placed e r t v) = hv_plan_revision v"
  "hv_run_state (placed e r t v) = hv_run_state v" "hv_outcome (placed e r t v) = hv_outcome v"
  "hv_work_item_states (placed e r t v) = hv_work_item_states v"
  "hv_attempt_states (placed e r t v) = hv_attempt_states v"
  "hv_external_side_effect_unknown (placed e r t v) = hv_external_side_effect_unknown v"
  "hv_applied_idempotency_keys (placed e r t v) = hv_applied_idempotency_keys v"
  by (simp_all add: placed_def)

lemma replay_entity_keeps:
  assumes "replay_entity x v = Inr v'"
  shows "hv_sequence v' = hv_sequence v" and "hv_state_revision v' = hv_state_revision v"
    and "hv_last_event_hash v' = hv_last_event_hash v" and "hv_run_id v' = hv_run_id v"
    and "hv_trace_id v' = hv_trace_id v" and "hv_plan_revision v' = hv_plan_revision v"
    and "hv_applied_idempotency_keys v' = hv_applied_idempotency_keys v"
    and "hv_external_side_effect_unknown v' = hv_external_side_effect_unknown v"
    and "hv_outcome v' = hv_outcome v"
  using assms by (auto simp: replay_entity_def split: EntityKind.splits option.splits if_splits)

lemma replay_transition_ok:
  assumes "replay_transition e x run trace v = Inr v'"
  shows "first_error (replay_refusals e x run trace v) = None"
    and "replay_entity x (replay_changes e x run trace v) = Inr v'" and "view_contract v'"
  using assms by (auto simp: replay_transition_def split: option.splits sum.splits if_splits)

lemma committed_ok:
  assumes "apply_committed_event v e = Inr v'" and "event_contract e"
  shows "ev_transition e = None \<Longrightarrow> recorded v v' \<and> hv_outcome v' = hv_outcome v"
    and "ev_transition e = Some x \<Longrightarrow> replay_transition e x (ev_run_id e) (ev_trace_id e) v = Inr v'"
    and "hv_sequence v' = ev_sequence e" and "hv_last_event_hash v' = ev_event_hash e"
    and "hv_run_id v' = Some (ev_run_id e)" and "hv_trace_id v' = Some (ev_trace_id e)"
proof -
  let ?run = "ev_run_id e" and ?trace = "ev_trace_id e"
  note branches = apply_committed_event_def
  show none: "ev_transition e = None \<Longrightarrow> recorded v v' \<and> hv_outcome v' = hv_outcome v"
    using assms(1) by (auto simp: branches validated_view_def recorded_def
        split: option.splits sum.splits if_splits)
  show some: "replay_transition e x ?run ?trace v = Inr v'" if "ev_transition e = Some x" for x
    using assms(1) that contract_kinds(1) [OF assms(2)]
    by (auto simp: branches split: option.splits sum.splits if_splits)
  have "hv_sequence v' = ev_sequence e \<and> hv_last_event_hash v' = ev_event_hash e
    \<and> hv_run_id v' = Some ?run \<and> hv_trace_id v' = Some ?trace"
  proof (cases "ev_transition e")
    case None
    then show ?thesis using assms(1)
      by (auto simp: branches validated_view_def split: option.splits sum.splits if_splits)
  next
    case (Some x)
    note r = replay_entity_keeps [OF replay_transition_ok(2) [OF some [OF Some]]]
    show ?thesis by (simp add: r(1,3,4,5) replay_changes_def)
  qed
  then show "hv_sequence v' = ev_sequence e" and "hv_last_event_hash v' = ev_event_hash e"
    and "hv_run_id v' = Some ?run" and "hv_trace_id v' = Some ?trace" by simp_all
qed

lemma committed_counts:
  assumes "apply_committed_event v e = Inr v'" and "event_contract e"
  shows "hv_applied_idempotency_keys v' =
           hv_applied_idempotency_keys v @ map ht_idempotency_key (opt_list (ev_transition e))"
    and "hv_state_revision v' = hv_state_revision v + (if ev_transition e \<noteq> None then 1 else 0)"
    and "hv_external_side_effect_unknown v' = hv_external_side_effect_unknown v"
    and "ev_transition e \<noteq> None \<Longrightarrow> view_contract v'"
proof -
  have "hv_applied_idempotency_keys v' =
           hv_applied_idempotency_keys v @ map ht_idempotency_key (opt_list (ev_transition e))
    \<and> hv_state_revision v' = hv_state_revision v + (if ev_transition e \<noteq> None then 1 else 0)
    \<and> hv_external_side_effect_unknown v' = hv_external_side_effect_unknown v
    \<and> (ev_transition e \<noteq> None \<longrightarrow> view_contract v')"
  proof (cases "ev_transition e")
    case None
    then show ?thesis using committed_ok(1) [OF assms None] by (simp add: recorded_def)
  next
    case (Some x)
    note ok = replay_transition_ok [OF committed_ok(2) [OF assms Some]]
    have "ev_state_revision e = hv_state_revision v + 1"
      using ok(1) unfolding replay_refusals_def guard_simps by simp
    then show ?thesis
      using Some ok(3) by (simp add: replay_entity_keeps [OF ok(2)] replay_changes_def)
  qed
  then show "hv_applied_idempotency_keys v' =
           hv_applied_idempotency_keys v @ map ht_idempotency_key (opt_list (ev_transition e))"
    and "hv_state_revision v' = hv_state_revision v + (if ev_transition e \<noteq> None then 1 else 0)"
    and "hv_external_side_effect_unknown v' = hv_external_side_effect_unknown v"
    and "ev_transition e \<noteq> None \<Longrightarrow> view_contract v'" by simp_all
qed

definition transitions :: "HarnessEvent list \<Rightarrow> HarnessTransition list" where
  "transitions es = concat (map (\<lambda>e. opt_list (ev_transition e)) es)"

lemma transitions_simps [simp]:
  "transitions [] = []" "transitions (e # es) = opt_list (ev_transition e) @ transitions es"
  "transitions (es @ fs) = transitions es @ transitions fs"
  by (simp_all add: transitions_def)

text \<open>The counters of a view that folds a stream.\<close>

lemma fold_keeps_identity:
  assumes "fold_from digest n v es = Inr w" and "hv_run_id v = Some r" and "hv_trace_id v = Some t"
  shows "hv_run_id w = Some r \<and> hv_trace_id w = Some t"
proof -
  have "hv_run_id u = Some r \<and> hv_trace_id u = Some t"
    if "fold_step digest n v e = Inr u" "hv_run_id v = Some r \<and> hv_trace_id v = Some t" for n v e u
    using committed_ok(5,6) [OF fold_step_ok(5,2) [OF that(1)]] that
    by (auto simp: fold_step_def split: if_splits)
  then show ?thesis
    using fold_from_invariant [where I = "\<lambda>_ v. hv_run_id v = Some r \<and> hv_trace_id v = Some t", OF assms(1)]
      assms by blast
qed

lemma fold_from_counts:
  assumes "fold_from digest n v es = Inr w" and "hv_sequence v = n - 1"
    and "length (hv_applied_idempotency_keys v) \<le> 64"
  shows "hv_sequence w = hv_sequence v + int (length es)
    \<and> hv_applied_idempotency_keys w = hv_applied_idempotency_keys v @ map ht_idempotency_key (transitions es)
    \<and> hv_state_revision w = hv_state_revision v + int (length (transitions es))
    \<and> hv_external_side_effect_unknown w = hv_external_side_effect_unknown v
    \<and> map ev_sequence es = map (\<lambda>i. n + int i) [0..<length es]
    \<and> (\<forall>e \<in> set es. event_contract e \<and> hv_run_id w = Some (ev_run_id e) \<and> hv_trace_id w = Some (ev_trace_id e))
    \<and> length (hv_applied_idempotency_keys w) \<le> 64"
  using assms
proof (induction es arbitrary: n v)
  case (Cons e es)
  from Cons.prems(1) obtain u
    where u: "fold_step digest n v e = Inr u" "fold_from digest (n + 1) u es = Inr w"
    unfolding fold_from_Cons_Inr by blast
  note f = fold_step_ok [OF u(1)]
  note c = committed_ok(3,4,5,6) [OF f(5,2)] and k = committed_counts [OF f(5,2)]
  have s: "hv_sequence u = (n + 1) - 1" and sv: "hv_sequence u = hv_sequence v + 1"
    using f(1) c(1) Cons.prems(2) by simp_all
  have "length (hv_applied_idempotency_keys u) \<le> 64"
  proof (cases "ev_transition e")
    case None
    then show ?thesis using Cons.prems(3) k(1) by simp
  next
    case (Some x)
    then have "view_contract u" using k(4) by simp
    then show ?thesis by (simp add: view_contract_def view_fields_def target_ids_def)
  qed
  note ih = Cons.IH [OF u(2) s this]
  have "map ev_sequence (e # es) = map (\<lambda>i. n + int i) [0..<length (e # es)]"
    using ih f(1) by (auto simp: map_upt_Suc simp del: upt_Suc)
  note all = this ih sv k c f(2) fold_keeps_identity [OF u(2) c(3,4)]
  have "length (hv_applied_idempotency_keys w) \<le> 64" using ih by blast
  then show ?case
    by (intro conjI; (use all in \<open>cases "ev_transition e"; simp\<close>)?)
qed simp

lemma fold_events_counts:
  assumes "fold_events digest es = Inr v"
  shows "hv_sequence v = int (length es)"
    and "hv_applied_idempotency_keys v = map ht_idempotency_key (transitions es)"
    and "hv_state_revision v = int (length (transitions es))"
    and "\<not> hv_external_side_effect_unknown v"
    and "\<forall>e \<in> set es. 1 \<le> ev_sequence e \<and> ev_sequence e \<le> int (length es)"
    and "e \<in> set es \<Longrightarrow> event_contract e \<and> hv_run_id v = Some (ev_run_id e) \<and> hv_trace_id v = Some (ev_trace_id e)"
    and "length (transitions es) \<le> 64"
proof -
  have "hv_sequence empty_view = 1 - 1" and "length (hv_applied_idempotency_keys empty_view) \<le> 64"
    by (simp_all add: empty_view_def)
  note c = fold_from_counts [OF assms [unfolded fold_events_def] this]
  show "hv_sequence v = int (length es)"
    and keys: "hv_applied_idempotency_keys v = map ht_idempotency_key (transitions es)"
    and "hv_state_revision v = int (length (transitions es))"
    and "\<not> hv_external_side_effect_unknown v"
    using c by (simp_all add: empty_view_def)
  show "e \<in> set es \<Longrightarrow> event_contract e \<and> hv_run_id v = Some (ev_run_id e) \<and> hv_trace_id v = Some (ev_trace_id e)"
    using c by simp
  show "length (transitions es) \<le> 64" using c keys by (simp add: empty_view_def)
  have "set (map ev_sequence es) = (\<lambda>i. 1 + int i) ` {0..<length es}" using c by (metis atLeastLessThan_upt set_map)
  then have "ev_sequence e \<in> (\<lambda>i. 1 + int i) ` {0..<length es}" if "e \<in> set es" for e
    using that by auto
  then show "\<forall>e \<in> set es. 1 \<le> ev_sequence e \<and> ev_sequence e \<le> int (length es)" by force
qed

lemma fold_distinct_keys:
  assumes "fold_events digest es = Inr v"
  shows "distinct (hv_applied_idempotency_keys v)"
proof -
  have "distinct (hv_applied_idempotency_keys u)"
    if "fold_step digest n w e = Inr u" "distinct (hv_applied_idempotency_keys w)" for n w e u
  proof (cases "ev_transition e")
    case None
    then show ?thesis using committed_counts(1) [OF fold_step_ok(5,2) [OF that(1)]] that(2) by simp
  next
    case (Some x)
    then have "view_contract u" using committed_counts(4) [OF fold_step_ok(5,2) [OF that(1)]] by simp
    then show ?thesis by (simp add: view_contract_def view_consistent_def)
  qed
  then show ?thesis
    using fold_from_invariant [where I = "\<lambda>_ v. distinct (hv_applied_idempotency_keys v)",
        OF assms [unfolded fold_events_def]] by (auto simp: empty_view_def)
qed

lemma fold_from_single: "fold_from digest n v [e] = fold_step digest n v e"
  by (simp split: sum.splits)

lemma fold_events_snoc:
  "fold_events digest (es @ [e]) = Inr w \<longleftrightarrow>
     (\<exists>v. fold_events digest es = Inr v \<and> fold_step digest (int (length es) + 1) v e = Inr w)"
  unfolding fold_events_def fold_from_append fold_from_single rbind_Inr_iff by (simp add: add.commute)

end
