(* ===== verification/Harness_Event_Log.thy ===== *)
theory Harness_Event_Log
  imports Harness_Session
begin

text \<open>
  What the store of \<^verbatim>\<open>src/market_agent/workflow_session.py\<close> guarantees: it is an append-only log per
  run (locale \<open>event_log\<close>, interpreted on appends and leases), its snapshots are the folds of what
  was committed, writers that race lose, stale leases are fenced off, the hash chain determines the
  stream, and replay agrees with the state machine.
\<close>

section \<open>Logs\<close>

text \<open>
  An append-only log, kept by key: what is committed under a key is what was appended to it, in
  order, and a step that commits nothing leaves every log as it is.
\<close>

locale event_log =
  fixes invar :: "'s \<Rightarrow> bool" and log_of :: "'s \<Rightarrow> 'k \<Rightarrow> 'e list" and key_of :: "'e \<Rightarrow> 'k"
    and commits :: "'s \<Rightarrow> 'e option \<Rightarrow> 's \<Rightarrow> bool"
  assumes keeps: "invar s \<Longrightarrow> commits s x s' \<Longrightarrow> invar s'"
    and silent: "invar s \<Longrightarrow> commits s None s' \<Longrightarrow> log_of s' k = log_of s k"
    and logs: "invar s \<Longrightarrow> commits s (Some e) s' \<Longrightarrow>
                 log_of s' k = log_of s k @ (if key_of e = k then [e] else [])"
begin

inductive evolves_by :: "'s \<Rightarrow> 'e list \<Rightarrow> 's \<Rightarrow> bool" where
  none: "evolves_by s [] s"
| quiet: "evolves_by s es u \<Longrightarrow> commits u None w \<Longrightarrow> evolves_by s es w"
| event: "evolves_by s es u \<Longrightarrow> commits u (Some e) w \<Longrightarrow> evolves_by s (es @ [e]) w"

lemma evolves_invar: "evolves_by s es w \<Longrightarrow> invar s \<Longrightarrow> invar w"
  by (induction rule: evolves_by.induct) (auto intro: keeps)

lemma evolves_log:
  "evolves_by s es w \<Longrightarrow> invar s \<Longrightarrow> log_of w k = log_of s k @ filter (\<lambda>e. key_of e = k) es"
  by (induction rule: evolves_by.induct) (auto simp: silent logs dest: evolves_invar)

end

section \<open>The store is a log\<close>

definition sound_run :: "(HarnessEvent \<Rightarrow> string) \<Rightarrow> event_store \<Rightarrow> string \<Rightarrow> bool" where
  "sound_run digest s r =
     (case load_events s r of
        Inl _ \<Rightarrow> False
      | Inr es \<Rightarrow>
          (case (fold_events digest es, dict_get (es_runs s) r) of
             (Inr v, Some row) \<Rightarrow> es \<noteq> [] \<and> hv_sequence v = rw_sequence row
                \<and> hv_state_revision v = rw_state_revision row
                \<and> hv_last_event_hash v = rw_last_event_hash row
                \<and> hv_run_id v = Some r \<and> hv_trace_id v = Some (rw_trace_id row)
           | (_, None) \<Rightarrow> es = []
           | _ \<Rightarrow> False))"

definition sound_store :: "(HarnessEvent \<Rightarrow> string) \<Rightarrow> event_store \<Rightarrow> bool" where
  "sound_store digest s = (\<forall>r. sound_run digest s r)"

definition stored_events :: "event_store \<Rightarrow> string \<Rightarrow> HarnessEvent list" where
  "stored_events s r = (case load_events s r of Inl _ \<Rightarrow> [] | Inr es \<Rightarrow> es)"

lemma sound_run_cases:
  assumes "sound_run digest s r"
  obtains (fresh) "load_events s r = Inr []" and "dict_get (es_runs s) r = None"
  | (known) es v row where "load_events s r = Inr es" and "fold_events digest es = Inr v"
      and "dict_get (es_runs s) r = Some row" and "es \<noteq> []" and "hv_sequence v = rw_sequence row"
      and "hv_state_revision v = rw_state_revision row" and "hv_last_event_hash v = rw_last_event_hash row"
      and "hv_run_id v = Some r" and "hv_trace_id v = Some (rw_trace_id row)"
  using assms by (auto simp: sound_run_def split: sum.splits option.splits)

text \<open>A row of a larger sequence comes last.\<close>

lemma sort_key_snoc:
  fixes f :: "'a \<Rightarrow> 'b::linorder"
  assumes "\<forall>x \<in> set xs. f x < f y"
  shows "sort_key f (xs @ [y]) = sort_key f xs @ [y]"
proof (rule properties_for_sort_key)
  show "mset (sort_key f xs @ [y]) = mset (xs @ [y])" by simp
  show "sorted (map f (sort_key f xs @ [y]))" using assms by (force simp: sorted_append)
  show "filter (\<lambda>x. f k = f x) (sort_key f xs @ [y]) = filter (\<lambda>x. f k = f x) (xs @ [y])" for k
    using sort_key_stable [of f "f k" xs] by (simp add: eq_commute [of "f k"])
qed

lemma all_some: "None \<notin> set xs \<and> map the xs = es \<longleftrightarrow> xs = map Some es"
proof (induction xs arbitrary: es)
  case (Cons x xs)
  then show ?case by (cases x; cases es) (auto simp: eq_commute)
qed auto

lemma load_events_Inr:
  "load_events s r = Inr es \<longleftrightarrow>
     map row_event (run_rows s r) = map Some es \<and> list_all2 row_matches (run_rows s r) es"
proof -
  have "load_events s r = Inr es \<longleftrightarrow>
      (None \<notin> set (map row_event (run_rows s r)) \<and> map the (map row_event (run_rows s r)) = es)
      \<and> list_all2 (\<lambda>r e. row_matches r (the e)) (run_rows s r) (map row_event (run_rows s r))"
    unfolding load_events_def Let_def by (simp split: if_splits)
  also have "\<dots> \<longleftrightarrow> map row_event (run_rows s r) = map Some es
      \<and> list_all2 (\<lambda>r e. row_matches r (the e)) (run_rows s r) (map Some es)"
    unfolding all_some by (metis (no_types))
  finally show ?thesis by (simp add: list_all2_map2)
qed

lemma run_rows_run: "x \<in> set (run_rows s r) \<Longrightarrow> er_run_id x = r"
  by (simp add: run_rows_def)

lemma row_event_row_of: "event_contract e \<Longrightarrow> row_event (row_of e) = Some e"
  by (simp add: row_event_def row_of_def)

lemma row_matches_row_of: "row_matches (row_of e) e"
  by (simp add: row_matches_def row_of_def)

lemma persist_Inr:
  assumes "persist c s = Inr s'"
  shows "es_events s' = es_events s @ [row_of c]" and "es_leases s' = es_leases s"
    and "dict_get (es_runs s') r =
      (if r = ev_run_id c then Some \<lparr>rw_trace_id = ev_trace_id c, rw_sequence = ev_sequence c,
         rw_state_revision = ev_state_revision c, rw_last_event_hash = ev_event_hash c\<rparr>
       else dict_get (es_runs s) r)"
    and "ev_event_id c \<notin> set (map er_event_id (es_events s))"
    and "map ob_event (es_outbox s') = map ob_event (es_outbox s) @ [c]"
  using assms by (auto simp: persist_def dict_get_put list_ex_iff split: if_splits)

lemma load_after_persist:
  assumes "persist c s = Inr s'" and "event_contract c"
    and "load_events s (ev_run_id c) = Inr es" and "\<forall>e \<in> set es. ev_sequence e < ev_sequence c"
  shows "load_events s' r = (if r = ev_run_id c then Inr (es @ [c]) else load_events s r)"
proof (cases "r = ev_run_id c")
  case True
  have m: "list_all2 row_matches (run_rows s r) es" and e: "map row_event (run_rows s r) = map Some es"
    using assms(3) True by (simp_all add: load_events_Inr)
  have "\<forall>x \<in> set (run_rows s r). er_sequence x < ev_sequence c"
    using m assms(4) by (induction rule: list_all2_induct) (auto simp: row_matches_def)
  then have "run_rows s' r = run_rows s r @ [row_of c]"
    unfolding run_rows_def persist_Inr(1) [OF assms(1)]
    by (simp add: True row_of_def sort_key_snoc)
  then have "load_events s' r = Inr (es @ [c])"
    using m e by (simp add: load_events_Inr row_event_row_of [OF assms(2)] row_matches_row_of list_all2_appendI)
  then show ?thesis using True by simp
next
  case False
  then have "run_rows s' r = run_rows s r"
    by (simp add: run_rows_def persist_Inr(1) [OF assms(1)] row_of_def)
  then show ?thesis using False by (simp add: load_events_def)
qed

lemma append_ok:
  assumes "append_event digest sha now e n m lease s = Inr (c, s')"
  obtains prior w where "event_contract e"
    and "first_error (append_refusals sha now e n m lease s) = None"
    and "c = committed_event digest (run_row_for e s) e" and "event_contract c"
    and "load_events s (ev_run_id e) = Inr prior" and "fold_events digest (prior @ [c]) = Inr w"
    and "persist c s = Inr s'"
  using assms
  by (auto simp: append_event_def validated_event_def rbind_Inr_iff split: if_splits option.splits)

lemma committed_event_simps [simp]:
  "ev_run_id (committed_event digest row e) = ev_run_id e"
  "ev_trace_id (committed_event digest row e) = ev_trace_id e"
  "ev_event_id (committed_event digest row e) = ev_event_id e"
  "ev_transition (committed_event digest row e) = ev_transition e"
  "ev_sequence (committed_event digest row e) = rw_sequence row + 1"
  "ev_state_revision (committed_event digest row e) =
     rw_state_revision row + (if ev_transition e \<noteq> None then 1 else 0)"
  "ev_previous_event_hash (committed_event digest row e) = rw_last_event_hash row"
  by (simp_all add: committed_event_def Let_def)

lemma sound_run_cong:
  "load_events s' r = load_events s r \<Longrightarrow> dict_get (es_runs s') r = dict_get (es_runs s) r \<Longrightarrow>
     sound_run digest s' r = sound_run digest s r"
  by (simp only: sound_run_def)

lemma append_effect:
  assumes "append_event digest sha now e n m lease s = Inr (c, s')" and "sound_store digest s"
  obtains prior v w where "load_events s (ev_run_id e) = Inr prior" and "fold_events digest prior = Inr v"
    and "apply_committed_event v c = Inr w" and "fold_events digest (prior @ [c]) = Inr w"
    and "hv_sequence v = rw_sequence (run_row_for e s)"
    and "hv_state_revision v = rw_state_revision (run_row_for e s)"
    and "\<And>r. load_events s' r = (if r = ev_run_id e then Inr (prior @ [c]) else load_events s r)"
    and "\<And>r. r \<noteq> ev_run_id e \<Longrightarrow> dict_get (es_runs s') r = dict_get (es_runs s) r"
    and "sound_store digest s'"
proof -
  obtain prior w where a: "event_contract e" "c = committed_event digest (run_row_for e s) e" "event_contract c"
    "load_events s (ev_run_id e) = Inr prior" "fold_events digest (prior @ [c]) = Inr w" "persist c s = Inr s'"
    using assms(1) by (rule append_ok) (rule that)
  then obtain v where v: "fold_events digest prior = Inr v"
    and step: "fold_step digest (int (length prior) + 1) v c = Inr w" unfolding fold_events_snoc by blast
  note f = fold_step_ok [OF step] and t = fold_events_counts [OF v]
  note d = committed_ok(3-6) [OF f(5,2)] and k = committed_counts(2) [OF f(5,2)]
  have "sound_run digest s (ev_run_id e)" using assms(2) by (simp add: sound_store_def)
  then have counters: "hv_sequence v = rw_sequence (run_row_for e s)
      \<and> hv_state_revision v = rw_state_revision (run_row_for e s)"
  proof (cases rule: sound_run_cases)
    case fresh
    then have "v = empty_view" using a(4) v by (simp add: fold_events_def)
    then show ?thesis using fresh by (simp add: run_row_for_def empty_view_def)
  next
    case known
    then show ?thesis using a(4) v by (simp add: run_row_for_def)
  qed
  have "\<forall>x \<in> set prior. ev_sequence x < ev_sequence c" using t(5) f(1) by force
  note loads = load_after_persist [OF a(6,3) _ this, unfolded a(2) committed_event_simps, OF a(4)]
  have run: "sound_run digest s' r" for r
  proof (cases "r = ev_run_id e")
    case True
    then show ?thesis
      using a(5) d k counters loads [of r] persist_Inr(3) [OF a(6), of r]
      by (simp add: sound_run_def a(2))
  next
    case False
    then have "sound_run digest s' r = sound_run digest s r"
      using loads [of r] persist_Inr(3) [OF a(6), of r] by (intro sound_run_cong) (simp_all add: a(2))
    then show ?thesis using assms(2) by (simp add: sound_store_def)
  qed
  have loaded: "load_events s' r = (if r = ev_run_id e then Inr (prior @ [c]) else load_events s r)" for r
    using loads [of r] by (simp add: a(2))
  have frame: "dict_get (es_runs s') r = dict_get (es_runs s) r" if "r \<noteq> ev_run_id e" for r
    using that persist_Inr(3) [OF a(6), of r] by (simp add: a(2))
  have "sound_store digest s'" using run by (simp add: sound_store_def)
  then show thesis
    using that [OF a(4) v f(5) a(5) _ _ loaded frame] counters by blast
qed

lemma lease_effect:
  assumes "acquire_lease sha token r w a h x n s = Inr (l, s')"
  shows "es_runs s' = es_runs s" and "es_events s' = es_events s" and "es_outbox s' = es_outbox s"
    and "lt_lease_epoch l = n + 1" and "lease_contract l"
    and "dict_get (es_leases s') k = (if k = (r, w) then Some \<lparr>lr_attempt_id = lt_attempt_id l,
       lr_lease_epoch = n + 1, lr_fencing_token_digest = sha (lt_fencing_token l),
       lr_holder_id = lt_holder_id l, lr_expires_at_monotonic = lt_expires_at_monotonic l\<rparr>
       else dict_get (es_leases s) k)"
    and "(case dict_get (es_leases s) (r, w) of None \<Rightarrow> 0 | Some row \<Rightarrow> lr_lease_epoch row) = n"
    and "lt_run_id l = r" and "lt_work_item_id l = w" and "0 \<le> n"
  using assms by (auto simp: acquire_lease_def Let_def dict_get_put split: if_splits)

text \<open>The two operations that change the store.\<close>

definition store_commits ::
  "(HarnessEvent \<Rightarrow> string) \<Rightarrow> (string \<Rightarrow> string) \<Rightarrow> event_store \<Rightarrow> HarnessEvent option \<Rightarrow> event_store \<Rightarrow> bool" where
  "store_commits digest sha s x s' =
     (case x of
        Some c \<Rightarrow> \<exists>now e n m lease. append_event digest sha now e n m lease s = Inr (c, s')
      | None \<Rightarrow> \<exists>token r w a h t n l. acquire_lease sha token r w a h t n s = Inr (l, s'))"

lemma lease_keeps_loads:
  assumes "acquire_lease sha token r w a h x n s = Inr (l, s')"
  shows "load_events s' k = load_events s k"
  by (simp add: load_events_def run_rows_def lease_effect(2) [OF assms])

lemma committed_run: "append_event digest sha now e n m lease s = Inr (c, s') \<Longrightarrow> ev_run_id c = ev_run_id e"
  by (elim append_ok) simp

interpretation store: event_log "sound_store digest" stored_events ev_run_id "store_commits digest sha"
  for digest sha
proof unfold_locales
  fix s s' x e k
  assume s: "sound_store digest s"
  show "sound_store digest s'" if c: "store_commits digest sha s x s'"
  proof (cases x)
    case (Some c)
    then show ?thesis using c s by (auto simp: store_commits_def elim: append_effect)
  next
    case None
    then obtain token r w a h t n l where l: "acquire_lease sha token r w a h t n s = Inr (l, s')"
      using c by (auto simp: store_commits_def)
    have "sound_run digest s' k = sound_run digest s k" for k
      by (rule sound_run_cong) (simp_all add: lease_keeps_loads [OF l] lease_effect(1) [OF l])
    then show ?thesis using s by (simp add: sound_store_def)
  qed
  show "stored_events s' k = stored_events s k" if "store_commits digest sha s None s'"
    using that lease_keeps_loads by (fastforce simp: store_commits_def stored_events_def)
  show "stored_events s' k = stored_events s k @ (if ev_run_id e = k then [e] else [])"
    if c: "store_commits digest sha s (Some e) s'"
  proof -
    obtain now e0 n m lease where a: "append_event digest sha now e0 n m lease s = Inr (e, s')"
      using c by (auto simp: store_commits_def)
    show ?thesis
      by (rule append_effect [OF a s]) (auto simp: stored_events_def committed_run [OF a])
  qed
qed

section \<open>Concurrency and fencing\<close>

lemma append_counters:
  assumes "append_event digest sha now e n m lease s = Inr (c, s')"
  shows "rw_sequence (run_row_for e s) = n" and "rw_state_revision (run_row_for e s) = m"
    and "validate_lease_authorization sha now s e lease = None"
    and "rw_trace_id (run_row_for e s) = ev_trace_id e"
  using assms
  by (elim append_ok; unfold append_refusals_def guard_simps; simp)+

lemma lease_authorization_ok:
  assumes "validate_lease_authorization sha now s e lease = None" and "ev_transition e = Some x"
    and "ht_entity_kind x \<noteq> K_run"
  obtains l w row t where "lease = Some l" and "ev_work_item_id e = Some w" and "now = Some t"
    and "lt_run_id l = ev_run_id e" and "lt_work_item_id l = w"
    and "dict_get (es_leases s) (ev_run_id e, w) = Some row" and "lr_lease_epoch row = lt_lease_epoch l"
    and "lr_fencing_token_digest row = sha (lt_fencing_token l)" and "lr_holder_id row = lt_holder_id l"
    and "t < lt_expires_at_monotonic l" and "ht_lease_epoch x = Some (lt_lease_epoch l)"
proof -
  obtain l where l: "lease = Some l" and ok: "first_error (lease_refusals sha now s e x l) = None"
    using assms by (auto simp: validate_lease_authorization_def split: option.splits if_splits)
  note g = ok [unfolded lease_refusals_def guard_simps]
  obtain w where w: "ev_work_item_id e = Some w" using g by (cases "ev_work_item_id e") simp_all
  obtain t where t: "now = Some t" using g by (cases now) simp_all
  obtain row where row: "dict_get (es_leases s) (ev_run_id e, w) = Some row"
    using g w by (cases "dict_get (es_leases s) (ev_run_id e, w)") (simp_all add: lease_mismatch_def)
  show thesis
    using that [OF l w t _ _ row] g w t row by (simp add: lease_mismatch_def)
qed

definition lease_epoch_of :: "event_store \<Rightarrow> string \<times> string \<Rightarrow> int" where
  "lease_epoch_of s k = (case dict_get (es_leases s) k of None \<Rightarrow> 0 | Some row \<Rightarrow> lr_lease_epoch row)"

lemma epoch_grows:
  assumes "store_commits digest sha s x s'"
  shows "lease_epoch_of s k \<le> lease_epoch_of s' k"
proof (cases x)
  case (Some c)
  then obtain now e n m lease where "append_event digest sha now e n m lease s = Inr (c, s')"
    using assms by (auto simp: store_commits_def)
  then have "es_leases s' = es_leases s" by (elim append_ok) (simp add: persist_Inr(2))
  then show ?thesis by (simp add: lease_epoch_of_def)
next
  case None
  then obtain token r w a h t n l where l: "acquire_lease sha token r w a h t n s = Inr (l, s')"
    using assms by (auto simp: store_commits_def)
  show ?thesis using lease_effect(6,7) [OF l] by (simp add: lease_epoch_of_def)
qed

lemma epoch_grows_along:
  "store.evolves_by digest sha s es s' \<Longrightarrow> lease_epoch_of s k \<le> lease_epoch_of s' k"
  by (induction rule: store.evolves_by.induct) (auto dest!: epoch_grows [where k = k])

lemma sound_empty: "sound_store digest empty_store"
  by (simp add: sound_store_def sound_run_def load_events_def run_rows_def empty_store_def fold_events_def)

lemma snapshot_of_sound:
  assumes "sound_store digest s"
  shows "load_events s r = Inr (stored_events s r)" and "\<exists>v. snapshot digest s r = Inr v"
proof -
  have "sound_run digest s r" using assms by (simp add: sound_store_def)
  then show "load_events s r = Inr (stored_events s r)" and "\<exists>v. snapshot digest s r = Inr v"
    by (cases rule: sound_run_cases; simp add: stored_events_def snapshot_def fold_events_def)+
qed

section \<open>Replay and the state machine\<close>

lemma allowed_source:
  assumes "validate_revalidated c v a t k = None"
  shows "ht_from_state (transition_of c) =
    (case ht_entity_kind (transition_of c) of
       K_run \<Rightarrow> source_value run_states (hv_run_state v)
     | K_work_item \<Rightarrow> source_value work_item_states (dict_get (hv_work_item_states v) (ht_entity_id (transition_of c)))
     | K_attempt \<Rightarrow> source_value attempt_states (dict_get (hv_attempt_states v) (ht_entity_id (transition_of c))))"
proof (cases c)
  case (PermanentFailure f)
  then have "validate_permanent_failure f v = None" using assms by (simp add: validate_revalidated_def)
  then have "Some (pf_from_state f) = hv_run_state v"
    unfolding validate_permanent_failure_def guard_simps by blast
  then show ?thesis using PermanentFailure by (cases "hv_run_state v") (auto simp: source_value_def)
next
  case (Transition x)
  note ok = edge_ok(3) [OF assms [unfolded Transition]]
  from ok show ?thesis
  proof (cases rule: edge_cases)
    case 1
    then show ?thesis unfolding Transition
      by (auto simp: validate_run_def Let_def split: if_splits option.splits)
  next
    case 2
    then show ?thesis unfolding Transition
      by (auto simp: validate_work_item_def Let_def split: if_splits option.splits)
  next
    case 3
    then show ?thesis unfolding Transition
      by (auto simp: validate_attempt_def Let_def split: if_splits option.splits)
  qed
qed

lemma targets_known:
  assumes "validate_revalidated c v a t k = None"
  shows "ht_entity_kind (transition_of c) = K_run \<Longrightarrow> enum_of run_states (ht_to_state (transition_of c)) \<noteq> None"
    and "ht_entity_kind (transition_of c) = K_work_item \<Longrightarrow>
      enum_of work_item_states (ht_to_state (transition_of c)) \<noteq> None"
    and "ht_entity_kind (transition_of c) = K_attempt \<Longrightarrow>
      enum_of attempt_states (ht_to_state (transition_of c)) \<noteq> None"
proof -
  show "ht_entity_kind (transition_of c) = K_run \<Longrightarrow> enum_of run_states (ht_to_state (transition_of c)) \<noteq> None"
    by (rule target_known [OF assms])
  have "validate_work_item x v t = None" if "c = Transition x" "ht_entity_kind x = K_work_item" for x
    using edge_ok(3) [OF assms [unfolded that(1)]] that by (simp add: validate_edge_def split: if_splits)
  then show "ht_entity_kind (transition_of c) = K_work_item \<Longrightarrow>
      enum_of work_item_states (ht_to_state (transition_of c)) \<noteq> None"
    by (cases c) (auto elim: item_ok)
  have "validate_attempt x v = None" if "c = Transition x" "ht_entity_kind x = K_attempt" for x
    using edge_ok(3) [OF assms [unfolded that(1)]] that by (simp add: validate_edge_def split: if_splits)
  then show "ht_entity_kind (transition_of c) = K_attempt \<Longrightarrow>
      enum_of attempt_states (ht_to_state (transition_of c)) \<noteq> None"
    by (cases c) (auto elim: attempt_ok)
qed

text \<open>An event that commits a transition at the next place of a view.\<close>

definition commits_at :: "HarnessSessionView \<Rightarrow> HarnessTransition \<Rightarrow> HarnessEvent \<Rightarrow> bool" where
  "commits_at v x e =
     (event_contract e \<and> ev_transition e = Some x \<and> ev_sequence e = hv_sequence v + 1
      \<and> ev_state_revision e = hv_state_revision v + 1
      \<and> list_all (\<lambda>d. d = None) (payload_digests e))"

lemma replay_of_allowed:
  assumes "apply_candidate c v a t None = Inr v'" and "commits_at v (transition_of c) e"
  shows "replay_transition e (transition_of c) (ev_run_id e) (ev_trace_id e) v
    = Inr (v'\<lparr>hv_last_event_hash := ev_event_hash e\<rparr>)"
proof -
  let ?x = "transition_of c"
  note s = apply_step [OF assms(1)]
  note b = allowed_binding [OF s(1)] and src = allowed_source [OF s(1)]
  have e: "event_contract e" "ev_transition e = Some ?x" "ev_sequence e = hv_sequence v + 1"
    "ev_state_revision e = hv_state_revision v + 1"
    "\<And>n. n \<in> {''request_digest'', ''prompt_release_digest'', ''accepted_result_digest''} \<Longrightarrow>
       payload_value e n = None"
    using assms(2) by (auto simp: commits_at_def payload_digests_def)
  note id = contract_kinds(2) [OF e(1,2)]
  have refusals: "first_error (replay_refusals e ?x (ev_run_id e) (ev_trace_id e) v) = None"
    unfolding replay_refusals_def guard_simps using b id e by (simp add: digest_conflict_def)
  have changes: "replay_changes e ?x (ev_run_id e) (ev_trace_id e) v =
      v\<lparr>hv_sequence := hv_sequence v + 1, hv_state_revision := hv_state_revision v + 1,
        hv_plan_revision := ht_plan_revision ?x, hv_run_id := Some (ht_run_id ?x),
        hv_trace_id := Some (ht_trace_id ?x),
        hv_applied_idempotency_keys := hv_applied_idempotency_keys v @ [ht_idempotency_key ?x],
        hv_last_event_hash := ev_event_hash e\<rparr>"
    using id e(3-5) by (simp add: replay_changes_def placed_def digest_change_def)
  have ids: "(case hv_run_id v of None \<Rightarrow> Some (ht_run_id ?x) | r \<Rightarrow> r) = Some (ht_run_id ?x)"
    "(case hv_trace_id v of None \<Rightarrow> Some (ht_trace_id ?x) | r \<Rightarrow> r) = Some (ht_trace_id ?x)"
    using b(4,5) by (auto split: option.splits)
  note known = targets_known [OF s(1)]
  have entity: "replay_entity ?x (replay_changes e ?x (ev_run_id e) (ev_trace_id e) v)
      = Inr (v'\<lparr>hv_last_event_hash := ev_event_hash e\<rparr>)"
  proof (cases "ht_entity_kind ?x")
    case K_run
    then show ?thesis using known(1) src
      by (auto simp: changes replay_entity_def s(2) changed_view_def changed_entity_def ids)
  next
    case K_work_item
    then show ?thesis using known(2) src
      by (auto simp: changes replay_entity_def s(2) changed_view_def changed_entity_def ids)
  next
    case K_attempt
    then show ?thesis using known(3) src
      by (auto simp: changes replay_entity_def s(2) changed_view_def changed_entity_def ids)
  qed
  have "view_contract (v'\<lparr>hv_last_event_hash := ev_event_hash e\<rparr>)"
    using s(5) e(1) by (simp add: view_contract_def view_fields_def view_consistent_def event_contract_def
        event_fields_def split: option.splits)
  then show ?thesis
    using refusals entity e(5) by (simp add: replay_transition_def payload_digests_def digest_acceptable_def)
qed

section \<open>Tampering\<close>

lemma last_hash:
  assumes "fold_events digest (es @ [e]) = Inr v"
  shows "hv_last_event_hash v = Some (digest (e\<lparr>ev_event_hash := None\<rparr>))"
    and "ev_event_hash e = Some (digest (e\<lparr>ev_event_hash := None\<rparr>))"
proof -
  obtain u where "fold_step digest (int (length es) + 1) u e = Inr v"
    using assms unfolding fold_events_snoc by blast
  note f = fold_step_ok [OF this]
  show "ev_event_hash e = Some (digest (e\<lparr>ev_event_hash := None\<rparr>))"
    using f(4) by (simp add: canonical_event_hash_def)
  then show "hv_last_event_hash v = Some (digest (e\<lparr>ev_event_hash := None\<rparr>))"
    using committed_ok(4) [OF f(5,2)] by simp
qed

lemma fold_empty [simp]: "fold_events digest [] = Inr empty_view"
  by (simp add: fold_events_def)

definition unsealed :: "HarnessEvent list \<Rightarrow> HarnessEvent set" where
  "unsealed es = (\<lambda>e. e\<lparr>ev_event_hash := None\<rparr>) ` set es"

lemma same_unsealed:
  "e\<lparr>ev_event_hash := None\<rparr> = f\<lparr>ev_event_hash := None\<rparr> \<Longrightarrow> ev_event_hash e = ev_event_hash f \<Longrightarrow> e = f"
  by (cases e; cases f) simp

lemma same_head_same_stream:
  assumes "fold_events digest es = Inr v" and "fold_events digest fs = Inr w"
    and "hv_last_event_hash v = hv_last_event_hash w" and "inj_on digest (unsealed es \<union> unsealed fs)"
  shows "es = fs"
  using assms
proof (induction es arbitrary: fs v w rule: rev_induct)
  case Nil
  show ?case
  proof (cases fs rule: rev_cases)
    case (snoc fs' f)
    then have "hv_last_event_hash w \<noteq> None" using last_hash(1) Nil.prems(2) by simp
    then show ?thesis using Nil.prems(1,3) by (auto simp: empty_view_def)
  qed simp
next
  case (snoc e es)
  note h = last_hash [OF snoc.prems(1)]
  show ?case
  proof (cases fs rule: rev_cases)
    case Nil
    then show ?thesis using h(1) snoc.prems(2,3) by (auto simp: empty_view_def)
  next
    case (snoc gs g)
    note k = last_hash [OF snoc.prems(2) [unfolded snoc]]
    have "digest (e\<lparr>ev_event_hash := None\<rparr>) = digest (g\<lparr>ev_event_hash := None\<rparr>)"
      using h(1) k(1) snoc.prems(3) by simp
    from inj_onD [OF snoc.prems(4) [unfolded snoc] this]
    have "e\<lparr>ev_event_hash := None\<rparr> = g\<lparr>ev_event_hash := None\<rparr>" by (simp add: unsealed_def)
    then have eg: "e = g" using same_unsealed [of e g] h(2) k(2) by simp
    obtain a where a: "fold_events digest es = Inr a" "fold_step digest (int (length es) + 1) a e = Inr v"
      using snoc.prems(1) unfolding fold_events_snoc by blast
    obtain b where b: "fold_events digest gs = Inr b" "fold_step digest (int (length gs) + 1) b g = Inr w"
      using snoc.prems(2) unfolding snoc fold_events_snoc by blast
    have "hv_last_event_hash a = hv_last_event_hash b"
      using fold_step_ok(3) [OF a(2)] fold_step_ok(3) [OF b(2)] eg by simp
    moreover have "inj_on digest (unsealed es \<union> unsealed gs)"
      using snoc.prems(4) unfolding snoc by (rule inj_on_subset) (auto simp: unsealed_def)
    ultimately have "es = gs" using snoc.IH [OF a(1) b(1)] by blast
    then show ?thesis using snoc eg by simp
  qed
qed

section \<open>Properties\<close>

text \<open>
  C3. Appending commits one step. It succeeds for the counters of the current snapshot only; the
  event becomes the next of its run, linked to the previous hash; the new snapshot is
  the event applied to the old one; the other runs keep theirs; the event is queued in the outbox;
  and the store stays sound.
\<close>

theorem append_commits_one_step:
  assumes "append_event digest sha now e n m lease s = Inr (c, s')" and "sound_store digest s"
  shows "\<exists>v w. snapshot digest s (ev_run_id e) = Inr v \<and> hv_sequence v = n \<and> hv_state_revision v = m
    \<and> apply_committed_event v c = Inr w \<and> snapshot digest s' (ev_run_id e) = Inr w
    \<and> ev_sequence c = n + 1 \<and> ev_previous_event_hash c = hv_last_event_hash v
    \<and> (\<forall>r. r \<noteq> ev_run_id e \<longrightarrow> snapshot digest s' r = snapshot digest s r)
    \<and> map ob_event (es_outbox s') = map ob_event (es_outbox s) @ [c] \<and> sound_store digest s'"
proof -
  note k = append_counters [OF assms(1)]
  obtain prior v w where a: "load_events s (ev_run_id e) = Inr prior" "fold_events digest prior = Inr v"
    "apply_committed_event v c = Inr w" "fold_events digest (prior @ [c]) = Inr w"
    "hv_sequence v = rw_sequence (run_row_for e s)"
    "hv_state_revision v = rw_state_revision (run_row_for e s)"
    "\<And>r. load_events s' r = (if r = ev_run_id e then Inr (prior @ [c]) else load_events s r)"
    "\<And>r. r \<noteq> ev_run_id e \<Longrightarrow> dict_get (es_runs s') r = dict_get (es_runs s) r" "sound_store digest s'"
    using append_effect [OF assms] by blast
  have c: "c = committed_event digest (run_row_for e s) e" and p: "persist c s = Inr s'"
    using assms(1) by (auto elim: append_ok)
  have "ev_previous_event_hash c = hv_last_event_hash v"
    using a(2,4) fold_step_ok(3) by (auto simp: fold_events_snoc)
  then show ?thesis
    using a k persist_Inr(5) [OF p] c by (auto simp: snapshot_def)
qed

text \<open>
  C8. Whatever appends and leases a store has seen since it was empty, the events of a run are
  those committed for it, in their order, they load, and their fold is the snapshot of the run.
\<close>

theorem snapshot_folds_the_committed_events:
  assumes "event_log.evolves_by (store_commits digest sha) empty_store es s"
  shows "load_events s r = Inr (filter (\<lambda>e. ev_run_id e = r) es)
    \<and> (\<exists>v. snapshot digest s r = Inr v
           \<and> hv_sequence v = int (length (filter (\<lambda>e. ev_run_id e = r) es))
           \<and> hv_state_revision v = int (length (transitions (filter (\<lambda>e. ev_run_id e = r) es))))"
proof -
  note sound = store.evolves_invar [OF assms sound_empty]
  have "stored_events s r = stored_events empty_store r @ filter (\<lambda>e. ev_run_id e = r) es"
    by (rule store.evolves_log [OF assms sound_empty])
  also have "stored_events empty_store r = []"
    by (simp add: stored_events_def load_events_def run_rows_def empty_store_def)
  finally have log: "load_events s r = Inr (filter (\<lambda>e. ev_run_id e = r) es)"
    using snapshot_of_sound(1) [OF sound, of r] by simp
  obtain v where "snapshot digest s r = Inr v" using snapshot_of_sound(2) [OF sound] by blast
  then show ?thesis
    using log fold_events_counts(1,3) [of digest "filter (\<lambda>e. ev_run_id e = r) es" v] by (auto simp: snapshot_def)
qed

text \<open>
  C10. Of two writers that expect the same place in a run only one commits: after an append, every
  append to the run with the same expected sequence is refused.
\<close>

theorem concurrent_append_is_refused:
  assumes "append_event digest sha now e n m lease s = Inr (c, s')" and "sound_store digest s"
    and "ev_run_id e' = ev_run_id e"
  shows "append_event digest sha now' e' n m' lease' s' \<noteq> Inr r"
proof
  assume "append_event digest sha now' e' n m' lease' s' = Inr r"
  then have "rw_sequence (run_row_for e' s') = n" using append_counters(1) by (cases r) blast
  moreover have "dict_get (es_runs s') (ev_run_id e) = Some \<lparr>rw_trace_id = ev_trace_id c, rw_sequence = n + 1,
      rw_state_revision = ev_state_revision c, rw_last_event_hash = ev_event_hash c\<rparr>"
    using assms(1) append_counters(1) [OF assms(1)]
    by (elim append_ok) (simp add: persist_Inr(3))
  ultimately show False using assms(3) by (simp add: run_row_for_def)
qed

text \<open>
  C9. Fencing: once a lease of a work item is acquired, no transition that carries an earlier
  lease of it is ever committed, whatever the store has seen in between.
\<close>

theorem stale_lease_is_fenced_off:
  assumes "acquire_lease sha token r w a h x k s = Inr (l, s1)"
    and "event_log.evolves_by (store_commits digest sha) s1 es s2"
    and "ev_transition e = Some t" and "ht_entity_kind t \<noteq> K_run" and "ev_run_id e = r"
    and "ev_work_item_id e = Some w" and "lt_lease_epoch old < lt_lease_epoch l"
  shows "append_event digest sha now e n m (Some old) s2 \<noteq> Inr q"
proof
  assume "append_event digest sha now e n m (Some old) s2 = Inr q"
  then have "validate_lease_authorization sha now s2 e (Some old) = None"
    using append_counters(3) by (cases q) blast
  then have "lease_epoch_of s2 (r, w) = lt_lease_epoch old"
    using assms(3-6) by (elim lease_authorization_ok) (auto simp: lease_epoch_of_def)
  moreover have "lease_epoch_of s1 (r, w) = lt_lease_epoch l"
    using lease_effect(4,6) [OF assms(1)] by (simp add: lease_epoch_of_def)
  ultimately show False using epoch_grows_along [OF assms(2), of "(r, w)"] assms(7) by simp
qed

text \<open>
  A transition of a work item or of an attempt is committed only with the current lease of the
  work item: its epoch, its token and its holder, before its expiry.
\<close>

theorem work_transitions_need_the_current_lease:
  assumes "append_event digest sha now e n m lease s = Inr (c, s')"
    and "ev_transition e = Some x" and "ht_entity_kind x \<noteq> K_run"
  shows "\<exists>l w row t. lease = Some l \<and> ev_work_item_id e = Some w \<and> now = Some t
    \<and> dict_get (es_leases s) (ev_run_id e, w) = Some row \<and> lr_lease_epoch row = lt_lease_epoch l
    \<and> ht_lease_epoch x = Some (lt_lease_epoch l)
    \<and> lr_fencing_token_digest row = sha (lt_fencing_token l) \<and> lr_holder_id row = lt_holder_id l
    \<and> t < lt_expires_at_monotonic l"
  by (rule lease_authorization_ok [OF append_counters(3) [OF assms(1)] assms(2,3)]) blast

text \<open>
  The hash chain makes tampering evident: two streams that fold and end in the same hash are
  equal, as long as the digest does not collide on their events.
\<close>

theorem equal_heads_mean_equal_streams:
  assumes "fold_events digest es = Inr v" and "fold_events digest fs = Inr w"
    and "hv_last_event_hash v = hv_last_event_hash w" and "inj_on digest (unsealed es \<union> unsealed fs)"
  shows "es = fs \<and> v = w"
  using same_head_same_stream [OF assms] assms(1,2) by simp


text \<open>
  C39. What a fold can contain: a session that replays has at most 64 transitions, with distinct
  keys, no event with a secret in it, and never an unresolved external side effect: no event
  sets that flag.
\<close>

theorem folded_session_limits:
  assumes "fold_events digest es = Inr v"
  shows "length (transitions es) \<le> 64 \<and> distinct (map ht_idempotency_key (transitions es))
    \<and> \<not> hv_external_side_effect_unknown v
    \<and> (\<forall>e \<in> set es. \<not> sensitive_payload (JObj (ev_payload e))
          \<and> \<not> list_ex sensitive_value (record_texts e @ event_texts e))"
proof -
  note c = fold_events_counts [OF assms]
  have "\<not> sensitive_payload (JObj (ev_payload e)) \<and> \<not> list_ex sensitive_value (record_texts e @ event_texts e)"
    if "e \<in> set es" for e
    using c(6) [OF that] by (simp add: event_contract_def validate_transition_identity_def split: if_splits)
  then show ?thesis using c(2,4,7) fold_distinct_keys [OF assms] by simp
qed

section \<open>Examples\<close>

definition example_hash :: "'a \<Rightarrow> string" where
  "example_hash x = replicate 64 CHR ''a''"

definition base_event :: HarnessEvent where
  "base_event =
     \<lparr>ev_event_id = ''event-1'', ev_trace_id = ''trace-1'', ev_span_id = ''span-1'', ev_parent_span_id = None,
      ev_run_id = ''run-1'', ev_work_item_id = None, ev_attempt_id = None, ev_sequence = 0,
      ev_state_revision = 0, ev_event_type = ''note'', ev_occurred_at = 0, ev_utc_offset = Some 0,
      ev_monotonic_offset = 0, ev_actor = ''harness'', ev_payload = [],
      ev_transition = None, ev_transition_authority = None, ev_attempt_ownership = None,
      ev_reconciliation_resolution = None, ev_previous_event_hash = None, ev_event_hash = None\<rparr>"

definition first_event :: HarnessEvent where
  "first_event = committed_event example_hash (run_row_for base_event empty_store) base_event"

definition first_store :: event_store where
  "first_store =
     \<lparr>es_runs = [(''run-1'', \<lparr>rw_trace_id = ''trace-1'', rw_sequence = 1, rw_state_revision = 0,
         rw_last_event_hash = Some (replicate 64 CHR ''a'')\<rparr>)],
      es_events = [row_of first_event],
      es_outbox = [\<lparr>ob_event_id = ''event-1'', ob_run_id = ''run-1'', ob_sequence = 1,
         ob_event = first_event, ob_published = False\<rparr>],
      es_leases = []\<rparr>"

lemma committed_parts:
  "record_texts (committed_event digest row e) = record_texts e"
  "event_texts (committed_event digest row e) = event_texts e"
  "authority_count (committed_event digest row e) = authority_count e"
  "reserved_record (committed_event digest row e) = reserved_record e"
  "transition_mismatch (committed_event digest row e) x = transition_mismatch e x"
  "ev_payload (committed_event digest row e) = ev_payload e"
  by (simp_all add: committed_event_def Let_def record_texts_def event_texts_def authority_count_def
      reserved_record_def transition_mismatch_def)

lemma committed_identity:
  "validate_transition_identity (committed_event digest row e) = validate_transition_identity e"
  by (simp only: validate_transition_identity_def committed_parts committed_event_simps)

lemma harmless [simp]:
  "\<not> sensitive_value ''event-1''" "\<not> sensitive_value ''event-2''" "\<not> sensitive_value ''trace-1''"
  "\<not> sensitive_value ''span-1''" "\<not> sensitive_value ''run-1''" "\<not> sensitive_value ''note''"
  "\<not> sensitive_value ''harness''" "\<not> sensitive_value ''item-1''" "\<not> sensitive_value ''attempt-1''"
  "\<not> sensitive_value ''none''" "\<not> sensitive_value ''pending''" "\<not> sensitive_value ''admission''"
  "\<not> sensitive_value ''key-1''" "\<not> sensitive_value (replicate 64 CHR ''a'')"
  by code_simp+

lemma base_event_contract: "event_contract base_event"
proof -
  have "record_texts base_event = []"
    and "event_texts base_event = [''event-1'', ''trace-1'', ''span-1'', ''run-1'', ''note'', ''harness'']"
    by code_simp+
  moreover have "\<not> sensitive_payload (JObj (ev_payload base_event))" by (simp add: base_event_def)
  moreover have "event_fields base_event"
    and "reserved_record base_event = None" and "authority_count base_event = 0"
    and "ev_transition base_event = None"
    by code_simp+
  ultimately show ?thesis by (simp add: event_contract_def validate_transition_identity_def)
qed

lemma first_event_contract: "event_contract first_event"
proof -
  have "event_fields first_event" by code_simp
  then show ?thesis
    using base_event_contract by (simp add: event_contract_def first_event_def committed_identity)
qed

definition first_view :: HarnessSessionView where
  "first_view = empty_view\<lparr>hv_sequence := 1, hv_run_id := Some ''run-1'', hv_trace_id := Some ''trace-1'',
     hv_last_event_hash := Some (replicate 64 CHR ''a'')\<rparr>"

lemma first_fold: "fold_events example_hash [first_event] = Inr first_view"
proof -
  have "apply_committed_event empty_view first_event = Inr first_view"
    and "ev_sequence first_event = 1" and "ev_previous_event_hash first_event = None"
    and "ev_event_hash first_event = Some (canonical_event_hash example_hash first_event)"
    by code_simp+
  then show ?thesis
    by (simp add: fold_events_def fold_step_def validated_event_def first_event_contract)
      (simp add: empty_view_def)
qed

lemma first_append:
  "append_event example_hash example_hash None base_event 0 0 None empty_store = Inr (first_event, first_store)"
proof -
  have "first_error (append_refusals example_hash None base_event 0 0 None empty_store) = None"
    and "load_events empty_store (ev_run_id base_event) = Inr []"
    and "persist first_event empty_store = Inr first_store"
    by code_simp+
  then show ?thesis
    using base_event_contract first_event_contract first_fold
    by (simp add: append_event_def validated_event_def first_event_def)
qed

text \<open>Two leases of one work item, and a transition of the item under the first one.\<close>

definition lease_number :: "int \<Rightarrow> LeaseToken" where
  "lease_number k = \<lparr>lt_run_id = ''run-1'', lt_work_item_id = ''item-1'', lt_attempt_id = ''attempt-1'',
     lt_lease_epoch = k, lt_fencing_token = ''fence-'' @ int_text k @ ''-'' @ ''00'',
     lt_holder_id = ''holder'', lt_expires_at_monotonic = 10\<rparr>"

definition leased_store :: "int \<Rightarrow> event_store" where
  "leased_store k = first_store\<lparr>es_leases := [((''run-1'', ''item-1''),
     \<lparr>lr_attempt_id = ''attempt-1'', lr_lease_epoch = k, lr_fencing_token_digest = replicate 64 CHR ''a'',
      lr_holder_id = ''holder'', lr_expires_at_monotonic = 10\<rparr>)]\<rparr>"

definition item_event :: HarnessEvent where
  "item_event = base_event\<lparr>ev_event_id := ''event-2'', ev_work_item_id := Some ''item-1'',
     ev_attempt_id := Some ''attempt-1'',
     ev_transition := Some (example_create\<lparr>ht_entity_kind := K_work_item, ht_entity_id := ''item-1'',
       ht_to_state := ''pending'', ht_lease_epoch := Some 1,
       ht_fencing_token_digest := Some (replicate 64 CHR ''a'')\<rparr>)\<rparr>"

lemma first_lease:
  "acquire_lease example_hash ''00'' ''run-1'' ''item-1'' ''attempt-1'' ''holder'' 10 0 first_store
     = Inr (lease_number 1, leased_store 1)"
  by code_simp

lemma second_lease:
  "acquire_lease example_hash ''00'' ''run-1'' ''item-1'' ''attempt-1'' ''holder'' 10 1 (leased_store 1)
     = Inr (lease_number 2, leased_store 2)"
  by code_simp

definition item_committed :: HarnessEvent where
  "item_committed = committed_event example_hash (run_row_for item_event (leased_store 1)) item_event"

lemma item_event_contract: "event_contract item_event"
proof -
  have "record_texts item_event = [''run-1'', ''trace-1'', ''item-1'', ''none'', ''pending'', ''admission'', ''key-1'',
      replicate 64 CHR ''a'']"
    and "event_texts item_event = [''event-2'', ''trace-1'', ''span-1'', ''run-1'', ''item-1'', ''attempt-1'',
      ''note'', ''harness'']"
    by code_simp+
  moreover have "\<not> sensitive_payload (JObj (ev_payload item_event))" by (simp add: item_event_def base_event_def)
  moreover have "event_fields item_event"
    and "reserved_record item_event = None" and "authority_count item_event = 0"
    and "transition_mismatch item_event (the (ev_transition item_event)) = None"
    and "ev_transition item_event \<noteq> None"
    by code_simp+
  ultimately show ?thesis
    by (auto simp: event_contract_def validate_transition_identity_def simp del: replicate.simps)
qed

definition item_view :: HarnessSessionView where
  "item_view = first_view\<lparr>hv_sequence := 2, hv_state_revision := 1,
     hv_work_item_states := [(''item-1'', W_PENDING)], hv_applied_idempotency_keys := [''key-1'']\<rparr>"

lemma item_append:
  "\<exists>s. append_event example_hash example_hash (Some 1) item_event 1 0 (Some (lease_number 1)) (leased_store 1)
     = Inr (item_committed, s)"
proof -
  have fields: "event_fields item_committed" by code_simp
  then have c: "event_contract item_committed"
    using item_event_contract by (simp add: event_contract_def item_committed_def committed_identity)
  have "apply_committed_event first_view item_committed = Inr item_view"
    and "ev_sequence item_committed = 2" and "ev_previous_event_hash item_committed = hv_last_event_hash first_view"
    and "ev_event_hash item_committed = Some (canonical_event_hash example_hash item_committed)"
    and "Some (ev_run_id item_committed) = hv_run_id first_view"
    and "Some (ev_trace_id item_committed) = hv_trace_id first_view"
    by code_simp+
  then have "fold_step example_hash 2 first_view item_committed = Inr item_view"
    using c by (simp add: fold_step_def validated_event_def)
  then have fold: "fold_events example_hash ([first_event] @ [item_committed]) = Inr item_view"
    unfolding fold_events_snoc using first_fold by simp
  have "map row_event (run_rows (leased_store 1) ''run-1'') = map Some [first_event]"
  proof -
    have "run_rows (leased_store 1) ''run-1'' = [row_of first_event]" by code_simp
    then show ?thesis by (simp add: row_event_row_of [OF first_event_contract])
  qed
  moreover have "list_all2 row_matches (run_rows (leased_store 1) ''run-1'') [first_event]" by code_simp
  ultimately have "load_events (leased_store 1) ''run-1'' = Inr [first_event]"
    unfolding load_events_Inr by blast
  moreover have "first_error (append_refusals example_hash (Some 1) item_event 1 0 (Some (lease_number 1))
      (leased_store 1)) = None"
    and "\<not> isl (persist item_committed (leased_store 1))" and "ev_run_id item_event = ''run-1''"
    by code_simp+
  moreover then obtain s where "persist item_committed (leased_store 1) = Inr s" 
    by (cases "persist item_committed (leased_store 1)") simp_all
  ultimately show ?thesis
    using item_event_contract c fold
    by (auto simp: append_event_def validated_event_def item_committed_def rbind_Inr_iff)
qed

lemma first_commit: "store_commits example_hash example_hash empty_store (Some first_event) first_store"
  unfolding store_commits_def option.case using first_append by blast

lemma first_history:
  "event_log.evolves_by (store_commits example_hash example_hash) empty_store [first_event] first_store"
  using store.event [OF store.none first_commit] by simp

theorem append_commits_one_step_witness:
  "sound_store example_hash empty_store
   \<and> (\<exists>w. snapshot example_hash first_store ''run-1'' = Inr w) \<and> sound_store example_hash first_store"
  using append_commits_one_step [OF first_append sound_empty] sound_empty [of example_hash]
  by (auto simp: base_event_def)

theorem snapshot_folds_the_committed_events_witness:
  "load_events first_store ''run-1'' = Inr [first_event]"
proof -
  have "ev_run_id first_event = ''run-1''" by code_simp
  then show ?thesis using snapshot_folds_the_committed_events [OF first_history, of "''run-1''"] by simp
qed

theorem concurrent_append_is_refused_witness:
  "\<forall>r. append_event example_hash example_hash None (base_event\<lparr>ev_event_id := ''event-2''\<rparr>) 0 0 None first_store \<noteq> Inr r"
  using concurrent_append_is_refused [OF first_append sound_empty, of "base_event\<lparr>ev_event_id := ''event-2''\<rparr>"]
  by simp

theorem stale_lease_is_fenced_off_witness:
  "\<forall>q. append_event example_hash example_hash (Some 1) item_event 1 0 (Some (lease_number 1)) (leased_store 2) \<noteq> Inr q"
proof -
  have "ev_run_id item_event = ''run-1''" and "ev_work_item_id item_event = Some ''item-1''"
    and "ev_transition item_event = Some (example_create\<lparr>ht_entity_kind := K_work_item, ht_entity_id := ''item-1'',
       ht_to_state := ''pending'', ht_lease_epoch := Some 1,
       ht_fencing_token_digest := Some (replicate 64 CHR ''a'')\<rparr>)"
    and "lt_lease_epoch (lease_number 1) < lt_lease_epoch (lease_number 2)"
    by (simp_all add: item_event_def base_event_def lease_number_def)
  note item = this
  show ?thesis
    using stale_lease_is_fenced_off [OF second_lease store.none item(3) _ item(1,2,4)] by simp
qed

theorem work_transitions_need_the_current_lease_witness:
  "\<exists>row. dict_get (es_leases (leased_store 1)) (''run-1'', ''item-1'') = Some row \<and> lr_lease_epoch row = 1"
proof -
  obtain s where a: "append_event example_hash example_hash (Some 1) item_event 1 0 (Some (lease_number 1)) (leased_store 1)
     = Inr (item_committed, s)" using item_append by blast
  have "ev_transition item_event = Some (the (ev_transition item_event))"
    and "ht_entity_kind (the (ev_transition item_event)) \<noteq> K_run"
    by (simp_all add: item_event_def)
  from work_transitions_need_the_current_lease [OF a this] show ?thesis
    by (auto simp: item_event_def base_event_def lease_number_def)
qed

theorem equal_heads_mean_equal_streams_witness: "[first_event] = [first_event] \<and> first_view = first_view"
  using equal_heads_mean_equal_streams [OF first_fold first_fold] by (simp add: unsealed_def)

definition create_event :: HarnessEvent where
  "create_event = base_event\<lparr>ev_sequence := 2, ev_state_revision := 1, ev_transition := Some example_create,
     ev_previous_event_hash := Some (replicate 64 CHR ''a''), ev_event_hash := Some (replicate 64 CHR ''b'')\<rparr>"


theorem folded_session_limits_witness:
  "fold_events example_hash [first_event] = Inr first_view \<and> length (transitions [first_event]) \<le> 64
   \<and> \<not> hv_external_side_effect_unknown first_view"
  using folded_session_limits [OF first_fold] first_fold by simp

end
