(* ===== verification/Text_Order.thy ===== *)
theory Text_Order
  imports Text_Codec
begin

text \<open>
  The texts that \<^verbatim>\<open>isoformat\<close> writes are ordered as their times are, in spite of the fraction that is
  left out when it is zero. SQLite compares these texts where PostgreSQL compares times.
\<close>

section \<open>Texts of numbers and dates\<close>

lemma list_less_append:
  fixes u v x y :: "'a::order list"
  shows "length u = length v \<Longrightarrow> u @ x < v @ y \<longleftrightarrow> u < v \<or> (u = v \<and> x < y)"
  by (induction u v rule: list_induct2) auto

lemma char_less_iff: "c < d \<longleftrightarrow> code_of c < code_of d"
  by (simp add: less_char_def)

lemma digit_char_less: "a < 10 \<Longrightarrow> b < 10 \<Longrightarrow> digit_char a < digit_char b \<longleftrightarrow> a < b"
  by (simp add: char_less_iff digit_char_def)

lemma pad_inject: "m < 10 ^ k \<Longrightarrow> n < 10 ^ k \<Longrightarrow> pad k m = pad k n \<longleftrightarrow> m = n"
  using digits_value_pad by metis

lemma pad_less: "m < 10 ^ k \<Longrightarrow> n < 10 ^ k \<Longrightarrow> pad k m < pad k n \<longleftrightarrow> m < n"
proof (induction k arbitrary: m n)
  case (Suc k)
  have d: "m div 10 < 10 ^ k" "n div 10 < 10 ^ k" using Suc.prems by auto
  have "pad (Suc k) m < pad (Suc k) n \<longleftrightarrow> m div 10 < n div 10 \<or> m div 10 = n div 10 \<and> m mod 10 < n mod 10"
    using Suc.IH [OF d] pad_inject [OF d] by (simp add: list_less_append digit_char_less)
  also have "\<dots> \<longleftrightarrow> m < n"
    by (metis div_mult_mod_eq div_le_mono linorder_not_less nat_less_le add_less_cancel_left mod_less_eq_dividend)
  finally show ?case .
qed simp

lemma div_step: "0 < k \<Longrightarrow> 1 \<le> y \<Longrightarrow> y div k = (y - 1) div k + (if y mod k = 0 then 1 else 0)" for y k :: nat
  by (cases y) (auto simp: div_Suc)

lemma next_year_start:
  assumes "1 \<le> y"
  shows "days_before_year (Suc y) = days_before_year y + sum_list (month_days y)"
proof -
  define n where "n = y - 1"
  define a b c where "a = n div 4" and "b = n div 100" and "c = n div 400"
  have le: "b \<le> a" by (simp add: a_def b_def div_le_mono2)
  have "y mod 400 = 0 \<Longrightarrow> y mod 100 = 0" "y mod 100 = 0 \<Longrightarrow> y mod 4 = 0" by presburger+
  note nested = this
  have y: "y = Suc n" using assms by (simp add: n_def)
  have "y div 4 = a + (if y mod 4 = 0 then 1 else 0)" "y div 100 = b + (if y mod 100 = 0 then 1 else 0)"
    "y div 400 = c + (if y mod 400 = 0 then 1 else 0)"
    using div_step [of 4 y] div_step [of 100 y] div_step [of 400 y] assms
    by (simp_all add: a_def b_def c_def n_def)
  then have "days_before_year (Suc y) = y * 365 + (a + (if y mod 4 = 0 then 1 else 0))
      - (b + (if y mod 100 = 0 then 1 else 0)) + (c + (if y mod 400 = 0 then 1 else 0))"
    unfolding days_before_year_def diff_Suc_1 by (simp only:)
  moreover have "days_before_year y = n * 365 + a - b + c"
    by (simp add: days_before_year_def n_def a_def b_def c_def)
  moreover have "y * 365 = n * 365 + 365" using y by simp
  ultimately show ?thesis
    using le nested unfolding year_length leap_def by (simp add: add_ac split: if_split)
qed

lemma year_starts_grow: "1 \<le> y \<Longrightarrow> y \<le> z \<Longrightarrow> days_before_year y \<le> days_before_year z"
  by (induction z) (auto simp: le_Suc_eq next_year_start)

lemma month_starts_grow: "m < n \<Longrightarrow> n \<le> 12 \<Longrightarrow> 1 \<le> m \<Longrightarrow>
  days_before_month y m + month_days y ! (m - 1) \<le> days_before_month y n"
proof (induction n)
  case (Suc n)
  have "length (month_days y) = 12" by (simp add: month_days_def)
  then have "days_before_month y (Suc k) = days_before_month y k + month_days y ! (k - 1)" if "1 \<le> k" "k \<le> 12" for k
    using that take_Suc_conv_app_nth [of "k - 1" "month_days y"] by (simp add: days_before_month_def)
  then show ?case using Suc by (auto simp: less_Suc_eq)
qed simp

lemma date_in_year:
  assumes "valid_date y m d"
  shows "days_before_month y m + d \<le> sum_list (month_days y)"
proof -
  have "days_before_month y m + month_days y ! (m - 1) \<le> days_before_month y 12 + month_days y ! 11"
  proof (cases "m = 12")
    case False
    then show ?thesis using month_starts_grow [of m 12 y] assms by (auto simp: valid_date_def)
  qed simp
  also have "\<dots> = sum_list (month_days y)" by (simp add: days_before_month_def month_days_def)
  finally show ?thesis using assms by (simp add: valid_date_def)
qed

text \<open>The order of dates is that of year, month and day.\<close>

lemma ymd2ord_less:
  assumes v: "valid_date y m d" "valid_date y' m' d'"
    and l: "y < y' \<or> y = y' \<and> (m < m' \<or> m = m' \<and> d < d')"
  shows "ymd2ord y m d < ymd2ord y' m' d'"
proof (cases "y < y'")
  case True
  have "ymd2ord y m d \<le> days_before_year (Suc y)"
    using date_in_year [OF v(1)] v(1) by (simp add: ymd2ord_def valid_date_def next_year_start)
  moreover have "days_before_year (Suc y) \<le> days_before_year y'" using True by (intro year_starts_grow) auto
  ultimately show ?thesis using v(2) by (simp add: ymd2ord_def valid_date_def)
next
  case False
  then show ?thesis
    using l v month_starts_grow [of m m' y] by (auto simp: ymd2ord_def valid_date_def)
qed

definition fraction_text :: "nat \<Rightarrow> string" where
  "fraction_text us = (if us = 0 then [] else ''.'' @ pad 6 us) @ ''+00:00''"

lemma fraction_less: "a < 1000000 \<Longrightarrow> b < 1000000 \<Longrightarrow> fraction_text a < fraction_text b \<longleftrightarrow> a < b"
proof -
  assume ab: "a < 1000000" "b < 1000000"
  then have "pad 6 a < pad 6 b \<longleftrightarrow> a < b" by (intro pad_less) simp_all
  moreover have "CHR ''+'' < CHR ''.''" "\<not> CHR ''.'' < CHR ''+''" by (simp_all add: char_less_iff)
  ultimately show ?thesis using list_less_append [of "pad 6 a" "pad 6 b" "''+00:00''" "''+00:00''"]
    by (simp add: fraction_text_def)
qed

text \<open>
  Texts of times compare as the times do: what a database that keeps times as texts relies on. The
  form without a fraction comes first, since the offset sign precedes the point.
\<close>

lemma seconds_less:
  fixes s t :: nat
  assumes "s < t"
  shows "s div 3600 < t div 3600 \<or> s div 3600 = t div 3600
    \<and> (s div 60 mod 60 < t div 60 mod 60 \<or> s div 60 mod 60 = t div 60 mod 60 \<and> s mod 60 < t mod 60)"
proof -
  have d: "x div 3600 = x div 60 div 60" for x :: nat by (simp add: div_mult2_eq [symmetric])
  have split: "a div 60 < b div 60 \<or> a div 60 = b div 60 \<and> a mod 60 < b mod 60" if "a < b" for a b :: nat
    using that div_le_mono [of a b 60] div_mult_mod_eq [of a 60] div_mult_mod_eq [of b 60] by linarith
  from split [OF assms] show ?thesis unfolding d using split [of "s div 60" "t div 60"] by auto
qed

lemma clock_less:
  fixes s t :: int
  assumes "s < t"
  shows "day_number s < day_number t \<or> day_number s = day_number t
    \<and> (nat (s div 1000000 mod 86400) < nat (t div 1000000 mod 86400)
       \<or> nat (s div 1000000 mod 86400) = nat (t div 1000000 mod 86400) \<and> nat (s mod 1000000) < nat (t mod 1000000))"
proof -
  have d: "x div 86400000000 = x div 1000000 div 86400" for x :: int by (simp add: zdiv_zmult2_eq [symmetric])
  have split: "a div k < b div k \<or> a div k = b div k \<and> nat (a mod k) < nat (b mod k)" if "a < b" "0 < k" for a b k :: int
    using that zdiv_mono1 [of a b k] mult_div_mod_eq [of k a] mult_div_mod_eq [of k b]
    by (metis add_less_cancel_left less_le nat_mono_iff pos_mod_sign order_le_less_trans order_less_imp_le zless_nat_conj)
  show ?thesis
    using split [OF assms, of 1000000] split [of "s div 1000000" "t div 1000000" 86400]
    unfolding day_number_def d by auto
qed

lemma isoformat_less:
  assumes range: "datetime_range s" "datetime_range t" and less: "s < t"
  shows "isoformat_utc s < isoformat_utc t"
proof -
  define us us' sec sec' where "us = nat (s mod 1000000)" and "us' = nat (t mod 1000000)"
    and "sec = nat (s div 1000000 mod 86400)" and "sec' = nat (t div 1000000 mod 86400)"
  obtain y m d where ymd: "ord2ymd (nat (day_number s)) = (y, m, d)" by (metis prod_cases3)
  obtain y' m' d' where ymd': "ord2ymd (nat (day_number t)) = (y', m', d')" by (metis prod_cases3)
  have day: "ymd2ord y m d = nat (day_number s)" "valid_date y m d"
    using ord2ymd_date [OF _ _ ymd] range by (auto simp: datetime_range_def)
  have day': "ymd2ord y' m' d' = nat (day_number t)" "valid_date y' m' d'"
    using ord2ymd_date [OF _ _ ymd'] range by (auto simp: datetime_range_def)
  have small: "y < 10 ^ 4" "m < 10 ^ 2" "d < 10 ^ 2" if v: "valid_date y m d" for y m d
  proof -
    have "month_days y ! (m - 1) \<le> 31" using v by (intro month_at_most_31) (auto simp: valid_date_def)
    then show "y < 10 ^ 4" "m < 10 ^ 2" "d < 10 ^ 2" using v by (auto simp: valid_date_def)
  qed
  note date = small [OF day(2)] small [OF day'(2)]
  have clock: "us < 1000000" "us' < 1000000" "sec < 86400" "sec' < 86400"
    by (simp_all add: us_def us'_def sec_def sec'_def nat_less_iff)
  have hms: "x div 3600 < 10 ^ 2" "x div 60 mod 60 < 10 ^ 2" "x mod 60 < 10 ^ 2" if "x < 86400" for x :: nat
    using that by (auto intro: less_trans [of _ 60])
  have s: "isoformat_utc s = pad 4 y @ ''-'' @ pad 2 m @ ''-'' @ pad 2 d @ ''T'' @ pad 2 (sec div 3600)
      @ '':'' @ pad 2 (sec div 60 mod 60) @ '':'' @ pad 2 (sec mod 60) @ fraction_text us"
    by (simp add: isoformat_utc_def Let_def ymd us_def sec_def fraction_text_def)
  have t: "isoformat_utc t = pad 4 y' @ ''-'' @ pad 2 m' @ ''-'' @ pad 2 d' @ ''T'' @ pad 2 (sec' div 3600)
      @ '':'' @ pad 2 (sec' div 60 mod 60) @ '':'' @ pad 2 (sec' mod 60) @ fraction_text us'"
    by (simp add: isoformat_utc_def Let_def ymd' us'_def sec'_def fraction_text_def)
  have time: "day_number s < day_number t \<or> day_number s = day_number t \<and> (sec < sec' \<or> sec = sec' \<and> us < us')"
    using clock_less [OF less] unfolding us_def us'_def sec_def sec'_def .
  have dates: "y < y' \<or> y = y' \<and> (m < m' \<or> m = m' \<and> d < d')" if "day_number s < day_number t"
    using ymd2ord_less [OF day'(2) day(2)] that range day(1) day'(1)
    by (metis datetime_range_def linorder_neqE_nat nat_mono_iff not_less_iff_gr_or_eq zero_less_one order_less_le_trans)
  have same: "y = y' \<and> m = m' \<and> d = d'" if "day_number s = day_number t" using that ymd ymd' by simp
  have pads: "pad 4 y < pad 4 y' \<longleftrightarrow> y < y'" "pad 2 m < pad 2 m' \<longleftrightarrow> m < m'" "pad 2 d < pad 2 d' \<longleftrightarrow> d < d'"
    by (intro pad_less date)+
  have times: "pad 2 (sec div 3600) < pad 2 (sec' div 3600) \<longleftrightarrow> sec div 3600 < sec' div 3600"
    "pad 2 (sec div 60 mod 60) < pad 2 (sec' div 60 mod 60) \<longleftrightarrow> sec div 60 mod 60 < sec' div 60 mod 60"
    "pad 2 (sec mod 60) < pad 2 (sec' mod 60) \<longleftrightarrow> sec mod 60 < sec' mod 60"
    by (intro pad_less hms clock)+
  note prefix = list_less_append [OF trans [OF length_pad length_pad [symmetric]]]
  from time consider (day) "day_number s < day_number t" | (sec) "day_number s = day_number t" "sec < sec'"
    | (us) "day_number s = day_number t" "sec = sec'" "us < us'" by blast
  then show ?thesis
  proof cases
    case day
    then consider "y < y'" | "y = y'" "m < m'" | "y = y'" "m = m'" "d < d'" using dates by blast
    then show ?thesis unfolding s t by cases (simp_all add: prefix pads)
  next
    case sec
    then consider "sec div 3600 < sec' div 3600" | "sec div 3600 = sec' div 3600" "sec div 60 mod 60 < sec' div 60 mod 60"
      | "sec div 3600 = sec' div 3600" "sec div 60 mod 60 = sec' div 60 mod 60" "sec mod 60 < sec' mod 60"
      using seconds_less by blast
    then show ?thesis unfolding s t using same [OF sec(1)] by cases (simp_all add: prefix times)
  next
    case us
    then show ?thesis unfolding s t using same fraction_less [OF clock(1,2)] by (simp add: prefix)
  qed
qed

lemma isoformat_le: "datetime_range s \<Longrightarrow> datetime_range t \<Longrightarrow> isoformat_utc s \<le> isoformat_utc t \<longleftrightarrow> s \<le> t"
  using isoformat_less [of s t] isoformat_less [of t s] by (metis leD leI linorder_le_less_linear order.order_iff_strict)

end
