(* ===== verification/Job_Store.thy ===== *)
theory Job_Store
  imports Text_Order Decimal
begin

text \<open>
  The durable jobs of the backend (\<^verbatim>\<open>src/market_agent/backend/database.py\<close>): the SQLite repository,
  the PostgreSQL repository, and what both have in common; the classes of errors are those of
  \<^verbatim>\<open>backend/errors.py\<close>.

  A table is a dictionary by primary key in order of insertion. SQLite keeps a time as its ISO text
  and compares the texts; PostgreSQL keeps it as a time. A row is therefore a record over the type
  of its times, and a \<^verbatim>\<open>JobRecord\<close>, whose times are texts in both cases, is a row over \<open>string\<close>. JSON
  columns hold their values. A call is one transaction; the clocks it reads are an argument, and so
  is the identifier made for a new job. Lease times are finite numbers.
\<close>

section \<open>Errors\<close>

datatype backend_class =
    ConfigurationClass | ValidationClass | NotFoundClass | ConflictClass | AuthenticationClass
  | AuthorizationClass | DependencyUnavailableClass | RetryableTaskClass | TaskQueueFullClass
  | UnknownTaskClass | JobNotFoundClass | IdempotencyConflictClass

type_synonym payload = "(string \<times> json) list"

text \<open>
  What the backend raises: one of its own errors, a lost lease, an exception of Python, or an
  exception of another library with its class name, its text and its \<^verbatim>\<open>retryable\<close> attribute.
\<close>

datatype job_error =
    BackendError backend_class string payload
  | ExecutionLeaseLostError string
  | PyError py_error
  | OtherError string string bool

definition class_retryable :: "backend_class \<Rightarrow> bool" where
  "class_retryable c = (c = DependencyUnavailableClass \<or> c = RetryableTaskClass)"

definition error_code :: "backend_class \<Rightarrow> string" where
  "error_code c =
     (case c of
        ConfigurationClass \<Rightarrow> ''configuration_error''
      | ValidationClass \<Rightarrow> ''validation_error''
      | NotFoundClass \<Rightarrow> ''not_found''
      | ConflictClass \<Rightarrow> ''conflict''
      | AuthenticationClass \<Rightarrow> ''authentication_error''
      | AuthorizationClass \<Rightarrow> ''authorization_error''
      | DependencyUnavailableClass \<Rightarrow> ''dependency_unavailable''
      | RetryableTaskClass \<Rightarrow> ''retryable_task_error''
      | TaskQueueFullClass \<Rightarrow> ''task_queue_full''
      | UnknownTaskClass \<Rightarrow> ''unknown_task''
      | JobNotFoundClass \<Rightarrow> ''job_not_found''
      | IdempotencyConflictClass \<Rightarrow> ''idempotency_conflict'')"

type_synonym 'a attempted = "job_error + 'a"

section \<open>Rows and events\<close>

datatype job_status = ACCEPTED | RUNNING | SUCCEEDED | FAILED

definition status_text :: "job_status \<Rightarrow> string" where
  "status_text s = (case s of ACCEPTED \<Rightarrow> ''accepted'' | RUNNING \<Rightarrow> ''running''
     | SUCCEEDED \<Rightarrow> ''succeeded'' | FAILED \<Rightarrow> ''failed'')"

definition allowed_transitions :: "job_status \<Rightarrow> job_status list" where
  "allowed_transitions s = (case s of ACCEPTED \<Rightarrow> [RUNNING, FAILED]
     | RUNNING \<Rightarrow> [ACCEPTED, SUCCEEDED, FAILED] | SUCCEEDED \<Rightarrow> [] | FAILED \<Rightarrow> [])"

definition job_ended :: "job_status \<Rightarrow> bool" where
  "job_ended s = (s = SUCCEEDED \<or> s = FAILED)"

record 't job_row =
  jb_job_id :: string
  jb_task_name :: string
  jb_status :: job_status
  jb_payload :: payload
  jb_idempotency_key :: "string option"
  jb_payload_fingerprint :: string
  jb_result :: json
  jb_error :: json
  jb_attempt_count :: int
  jb_max_attempts :: int
  jb_request_id :: string
  jb_created_at :: 't
  jb_updated_at :: 't
  jb_execution_token :: "string option"
  jb_lease_expires_at :: "'t option"

type_synonym JobRecord = "string job_row"

record 't job_event =
  je_event_id :: int
  je_job_id :: string
  je_event_type :: string
  je_payload :: payload
  je_created_at :: 't

record 't job_db =
  jd_jobs :: "(string \<times> 't job_row) list"
  jd_events :: "'t job_event list"

definition empty_jobs :: "'t job_db" where
  "empty_jobs = \<lparr>jd_jobs = [], jd_events = []\<rparr>"

text \<open>
  The clocks a call reads: the first reading of \<^verbatim>\<open>_utc_now()\<close>, which is also \<^verbatim>\<open>clock_timestamp()\<close> in the
  condition of a statement, \<^verbatim>\<open>clock_timestamp()\<close> in the new deadline, \<^verbatim>\<open>CURRENT_TIMESTAMP\<close>, and the
  reading for the event.
\<close>

record readings =
  rd_now :: int
  rd_lease :: int
  rd_stamp :: int
  rd_event :: int

section \<open>Helpers\<close>

definition validate_lease :: "string \<Rightarrow> rat \<Rightarrow> rat attempted" where
  "validate_lease execution_token lease_seconds =
     (if py_strip execution_token = [] then Inl (PyError (ValueError ''execution_token is required''))
      else if lease_seconds \<le> 0
      then Inl (PyError (ValueError ''lease_seconds must be finite and positive''))
      else Inr lease_seconds)"

text \<open>\<^verbatim>\<open>timedelta(seconds=x)\<close> in microseconds, and adding it to a time.\<close>

definition timedelta_micros :: "rat \<Rightarrow> int" where
  "timedelta_micros x = round_half_even (x * 1000000)"

definition add_timedelta :: "int \<Rightarrow> rat \<Rightarrow> int attempted" where
  "add_timedelta t x =
     (if 86400000000 * 1000000000 \<le> timedelta_micros x
      then Inl (PyError (OverflowError ''days must have magnitude <= 999999999''))
      else if datetime_range (t + timedelta_micros x) then Inr (t + timedelta_micros x)
      else Inl (PyError (OverflowError ''date value out of range'')))"

text \<open>\<^verbatim>\<open>datetime.fromisoformat\<close> of a text with an offset, as an instant.\<close>

definition text_instant :: "string \<Rightarrow> int attempted" where
  "text_instant s =
     (case fromisoformat s of
        Some (t, Some offset) \<Rightarrow> Inr (t - offset * 1000000)
      | _ \<Rightarrow> Inl (PyError (ValueError ''Invalid isoformat string'')))"

definition lease_deadline :: "string \<Rightarrow> string \<Rightarrow> rat \<Rightarrow> string attempted" where
  "lease_deadline now execution_token lease_seconds =
     rbind (text_instant now) (\<lambda>t.
     rbind (validate_lease execution_token lease_seconds) (\<lambda>secs.
     rbind (add_timedelta t secs) (\<lambda>deadline. Inr (isoformat_utc deadline))))"

definition check_lease :: "JobRecord \<Rightarrow> string option \<Rightarrow> string \<Rightarrow> unit attempted" where
  "check_lease job execution_token now =
     (let lost = Inl (ExecutionLeaseLostError ''job execution lease is lost or expired'')
      in if execution_token = None \<and> jb_execution_token job = None \<and> jb_lease_expires_at job = None
         then Inr ()
         else if execution_token = None \<or> execution_token \<noteq> jb_execution_token job then lost
         else (case jb_lease_expires_at job of
                 None \<Rightarrow> lost
               | Some lease \<Rightarrow>
                   rbind (text_instant lease) (\<lambda>l. rbind (text_instant now) (\<lambda>n.
                     if l \<le> n then lost else Inr ()))))"

text \<open>\<^verbatim>\<open>json.dumps\<close> without spaces and without escapes outside of ASCII controls.\<close>

definition json_char :: "char \<Rightarrow> string" where
  "json_char c =
     (if c = char_of (34 :: nat) \<or> c = char_of (92 :: nat) then [char_of (92 :: nat), c]
      else if code_of c = 8 then [char_of (92 :: nat), CHR ''b'']
      else if code_of c = 9 then [char_of (92 :: nat), CHR ''t'']
      else if code_of c = 10 then [char_of (92 :: nat), CHR ''n'']
      else if code_of c = 12 then [char_of (92 :: nat), CHR ''f'']
      else if code_of c = 13 then [char_of (92 :: nat), CHR ''r'']
      else if code_of c < 32
        then char_of (92 :: nat) # ''u00'' @ [hex_digit (code_of c div 16), hex_digit (code_of c mod 16)]
      else [c])"

definition json_quote :: "string \<Rightarrow> string" where
  "json_quote s = char_of (34 :: nat) # concat (map json_char s) @ [char_of (34 :: nat)]"

fun json_dump :: "json \<Rightarrow> string" where
  "json_dump JNull = ''null''"
| "json_dump (JBool b) = (if b then ''true'' else ''false'')"
| "json_dump (JInt i) = int_text i"
| "json_dump (JFloat t) = (if t = ''nan'' then ''NaN'' else if t = ''inf'' then ''Infinity''
     else if t = ''-inf'' then ''-Infinity'' else t)"
| "json_dump (JStr s) = json_quote s"
| "json_dump (JList xs) = ''['' @ join_with CHR '','' (map json_dump xs) @ '']''"
| "json_dump (JObj d) =
     ''{'' @ join_with CHR '','' (map (\<lambda>e. json_quote (fst e) @ '':'' @ json_dump (snd e)) d) @ ''}''"

definition payload_fingerprint :: "(string \<Rightarrow> string) \<Rightarrow> payload \<Rightarrow> string" where
  "payload_fingerprint sha p = sha (json_dump (sort_keys (JObj p)))"

definition normalize_idempotency_key :: "string option \<Rightarrow> string option attempted" where
  "normalize_idempotency_key v =
     (case v of
        None \<Rightarrow> Inr None
      | Some raw \<Rightarrow>
          (let normalized = py_strip raw
           in if normalized = []
              then Inl (BackendError ValidationClass ''idempotency key cannot be blank'' [])
              else if 256 < length normalized
              then Inl (BackendError ValidationClass ''idempotency key cannot exceed 256 characters'' [])
              else Inr (Some normalized)))"

definition validate_existing_job :: "'t job_row \<Rightarrow> string \<Rightarrow> string \<Rightarrow> unit attempted" where
  "validate_existing_job existing task_name fingerprint =
     (if jb_task_name existing \<noteq> task_name \<or> jb_payload_fingerprint existing \<noteq> fingerprint
      then Inl (BackendError IdempotencyConflictClass
             ''idempotency key was already used with a different task or payload''
             [(''job_id'', JStr (jb_job_id existing))])
      else Inr ())"

definition append_job_event :: "string \<Rightarrow> string \<Rightarrow> payload \<Rightarrow> 't \<Rightarrow> 't job_db \<Rightarrow> 't job_db" where
  "append_job_event job_id event_type event_payload stamp d =
     d\<lparr>jd_events := jd_events d @
        [\<lparr>je_event_id = int (length (jd_events d)) + 1, je_job_id = job_id, je_event_type = event_type,
          je_payload = event_payload, je_created_at = stamp\<rparr>]\<rparr>"

definition job_by_key :: "string \<Rightarrow> 't job_db \<Rightarrow> 't job_row option" where
  "job_by_key key d = find (\<lambda>r. jb_idempotency_key r = Some key) (map snd (jd_jobs d))"

definition put_job :: "'t job_row \<Rightarrow> 't job_db \<Rightarrow> 't job_db" where
  "put_job r d = d\<lparr>jd_jobs := dict_put (jb_job_id r) r (jd_jobs d)\<rparr>"

definition new_job_row ::
  "string \<Rightarrow> string \<Rightarrow> payload \<Rightarrow> string option \<Rightarrow> string \<Rightarrow> int \<Rightarrow> string \<Rightarrow> 't \<Rightarrow> 't job_row" where
  "new_job_row job_id task_name pl key fingerprint max_attempts request_id now =
     \<lparr>jb_job_id = job_id, jb_task_name = task_name, jb_status = ACCEPTED, jb_payload = pl,
      jb_idempotency_key = key, jb_payload_fingerprint = fingerprint, jb_result = JNull, jb_error = JNull,
      jb_attempt_count = 0, jb_max_attempts = max_attempts, jb_request_id = request_id,
      jb_created_at = now, jb_updated_at = now, jb_execution_token = None, jb_lease_expires_at = None\<rparr>"

definition duplicate_job_id :: "job_error" where
  "duplicate_job_id = OtherError ''IntegrityError'' ''UNIQUE constraint failed: jobs.job_id'' False"

definition page_size :: "int \<Rightarrow> int \<Rightarrow> nat" where
  "page_size limit bound = nat (max 1 (min limit bound))"

section \<open>The SQLite repository\<close>

definition sqlite_find_idempotent_job ::
  "(string \<Rightarrow> string) \<Rightarrow> string \<Rightarrow> payload \<Rightarrow> string option \<Rightarrow> string job_db \<Rightarrow> JobRecord option attempted" where
  "sqlite_find_idempotent_job sha task_name pl key d =
     rbind (normalize_idempotency_key key) (\<lambda>normalized.
       case normalized of
         None \<Rightarrow> Inr None
       | Some k \<Rightarrow>
           (case job_by_key k d of
              None \<Rightarrow> Inr None
            | Some existing \<Rightarrow>
                rbind (validate_existing_job existing task_name (payload_fingerprint sha pl)) (\<lambda>_.
                  Inr (Some existing))))"

definition sqlite_create_or_get_job ::
  "(string \<Rightarrow> string) \<Rightarrow> string \<Rightarrow> payload \<Rightarrow> string option \<Rightarrow> int \<Rightarrow> string \<Rightarrow> string \<Rightarrow> readings \<Rightarrow> string job_db
   \<Rightarrow> (JobRecord \<times> bool) attempted \<times> string job_db" where
  "sqlite_create_or_get_job sha task_name pl key max_attempts request_id job_id rd d =
     (case normalize_idempotency_key key of
        Inl e \<Rightarrow> (Inl e, d)
      | Inr normalized \<Rightarrow>
          (let fingerprint = payload_fingerprint sha pl
           in case Option.bind normalized (\<lambda>k. job_by_key k d) of
                Some existing \<Rightarrow>
                  (rbind (validate_existing_job existing task_name fingerprint) (\<lambda>_. Inr (existing, True)), d)
              | None \<Rightarrow>
                  if job_id \<in> set (dict_keys (jd_jobs d)) then (Inl duplicate_job_id, d)
                  else
                    (let row = new_job_row job_id task_name pl normalized fingerprint max_attempts
                                 request_id (isoformat_utc (rd_now rd))
                     in (Inr (row, False),
                         append_job_event job_id ''task_accepted''
                           [(''task_name'', JStr task_name), (''request_id'', JStr request_id)]
                           (isoformat_utc (rd_event rd)) (put_job row d)))))"

text \<open>\<^verbatim>\<open>execution_token IS NULL OR lease_expires_at IS NULL OR lease_expires_at <= now\<close>.\<close>

definition unclaimed :: "'t :: ord \<Rightarrow> 't job_row \<Rightarrow> bool" where
  "unclaimed now r =
     (jb_execution_token r = None \<or>
      (case jb_lease_expires_at r of None \<Rightarrow> True | Some lease \<Rightarrow> lease \<le> now))"

definition sqlite_list_recoverable_jobs :: "string \<Rightarrow> int \<Rightarrow> readings \<Rightarrow> string job_db \<Rightarrow> JobRecord list" where
  "sqlite_list_recoverable_jobs task_name limit rd d =
     take (page_size limit 10000)
       (sort_key jb_created_at
         (filter (\<lambda>r. jb_task_name r = task_name \<and> jb_status r \<in> {ACCEPTED, RUNNING}
                      \<and> unclaimed (isoformat_utc (rd_now rd)) r) (map snd (jd_jobs d))))"

definition sqlite_get_job :: "string \<Rightarrow> string job_db \<Rightarrow> JobRecord option" where
  "sqlite_get_job job_id d = dict_get (jd_jobs d) job_id"

definition sqlite_get_job_by_idempotency_key :: "string \<Rightarrow> string job_db \<Rightarrow> JobRecord option attempted" where
  "sqlite_get_job_by_idempotency_key key d =
     rbind (normalize_idempotency_key (Some key)) (\<lambda>normalized.
       Inr (Option.bind normalized (\<lambda>k. job_by_key k d)))"

definition sqlite_claim_job ::
  "string \<Rightarrow> string \<Rightarrow> rat \<Rightarrow> bool \<Rightarrow> readings \<Rightarrow> string job_db \<Rightarrow> JobRecord option attempted \<times> string job_db" where
  "sqlite_claim_job job_id execution_token lease_seconds recovery rd d =
     (let now = isoformat_utc (rd_now rd)
      in case lease_deadline now execution_token lease_seconds of
           Inl e \<Rightarrow> (Inl e, d)
         | Inr deadline \<Rightarrow>
             (case dict_get (jd_jobs d) job_id of
                None \<Rightarrow> (Inr None, d)
              | Some r \<Rightarrow>
                  if jb_status r \<in> (if recovery then {ACCEPTED, RUNNING} else {ACCEPTED}) \<and> unclaimed now r
                  then
                    (let row = r\<lparr>jb_status := (if recovery \<and> jb_status r = RUNNING then ACCEPTED else jb_status r),
                                 jb_execution_token := Some execution_token,
                                 jb_lease_expires_at := Some deadline, jb_updated_at := now\<rparr>;
                         d' = put_job row d
                     in (Inr (Some row),
                         if recovery
                         then append_job_event job_id ''task_recovery_queued'' [] (isoformat_utc (rd_event rd)) d'
                         else d'))
                  else (Inr None, d)))"

definition sqlite_renew_job_lease ::
  "string \<Rightarrow> string \<Rightarrow> rat \<Rightarrow> readings \<Rightarrow> string job_db \<Rightarrow> bool attempted \<times> string job_db" where
  "sqlite_renew_job_lease job_id execution_token lease_seconds rd d =
     (let now = isoformat_utc (rd_now rd)
      in case lease_deadline now execution_token lease_seconds of
           Inl e \<Rightarrow> (Inl e, d)
         | Inr deadline \<Rightarrow>
             (case dict_get (jd_jobs d) job_id of
                None \<Rightarrow> (Inr False, d)
              | Some r \<Rightarrow>
                  if jb_execution_token r = Some execution_token
                     \<and> (case jb_lease_expires_at r of None \<Rightarrow> False | Some lease \<Rightarrow> now < lease)
                     \<and> jb_status r \<in> {ACCEPTED, RUNNING}
                  then (Inr True, put_job (r\<lparr>jb_lease_expires_at := Some deadline, jb_updated_at := now\<rparr>) d)
                  else (Inr False, d)))"

definition sqlite_release_job_lease ::
  "string \<Rightarrow> string option \<Rightarrow> readings \<Rightarrow> string job_db \<Rightarrow> bool attempted \<times> string job_db" where
  "sqlite_release_job_lease job_id execution_token rd d =
     (case execution_token of
        None \<Rightarrow> (Inl (PyError (ValueError ''execution_token is required'')), d)
      | Some token \<Rightarrow>
          if py_strip token = [] then (Inl (PyError (ValueError ''execution_token is required'')), d)
          else
            (case dict_get (jd_jobs d) job_id of
               None \<Rightarrow> (Inr False, d)
             | Some r \<Rightarrow>
                 if jb_execution_token r = Some token \<and> jb_status r \<in> {ACCEPTED, RUNNING}
                 then (Inr True, put_job (r\<lparr>jb_execution_token := None, jb_lease_expires_at := None,
                                           jb_updated_at := isoformat_utc (rd_now rd)\<rparr>) d)
                 else (Inr False, d)))"

text \<open>What a transition does: its target, its event, and the columns it writes.\<close>

record job_change =
  jc_target :: job_status
  jc_event_type :: string
  jc_event_payload :: payload
  jc_result :: json
  jc_error :: json
  jc_attempt_count :: "int option"

definition invalid_job_transition :: "job_status \<Rightarrow> job_status \<Rightarrow> job_error" where
  "invalid_job_transition s t =
     PyError (RuntimeError (''invalid job state transition: '' @ status_text s @ '' -> '' @ status_text t))"

definition changed_job :: "job_change \<Rightarrow> 't \<Rightarrow> 't job_row \<Rightarrow> 't job_row" where
  "changed_job c now r =
     r\<lparr>jb_status := jc_target c,
       jb_result := (if jc_target c = SUCCEEDED then jc_result c else JNull),
       jb_error := (if jc_target c = FAILED then jc_error c else JNull),
       jb_attempt_count := (case jc_attempt_count c of None \<Rightarrow> jb_attempt_count r | Some n \<Rightarrow> n),
       jb_updated_at := now,
       jb_execution_token := (if job_ended (jc_target c) then None else jb_execution_token r),
       jb_lease_expires_at := (if job_ended (jc_target c) then None else jb_lease_expires_at r)\<rparr>"

definition sqlite_transition ::
  "string \<Rightarrow> job_change \<Rightarrow> string option \<Rightarrow> readings \<Rightarrow> string job_db \<Rightarrow> JobRecord attempted \<times> string job_db" where
  "sqlite_transition job_id c execution_token rd d =
     (case dict_get (jd_jobs d) job_id of
        None \<Rightarrow> (Inl (PyError (KeyError job_id)), d)
      | Some current \<Rightarrow>
          if jc_target c \<notin> set (allowed_transitions (jb_status current))
          then (Inl (invalid_job_transition (jb_status current) (jc_target c)), d)
          else
            (let now = isoformat_utc (rd_now rd)
             in case check_lease current execution_token now of
                  Inl e \<Rightarrow> (Inl e, d)
                | Inr _ \<Rightarrow>
                    (let row = changed_job c now current
                     in (Inr row, append_job_event job_id (jc_event_type c) (jc_event_payload c)
                           (isoformat_utc (rd_event rd)) (put_job row d)))))"

definition sqlite_append_event ::
  "string \<Rightarrow> string \<Rightarrow> payload \<Rightarrow> readings \<Rightarrow> string job_db \<Rightarrow> unit attempted \<times> string job_db" where
  "sqlite_append_event job_id event_type pl rd d =
     (if job_id \<notin> set (dict_keys (jd_jobs d)) then (Inl (PyError (KeyError job_id)), d)
      else (Inr (), append_job_event job_id event_type pl (isoformat_utc (rd_event rd)) d))"

definition sqlite_list_events :: "string \<Rightarrow> int \<Rightarrow> string job_db \<Rightarrow> string job_event list" where
  "sqlite_list_events job_id limit d =
     take (page_size limit 1000)
       (sort_key je_event_id (filter (\<lambda>e. je_job_id e = job_id) (jd_events d)))"

end
