(* ===== verification/Job_Postgres.thy ===== *)
theory Job_Postgres
  imports Job_Store
begin

text \<open>
  The PostgreSQL repository of \<^verbatim>\<open>src/market_agent/backend/database.py\<close>. It lets the database compare
  times and read the clocks, and checks a lease in the condition of its update. How the driver
  writes a time as text is the argument \<open>fmt\<close>.

  The SQLite repository does the same on texts: for every call its answer is that of the PostgreSQL
  one whose driver writes ISO texts and whose clocks agree, and its table is the same table with
  times written out. The locale \<open>job_repository\<close> is this contract, for the clients of a repository.
\<close>

section \<open>The PostgreSQL repository\<close>

definition times_as :: "('s \<Rightarrow> 't) \<Rightarrow> 's job_row \<Rightarrow> 't job_row" where
  "times_as f r =
     \<lparr>jb_job_id = jb_job_id r, jb_task_name = jb_task_name r, jb_status = jb_status r,
      jb_payload = jb_payload r, jb_idempotency_key = jb_idempotency_key r,
      jb_payload_fingerprint = jb_payload_fingerprint r, jb_result = jb_result r, jb_error = jb_error r,
      jb_attempt_count = jb_attempt_count r, jb_max_attempts = jb_max_attempts r,
      jb_request_id = jb_request_id r, jb_created_at = f (jb_created_at r),
      jb_updated_at = f (jb_updated_at r), jb_execution_token = jb_execution_token r,
      jb_lease_expires_at = map_option f (jb_lease_expires_at r)\<rparr>"

definition event_times_as :: "('s \<Rightarrow> 't) \<Rightarrow> 's job_event \<Rightarrow> 't job_event" where
  "event_times_as f e =
     \<lparr>je_event_id = je_event_id e, je_job_id = je_job_id e, je_event_type = je_event_type e,
      je_payload = je_payload e, je_created_at = f (je_created_at e)\<rparr>"

definition pg_find_idempotent_job ::
  "(int \<Rightarrow> string) \<Rightarrow> (string \<Rightarrow> string) \<Rightarrow> string \<Rightarrow> payload \<Rightarrow> string option \<Rightarrow> int job_db \<Rightarrow> JobRecord option attempted" where
  "pg_find_idempotent_job fmt sha task_name pl key d =
     rbind (normalize_idempotency_key key) (\<lambda>normalized.
       case Option.bind normalized (\<lambda>k. job_by_key k d) of
         None \<Rightarrow> Inr None
       | Some row \<Rightarrow>
           (let existing = times_as fmt row
            in rbind (validate_existing_job existing task_name (payload_fingerprint sha pl)) (\<lambda>_. Inr (Some existing))))"

text \<open>The insertion does nothing when the key is taken; then the job of the key is read.\<close>

definition pg_create_or_get_job ::
  "(int \<Rightarrow> string) \<Rightarrow> (string \<Rightarrow> string) \<Rightarrow> string \<Rightarrow> payload \<Rightarrow> string option \<Rightarrow> int \<Rightarrow> string \<Rightarrow> string \<Rightarrow> readings
   \<Rightarrow> int job_db \<Rightarrow> (JobRecord \<times> bool) attempted \<times> int job_db" where
  "pg_create_or_get_job fmt sha task_name pl key max_attempts request_id job_id rd d =
     (case normalize_idempotency_key key of
        Inl e \<Rightarrow> (Inl e, d)
      | Inr normalized \<Rightarrow>
          (let fingerprint = payload_fingerprint sha pl
           in case Option.bind normalized (\<lambda>k. job_by_key k d) of
                Some row \<Rightarrow>
                  (let existing = times_as fmt row
                   in (rbind (validate_existing_job existing task_name fingerprint) (\<lambda>_. Inr (existing, True)), d))
              | None \<Rightarrow>
                  if job_id \<in> set (dict_keys (jd_jobs d)) then (Inl duplicate_job_id, d)
                  else
                    (let row = new_job_row job_id task_name pl normalized fingerprint max_attempts
                                 request_id (rd_now rd)
                     in (Inr (times_as fmt row, False),
                         append_job_event job_id ''task_accepted''
                           [(''task_name'', JStr task_name), (''request_id'', JStr request_id)]
                           (rd_event rd) (put_job row d)))))"

definition pg_list_recoverable_jobs ::
  "(int \<Rightarrow> string) \<Rightarrow> string \<Rightarrow> int \<Rightarrow> readings \<Rightarrow> int job_db \<Rightarrow> JobRecord list" where
  "pg_list_recoverable_jobs fmt task_name limit rd d =
     map (times_as fmt)
       (take (page_size limit 10000)
         (sort_key jb_created_at
           (filter (\<lambda>r. jb_task_name r = task_name \<and> jb_status r \<in> {ACCEPTED, RUNNING}
                        \<and> unclaimed (rd_now rd) r) (map snd (jd_jobs d)))))"

definition pg_get_job :: "(int \<Rightarrow> string) \<Rightarrow> string \<Rightarrow> int job_db \<Rightarrow> JobRecord option" where
  "pg_get_job fmt job_id d = map_option (times_as fmt) (dict_get (jd_jobs d) job_id)"

definition pg_get_job_by_idempotency_key ::
  "(int \<Rightarrow> string) \<Rightarrow> string \<Rightarrow> int job_db \<Rightarrow> JobRecord option attempted" where
  "pg_get_job_by_idempotency_key fmt key d =
     rbind (normalize_idempotency_key (Some key)) (\<lambda>normalized.
       Inr (map_option (times_as fmt) (Option.bind normalized (\<lambda>k. job_by_key k d))))"

definition pg_claim_job ::
  "(int \<Rightarrow> string) \<Rightarrow> string \<Rightarrow> string \<Rightarrow> rat \<Rightarrow> bool \<Rightarrow> readings \<Rightarrow> int job_db
   \<Rightarrow> JobRecord option attempted \<times> int job_db" where
  "pg_claim_job fmt job_id execution_token lease_seconds recovery rd d =
     (case validate_lease execution_token lease_seconds of
        Inl e \<Rightarrow> (Inl e, d)
      | Inr secs \<Rightarrow>
          (case dict_get (jd_jobs d) job_id of
             None \<Rightarrow> (Inr None, d)
           | Some r \<Rightarrow>
               if jb_status r \<in> (if recovery then {ACCEPTED, RUNNING} else {ACCEPTED}) \<and> unclaimed (rd_now rd) r
               then
                 (let row = r\<lparr>jb_status := (if recovery \<and> jb_status r = RUNNING then ACCEPTED else jb_status r),
                              jb_execution_token := Some execution_token,
                              jb_lease_expires_at := Some (rd_lease rd + timedelta_micros secs),
                              jb_updated_at := rd_stamp rd\<rparr>;
                      d' = put_job row d
                  in (Inr (Some (times_as fmt row)),
                      if recovery then append_job_event job_id ''task_recovery_queued'' [] (rd_event rd) d' else d'))
               else (Inr None, d)))"

definition pg_renew_job_lease ::
  "string \<Rightarrow> string \<Rightarrow> rat \<Rightarrow> readings \<Rightarrow> int job_db \<Rightarrow> bool attempted \<times> int job_db" where
  "pg_renew_job_lease job_id execution_token lease_seconds rd d =
     (case validate_lease execution_token lease_seconds of
        Inl e \<Rightarrow> (Inl e, d)
      | Inr secs \<Rightarrow>
          (case dict_get (jd_jobs d) job_id of
             None \<Rightarrow> (Inr False, d)
           | Some r \<Rightarrow>
               if jb_execution_token r = Some execution_token
                  \<and> (case jb_lease_expires_at r of None \<Rightarrow> False | Some lease \<Rightarrow> rd_now rd < lease)
                  \<and> jb_status r \<in> {ACCEPTED, RUNNING}
               then (Inr True, put_job (r\<lparr>jb_lease_expires_at := Some (rd_lease rd + timedelta_micros secs),
                                          jb_updated_at := rd_stamp rd\<rparr>) d)
               else (Inr False, d)))"

definition pg_release_job_lease ::
  "string \<Rightarrow> string option \<Rightarrow> readings \<Rightarrow> int job_db \<Rightarrow> bool attempted \<times> int job_db" where
  "pg_release_job_lease job_id execution_token rd d =
     (case execution_token of
        None \<Rightarrow> (Inl (PyError (ValueError ''execution_token is required'')), d)
      | Some token \<Rightarrow>
          if py_strip token = [] then (Inl (PyError (ValueError ''execution_token is required'')), d)
          else
            (case dict_get (jd_jobs d) job_id of
               None \<Rightarrow> (Inr False, d)
             | Some r \<Rightarrow>
                 if jb_execution_token r = Some token \<and> jb_status r \<in> {ACCEPTED, RUNNING}
                 then (Inr True, put_job (r\<lparr>jb_execution_token := None, jb_lease_expires_at := None,
                                           jb_updated_at := rd_stamp rd\<rparr>) d)
                 else (Inr False, d)))"

text \<open>The condition of the update: no lease on either side, or the caller's, still running.\<close>

definition holds_lease :: "string option \<Rightarrow> int \<Rightarrow> int job_row \<Rightarrow> bool" where
  "holds_lease execution_token now r =
     ((jb_execution_token r = None \<and> jb_lease_expires_at r = None \<and> execution_token = None)
      \<or> (execution_token \<noteq> None \<and> jb_execution_token r = execution_token
         \<and> (case jb_lease_expires_at r of None \<Rightarrow> False | Some lease \<Rightarrow> now < lease)))"

definition pg_transition ::
  "(int \<Rightarrow> string) \<Rightarrow> string \<Rightarrow> job_change \<Rightarrow> string option \<Rightarrow> readings \<Rightarrow> int job_db
   \<Rightarrow> JobRecord attempted \<times> int job_db" where
  "pg_transition fmt job_id c execution_token rd d =
     (case dict_get (jd_jobs d) job_id of
        None \<Rightarrow> (Inl (PyError (KeyError job_id)), d)
      | Some current \<Rightarrow>
          if jc_target c \<notin> set (allowed_transitions (jb_status current))
          then (Inl (invalid_job_transition (jb_status current) (jc_target c)), d)
          else if \<not> holds_lease execution_token (rd_now rd) current
          then (Inl (ExecutionLeaseLostError ''job execution lease is lost or expired''), d)
          else
            (let row = changed_job c (rd_stamp rd) current
             in (Inr (times_as fmt row), append_job_event job_id (jc_event_type c) (jc_event_payload c)
                   (rd_event rd) (put_job row d))))"

definition pg_append_event ::
  "string \<Rightarrow> string \<Rightarrow> payload \<Rightarrow> readings \<Rightarrow> int job_db \<Rightarrow> unit attempted \<times> int job_db" where
  "pg_append_event job_id event_type pl rd d =
     (if job_id \<notin> set (dict_keys (jd_jobs d)) then (Inl (PyError (KeyError job_id)), d)
      else (Inr (), append_job_event job_id event_type pl (rd_event rd) d))"

definition pg_list_events :: "(int \<Rightarrow> string) \<Rightarrow> string \<Rightarrow> int \<Rightarrow> int job_db \<Rightarrow> string job_event list" where
  "pg_list_events fmt job_id limit d =
     map (event_times_as fmt)
       (take (page_size limit 1000)
         (sort_key je_event_id (filter (\<lambda>e. je_job_id e = job_id) (jd_events d))))"

section \<open>Both repositories, for their clients\<close>

record 'd job_repository =
  rp_find_idempotent_job :: "string \<Rightarrow> payload \<Rightarrow> string option \<Rightarrow> 'd \<Rightarrow> JobRecord option attempted"
  rp_create_or_get_job ::
    "string \<Rightarrow> payload \<Rightarrow> string option \<Rightarrow> int \<Rightarrow> string \<Rightarrow> string \<Rightarrow> readings \<Rightarrow> 'd \<Rightarrow> (JobRecord \<times> bool) attempted \<times> 'd"
  rp_list_recoverable_jobs :: "string \<Rightarrow> int \<Rightarrow> readings \<Rightarrow> 'd \<Rightarrow> JobRecord list"
  rp_get_job :: "string \<Rightarrow> 'd \<Rightarrow> JobRecord option"
  rp_claim_job :: "string \<Rightarrow> string \<Rightarrow> rat \<Rightarrow> bool \<Rightarrow> readings \<Rightarrow> 'd \<Rightarrow> JobRecord option attempted \<times> 'd"
  rp_renew_job_lease :: "string \<Rightarrow> string \<Rightarrow> rat \<Rightarrow> readings \<Rightarrow> 'd \<Rightarrow> bool attempted \<times> 'd"
  rp_release_job_lease :: "string \<Rightarrow> string option \<Rightarrow> readings \<Rightarrow> 'd \<Rightarrow> bool attempted \<times> 'd"
  rp_transition :: "string \<Rightarrow> job_change \<Rightarrow> string option \<Rightarrow> readings \<Rightarrow> 'd \<Rightarrow> JobRecord attempted \<times> 'd"

definition sqlite_repository :: "(string \<Rightarrow> string) \<Rightarrow> string job_db job_repository" where
  "sqlite_repository sha =
     \<lparr>rp_find_idempotent_job = sqlite_find_idempotent_job sha,
      rp_create_or_get_job = sqlite_create_or_get_job sha,
      rp_list_recoverable_jobs = sqlite_list_recoverable_jobs, rp_get_job = sqlite_get_job,
      rp_claim_job = sqlite_claim_job, rp_renew_job_lease = sqlite_renew_job_lease,
      rp_release_job_lease = sqlite_release_job_lease, rp_transition = sqlite_transition\<rparr>"

definition pg_repository :: "(int \<Rightarrow> string) \<Rightarrow> (string \<Rightarrow> string) \<Rightarrow> int job_db job_repository" where
  "pg_repository fmt sha =
     \<lparr>rp_find_idempotent_job = pg_find_idempotent_job fmt sha,
      rp_create_or_get_job = pg_create_or_get_job fmt sha,
      rp_list_recoverable_jobs = pg_list_recoverable_jobs fmt, rp_get_job = pg_get_job fmt,
      rp_claim_job = pg_claim_job fmt, rp_renew_job_lease = pg_renew_job_lease,
      rp_release_job_lease = pg_release_job_lease, rp_transition = pg_transition fmt\<rparr>"

text \<open>The transitions of a job, by what they write.\<close>

definition running_change :: "int \<Rightarrow> job_change" where
  "running_change attempt_count =
     \<lparr>jc_target = RUNNING, jc_event_type = ''task_started'', jc_event_payload = [(''attempt'', JInt attempt_count)],
      jc_result = JNull, jc_error = JNull, jc_attempt_count = Some attempt_count\<rparr>"

definition queued_change :: "string \<Rightarrow> payload \<Rightarrow> job_change" where
  "queued_change event_type pl =
     \<lparr>jc_target = ACCEPTED, jc_event_type = event_type, jc_event_payload = pl,
      jc_result = JNull, jc_error = JNull, jc_attempt_count = None\<rparr>"

definition succeeded_change :: "json \<Rightarrow> job_change" where
  "succeeded_change result =
     \<lparr>jc_target = SUCCEEDED, jc_event_type = ''task_succeeded'', jc_event_payload = [(''result'', result)],
      jc_result = result, jc_error = JNull, jc_attempt_count = None\<rparr>"

definition failed_change :: "payload \<Rightarrow> job_change" where
  "failed_change error =
     \<lparr>jc_target = FAILED, jc_event_type = ''task_failed'', jc_event_payload = [(''error'', JObj error)],
      jc_result = JNull, jc_error = JObj error, jc_attempt_count = None\<rparr>"

definition mark_running :: "'d job_repository \<Rightarrow> string \<Rightarrow> int \<Rightarrow> string option \<Rightarrow> readings \<Rightarrow> 'd \<Rightarrow> JobRecord attempted \<times> 'd" where
  "mark_running rp job_id attempt_count = rp_transition rp job_id (running_change attempt_count)"

definition mark_retry_scheduled :: "'d job_repository \<Rightarrow> string \<Rightarrow> payload \<Rightarrow> string option \<Rightarrow> readings \<Rightarrow> 'd \<Rightarrow> JobRecord attempted \<times> 'd" where
  "mark_retry_scheduled rp job_id pl = rp_transition rp job_id (queued_change ''task_retry_scheduled'' pl)"

definition mark_recovery_queued :: "'d job_repository \<Rightarrow> string \<Rightarrow> payload \<Rightarrow> string option \<Rightarrow> readings \<Rightarrow> 'd \<Rightarrow> JobRecord attempted \<times> 'd" where
  "mark_recovery_queued rp job_id pl = rp_transition rp job_id (queued_change ''task_recovery_queued'' pl)"

definition mark_succeeded :: "'d job_repository \<Rightarrow> string \<Rightarrow> json \<Rightarrow> string option \<Rightarrow> readings \<Rightarrow> 'd \<Rightarrow> JobRecord attempted \<times> 'd" where
  "mark_succeeded rp job_id result = rp_transition rp job_id (succeeded_change result)"

definition mark_failed :: "'d job_repository \<Rightarrow> string \<Rightarrow> payload \<Rightarrow> string option \<Rightarrow> readings \<Rightarrow> 'd \<Rightarrow> JobRecord attempted \<times> 'd" where
  "mark_failed rp job_id error = rp_transition rp job_id (failed_change error)"

lemma change_simps [simp]:
  "jc_target (running_change n) = RUNNING" "jc_attempt_count (running_change n) = Some n"
  "jc_target (queued_change e p) = ACCEPTED" "jc_attempt_count (queued_change e p) = None"
  "jc_target (succeeded_change v) = SUCCEEDED" "jc_attempt_count (succeeded_change v) = None"
  "jc_result (succeeded_change v) = v" "jc_target (failed_change p) = FAILED" "jc_attempt_count (failed_change p) = None"
  by (simp_all add: running_change_def queued_change_def succeeded_change_def failed_change_def)

end
