(* ===== verification/Job_Repositories.thy ===== *)
theory Job_Repositories
  imports Job_Postgres
begin

text \<open>
  The contract of a job repository, and that both repositories keep it: a repository represents a
  table with times by a table of its own, and every call answers and acts as the PostgreSQL one
  does on the represented table.
\<close>

section \<open>Tables with times written out\<close>

definition written :: "int job_db \<Rightarrow> string job_db" where
  "written d =
     \<lparr>jd_jobs = map (\<lambda>(k, r). (k, times_as isoformat_utc r)) (jd_jobs d),
      jd_events = map (event_times_as isoformat_utc) (jd_events d)\<rparr>"

definition row_timely :: "int job_row \<Rightarrow> bool" where
  "row_timely r =
     (datetime_range (jb_created_at r) \<and> datetime_range (jb_updated_at r)
      \<and> (case jb_lease_expires_at r of None \<Rightarrow> True | Some t \<Rightarrow> datetime_range t))"

definition timely :: "int job_db \<Rightarrow> bool" where
  "timely d = list_all (\<lambda>e. row_timely (snd e)) (jd_jobs d)"

definition one_clock :: "readings \<Rightarrow> readings" where
  "one_clock rd = rd\<lparr>rd_lease := rd_now rd, rd_stamp := rd_now rd\<rparr>"

definition clock_ok :: "readings \<Rightarrow> bool" where
  "clock_ok rd = (datetime_range (rd_now rd) \<and> datetime_range (rd_event rd))"

definition lease_ok :: "readings \<Rightarrow> rat \<Rightarrow> bool" where
  "lease_ok rd secs = (clock_ok rd \<and> datetime_range (rd_now rd + timedelta_micros secs))"

lemma one_clock_simps [simp]:
  "rd_now (one_clock rd) = rd_now rd" "rd_lease (one_clock rd) = rd_now rd" "rd_stamp (one_clock rd) = rd_now rd"
  "rd_event (one_clock rd) = rd_event rd"
  by (simp_all add: one_clock_def)

lemma times_as_simps [simp]:
  "jb_job_id (times_as f r) = jb_job_id r" "jb_task_name (times_as f r) = jb_task_name r"
  "jb_status (times_as f r) = jb_status r" "jb_payload (times_as f r) = jb_payload r"
  "jb_idempotency_key (times_as f r) = jb_idempotency_key r"
  "jb_payload_fingerprint (times_as f r) = jb_payload_fingerprint r"
  "jb_attempt_count (times_as f r) = jb_attempt_count r" "jb_max_attempts (times_as f r) = jb_max_attempts r"
  "jb_request_id (times_as f r) = jb_request_id r" "jb_created_at (times_as f r) = f (jb_created_at r)"
  "jb_result (times_as f r) = jb_result r" "jb_error (times_as f r) = jb_error r"
  "jb_execution_token (times_as f r) = jb_execution_token r"
  "jb_lease_expires_at (times_as f r) = map_option f (jb_lease_expires_at r)"
  by (simp_all add: times_as_def)

lemma put_job_simps [simp]:
  "jd_jobs (put_job r d) = dict_put (jb_job_id r) r (jd_jobs d)" "jd_events (put_job r d) = jd_events d"
  by (simp_all add: put_job_def)

lemma append_job_event_simps [simp]: "jd_jobs (append_job_event j t p s d) = jd_jobs d"
  by (simp add: append_job_event_def)

lemma written_get: "dict_get (jd_jobs (written d)) j = map_option (times_as isoformat_utc) (dict_get (jd_jobs d) j)"
  by (simp add: written_def map_of_map)

lemma written_keys: "dict_keys (jd_jobs (written d)) = dict_keys (jd_jobs d)"
  by (simp add: written_def split_def)

lemma written_put: "put_job (times_as isoformat_utc r) (written d) = written (put_job r d)"
proof -
  have "dict_put k (f v) (map (\<lambda>(k, r). (k, f r)) xs) = map (\<lambda>(k, r). (k, f r)) (dict_put k v xs)" for k v f xs
    by (induction k v xs rule: dict_put.induct) auto
  then show ?thesis by (simp add: put_job_def written_def)
qed

lemma written_event:
  "append_job_event j t p (isoformat_utc s) (written d) = written (append_job_event j t p s d)"
  by (simp add: append_job_event_def written_def event_times_as_def)

lemma written_rows: "map snd (jd_jobs (written d)) = map (times_as isoformat_utc) (map snd (jd_jobs d))"
  by (simp add: written_def split_def)

lemma find_map: "find P (map f xs) = map_option f (find (P \<circ> f) xs)"
  by (induction xs) auto

lemma written_key: "job_by_key k (written d) = map_option (times_as isoformat_utc) (job_by_key k d)"
  unfolding job_by_key_def written_rows find_map by (simp add: comp_def)

lemma timely_get: "timely d \<Longrightarrow> dict_get (jd_jobs d) j = Some r \<Longrightarrow> row_timely r"
  unfolding timely_def using dict_get_all [of "\<lambda>e. row_timely (snd e)"] by fastforce

lemma timely_put: "timely d \<Longrightarrow> row_timely r \<Longrightarrow> timely (put_job r d)"
  by (simp add: timely_def dict_put_all)

lemma timely_event [simp]: "timely (append_job_event j t p s d) = timely d"
  by (simp add: timely_def)

lemma unclaimed_written:
  "row_timely r \<Longrightarrow> datetime_range now \<Longrightarrow> unclaimed (isoformat_utc now) (times_as isoformat_utc r) = unclaimed now r"
  by (auto simp: unclaimed_def row_timely_def isoformat_le split: option.splits)

lemma text_instant_written [simp]: "datetime_range t \<Longrightarrow> text_instant (isoformat_utc t) = Inr t"
  by (simp add: text_instant_def isoformat_round_trip)

lemma lease_deadline_written:
  assumes "lease_ok rd secs"
  shows "lease_deadline (isoformat_utc (rd_now rd)) token secs =
    rbind (validate_lease token secs) (\<lambda>s. Inr (isoformat_utc (rd_now rd + timedelta_micros s)))"
proof -
  have "timedelta_micros secs < 86400000000 * 1000000000"
    using assms by (simp add: lease_ok_def clock_ok_def datetime_range_def day_number_def) linarith
  then have "add_timedelta (rd_now rd) secs = Inr (rd_now rd + timedelta_micros secs)"
    using assms by (simp add: add_timedelta_def lease_ok_def)
  then show ?thesis using assms
    by (auto simp: lease_deadline_def lease_ok_def clock_ok_def validate_lease_def)
qed

lemma check_lease_written:
  assumes "row_timely r" "datetime_range now"
  shows "check_lease (times_as isoformat_utc r) token (isoformat_utc now) =
    (if holds_lease token now r then Inr () else Inl (ExecutionLeaseLostError ''job execution lease is lost or expired''))"
  using assms by (auto simp: check_lease_def holds_lease_def row_timely_def Let_def split: option.splits)

text \<open>Sorting by a text that orders as the key does.\<close>

lemma sort_key_written:
  fixes f :: "'a \<Rightarrow> 'k::linorder" and g :: "'b \<Rightarrow> 'l::linorder"
  assumes "\<And>x y. x \<in> set xs \<Longrightarrow> y \<in> set xs \<Longrightarrow> g (h x) \<le> g (h y) \<longleftrightarrow> f x \<le> f y"
  shows "sort_key g (map h xs) = map h (sort_key f xs)"
proof -
  have insort: "insort_key g (h x) (map h ys) = map h (insort_key f x ys)" if "x \<in> set xs" "set ys \<subseteq> set xs" for x ys
    using that(2)
  proof (induction ys)
    case (Cons y ys)
    then show ?case using that(1) assms [of x y] by auto
  qed simp
  have "sort_key g (map h ys) = map h (sort_key f ys)" if "set ys \<subseteq> set xs" for ys
    using that
  proof (induction ys)
    case (Cons y ys)
    then show ?case using insort [of y "sort_key f ys"] by simp
  qed simp
  then show ?thesis by blast
qed

section \<open>The contract\<close>

text \<open>
  The repository \<open>rp\<close> represents the table \<open>d\<close> as \<open>rep d\<close>; \<open>ok\<close> are the tables it can represent and
  \<open>clocks\<close> the readings it makes of those of a call. An interface law per operation.
\<close>

locale job_contract =
  fixes rp :: "'d job_repository"
    and fmt :: "int \<Rightarrow> string"
    and sha :: "string \<Rightarrow> string"
    and rep :: "int job_db \<Rightarrow> 'd"
    and ok :: "int job_db \<Rightarrow> bool"
    and clocks :: "readings \<Rightarrow> readings"
  assumes ok_empty: "ok empty_jobs"
    and find_law: "rp_find_idempotent_job rp n p k (rep d) = pg_find_idempotent_job fmt sha n p k d"
    and get_law: "rp_get_job rp j (rep d) = pg_get_job fmt j d"
    and list_law: "ok d \<Longrightarrow> clock_ok rd \<Longrightarrow>
      rp_list_recoverable_jobs rp n limit rd (rep d) = pg_list_recoverable_jobs fmt n limit (clocks rd) d"
    and create_law: "ok d \<Longrightarrow> clock_ok rd \<Longrightarrow>
      rp_create_or_get_job rp n p k m q j rd (rep d) = apsnd rep (pg_create_or_get_job fmt sha n p k m q j (clocks rd) d)
      \<and> ok (snd (pg_create_or_get_job fmt sha n p k m q j (clocks rd) d))"
    and claim_law: "ok d \<Longrightarrow> lease_ok rd secs \<Longrightarrow>
      rp_claim_job rp j t secs c rd (rep d) = apsnd rep (pg_claim_job fmt j t secs c (clocks rd) d)
      \<and> ok (snd (pg_claim_job fmt j t secs c (clocks rd) d))"
    and renew_law: "ok d \<Longrightarrow> lease_ok rd secs \<Longrightarrow>
      rp_renew_job_lease rp j t secs rd (rep d) = apsnd rep (pg_renew_job_lease j t secs (clocks rd) d)
      \<and> ok (snd (pg_renew_job_lease j t secs (clocks rd) d))"
    and release_law: "ok d \<Longrightarrow> clock_ok rd \<Longrightarrow>
      rp_release_job_lease rp j u rd (rep d) = apsnd rep (pg_release_job_lease j u (clocks rd) d)
      \<and> ok (snd (pg_release_job_lease j u (clocks rd) d))"
    and transition_law: "ok d \<Longrightarrow> clock_ok rd \<Longrightarrow>
      rp_transition rp j ch u rd (rep d) = apsnd rep (pg_transition fmt j ch u (clocks rd) d)
      \<and> ok (snd (pg_transition fmt j ch u (clocks rd) d))"

interpretation postgres: job_contract "pg_repository fmt sha" fmt sha id "\<lambda>_. True" id
  by unfold_locales (simp_all add: pg_repository_def apsnd_def map_prod_def split_def)

lemma row_timely_simps:
  "row_timely r \<Longrightarrow> datetime_range now \<Longrightarrow> row_timely (changed_job c now r)"
  "datetime_range now \<Longrightarrow> row_timely (new_job_row j n p k f m q now)"
  by (auto simp: row_timely_def changed_job_def new_job_row_def)

lemma times_as_changed: "times_as f (changed_job c now r) = changed_job c (f now) (times_as f r)"
  by (simp add: times_as_def changed_job_def split: option.split)

lemma times_as_new: "times_as f (new_job_row j n p k fp m q now) = new_job_row j n p k fp m q (f now)"
  by (simp add: times_as_def new_job_row_def)

lemma sqlite_create_written:
  assumes "timely d" "clock_ok rd"
  shows "sqlite_create_or_get_job sha n p k m q j rd (written d)
      = apsnd written (pg_create_or_get_job isoformat_utc sha n p k m q j (one_clock rd) d)
    \<and> timely (snd (pg_create_or_get_job isoformat_utc sha n p k m q j (one_clock rd) d))"
proof (cases "normalize_idempotency_key k")
  case (Inr key)
  have bind: "Option.bind key (\<lambda>k. job_by_key k (written d))
      = map_option (times_as isoformat_utc) (Option.bind key (\<lambda>k. job_by_key k d))"
    by (cases key) (simp_all add: written_key)
  have "timely (put_job (new_job_row j n p key fp m q (rd_now rd)) d)" for fp
    using assms by (intro timely_put row_timely_simps) (auto simp: clock_ok_def)
  then show ?thesis using assms Inr
    by (auto simp: sqlite_create_or_get_job_def pg_create_or_get_job_def Let_def bind written_keys
        times_as_new [symmetric] written_put written_event split: option.splits)
qed (simp add: sqlite_create_or_get_job_def pg_create_or_get_job_def assms)

text \<open>The updates of a row, written out.\<close>

definition claimed_row :: "bool \<Rightarrow> string \<Rightarrow> 't \<Rightarrow> 't \<Rightarrow> 't job_row \<Rightarrow> 't job_row" where
  "claimed_row recovery token deadline now r =
     r\<lparr>jb_status := (if recovery \<and> jb_status r = RUNNING then ACCEPTED else jb_status r),
       jb_execution_token := Some token, jb_lease_expires_at := Some deadline, jb_updated_at := now\<rparr>"

lemma times_as_updates:
  "times_as f (claimed_row c t a now r) = claimed_row c t (f a) (f now) (times_as f r)"
  "times_as f (r\<lparr>jb_lease_expires_at := Some a, jb_updated_at := now\<rparr>)
     = (times_as f r)\<lparr>jb_lease_expires_at := Some (f a), jb_updated_at := f now\<rparr>"
  "times_as f (r\<lparr>jb_execution_token := None, jb_lease_expires_at := None, jb_updated_at := now\<rparr>)
     = (times_as f r)\<lparr>jb_execution_token := None, jb_lease_expires_at := None, jb_updated_at := f now\<rparr>"
  by (simp_all add: times_as_def claimed_row_def)

lemma row_timely_updates:
  "row_timely r \<Longrightarrow> datetime_range a \<Longrightarrow> datetime_range now \<Longrightarrow> row_timely (claimed_row c t a now r)"
  "row_timely r \<Longrightarrow> datetime_range a \<Longrightarrow> datetime_range now \<Longrightarrow>
     row_timely (r\<lparr>jb_lease_expires_at := Some a, jb_updated_at := now\<rparr>)"
  "row_timely r \<Longrightarrow> datetime_range now \<Longrightarrow>
     row_timely (r\<lparr>jb_execution_token := None, jb_lease_expires_at := None, jb_updated_at := now\<rparr>)"
  by (simp_all add: row_timely_def claimed_row_def)

lemma row_updates [simp]:
  "jb_job_id (claimed_row c t a now r) = jb_job_id r" "jb_job_id (changed_job ch now r) = jb_job_id r"
  by (simp_all add: claimed_row_def changed_job_def)

lemma lease_range: "lease_ok rd secs \<Longrightarrow> datetime_range (rd_now rd) \<and> datetime_range (rd_now rd + timedelta_micros secs)"
  by (simp add: lease_ok_def clock_ok_def)

lemma sqlite_claim_written:
  assumes "timely d" "lease_ok rd secs"
  shows "sqlite_claim_job j t secs c rd (written d) = apsnd written (pg_claim_job isoformat_utc j t secs c (one_clock rd) d)
    \<and> timely (snd (pg_claim_job isoformat_utc j t secs c (one_clock rd) d))"
proof (cases "validate_lease t secs")
  case (Inr s)
  have ld: "lease_deadline (isoformat_utc (rd_now rd)) t secs = Inr (isoformat_utc (rd_now rd + timedelta_micros s))"
    by (simp add: lease_deadline_written [OF assms(2)] Inr)
  have s: "s = secs" using Inr by (simp add: validate_lease_def split: if_splits)
  show ?thesis
  proof (cases "dict_get (jd_jobs d) j")
    case (Some r)
    have r: "row_timely r" using timely_get [OF assms(1) Some] .
    have rd: "datetime_range (rd_now rd)" "datetime_range (rd_now rd + timedelta_micros secs)"
      using lease_range [OF assms(2)] by simp_all
    note new = timely_put [OF assms(1) row_timely_updates(1) [OF r rd(2,1)], of c t]
    show ?thesis
      unfolding sqlite_claim_job_def pg_claim_job_def claimed_row_def [symmetric]
      using Some r rd assms(1) new
      by (cases c) (auto simp: ld Inr s written_get Let_def unclaimed_written times_as_updates [symmetric]
          written_put written_event)
  qed (simp add: sqlite_claim_job_def pg_claim_job_def ld Inr written_get assms(1) Let_def)
qed (simp add: sqlite_claim_job_def pg_claim_job_def lease_deadline_written [OF assms(2)] assms(1))

lemma sqlite_renew_written:
  assumes "timely d" "lease_ok rd secs"
  shows "sqlite_renew_job_lease j t secs rd (written d) = apsnd written (pg_renew_job_lease j t secs (one_clock rd) d)
    \<and> timely (snd (pg_renew_job_lease j t secs (one_clock rd) d))"
proof (cases "validate_lease t secs")
  case (Inr s)
  have ld: "lease_deadline (isoformat_utc (rd_now rd)) t secs = Inr (isoformat_utc (rd_now rd + timedelta_micros s))"
    by (simp add: lease_deadline_written [OF assms(2)] Inr)
  have s: "s = secs" using Inr by (simp add: validate_lease_def split: if_splits)
  show ?thesis
  proof (cases "dict_get (jd_jobs d) j")
    case (Some r)
    have r: "row_timely r" using timely_get [OF assms(1) Some] .
    have rd: "datetime_range (rd_now rd)" "datetime_range (rd_now rd + timedelta_micros secs)"
      using lease_range [OF assms(2)] by simp_all
    note new = timely_put [OF assms(1) row_timely_updates(2) [OF r rd(2,1)]]
    have "(case map_option isoformat_utc (jb_lease_expires_at r) of None \<Rightarrow> False | Some l \<Rightarrow> isoformat_utc (rd_now rd) < l)
        = (case jb_lease_expires_at r of None \<Rightarrow> False | Some l \<Rightarrow> rd_now rd < l)"
      using r rd isoformat_le [of _ "rd_now rd"]
      by (auto simp: row_timely_def not_le [symmetric] split: option.splits)
    then show ?thesis
      unfolding sqlite_renew_job_lease_def pg_renew_job_lease_def one_clock_simps
      using Some r rd assms(1) new
      by (simp add: ld Inr s written_get Let_def times_as_updates [symmetric] written_put)
  qed (simp add: sqlite_renew_job_lease_def pg_renew_job_lease_def ld Inr written_get assms(1) Let_def)
qed (simp add: sqlite_renew_job_lease_def pg_renew_job_lease_def lease_deadline_written [OF assms(2)] assms(1))

lemma sqlite_release_written:
  assumes "timely d" "clock_ok rd"
  shows "sqlite_release_job_lease j u rd (written d) = apsnd written (pg_release_job_lease j u (one_clock rd) d)
    \<and> timely (snd (pg_release_job_lease j u (one_clock rd) d))"
  using assms timely_put [OF assms(1) row_timely_updates(3)] timely_get [OF assms(1)]
  by (auto simp: sqlite_release_job_lease_def pg_release_job_lease_def written_get clock_ok_def
      times_as_updates [symmetric] written_put split: option.splits)

lemma sqlite_transition_written:
  assumes "timely d" "clock_ok rd"
  shows "sqlite_transition j ch u rd (written d) = apsnd written (pg_transition isoformat_utc j ch u (one_clock rd) d)
    \<and> timely (snd (pg_transition isoformat_utc j ch u (one_clock rd) d))"
proof (cases "dict_get (jd_jobs d) j")
  case (Some r)
  have r: "row_timely r" using timely_get [OF assms(1) Some] .
  have rd: "datetime_range (rd_now rd)" using assms(2) by (simp add: clock_ok_def)
  note new = timely_put [OF assms(1) row_timely_simps(1) [OF r rd], of ch]
  show ?thesis
    unfolding sqlite_transition_def pg_transition_def
    using Some r rd assms(1) new
    by (simp add: written_get Let_def check_lease_written times_as_changed [symmetric] written_put written_event)
qed (simp add: sqlite_transition_def pg_transition_def written_get assms(1))

lemma sqlite_list_written:
  assumes "timely d" "clock_ok rd"
  shows "sqlite_list_recoverable_jobs n limit rd (written d) = pg_list_recoverable_jobs isoformat_utc n limit (one_clock rd) d"
proof -
  have rows: "row_timely r" if "r \<in> set (map snd (jd_jobs d))" for r
    using that assms(1) by (auto simp: timely_def list_all_iff)
  let ?P = "\<lambda>r. jb_task_name r = n \<and> jb_status r \<in> {ACCEPTED, RUNNING} \<and> unclaimed (rd_now rd) r"
  let ?Q = "\<lambda>r. jb_task_name r = n \<and> jb_status r \<in> {ACCEPTED, RUNNING} \<and> unclaimed (isoformat_utc (rd_now rd)) r"
  define rs where "rs = map snd (jd_jobs d)"
  have "filter ?Q (map (times_as isoformat_utc) rs) = map (times_as isoformat_utc) (filter ?P rs)"
    using rows [folded rs_def] assms(2)
    by (auto simp: filter_map unclaimed_written clock_ok_def intro!: arg_cong [of _ _ "map (times_as isoformat_utc)"] filter_cong)
  moreover have "sort_key jb_created_at (map (times_as isoformat_utc) (filter ?P rs))
      = map (times_as isoformat_utc) (sort_key jb_created_at (filter ?P rs))"
    using rows [folded rs_def] by (intro sort_key_written) (auto simp: row_timely_def isoformat_le)
  ultimately show ?thesis
    unfolding sqlite_list_recoverable_jobs_def pg_list_recoverable_jobs_def written_rows one_clock_simps rs_def [symmetric]
    by (simp only: take_map)
qed

interpretation sqlite: job_contract "sqlite_repository sha" isoformat_utc sha written timely one_clock
proof
  show "timely empty_jobs" by (simp add: timely_def empty_jobs_def)
  show "rp_find_idempotent_job (sqlite_repository sha) n p k (written d) = pg_find_idempotent_job isoformat_utc sha n p k d" for n p k d
    by (auto simp: sqlite_repository_def sqlite_find_idempotent_job_def pg_find_idempotent_job_def rbind_def written_key
        validate_existing_job_def Let_def split: sum.splits option.splits)
  show "rp_get_job (sqlite_repository sha) j (written d) = pg_get_job isoformat_utc j d" for j d
    by (simp add: sqlite_repository_def sqlite_get_job_def pg_get_job_def written_get)
qed (simp_all add: sqlite_repository_def sqlite_list_written sqlite_create_written sqlite_claim_written
      sqlite_renew_written sqlite_release_written sqlite_transition_written)

end
