(* ===== verification/Task_Queue.thy ===== *)
theory Task_Queue
  imports Job_Repositories
begin

text \<open>
  The background task queue (\<^verbatim>\<open>src/market_agent/backend/task_queue.py\<close>) with the execution fence
  (\<^verbatim>\<open>backend/execution_fence.py\<close>), for any number of processes over one job repository.

  A process keeps its permits, its active jobs with their tokens and fences, and three places where
  its loops stand: the page of a recovery pass, the owned jobs of a heartbeat, and the threads that
  run jobs. A thread is a job with the place its code has reached; one step of it runs to its next
  call of the repository and through it. What the code asks of the outside is an argument of each
  step: the clocks, the random token, what the handler answers, whether the pool takes the task, and
  whether the call of the repository fails, before its transaction or after its commit. Metrics, traces,
  published messages and logs are left out; their failures are swallowed by the code. So is the
  lock that keeps submissions and recovery passes of one process apart.
\<close>

section \<open>State\<close>

record task_queue =
  tq_handlers :: "string list"
  tq_durable_dispatch :: bool
  tq_default_max_attempts :: int
  tq_retry_delay_seconds :: rat
  tq_lease_seconds :: rat
  tq_capacity_limit :: int
  tq_permits :: int                          \<comment> \<open>the bounded semaphore\<close>
  tq_active_job_ids :: "string list"
  tq_execution_tokens :: "(string \<times> string) list"
  tq_execution_fences :: "(string \<times> bool) list"   \<comment> \<open>whether ownership was lost\<close>
  tq_shutdown :: bool
  tq_page :: "JobRecord list"                \<comment> \<open>jobs left of a recovery pass\<close>
  tq_owned :: "(string \<times> string) list"      \<comment> \<open>jobs left of a heartbeat\<close>

definition new_task_queue :: "int \<Rightarrow> int \<Rightarrow> int \<Rightarrow> rat \<Rightarrow> rat \<Rightarrow> rat \<Rightarrow> bool \<Rightarrow> task_queue result" where
  "new_task_queue max_workers queue_capacity default_max_attempts retry_delay lease_seconds poll_seconds durable =
     guarded
       [(max_workers < 1, ValueError ''max_workers must be at least 1''),
        (queue_capacity < 0, ValueError ''queue_capacity cannot be negative''),
        (9999 < max_workers + queue_capacity, ValueError ''combined worker and queue capacity cannot exceed 9999''),
        (default_max_attempts < 1, ValueError ''default_max_attempts must be at least 1''),
        (retry_delay < 0, ValueError ''retry_delay_seconds must be finite and non-negative''),
        (lease_seconds \<le> 0, ValueError ''lease_seconds must be positive and finite''),
        (poll_seconds \<le> 0, ValueError ''recovery_poll_seconds must be positive and finite'')]
       \<lparr>tq_handlers = [], tq_durable_dispatch = durable, tq_default_max_attempts = default_max_attempts,
        tq_retry_delay_seconds = retry_delay, tq_lease_seconds = lease_seconds,
        tq_capacity_limit = max_workers + queue_capacity, tq_permits = max_workers + queue_capacity,
        tq_active_job_ids = [], tq_execution_tokens = [], tq_execution_fences = [], tq_shutdown = False,
        tq_page = [], tq_owned = []\<rparr>"

text \<open>Where a thread stands, from the reservation of a job to the end of its run.\<close>

datatype phase =
    Reserving bool            \<comment> \<open>before the claim, for a recovery or not\<close>
  | Exhausting                \<comment> \<open>claimed without attempts left\<close>
  | Giving_up
  | Unscheduled               \<comment> \<open>the pool refused\<close>
  | Attempting int            \<comment> \<open>before the renewal of the lease\<close>
  | Marking int
  | Calling int
  | Returned int "job_error + json"
  | Waiting int               \<comment> \<open>a retry is scheduled\<close>
  | Failing job_error
  | Failing_mark job_error
  | Ending
  | Releasing

text \<open>A call of the repository may fail without effect or after its commit.\<close>

datatype fault = Before job_error | After job_error

record environment =
  en_readings :: readings
  en_fault :: "fault option"
  en_token :: string
  en_pool_accepts :: bool
  en_answer :: "job_error + json"
  en_saw_shutdown :: bool                    \<comment> \<open>the wait before a retry ended by the shutdown\<close>

definition faulty :: "fault option \<Rightarrow> ('d \<Rightarrow> 'a attempted \<times> 'd) \<Rightarrow> 'd \<Rightarrow> 'a attempted \<times> 'd" where
  "faulty f operation d =
     (case f of
        None \<Rightarrow> operation d
      | Some (Before e) \<Rightarrow> (Inl e, d)
      | Some (After e) \<Rightarrow> (Inl e, snd (operation d)))"

section \<open>Errors as payloads\<close>

definition class_name :: "backend_class \<Rightarrow> string" where
  "class_name c =
     (case c of
        ConfigurationClass \<Rightarrow> ''ConfigurationError''
      | ValidationClass \<Rightarrow> ''ValidationError''
      | NotFoundClass \<Rightarrow> ''NotFoundError''
      | ConflictClass \<Rightarrow> ''ConflictError''
      | AuthenticationClass \<Rightarrow> ''AuthenticationError''
      | AuthorizationClass \<Rightarrow> ''AuthorizationError''
      | DependencyUnavailableClass \<Rightarrow> ''DependencyUnavailableError''
      | RetryableTaskClass \<Rightarrow> ''RetryableTaskError''
      | TaskQueueFullClass \<Rightarrow> ''TaskQueueFullError''
      | UnknownTaskClass \<Rightarrow> ''UnknownTaskError''
      | JobNotFoundClass \<Rightarrow> ''JobNotFoundError''
      | IdempotencyConflictClass \<Rightarrow> ''IdempotencyConflictError'')"

text \<open>The class name and the text of an exception of Python; texts the model does not keep are empty.\<close>

definition py_error_parts :: "py_error \<Rightarrow> string \<times> string" where
  "py_error_parts e =
     (case e of
        ValueError m \<Rightarrow> (''ValueError'', m)
      | RuntimeError m \<Rightarrow> (''RuntimeError'', m)
      | TypeError m \<Rightarrow> (''TypeError'', m)
      | KeyError m \<Rightarrow> (''KeyError'', repr_text m)
      | AssertionError \<Rightarrow> (''AssertionError'', [])
      | OverflowError m \<Rightarrow> (''OverflowError'', m)
      | InvalidOperation \<Rightarrow> (''InvalidOperation'', [])
      | ValidationError \<Rightarrow> (''ValidationError'', []))"

definition error_parts :: "job_error \<Rightarrow> string \<times> string \<times> bool" where
  "error_parts e =
     (case e of
        BackendError c m details \<Rightarrow> (class_name c, m, class_retryable c)
      | ExecutionLeaseLostError m \<Rightarrow> (''ExecutionLeaseLostError'', m, False)
      | PyError p \<Rightarrow> (fst (py_error_parts p), snd (py_error_parts p), False)
      | OtherError n m r \<Rightarrow> (n, m, r))"

definition error_retryable :: "job_error \<Rightarrow> bool" where
  "error_retryable e = snd (snd (error_parts e))"

definition error_payload :: "job_error \<Rightarrow> payload" where
  "error_payload e =
     [(''type'', JStr (fst (error_parts e))), (''message'', JStr (fst (snd (error_parts e)))),
      (''retryable'', JBool (error_retryable e))]
     @ (case e of
          BackendError c m details \<Rightarrow>
            (''code'', JStr (error_code c)) # (if details = [] then [] else [(''details'', JObj details)])
        | _ \<Rightarrow> [])"

section \<open>Fences\<close>

definition latch_execution_lost :: "string \<Rightarrow> string option \<Rightarrow> task_queue \<Rightarrow> task_queue" where
  "latch_execution_lost job_id token q =
     (if dict_get (tq_execution_tokens q) job_id = token \<and> token \<noteq> None
         \<and> dict_get (tq_execution_fences q) job_id \<noteq> None
      then q\<lparr>tq_execution_fences := dict_put job_id True (tq_execution_fences q)\<rparr> else q)"

text \<open>Whether \<^verbatim>\<open>_check_execution_fence(job)\<close> raises.\<close>

definition fence_lost :: "task_queue \<Rightarrow> JobRecord \<Rightarrow> bool" where
  "fence_lost q job =
     (dict_get (tq_execution_tokens q) (jb_job_id job) = jb_execution_token job
      \<and> jb_execution_token job \<noteq> None
      \<and> dict_get (tq_execution_fences q) (jb_job_id job) = Some True)"

definition lease_lost :: job_error where
  "lease_lost = ExecutionLeaseLostError ''task execution lease was lost''"

definition enlist :: "JobRecord \<Rightarrow> string \<Rightarrow> task_queue \<Rightarrow> task_queue" where
  "enlist job token q =
     q\<lparr>tq_active_job_ids := List.insert (jb_job_id job) (tq_active_job_ids q),
       tq_execution_tokens := dict_put (jb_job_id job) token (tq_execution_tokens q),
       tq_execution_fences := dict_put (jb_job_id job) False (tq_execution_fences q)\<rparr>"

definition forget :: "JobRecord \<Rightarrow> task_queue \<Rightarrow> task_queue" where
  "forget job q =
     q\<lparr>tq_execution_tokens := dict_pop (jb_job_id job) (tq_execution_tokens q),
       tq_execution_fences := dict_pop (jb_job_id job) (tq_execution_fences q),
       tq_active_job_ids := filter (\<lambda>j. j \<noteq> jb_job_id job) (tq_active_job_ids q)\<rparr>"

text \<open>
  What \<^verbatim>\<open>_run_task_guarded\<close> makes of an exception of the run: a lost lease latches the fence and ends
  the run; anything else is recorded as a failure of the job.
\<close>

definition guarded_raise :: "job_error \<Rightarrow> JobRecord \<Rightarrow> task_queue \<Rightarrow> task_queue \<times> phase" where
  "guarded_raise e job q =
     (case e of
        ExecutionLeaseLostError m \<Rightarrow> (latch_execution_lost (jb_job_id job) (jb_execution_token job) q, Ending)
      | _ \<Rightarrow> (q, Failing e))"

section \<open>One step of a thread\<close>

text \<open>A step gives the queue, the repository and where the thread stands, or \<open>None\<close> when it is done.\<close>

type_synonym 'd moved = "task_queue \<times> 'd \<times> (JobRecord \<times> phase) option"

definition moved_to :: "JobRecord \<Rightarrow> phase \<Rightarrow> task_queue \<times> 'd \<Rightarrow> 'd moved" where
  "moved_to job ph s = (fst s, snd s, Some (job, ph))"

definition raised :: "job_error \<Rightarrow> JobRecord \<Rightarrow> task_queue \<times> 'd \<Rightarrow> 'd moved" where
  "raised e job s = (case guarded_raise e job (fst s) of (q, ph) \<Rightarrow> (q, snd s, Some (job, ph)))"

text \<open>A transition of the job, and where it leads.\<close>

definition marking ::
  "(JobRecord attempted \<times> 'd) \<Rightarrow> JobRecord \<Rightarrow> phase \<Rightarrow> task_queue \<Rightarrow> 'd moved" where
  "marking outcome job ph q =
     (case outcome of (Inl e, d) \<Rightarrow> raised e job (q, d) | (Inr updated, d) \<Rightarrow> moved_to job ph (q, d))"

definition reserve_step :: "'d job_repository \<Rightarrow> environment \<Rightarrow> JobRecord \<Rightarrow> bool \<Rightarrow> task_queue \<Rightarrow> 'd \<Rightarrow> 'd moved" where
  "reserve_step rp en job recovery q d =
     (if jb_job_id job \<in> set (tq_active_job_ids q) then (q, d, None)
      else
        (case faulty (en_fault en)
            (rp_claim_job rp (jb_job_id job) (en_token en) (tq_lease_seconds q) recovery (en_readings en)) d of
           (Inr (Some claimed), d') \<Rightarrow>
             if jb_max_attempts claimed \<le> jb_attempt_count claimed then (q, d', Some (claimed, Exhausting))
             else (enlist claimed (en_token en) q, d',
                   Some (claimed, if en_pool_accepts en then Attempting (max 1 (jb_attempt_count claimed + 1))
                                  else Unscheduled))
         | (_, d') \<Rightarrow> (q, d', None)))"

definition exhausted_step :: "'d job_repository \<Rightarrow> environment \<Rightarrow> JobRecord \<Rightarrow> task_queue \<Rightarrow> 'd \<Rightarrow> 'd moved" where
  "exhausted_step rp en job q d =
     (q, snd (faulty (en_fault en)
          (mark_failed rp (jb_job_id job)
            [(''type'', JStr ''RecoveryExhausted''), (''message'', JStr ''task exhausted attempts before recovery'')]
            (jb_execution_token job) (en_readings en)) d),
      Some (job, Giving_up))"

definition release_step :: "'d job_repository \<Rightarrow> environment \<Rightarrow> JobRecord \<Rightarrow> 'd \<Rightarrow> 'd" where
  "release_step rp en job d =
     snd (faulty (en_fault en)
       (rp_release_job_lease rp (jb_job_id job) (jb_execution_token job) (en_readings en)) d)"

definition ensure_execution_lease ::
  "'d job_repository \<Rightarrow> environment \<Rightarrow> JobRecord \<Rightarrow> int \<Rightarrow> task_queue \<Rightarrow> 'd \<Rightarrow> 'd moved" where
  "ensure_execution_lease rp en job n q d =
     (if fence_lost q job then raised lease_lost job (q, d)
      else
        (case faulty (en_fault en)
            (rp_renew_job_lease rp (jb_job_id job) (case jb_execution_token job of None \<Rightarrow> [] | Some t \<Rightarrow> t)
               (tq_lease_seconds q) (en_readings en)) d of
           (Inr True, d') \<Rightarrow> moved_to job (Marking n) (q, d')
         | (Inr False, d') \<Rightarrow>
             raised lease_lost job (latch_execution_lost (jb_job_id job) (jb_execution_token job) q, d')
         | (Inl e, d') \<Rightarrow>
             raised (ExecutionLeaseLostError ''task execution lease renewal is uncertain'') job
               (latch_execution_lost (jb_job_id job) (jb_execution_token job) q, d')))"

definition mark_running_step ::
  "'d job_repository \<Rightarrow> environment \<Rightarrow> JobRecord \<Rightarrow> int \<Rightarrow> task_queue \<Rightarrow> 'd \<Rightarrow> 'd moved" where
  "mark_running_step rp en job n q d =
     (if fence_lost q job then raised lease_lost job (q, d)
      else marking (faulty (en_fault en)
             (mark_running rp (jb_job_id job) n (jb_execution_token job) (en_readings en)) d) job (Calling n) q)"

definition handler_step :: "environment \<Rightarrow> JobRecord \<Rightarrow> int \<Rightarrow> task_queue \<Rightarrow> 'd \<Rightarrow> 'd moved" where
  "handler_step en job n q d =
     (if fence_lost q job then raised lease_lost job (q, d)
      else moved_to job (Returned n (en_answer en)) (q, d))"

definition result_step ::
  "'d job_repository \<Rightarrow> environment \<Rightarrow> JobRecord \<Rightarrow> int \<Rightarrow> job_error + json \<Rightarrow> task_queue \<Rightarrow> 'd \<Rightarrow> 'd moved" where
  "result_step rp en job n answer q d =
     (if fence_lost q job then raised lease_lost job (q, d)
      else case answer of
        Inl (ExecutionLeaseLostError m) \<Rightarrow> raised (ExecutionLeaseLostError m) job (q, d)
      | Inl e \<Rightarrow>
          if error_retryable e \<and> n < jb_max_attempts job
          then marking (faulty (en_fault en)
                 (mark_retry_scheduled rp (jb_job_id job)
                   [(''attempt'', JInt n), (''next_attempt'', JInt (n + 1)), (''error'', JObj (error_payload e))]
                   (jb_execution_token job) (en_readings en)) d) job (Waiting n) q
          else marking (faulty (en_fault en)
                 (mark_failed rp (jb_job_id job) (error_payload e) (jb_execution_token job) (en_readings en)) d)
                 job Ending q
      | Inr result \<Rightarrow>
          marking (faulty (en_fault en)
            (mark_succeeded rp (jb_job_id job) result (jb_execution_token job) (en_readings en)) d) job Ending q)"

definition retry_step ::
  "'d job_repository \<Rightarrow> environment \<Rightarrow> JobRecord \<Rightarrow> int \<Rightarrow> task_queue \<Rightarrow> 'd \<Rightarrow> 'd moved" where
  "retry_step rp en job n q d =
     (if fence_lost q job then raised lease_lost job (q, d)
      else if 0 < tq_retry_delay_seconds q \<and> tq_shutdown q \<and> en_saw_shutdown en
      then marking (faulty (en_fault en)
             (mark_failed rp (jb_job_id job)
               [(''type'', JStr ''TaskShutdown''), (''message'', JStr ''task queue shut down before retry''),
                (''retryable'', JBool False)]
               (jb_execution_token job) (en_readings en)) d) job Ending q
      else moved_to job (Attempting (n + 1)) (q, d))"

text \<open>\<^verbatim>\<open>_record_terminal_failure\<close>: the look-up, and then the mark; whatever happens, the run ends.\<close>

definition failure_lookup_step ::
  "'d job_repository \<Rightarrow> environment \<Rightarrow> JobRecord \<Rightarrow> job_error \<Rightarrow> task_queue \<Rightarrow> 'd \<Rightarrow> 'd moved" where
  "failure_lookup_step rp en job e q d =
     moved_to job
       (if fence_lost q job \<or> en_fault en \<noteq> None then Ending
        else (case rp_get_job rp (jb_job_id job) d of
                None \<Rightarrow> Ending
              | Some current \<Rightarrow> if job_ended (jb_status current) then Ending else Failing_mark e)) (q, d)"

definition failure_mark_step ::
  "'d job_repository \<Rightarrow> environment \<Rightarrow> JobRecord \<Rightarrow> job_error \<Rightarrow> task_queue \<Rightarrow> 'd \<Rightarrow> 'd moved" where
  "failure_mark_step rp en job e q d =
     moved_to job Ending
       (q, if fence_lost q job then d
           else snd (faulty (en_fault en)
             (mark_failed rp (jb_job_id job) (dict_put ''type'' (JStr ''TaskInfrastructureError'') (error_payload e))
               (jb_execution_token job) (en_readings en)) d))"

fun thread_step :: "'d job_repository \<Rightarrow> environment \<Rightarrow> JobRecord \<Rightarrow> phase \<Rightarrow> task_queue \<Rightarrow> 'd \<Rightarrow> 'd moved" where
  "thread_step rp en job (Reserving recovery) q d = reserve_step rp en job recovery q d"
| "thread_step rp en job Exhausting q d = exhausted_step rp en job q d"
| "thread_step rp en job Giving_up q d = (q, release_step rp en job d, None)"
| "thread_step rp en job Unscheduled q d = (forget job q, release_step rp en job d, None)"
| "thread_step rp en job (Attempting n) q d = ensure_execution_lease rp en job n q d"
| "thread_step rp en job (Marking n) q d = mark_running_step rp en job n q d"
| "thread_step rp en job (Calling n) q d = handler_step en job n q d"
| "thread_step rp en job (Returned n answer) q d = result_step rp en job n answer q d"
| "thread_step rp en job (Waiting n) q d = retry_step rp en job n q d"
| "thread_step rp en job (Failing e) q d = failure_lookup_step rp en job e q d"
| "thread_step rp en job (Failing_mark e) q d = failure_mark_step rp en job e q d"
| "thread_step rp en job Ending q d = moved_to job Releasing (forget job q, d)"
| "thread_step rp en job Releasing q d = (q, release_step rp en job d, None)"

section \<open>Submission and dispatch\<close>

text \<open>What a caller of the queue gets.\<close>

datatype reply =
    Reused JobRecord          \<comment> \<open>\<^verbatim>\<open>TaskSubmission(job, reused=True)\<close>\<close>
  | Accepted JobRecord        \<comment> \<open>\<^verbatim>\<open>TaskSubmission(job, reused=False)\<close>\<close>
  | Refused job_error
  | Acknowledged

record submission_args =
  sa_task_name :: string
  sa_payload :: payload
  sa_idempotency_key :: "string option"
  sa_request_id :: string
  sa_max_attempts :: "int option"
  sa_new_id :: string                        \<comment> \<open>the identifier made for a new job\<close>
  sa_published :: "job_error option"         \<comment> \<open>the failure of the message bus\<close>

definition unavailable :: "string \<Rightarrow> job_error" where
  "unavailable m = BackendError DependencyUnavailableClass m []"

definition unknown_task :: "string \<Rightarrow> job_error" where
  "unknown_task n = BackendError UnknownTaskClass (''unknown task: '' @ n) []"

text \<open>\<^verbatim>\<open>except BackendError: raise\<close> and \<^verbatim>\<open>except Exception\<close>.\<close>

definition wrapped :: "string \<Rightarrow> job_error \<Rightarrow> job_error" where
  "wrapped m e = (case e of BackendError c t details \<Rightarrow> e | _ \<Rightarrow> unavailable m)"

definition is_hex :: "char \<Rightarrow> bool" where
  "is_hex c = ((48 \<le> code_of c \<and> code_of c \<le> 57) \<or> (65 \<le> code_of c \<and> code_of c \<le> 70)
     \<or> (97 \<le> code_of c \<and> code_of c \<le> 102))"

definition valid_trace_id :: "string \<Rightarrow> bool" where
  "valid_trace_id s = (length s = 32 \<and> list_all is_hex s \<and> \<not> list_all (\<lambda>c. c = CHR ''0'') s)"

definition publish_dispatch :: "JobRecord \<Rightarrow> job_error option \<Rightarrow> job_error option" where
  "publish_dispatch job published =
     (let trace = py_or (json_get (jb_payload job) ''trace_id'' JNull) (JStr (jb_request_id job))
      in if \<not> valid_trace_id (py_str trace)
         then Some (unavailable ''durable task dispatch requires a nonzero trace_id'')
         else published)"

definition capacity_refusal ::
  "'d job_repository \<Rightarrow> submission_args \<Rightarrow> string \<Rightarrow> fault option \<Rightarrow> 'd \<Rightarrow> reply" where
  "capacity_refusal rp a name f d =
     (let full = Refused (BackendError TaskQueueFullClass ''task queue is at capacity'' [])
      in case sa_idempotency_key a of
           None \<Rightarrow> full
         | Some key \<Rightarrow>
             (case fst (faulty f (\<lambda>d. (rp_find_idempotent_job rp name (sa_payload a) (Some key) d, d)) d) of
                Inl e \<Rightarrow> Refused (wrapped ''idempotency lookup failed'' e)
              | Inr (Some existing) \<Rightarrow> Reused existing
              | Inr None \<Rightarrow> full))"

text \<open>
  \<^verbatim>\<open>submit\<close> up to the reservation, which is a step of the new thread. The permit it takes is given back
  unless there is such a thread. The answer is the one of a reservation that does not raise; when it
  raises, the code reports the job that is stored all the same as one that could not be scheduled.
\<close>

definition submit_task ::
  "'d job_repository \<Rightarrow> environment \<Rightarrow> submission_args \<Rightarrow> task_queue \<Rightarrow> 'd
   \<Rightarrow> reply \<times> task_queue \<times> 'd \<times> (JobRecord \<times> phase) option" where
  "submit_task rp en a q d =
     (let name = py_strip (sa_task_name a);
          attempts = (case sa_max_attempts a of None \<Rightarrow> tq_default_max_attempts q | Some n \<Rightarrow> n)
      in if name \<notin> set (tq_handlers q) then (Refused (unknown_task name), q, d, None)
         else if tq_shutdown q then (Refused (unavailable ''task queue has been shut down''), q, d, None)
         else if attempts < 1
         then (Refused (PyError (ValueError ''max_attempts must be at least 1'')), q, d, None)
         else if \<not> tq_durable_dispatch q \<and> tq_permits q \<le> 0
         then (capacity_refusal rp a name (en_fault en) d, q, d, None)
         else
           (case faulty (en_fault en)
               (rp_create_or_get_job rp name (sa_payload a) (sa_idempotency_key a) attempts (sa_request_id a)
                 (sa_new_id a) (en_readings en)) d of
              (Inl e, d') \<Rightarrow> (Refused (wrapped ''task could not be scheduled'' e), q, d', None)
            | (Inr (job, True), d') \<Rightarrow> (Reused job, q, d', None)
            | (Inr (job, False), d') \<Rightarrow>
                if tq_durable_dispatch q
                then (case publish_dispatch job (sa_published a) of
                        None \<Rightarrow> (Accepted job, q, d', None)
                      | Some e \<Rightarrow> (Refused (wrapped ''task could not be scheduled'' e), q, d', None))
                else (Accepted job, q\<lparr>tq_permits := tq_permits q - 1\<rparr>, d', Some (job, Reserving False))))"

definition handle_dispatch_message ::
  "'d job_repository \<Rightarrow> environment \<Rightarrow> string \<Rightarrow> string \<Rightarrow> task_queue \<Rightarrow> 'd
   \<Rightarrow> reply \<times> task_queue \<times> (JobRecord \<times> phase) option" where
  "handle_dispatch_message rp en task_name job_id q d =
     (if task_name \<notin> set (tq_handlers q) then (Refused (unknown_task task_name), q, None)
      else if tq_shutdown q then (Refused (unavailable ''task worker is shutting down''), q, None)
      else case fst (faulty (en_fault en) (\<lambda>d. (Inr (rp_get_job rp job_id d), d)) d) of
        Inl e \<Rightarrow> (Refused e, q, None)
      | Inr None \<Rightarrow> (Acknowledged, q, None)
      | Inr (Some job) \<Rightarrow>
          if job_ended (jb_status job) then (Acknowledged, q, None)
          else if jb_task_name job \<noteq> task_name
          then (Refused (PyError (ValueError ''task dispatch does not match persisted task'')), q, None)
          else if job_id \<in> set (tq_active_job_ids q) then (Acknowledged, q, None)
          else if tq_permits q \<le> 0
          then (Refused (BackendError TaskQueueFullClass ''task worker capacity is temporarily exhausted'' []), q, None)
          else (Acknowledged, q\<lparr>tq_permits := tq_permits q - 1\<rparr>, Some (job, Reserving True)))"

section \<open>Recovery passes and heartbeats\<close>

definition register :: "string \<Rightarrow> task_queue \<Rightarrow> unit result \<times> task_queue" where
  "register task_name q =
     (let name = py_strip task_name
      in if name = [] then (Inl (ValueError ''task_name is required''), q)
         else if name \<in> set (tq_handlers q)
         then (Inl (ValueError (''task handler already registered: '' @ name)), q)
         else (Inr (), q\<lparr>tq_handlers := tq_handlers q @ [name]\<rparr>))"

text \<open>A pass reads a page with one job more than there are permits, and takes the jobs in turn.\<close>

definition recovery_scan :: "'d job_repository \<Rightarrow> environment \<Rightarrow> string \<Rightarrow> task_queue \<Rightarrow> 'd \<Rightarrow> task_queue" where
  "recovery_scan rp en task_name q d =
     (if tq_shutdown q \<or> en_fault en \<noteq> None then q\<lparr>tq_page := []\<rparr>
      else q\<lparr>tq_page := rp_list_recoverable_jobs rp task_name (tq_capacity_limit q + 1) (en_readings en) d\<rparr>)"

definition recovery_next :: "task_queue \<Rightarrow> task_queue \<times> (JobRecord \<times> phase) option" where
  "recovery_next q =
     (case tq_page q of
        [] \<Rightarrow> (q, None)
      | job # rest \<Rightarrow>
          if tq_shutdown q then (q\<lparr>tq_page := []\<rparr>, None)
          else if jb_job_id job \<in> set (tq_active_job_ids q) then (q\<lparr>tq_page := rest\<rparr>, None)
          else if tq_permits q \<le> 0 then (q\<lparr>tq_page := []\<rparr>, None)
          else (q\<lparr>tq_page := rest, tq_permits := tq_permits q - 1\<rparr>, Some (job, Reserving True)))"

definition heartbeat_scan :: "task_queue \<Rightarrow> task_queue" where
  "heartbeat_scan q =
     q\<lparr>tq_owned := filter (\<lambda>e. dict_get (tq_execution_fences q) (fst e) \<noteq> Some True) (tq_execution_tokens q)\<rparr>"

definition heartbeat_next :: "'d job_repository \<Rightarrow> environment \<Rightarrow> task_queue \<Rightarrow> 'd \<Rightarrow> task_queue \<times> 'd" where
  "heartbeat_next rp en q d =
     (case tq_owned q of
        [] \<Rightarrow> (q, d)
      | (job_id, token) # rest \<Rightarrow>
          (case faulty (en_fault en)
              (rp_renew_job_lease rp job_id token (tq_lease_seconds q) (en_readings en)) d of
             (Inr True, d') \<Rightarrow> (q\<lparr>tq_owned := rest\<rparr>, d')
           | (_, d') \<Rightarrow> (latch_execution_lost job_id (Some token) (q\<lparr>tq_owned := rest\<rparr>), d')))"

definition shutdown :: "task_queue \<Rightarrow> task_queue" where
  "shutdown q = q\<lparr>tq_shutdown := True\<rparr>"

section \<open>A fleet of processes\<close>

text \<open>
  Several processes over one repository. A thread belongs to a process; \<open>qf_handled\<close> lists the calls
  of handlers: the job, the attempt and the answer. A thread that is done gives its permit back.
\<close>

record thread =
  th_process :: nat
  th_job :: JobRecord
  th_phase :: phase

record handled =
  ha_job_id :: string
  ha_attempt :: int
  ha_answer :: "job_error + json"

record 'd queue_fleet =
  qf_db :: 'd
  qf_queues :: "task_queue list"
  qf_threads :: "thread list"
  qf_handled :: "handled list"

datatype action =
    Register string
  | Submit submission_args
  | Dispatch string string
  | Scan_recoverable string
  | Recover_next
  | Scan_owned
  | Renew_next
  | Shut_down
  | Advance nat               \<comment> \<open>a step of the thread at this position\<close>

definition new_threads :: "nat \<Rightarrow> (JobRecord \<times> phase) option \<Rightarrow> thread list" where
  "new_threads p next =
     (case next of None \<Rightarrow> [] | Some (job, ph) \<Rightarrow> [\<lparr>th_process = p, th_job = job, th_phase = ph\<rparr>])"

definition add_permit :: "task_queue \<Rightarrow> task_queue" where
  "add_permit q = q\<lparr>tq_permits := tq_permits q + 1\<rparr>"

definition handler_call :: "phase \<Rightarrow> (JobRecord \<times> phase) option \<Rightarrow> handled list" where
  "handler_call ph next =
     (case (ph, next) of
        (Calling n, Some (job, Returned m answer)) \<Rightarrow>
          [\<lparr>ha_job_id = jb_job_id job, ha_attempt = m, ha_answer = answer\<rparr>]
      | _ \<Rightarrow> [])"

definition advance_thread :: "'d job_repository \<Rightarrow> environment \<Rightarrow> nat \<Rightarrow> 'd queue_fleet \<Rightarrow> 'd queue_fleet" where
  "advance_thread rp en i s =
     (if i < length (qf_threads s) \<and> th_process (qf_threads s ! i) < length (qf_queues s)
      then
        (let t = qf_threads s ! i; p = th_process t;
             (q, d, next) = thread_step rp en (th_job t) (th_phase t) (qf_queues s ! p) (qf_db s)
         in s\<lparr>qf_db := d,
              qf_queues := (qf_queues s)[p := (if next = None then add_permit q else q)],
              qf_threads := take i (qf_threads s) @ new_threads p next @ drop (Suc i) (qf_threads s),
              qf_handled := qf_handled s @ handler_call (th_phase t) next\<rparr>)
      else s)"

fun queue_action ::
  "'d job_repository \<Rightarrow> environment \<Rightarrow> action \<Rightarrow> task_queue \<Rightarrow> 'd \<Rightarrow> reply \<times> task_queue \<times> 'd \<times> (JobRecord \<times> phase) option" where
  "queue_action rp en (Register name) q d =
     (case register name q of
        (Inl e, q') \<Rightarrow> (Refused (PyError e), q', d, None) | (Inr _, q') \<Rightarrow> (Acknowledged, q', d, None))"
| "queue_action rp en (Submit a) q d = submit_task rp en a q d"
| "queue_action rp en (Dispatch name job_id) q d =
     (case handle_dispatch_message rp en name job_id q d of (r, q', next) \<Rightarrow> (r, q', d, next))"
| "queue_action rp en (Scan_recoverable name) q d = (Acknowledged, recovery_scan rp en name q d, d, None)"
| "queue_action rp en Recover_next q d =
     (case recovery_next q of (q', next) \<Rightarrow> (Acknowledged, q', d, next))"
| "queue_action rp en Scan_owned q d = (Acknowledged, heartbeat_scan q, d, None)"
| "queue_action rp en Renew_next q d = (case heartbeat_next rp en q d of (q', d') \<Rightarrow> (Acknowledged, q', d', None))"
| "queue_action rp en Shut_down q d = (Acknowledged, shutdown q, d, None)"
| "queue_action rp en (Advance i) q d = (Acknowledged, q, d, None)"

fun queue_step :: "'d job_repository \<Rightarrow> nat \<times> action \<times> environment \<Rightarrow> 'd queue_fleet \<Rightarrow> reply \<times> 'd queue_fleet" where
  "queue_step rp (p, Advance i, en) s = (Acknowledged, advance_thread rp en i s)"
| "queue_step rp (p, act, en) s =
     (if p < length (qf_queues s)
      then (case queue_action rp en act (qf_queues s ! p) (qf_db s) of
              (r, q, d, next) \<Rightarrow>
                (r, s\<lparr>qf_db := d, qf_queues := (qf_queues s)[p := q],
                      qf_threads := qf_threads s @ new_threads p next\<rparr>))
      else (Acknowledged, s))"

definition start_queues :: "'d \<Rightarrow> task_queue list \<Rightarrow> 'd queue_fleet" where
  "start_queues d qs = \<lparr>qf_db = d, qf_queues = qs, qf_threads = [], qf_handled = []\<rparr>"

end
