(* ===== verification/Job_Steps.thy ===== *)
theory Job_Steps
  imports Task_Queue Scoped_Runs
begin

text \<open>
  How the operations of the job repository change its rows: each one leaves all rows but one alone,
  attempts only grow, and a row held under a token changes only under that token. This is what the
  threads of different processes may rely on of each other.
\<close>

lemma pg_repository_simps [simp]:
  "rp_find_idempotent_job (pg_repository fmt sha) = pg_find_idempotent_job fmt sha"
  "rp_create_or_get_job (pg_repository fmt sha) = pg_create_or_get_job fmt sha"
  "rp_list_recoverable_jobs (pg_repository fmt sha) = pg_list_recoverable_jobs fmt"
  "rp_get_job (pg_repository fmt sha) = pg_get_job fmt"
  "rp_claim_job (pg_repository fmt sha) = pg_claim_job fmt"
  "rp_renew_job_lease (pg_repository fmt sha) = pg_renew_job_lease"
  "rp_release_job_lease (pg_repository fmt sha) = pg_release_job_lease"
  "rp_transition (pg_repository fmt sha) = pg_transition fmt"
  by (simp_all add: pg_repository_def)

section \<open>Effects of the repository's operations\<close>

abbreviation job_row_of :: "int job_db \<Rightarrow> string \<Rightarrow> int job_row option" where
  "job_row_of d j \<equiv> dict_get (jd_jobs d) j"

definition keyed_jobs :: "int job_db \<Rightarrow> bool" where
  "keyed_jobs d = (\<forall>j r. job_row_of d j = Some r \<longrightarrow> jb_job_id r = j)"

text \<open>
  How rows may change under a call with a token: none disappears, attempts only grow, an ended row
  stays as it is; and a row held under another token was already so, with the same attempts.
\<close>

definition row_grows :: "int job_row \<Rightarrow> int job_row \<Rightarrow> bool" where
  "row_grows r r' =
     (jb_attempt_count r \<le> jb_attempt_count r' \<and> jb_max_attempts r' = jb_max_attempts r
      \<and> (job_ended (jb_status r) \<longrightarrow> r' = r))"

definition frame :: "string option \<Rightarrow> int job_db \<Rightarrow> int job_db \<Rightarrow> bool" where
  "frame t d d' =
     ((\<forall>j r. job_row_of d j = Some r \<longrightarrow> (\<exists>r'. job_row_of d' j = Some r' \<and> row_grows r r'))
      \<and> (\<forall>j r'. job_row_of d' j = Some r' \<longrightarrow> jb_execution_token r' \<noteq> None \<longrightarrow> jb_execution_token r' \<noteq> t \<longrightarrow>
           (\<exists>r. job_row_of d j = Some r \<and> jb_execution_token r = jb_execution_token r'
                \<and> jb_attempt_count r = jb_attempt_count r')))"

lemma row_grows_refl [simp]: "row_grows r r"
  by (simp add: row_grows_def)

lemma frame_refl [simp]: "frame t d d"
  by (auto simp: frame_def)

lemma frame_jobs: "jd_jobs d' = jd_jobs d \<Longrightarrow> frame t d d'"
  by (auto simp: frame_def)

text \<open>A call changes at most one row, into one of these.\<close>

lemma frame_put:
  assumes "job_row_of d j = Some r" "jd_jobs d' = dict_put j r' (jd_jobs d)" "row_grows r r'"
    and "jb_execution_token r' \<noteq> None \<Longrightarrow> jb_execution_token r' \<noteq> t \<Longrightarrow>
      jb_execution_token r = jb_execution_token r' \<and> jb_attempt_count r = jb_attempt_count r'"
  shows "frame t d d'"
  using assms by (auto simp: frame_def)

lemma frame_new:
  assumes "job_row_of d j = None" "jd_jobs d' = dict_put j r' (jd_jobs d)" "jb_execution_token r' = None"
  shows "frame t d d'"
  using assms by (auto simp: frame_def)

lemma keyed_jobs_put: "keyed_jobs d \<Longrightarrow> jb_job_id r = j \<Longrightarrow> jd_jobs d' = dict_put j r (jd_jobs d) \<Longrightarrow> keyed_jobs d'"
  by (auto simp: keyed_jobs_def)

lemma keyed_same: "keyed_jobs d \<Longrightarrow> jd_jobs d' = jd_jobs d \<Longrightarrow> keyed_jobs d'"
  by (simp add: keyed_jobs_def)

text \<open>Both at once, for an update of the row of a job.\<close>

lemma frame_update:
  assumes "keyed_jobs d" "job_row_of d j = Some r" "jd_jobs d' = dict_put (jb_job_id r) r' (jd_jobs d)"
    "jb_job_id r' = jb_job_id r" "row_grows r r'"
    and "jb_execution_token r' \<noteq> None \<Longrightarrow> jb_execution_token r' \<noteq> t \<Longrightarrow>
      jb_execution_token r = jb_execution_token r' \<and> jb_attempt_count r = jb_attempt_count r'"
  shows "frame t d d'" "keyed_jobs d'"
proof -
  have j: "jb_job_id r = j" using assms(1,2) by (simp add: keyed_jobs_def)
  show "frame t d d'" using assms j by (intro frame_put [OF assms(2) _ assms(5)]) auto
  show "keyed_jobs d'" using keyed_jobs_put [OF assms(1) assms(4) assms(3)] .
qed

lemma row_grows_updates:
  "\<not> job_ended (jb_status r) \<Longrightarrow> row_grows r (claimed_row c t a now r)"
  "\<not> job_ended (jb_status r) \<Longrightarrow> (\<And>n. jc_attempt_count ch = Some n \<Longrightarrow> jb_attempt_count r \<le> n) \<Longrightarrow>
     row_grows r (changed_job ch now r)"
  by (auto simp: row_grows_def claimed_row_def changed_job_def split: option.splits)

lemma not_ended: "jb_status r \<in> {ACCEPTED, RUNNING} \<Longrightarrow> \<not> job_ended (jb_status r)"
  "jb_status r \<in> (if c then {ACCEPTED, RUNNING} else {ACCEPTED}) \<Longrightarrow> \<not> job_ended (jb_status r)"
  by (auto simp: job_ended_def split: if_splits)

lemma pg_claim_cases:
  assumes "pg_claim_job fmt j t secs c rd d = (x, d')"
  obtains (refused) "d' = d" "\<And>r. x \<noteq> Inr (Some r)"
    | (granted) r where "job_row_of d j = Some r" "\<not> job_ended (jb_status r)"
        "jd_jobs d' = dict_put (jb_job_id r) (claimed_row c t (rd_lease rd + timedelta_micros secs) (rd_stamp rd) r) (jd_jobs d)"
        "x = Inr (Some (times_as fmt (claimed_row c t (rd_lease rd + timedelta_micros secs) (rd_stamp rd) r)))"
proof (cases "fst (pg_claim_job fmt j t secs c rd d)")
  case (Inr y)
  show thesis
  proof (cases y)
    case None
    then show thesis using that(1) assms Inr
      by (auto simp: pg_claim_job_def Let_def split: sum.splits option.splits if_splits)
  next
    case (Some z)
    obtain r where r: "job_row_of d j = Some r" "validate_lease t secs = Inr secs"
      "jb_status r \<in> (if c then {ACCEPTED, RUNNING} else {ACCEPTED})"
      using Inr Some assms
      by (auto simp: pg_claim_job_def Let_def validate_lease_def split: sum.splits option.splits if_splits)
    show thesis
    proof (rule that(2) [OF r(1) not_ended(2) [OF r(3)]])
      show "jd_jobs d' = dict_put (jb_job_id r) (claimed_row c t (rd_lease rd + timedelta_micros secs) (rd_stamp rd) r) (jd_jobs d)"
        "x = Inr (Some (times_as fmt (claimed_row c t (rd_lease rd + timedelta_micros secs) (rd_stamp rd) r)))"
        using assms Inr Some r
        by (auto simp: pg_claim_job_def Let_def claimed_row_def [symmetric] split: if_splits)
    qed
  qed
next
  case (Inl e)
  then show thesis using that(1) assms
    by (auto simp: pg_claim_job_def Let_def split: sum.splits option.splits if_splits)
qed

lemma pg_claim_frame:
  assumes "keyed_jobs d" "pg_claim_job fmt j t secs c rd d = (x, d')"
  shows "frame (Some t) d d'" "keyed_jobs d'"
proof -
  have "frame (Some t) d d' \<and> keyed_jobs d'"
    using assms(2)
  proof (cases rule: pg_claim_cases)
    case (granted r)
    then show ?thesis
      using frame_update [OF assms(1) granted(1,3) _ row_grows_updates(1) [OF granted(2)], of "Some t"]
      by (simp add: claimed_row_def)
  qed (use assms(1) in simp)
  then show "frame (Some t) d d'" "keyed_jobs d'" by simp_all
qed

text \<open>Renewing and releasing touch the lease of an unfinished job, and nothing else of it.\<close>

definition touched :: "int job_row \<Rightarrow> int job_row \<Rightarrow> bool" where
  "touched r r' =
     (\<not> job_ended (jb_status r) \<and> jb_job_id r' = jb_job_id r \<and> jb_task_name r' = jb_task_name r
      \<and> jb_idempotency_key r' = jb_idempotency_key r \<and> jb_payload_fingerprint r' = jb_payload_fingerprint r
      \<and> jb_status r' = jb_status r
      \<and> jb_attempt_count r' = jb_attempt_count r \<and> jb_max_attempts r' = jb_max_attempts r
      \<and> jb_result r' = jb_result r
      \<and> (jb_execution_token r' = None \<or> jb_execution_token r' = jb_execution_token r))"

definition touches :: "string \<Rightarrow> int job_db \<Rightarrow> int job_db \<Rightarrow> bool" where
  "touches j d d' =
     (d' = d \<or> (\<exists>r r'. job_row_of d j = Some r \<and> touched r r' \<and> jd_jobs d' = dict_put (jb_job_id r) r' (jd_jobs d)))"

lemma touchesI: "job_row_of d j = Some r \<Longrightarrow> touched r r' \<Longrightarrow> d' = put_job r' d \<Longrightarrow> touches j d d'"
  unfolding touches_def by (auto simp: touched_def)

lemma touches_frame:
  assumes "keyed_jobs d" "touches j d d'"
  shows "frame u d d'" "keyed_jobs d'"
proof -
  have "frame u d d' \<and> keyed_jobs d'"
  proof (cases "d' = d")
    case False
    then obtain r r' where r: "job_row_of d j = Some r" "touched r r'" "jd_jobs d' = dict_put (jb_job_id r) r' (jd_jobs d)"
      using assms(2) by (auto simp: touches_def)
    have "row_grows r r'" using r(2) by (simp add: row_grows_def touched_def)
    then show ?thesis
      using r(2) by (intro conjI frame_update [OF assms(1) r(1,3)]) (auto simp: touched_def)
  qed (use assms(1) in simp)
  then show "frame u d d'" "keyed_jobs d'" by simp_all
qed

lemma pg_renew_touches: "touches j d (snd (pg_renew_job_lease j t secs rd d))"
proof (cases "job_row_of d j")
  case (Some r)
  let ?r = "r\<lparr>jb_lease_expires_at := Some (rd_lease rd + timedelta_micros secs), jb_updated_at := rd_stamp rd\<rparr>"
  have "snd (pg_renew_job_lease j t secs rd d) = d
      \<or> \<not> job_ended (jb_status r) \<and> snd (pg_renew_job_lease j t secs rd d) = put_job ?r d"
    using Some by (auto simp: pg_renew_job_lease_def validate_lease_def job_ended_def)
  then show ?thesis
  proof
    assume "\<not> job_ended (jb_status r) \<and> snd (pg_renew_job_lease j t secs rd d) = put_job ?r d"
    then show ?thesis by (intro touchesI [OF Some, of ?r]) (simp_all add: touched_def)
  qed (simp add: touches_def)
qed (auto simp: touches_def pg_renew_job_lease_def split: sum.splits)

lemma pg_release_touches: "touches j d (snd (pg_release_job_lease j t rd d))"
proof (cases "job_row_of d j")
  case (Some r)
  let ?r = "r\<lparr>jb_execution_token := None, jb_lease_expires_at := None, jb_updated_at := rd_stamp rd\<rparr>"
  have "snd (pg_release_job_lease j t rd d) = d
      \<or> \<not> job_ended (jb_status r) \<and> snd (pg_release_job_lease j t rd d) = put_job ?r d"
    using Some by (auto simp: pg_release_job_lease_def job_ended_def split: option.split)
  then show ?thesis
  proof
    assume "\<not> job_ended (jb_status r) \<and> snd (pg_release_job_lease j t rd d) = put_job ?r d"
    then show ?thesis by (intro touchesI [OF Some, of ?r]) (simp_all add: touched_def)
  qed (simp add: touches_def)
qed (auto simp: touches_def pg_release_job_lease_def split: option.splits)

lemma faulty_touches:
  assumes "\<And>d. touches j d (snd (operation d))"
  shows "touches j d (snd (faulty f operation d))"
  using assms [of d] by (simp add: faulty_def touches_def split: option.splits fault.splits)

lemma pg_transition_cases:
  assumes "pg_transition fmt j ch (Some t) rd d = (x, d')"
  obtains (refused) e where "d' = d" "x = Inl e"
    | (changed) r where "job_row_of d j = Some r" "jc_target ch \<in> set (allowed_transitions (jb_status r))"
        "jb_execution_token r = Some t"
        "jd_jobs d' = dict_put (jb_job_id r) (changed_job ch (rd_stamp rd) r) (jd_jobs d)"
        "x = Inr (times_as fmt (changed_job ch (rd_stamp rd) r))"
  using assms
  by (auto simp: pg_transition_def holds_lease_def Let_def split: option.splits if_splits)

lemma allowed_not_ended: "t \<in> set (allowed_transitions s) \<Longrightarrow> \<not> job_ended s"
  by (cases s) (auto simp: allowed_transitions_def job_ended_def)

lemma pg_transition_frame:
  assumes "keyed_jobs d" "pg_transition fmt j ch (Some t) rd d = (x, d')"
    and "\<And>r n. job_row_of d j = Some r \<Longrightarrow> jb_execution_token r = Some t \<Longrightarrow> jc_attempt_count ch = Some n \<Longrightarrow> jb_attempt_count r \<le> n"
  shows "frame (Some t) d d'" "keyed_jobs d'"
proof -
  have "frame (Some t) d d' \<and> keyed_jobs d'"
    using assms(2)
  proof (cases rule: pg_transition_cases)
    case (changed r)
    have "row_grows r (changed_job ch (rd_stamp rd) r)"
      using row_grows_updates(2) [OF allowed_not_ended [OF changed(2)]] assms(3) [OF changed(1,3)] by blast
    from frame_update [OF assms(1) changed(1,4) _ this, of "Some t"] show ?thesis
      using changed(3) by (cases "job_ended (jc_target ch)") (simp_all add: changed_job_def)
  qed (use assms(1) in simp)
  then show "frame (Some t) d d'" "keyed_jobs d'" by simp_all
qed

lemma pg_create_cases:
  assumes "pg_create_or_get_job fmt sha n p k m q j rd d = (x, d')"
  obtains (same) "d' = d" "\<And>job. x \<noteq> Inr (job, False)"
    | (created) r where "job_row_of d j = None" "jb_job_id r = j" "jb_execution_token r = None" "jb_attempt_count r = 0"
        "jb_status r = ACCEPTED" "jb_max_attempts r = m" "jd_jobs d' = dict_put j r (jd_jobs d)"
        "x = Inr (times_as fmt r, False)"
proof (cases "normalize_idempotency_key k")
  case (Inr key)
  show thesis
  proof (cases "Option.bind key (\<lambda>k. job_by_key k d) = None \<and> j \<notin> set (dict_keys (jd_jobs d))")
    case True
    define r where "r = new_job_row j n p key (payload_fingerprint sha p) m q (rd_now rd)"
    have "job_row_of d j = None" using True by (simp add: map_of_eq_None_iff)
    moreover have "jd_jobs d' = dict_put j r (jd_jobs d) \<and> x = Inr (times_as fmt r, False) \<and> jb_job_id r = j"
      using assms Inr True by (auto simp: pg_create_or_get_job_def Let_def r_def) (simp_all add: new_job_row_def)
    ultimately show thesis by (intro that(2) [of r]) (simp_all add: r_def new_job_row_def)
  next
    case False
    have "d' = d \<and> (\<forall>job. x \<noteq> Inr (job, False))"
      using assms Inr False by (auto simp: pg_create_or_get_job_def Let_def rbind_def split: option.splits sum.splits)
    then show thesis using that(1) by blast
  qed
next
  case (Inl e)
  then have "d' = d \<and> x = Inl e" using assms by (simp add: pg_create_or_get_job_def)
  then show thesis using that(1) by blast
qed

lemma faulty_cases:
  assumes "faulty f operation d = (x, d')"
  obtains (before) e where "d' = d" "x = Inl e" | (after) e y where "operation d = (y, d')" "x = Inl e"
    | (normal) "operation d = (x, d')"
  using assms by (auto simp: faulty_def prod_eq_iff split: option.splits fault.splits)

end
