(* ===== verification/Task_Threads.thy ===== *)
theory Task_Threads
  imports Job_Steps Scoped_Runs
begin

text \<open>
  What one step of a thread does to the job table, and what its place says about the row of its job:
  a thread changes only rows under its own token, counts an attempt before it calls the handler,
  and records a success only with the answer of the handler for that attempt.
\<close>

section \<open>The invariant\<close>

definition succeeded_as :: "handled list \<Rightarrow> 't job_row \<Rightarrow> bool" where
  "succeeded_as hs r =
     (\<lparr>ha_job_id = jb_job_id r, ha_attempt = jb_attempt_count r, ha_answer = Inr (jb_result r)\<rparr> \<in> set hs)"

definition good_row :: "string set \<Rightarrow> handled list \<Rightarrow> int job_row \<Rightarrow> bool" where
  "good_row U hs r =
     (1 \<le> jb_max_attempts r \<and> 0 \<le> jb_attempt_count r \<and> jb_attempt_count r \<le> jb_max_attempts r
      \<and> (\<forall>t. jb_execution_token r = Some t \<longrightarrow> t \<in> U)
      \<and> (jb_status r = SUCCEEDED \<longrightarrow> succeeded_as hs r))"

definition good_rows :: "string set \<Rightarrow> handled list \<Rightarrow> int job_db \<Rightarrow> bool" where
  "good_rows U hs d = (\<forall>j r. job_row_of d j = Some r \<longrightarrow> good_row U hs r)"

text \<open>The row of a job, when it is held under the token the job was claimed with.\<close>

definition held :: "int job_db \<Rightarrow> JobRecord \<Rightarrow> int job_row \<Rightarrow> bool" where
  "held d job r = (job_row_of d (jb_job_id job) = Some r \<and> jb_execution_token r = jb_execution_token job)"

definition counts :: "int job_db \<Rightarrow> JobRecord \<Rightarrow> int \<Rightarrow> bool" where
  "counts d job n = (\<forall>r. held d job r \<longrightarrow> jb_attempt_count r = n)"

definition permitted :: "JobRecord \<Rightarrow> int \<Rightarrow> bool" where
  "permitted job n = (1 \<le> n \<and> n \<le> jb_max_attempts job)"

definition started :: "int job_db \<Rightarrow> string \<Rightarrow> int \<Rightarrow> bool" where
  "started d j n = (\<exists>r. job_row_of d j = Some r \<and> n \<le> jb_attempt_count r)"

fun phase_ok :: "int job_db \<Rightarrow> handled list \<Rightarrow> JobRecord \<Rightarrow> phase \<Rightarrow> bool" where
  "phase_ok d hs job (Attempting n) = (permitted job n \<and> counts d job (n - 1))"
| "phase_ok d hs job (Marking n) = (permitted job n \<and> counts d job (n - 1))"
| "phase_ok d hs job (Calling n) = (permitted job n \<and> counts d job n \<and> started d (jb_job_id job) n)"
| "phase_ok d hs job (Returned n a) =
     (permitted job n \<and> counts d job n \<and> \<lparr>ha_job_id = jb_job_id job, ha_attempt = n, ha_answer = a\<rparr> \<in> set hs)"
| "phase_ok d hs job (Waiting n) = (permitted job (n + 1) \<and> 1 \<le> n \<and> counts d job n)"
| "phase_ok d hs job ph = True"

fun claimed_phase :: "phase \<Rightarrow> bool" where
  "claimed_phase (Reserving c) = False"
| "claimed_phase ph = True"

definition owned_job :: "int job_db \<Rightarrow> JobRecord \<Rightarrow> bool" where
  "owned_job d job =
     (jb_execution_token job \<noteq> None
      \<and> (\<exists>r. job_row_of d (jb_job_id job) = Some r \<and> jb_max_attempts r = jb_max_attempts job))"

definition thread_ok :: "int job_db \<Rightarrow> handled list \<Rightarrow> JobRecord \<times> phase \<Rightarrow> bool" where
  "thread_ok d hs t = ((claimed_phase (snd t) \<longrightarrow> owned_job d (fst t)) \<and> phase_ok d hs (fst t) (snd t))"

text \<open>Other threads keep their places while a row changes under another token.\<close>

lemma counts_frame:
  assumes "frame t d d'" "jb_execution_token job \<noteq> t" "jb_execution_token job \<noteq> None" "counts d job n"
  shows "counts d' job n"
  unfolding counts_def
proof (intro allI impI)
  fix r' assume h: "held d' job r'"
  then obtain r where "job_row_of d (jb_job_id job) = Some r" "jb_execution_token r = jb_execution_token r'"
    "jb_attempt_count r = jb_attempt_count r'"
    using assms(1-3) unfolding frame_def held_def by metis
  then show "jb_attempt_count r' = n" using assms(4) h by (auto simp: counts_def held_def)
qed

lemma started_frame: "frame t d d' \<Longrightarrow> started d j n \<Longrightarrow> started d' j n"
  unfolding started_def frame_def row_grows_def by (meson order_trans)

lemma owned_frame: "frame t d d' \<Longrightarrow> owned_job d job \<Longrightarrow> owned_job d' job"
  unfolding owned_job_def frame_def row_grows_def by metis

lemma phase_ok_frame:
  assumes "frame t d d'" "jb_execution_token job \<noteq> t" "jb_execution_token job \<noteq> None" "set hs \<subseteq> set hs'" "phase_ok d hs job ph"
  shows "phase_ok d' hs' job ph"
  using assms(5) counts_frame [OF assms(1-3)] started_frame [OF assms(1)] assms(4)
  by (cases ph) auto

lemma thread_ok_frame:
  assumes "frame t d d'" "claimed_phase (snd th) \<Longrightarrow> jb_execution_token (fst th) \<noteq> t" "set hs \<subseteq> set hs'" "thread_ok d hs th"
  shows "thread_ok d' hs' th"
proof (cases "claimed_phase (snd th)")
  case True
  then have "owned_job d (fst th)" using assms(4) by (simp add: thread_ok_def)
  then show ?thesis
    using True assms phase_ok_frame [OF assms(1), of "fst th" hs hs' "snd th"] owned_frame [OF assms(1)]
    by (auto simp: thread_ok_def owned_job_def)
next
  case False
  then show ?thesis by (cases "snd th") (simp_all add: thread_ok_def)
qed

section \<open>One step of a thread\<close>

text \<open>
  What a step of a thread with the token \<open>t\<close> does: it changes rows under that token only, keeps them
  good, and ends in a place that fits; a new handler call is for an attempt that no earlier call had.
\<close>

definition moves ::
  "string set \<Rightarrow> handled list \<Rightarrow> string \<Rightarrow> JobRecord \<Rightarrow> phase \<Rightarrow> int job_db \<Rightarrow> int job_db \<times> (JobRecord \<times> phase) option \<Rightarrow> bool" where
  "moves U hs t job ph d out =
     (frame (Some t) d (fst out) \<and> keyed_jobs (fst out)
      \<and> good_rows (insert t U) (hs @ handler_call ph (snd out)) (fst out)
      \<and> (\<forall>job' ph'. snd out = Some (job', ph') \<longrightarrow>
           thread_ok (fst out) (hs @ handler_call ph (snd out)) (job', ph') \<and> claimed_phase ph'
           \<and> jb_execution_token job' = Some t \<and> jb_job_id job' = jb_job_id job
           \<and> (\<forall>n. ph' = Calling n \<longrightarrow> \<not> started d (jb_job_id job) n)))"

lemma good_row_more: "good_row U hs r \<Longrightarrow> U \<subseteq> V \<Longrightarrow> set hs \<subseteq> set hs' \<Longrightarrow> good_row V hs' r"
  by (auto simp: good_row_def succeeded_as_def)

lemma good_rows_more: "good_rows U hs d \<Longrightarrow> U \<subseteq> V \<Longrightarrow> set hs \<subseteq> set hs' \<Longrightarrow> good_rows V hs' d"
  unfolding good_rows_def using good_row_more by blast

lemma good_rows_put: "good_rows U hs d \<Longrightarrow> good_row U hs r \<Longrightarrow> jd_jobs d' = dict_put j r (jd_jobs d) \<Longrightarrow> good_rows U hs d'"
  by (auto simp: good_rows_def)

lemma handler_call_Nil [simp]:
  "handler_call ph None = []" "\<forall>n a. ph' \<noteq> Returned n a \<Longrightarrow> handler_call ph (Some (job, ph')) = []"
  "\<forall>n. ph \<noteq> Calling n \<Longrightarrow> handler_call ph next = []"
  by (auto simp: handler_call_def split: phase.splits option.splits prod.splits)

text \<open>A step that leaves the repository alone.\<close>

lemma moves_quiet:
  assumes "keyed_jobs d" "good_rows U hs d" "owned_job d job" "jb_execution_token job = Some t"
    and "phase_ok d (hs @ handler_call ph (Some (job, ph'))) job ph'" "claimed_phase ph'" "\<forall>n. ph' \<noteq> Calling n"
  shows "moves U hs t job ph d (d, Some (job, ph'))"
  using assms good_rows_more [OF assms(2), of "insert t U" "hs @ handler_call ph (Some (job, ph'))"]
  by (auto simp: moves_def thread_ok_def)

lemma raised_parts:
  "raised e job (q, d) = (q', d', next) \<Longrightarrow> d' = d \<and> (next = Some (job, Ending) \<or> (\<exists>e. next = Some (job, Failing e)))"
  by (cases e) (auto simp: raised_def guarded_raise_def)

lemma moves_raised:
  assumes "keyed_jobs d" "good_rows U hs d" "owned_job d job" "jb_execution_token job = Some t"
    and "raised e job (q, d) = (q', d', next)"
  shows "moves U hs t job ph d (d', next)"
  using raised_parts [OF assms(5)] moves_quiet [OF assms(1-4), of ph] by auto

text \<open>A transition of the job by the thread: where it leads when it is committed and answered.\<close>

lemma marking_moves:
  assumes I: "keyed_jobs d" "good_rows U hs d" "owned_job d job" "jb_execution_token job = Some t"
    and out: "marking (faulty f (pg_transition fmt (jb_job_id job) ch (Some t) rd) d) job ph q = (q', d', next)"
    and old: "\<forall>n. old \<noteq> Calling n"
    and counted: "\<And>r n. held d job r \<Longrightarrow> jc_attempt_count ch = Some n \<Longrightarrow> jb_attempt_count r \<le> n \<and> n \<le> jb_max_attempts job"
    and success: "\<And>r now. held d job r \<Longrightarrow> jc_target ch = SUCCEEDED \<Longrightarrow> succeeded_as hs (changed_job ch now r)"
    and place: "\<And>r d' now. held d job r \<Longrightarrow> job_row_of d' (jb_job_id job) = Some (changed_job ch now r) \<Longrightarrow> phase_ok d' hs job ph"
    and ph: "claimed_phase ph" "\<And>n r. ph = Calling n \<Longrightarrow> held d job r \<Longrightarrow> jb_attempt_count r < n"
  shows "moves U hs t job old d (d', next)"
proof -
  obtain x e where run: "faulty f (pg_transition fmt (jb_job_id job) ch (Some t) rd) d = (x, e)" by (metis surj_pair)
  have d': "d' = e" and nxt: "case x of Inl err \<Rightarrow> raised err job (q, e) = (q', e, next) | Inr u \<Rightarrow> next = Some (job, ph)"
    using out run by (auto simp: marking_def moved_to_def dest: raised_parts split: sum.splits)
  have quiet: "next = Some (job, Ending) \<or> (\<exists>e. next = Some (job, Failing e))" if "isl x"
    using nxt that by (auto dest: raised_parts split: sum.splits)
  have calls: "handler_call old next = []" using old by simp
  have trans: "(e = d \<and> isl x) \<or> (\<exists>y. pg_transition fmt (jb_job_id job) ch (Some t) rd d = (y, e) \<and> (x = y \<or> isl x))"
    using run by (cases rule: faulty_cases) auto
  show ?thesis
  proof (cases "e = d \<and> isl x")
    case True
    then show ?thesis using quiet moves_quiet [OF I, of old] d' calls by auto
  next
    case False
    with trans obtain y where y: "pg_transition fmt (jb_job_id job) ch (Some t) rd d = (y, e)" "x = y \<or> isl x" by blast
    have fr: "frame (Some t) d e" "keyed_jobs e"
      using pg_transition_frame [OF I(1) y(1)] counted I(4) by (auto simp: held_def)
    have own: "owned_job e job" using owned_frame [OF fr(1) I(3)] .
    show ?thesis
      using y(1)
    proof (cases rule: pg_transition_cases)
      case (refused err)
      then have "isl x" using y(2) by auto
      then show ?thesis using refused(1) quiet moves_quiet [OF I, of old] d' calls by auto
    next
      case (changed r)
      have h: "held d job r" using changed(1,3) I(4) by (simp add: held_def)
      let ?r = "changed_job ch (rd_stamp rd) r"
      have j: "jb_job_id r = jb_job_id job" using I(1) changed(1) by (simp add: keyed_jobs_def)
      have gr: "good_row U hs r" using I(2) changed(1) by (simp add: good_rows_def)
      have max: "jb_max_attempts r = jb_max_attempts job" using I(3) changed(1) by (auto simp: owned_job_def)
      have "good_row U hs ?r"
        using gr counted [OF h] success [OF h, of "rd_stamp rd"] max
        by (auto simp: good_row_def changed_job_def split: option.splits)
      then have rows: "good_rows (insert t U) hs e"
        using good_rows_put [OF I(2) _ changed(4)] good_rows_more [of U hs e "insert t U" hs] by blast
      have row: "job_row_of e (jb_job_id job) = Some ?r" using changed(4) j by simp
      have "\<not> started d (jb_job_id job) n" if "ph = Calling n" for n
        using ph(2) [OF that h] changed(1) by (auto simp: started_def)
      moreover have "isl x \<or> next = Some (job, ph)" using nxt by (cases x) auto
      ultimately show ?thesis
        using quiet fr rows own place [OF h row] ph(1) calls d' I(4)
        by (auto simp: moves_def thread_ok_def)
    qed
  qed
qed

lemma touched_good: "touched r r' \<Longrightarrow> good_row U hs r \<Longrightarrow> good_row U hs r'"
  by (auto simp: touched_def good_row_def succeeded_as_def)

lemma touches_good:
  assumes "touches j d d'" "good_rows U hs d"
  shows "good_rows U hs d'"
proof (cases "d' = d")
  case False
  then obtain r r' where r: "job_row_of d j = Some r" "touched r r'" "jd_jobs d' = dict_put (jb_job_id r) r' (jd_jobs d)"
    using assms(1) by (auto simp: touches_def)
  then show ?thesis using good_rows_put [OF assms(2) touched_good [OF r(2)] r(3)] assms(2) by (auto simp: good_rows_def)
qed (use assms(2) in simp)

text \<open>A step after which the thread is at an end, or at a place that only depends on its held row.\<close>

lemma moves_touch:
  assumes I: "keyed_jobs d" "good_rows U hs d" "owned_job d job" "jb_execution_token job = Some t"
    and d': "touches (jb_job_id job) d d'"
    and place: "next = None \<or> (\<exists>ph'. next = Some (job, ph') \<and> claimed_phase ph' \<and> (\<forall>n. ph' \<noteq> Calling n)
      \<and> (\<forall>n a. ph' \<noteq> Returned n a) \<and> phase_ok d' hs job ph')"
  shows "moves U hs t job ph d (d', next)"
proof -
  note fr = touches_frame(1) [OF I(1) d', of "Some t"] touches_frame(2) [OF I(1) d']
  have "good_rows (insert t U) hs d'"
    using touches_good [OF d' I(2)] by (rule good_rows_more) auto
  moreover have "handler_call ph next = []" using place by auto
  moreover have "owned_job d' job" using owned_frame [OF fr(1) I(3)] .
  ultimately show ?thesis using fr place I(4) by (auto simp: moves_def thread_ok_def)
qed

lemma counts_touch: "touches (jb_job_id job) d d' \<Longrightarrow> keyed_jobs d \<Longrightarrow> jb_execution_token job \<noteq> None \<Longrightarrow> counts d job n \<Longrightarrow> counts d' job n"
  by (auto simp: touches_def counts_def held_def touched_def keyed_jobs_def split: if_splits)

text \<open>A claim.\<close>

lemma reserve_moves:
  assumes I: "keyed_jobs d" "good_rows U hs d"
    and out: "reserve_step (pg_repository fmt sha) en job recovery q d = (q', d', next)"
  shows "moves U hs (en_token en) job (Reserving recovery) d (d', next)"
proof (cases "jb_job_id job \<in> set (tq_active_job_ids q)")
  case True
  then show ?thesis using out I good_rows_more [OF I(2), of "insert (en_token en) U" hs] by (auto simp: reserve_step_def moves_def)
next
  case False
  let ?op = "pg_claim_job fmt (jb_job_id job) (en_token en) (tq_lease_seconds q) recovery (en_readings en)"
  obtain x e where run: "faulty (en_fault en) ?op d = (x, e)" by (metis surj_pair)
  have d': "d' = e" and nxt: "next = (case x of Inr (Some claimed) \<Rightarrow>
      Some (claimed, if jb_max_attempts claimed \<le> jb_attempt_count claimed then Exhausting
        else if en_pool_accepts en then Attempting (max 1 (jb_attempt_count claimed + 1)) else Unscheduled) | _ \<Rightarrow> None)"
    using out run False by (auto simp: reserve_step_def split: sum.splits option.splits if_splits)
  have still: "moves U hs (en_token en) job (Reserving recovery) d (d, None)"
    using I good_rows_more [OF I(2), of "insert (en_token en) U" hs] by (auto simp: moves_def)
  consider "e = d" "\<And>r. x \<noteq> Inr (Some r)" | y where "?op d = (y, e)" "x = y \<or> isl x"
    using run by (cases rule: faulty_cases) auto
  then show ?thesis
  proof cases
    case 1
    then have "next = None" using nxt by (auto split: sum.splits option.splits)
    then show ?thesis using still 1 d' by simp
  next
    case 2
    note fr = pg_claim_frame [OF I(1) 2(1)]
    show ?thesis
      using 2(1)
    proof (cases rule: pg_claim_cases)
      case refused
      then have "next = None" using nxt 2(2) by (auto split: sum.splits option.splits)
      then show ?thesis using still refused(1) d' by simp
    next
      case (granted r)
      let ?r = "claimed_row recovery (en_token en) (rd_lease (en_readings en) + timedelta_micros (tq_lease_seconds q))
        (rd_stamp (en_readings en)) r"
      have j: "jb_job_id r = jb_job_id job" using granted(1) I(1) by (simp add: keyed_jobs_def)
      have r: "good_row U hs r" using I(2) granted(1) by (simp add: good_rows_def)
      then have "good_row (insert (en_token en) U) hs ?r"
        using granted(2) by (auto simp: good_row_def claimed_row_def job_ended_def)
      then have rows: "good_rows (insert (en_token en) U) hs e"
        using good_rows_put [OF _ _ granted(3)] good_rows_more [OF I(2), of "insert (en_token en) U" hs] by blast
      have row: "job_row_of e (jb_job_id job) = Some ?r" using granted(3) j by simp
      have claimed: "jb_job_id (times_as fmt ?r) = jb_job_id job" "jb_execution_token (times_as fmt ?r) = Some (en_token en)"
        "jb_max_attempts ?r = jb_max_attempts r" "jb_attempt_count ?r = jb_attempt_count r"
        using j by (simp_all add: claimed_row_def)
      have own: "owned_job e (times_as fmt ?r)" using row claimed by (simp add: owned_job_def)
      have place: "phase_ok e hs (times_as fmt ?r) (Attempting (max 1 (jb_attempt_count r + 1)))"
        if "jb_attempt_count r < jb_max_attempts r"
        using that r row claimed by (auto simp: permitted_def counts_def held_def good_row_def)
      define c where "c = times_as fmt ?r"
      note claimed = claimed [folded c_def] and own = own [folded c_def] and place = place [folded c_def]
      have c: "jb_max_attempts c = jb_max_attempts r" "jb_attempt_count c = jb_attempt_count r"
        by (simp_all add: c_def claimed_row_def)
      have "next = None \<or> x = Inr (Some c)" using nxt 2(2) granted(4) by (auto simp: c_def split: sum.splits)
      then consider "next = None" | "next = Some (c, Exhausting)" | "next = Some (c, Unscheduled)"
        | "next = Some (c, Attempting (max 1 (jb_attempt_count r + 1)))" "jb_attempt_count r < jb_max_attempts r"
        using nxt c by (auto split: if_splits)
      then show ?thesis
        by cases (use fr rows own place claimed d' in \<open>simp_all add: moves_def thread_ok_def\<close>)
    qed
  qed
qed

text \<open>A mark whose outcome does not matter for where the thread goes.\<close>

lemma mark_moves:
  assumes I: "keyed_jobs d" "good_rows U hs d" "owned_job d job" "jb_execution_token job = Some t"
    and ch: "jc_attempt_count ch = None" "jc_target ch \<noteq> SUCCEEDED"
    and ph: "ph \<in> {Giving_up, Ending}" and old: "\<forall>n. old \<noteq> Calling n"
  shows "moves U hs t job old d (snd (faulty f (pg_transition fmt (jb_job_id job) ch (Some t) rd) d), Some (job, ph))"
proof -
  obtain x e where run: "faulty f (pg_transition fmt (jb_job_id job) ch (Some t) rd) d = (x, e)" by (metis surj_pair)
  obtain q' d' nxt where out: "marking (x, e) job Ending undefined = (q', d', nxt)" by (metis prod_cases3)
  have "d' = e" using out by (auto simp: marking_def moved_to_def dest: raised_parts split: sum.splits)
  moreover have "moves U hs t job old d (d', nxt)"
    using ch by (intro marking_moves [OF I out [folded run] old]) auto
  ultimately have "frame (Some t) d e" "keyed_jobs e" "good_rows (insert t U) hs e"
    using old by (auto simp: moves_def)
  then show ?thesis using ph I(3,4) owned_frame [of "Some t" d e job] old run by (auto simp: moves_def thread_ok_def)
qed

lemma counts_less: "counts d job (n - 1) \<Longrightarrow> held d job r \<Longrightarrow> jb_attempt_count r < n"
  by (auto simp: counts_def)

text \<open>The steps that make a call on a held row, one lemma each.\<close>

lemma renewal_moves:
  assumes I: "keyed_jobs d" "good_rows U hs d" "owned_job d job" "jb_execution_token job = Some t"
    and n: "permitted job n" "counts d job (n - 1)"
    and out: "ensure_execution_lease (pg_repository fmt sha) en job n q d = (q', d', next)"
  shows "moves U hs t job (Attempting n) d (d', next)"
proof -
  let ?renew = "pg_renew_job_lease (jb_job_id job) t (tq_lease_seconds q) (en_readings en)"
  obtain x e where run: "faulty (en_fault en) ?renew d = (x, e)" by (metis surj_pair)
  have e: "touches (jb_job_id job) d e"
    using faulty_touches [of "jb_job_id job" ?renew d "en_fault en"] run pg_renew_touches by simp
  have place: "phase_ok e hs job (Marking n)" using n counts_touch [OF e I(1)] I(4) by simp
  consider "raised lease_lost job (q, d) = (q', d', next)" | "d' = e" "next = Some (job, Marking n)"
    | err q2 where "raised err job (q2, e) = (q', d', next)"
    using out run I(4) by (auto simp: ensure_execution_lease_def moved_to_def split: if_splits sum.splits bool.splits)
  then show ?thesis
  proof cases
    case 1
    then show ?thesis using moves_raised [OF I] by blast
  next
    case 2
    then show ?thesis using moves_touch [OF I e, of "Some (job, Marking n)"] place by simp
  next
    case 3
    then show ?thesis using moves_touch [OF I e, of "next"] raised_parts [OF 3] by auto
  qed
qed

lemma running_moves:
  assumes I: "keyed_jobs d" "good_rows U hs d" "owned_job d job" "jb_execution_token job = Some t"
    and n: "permitted job n" "counts d job (n - 1)"
    and out: "mark_running_step (pg_repository fmt sha) en job n q d = (q', d', next)"
  shows "moves U hs t job (Marking n) d (d', next)"
proof (cases "fence_lost q job")
  case True
  then show ?thesis using out moves_raised [OF I] by (simp add: mark_running_step_def)
next
  case False
  then have m: "marking (faulty (en_fault en)
      (pg_transition fmt (jb_job_id job) (running_change n) (Some t) (en_readings en)) d) job (Calling n) q = (q', d', next)"
    using out I(4) by (simp add: mark_running_step_def mark_running_def)
  show ?thesis
    by (rule marking_moves [OF I m])
       (use n counts_less [OF n(2)] in \<open>auto simp: permitted_def counts_def held_def changed_job_def started_def intro: less_imp_le\<close>)
qed

lemma retry_moves:
  assumes I: "keyed_jobs d" "good_rows U hs d" "owned_job d job" "jb_execution_token job = Some t"
    and n: "permitted job (n + 1)" "counts d job n"
    and out: "retry_step (pg_repository fmt sha) en job n q d = (q', d', next)"
  shows "moves U hs t job (Waiting n) d (d', next)"
proof -
  consider "raised lease_lost job (q, d) = (q', d', next)" | "d' = d" "next = Some (job, Attempting (n + 1))"
    | err where "marking (faulty (en_fault en)
        (pg_transition fmt (jb_job_id job) (failed_change err) (Some t) (en_readings en)) d) job Ending q = (q', d', next)"
    using out I(4) by (auto simp: retry_step_def mark_failed_def moved_to_def split: if_splits)
  then show ?thesis
  proof cases
    case 1
    then show ?thesis using moves_raised [OF I] by blast
  next
    case 2
    then show ?thesis using moves_quiet [OF I, of "Waiting n" "Attempting (n + 1)"] n by simp
  next
    case 3
    then show ?thesis by (intro marking_moves [OF I 3]) simp_all
  qed
qed

lemma result_moves:
  assumes I: "keyed_jobs d" "good_rows U hs d" "owned_job d job" "jb_execution_token job = Some t"
    and n: "permitted job n" "counts d job n" "\<lparr>ha_job_id = jb_job_id job, ha_attempt = n, ha_answer = a\<rparr> \<in> set hs"
    and out: "result_step (pg_repository fmt sha) en job n a q d = (q', d', next)"
  shows "moves U hs t job (Returned n a) d (d', next)"
proof -
  let ?mark = "\<lambda>ch. faulty (en_fault en) (pg_transition fmt (jb_job_id job) ch (Some t) (en_readings en)) d"
  consider err where "raised err job (q, d) = (q', d', next)"
    | ev p where "n < jb_max_attempts job" "marking (?mark (queued_change ev p)) job (Waiting n) q = (q', d', next)"
    | p where "marking (?mark (failed_change p)) job Ending q = (q', d', next)"
    | v where "a = Inr v" "marking (?mark (succeeded_change v)) job Ending q = (q', d', next)"
    using out I(4)
    by (auto simp: result_step_def mark_failed_def mark_succeeded_def mark_retry_scheduled_def
        split: if_splits sum.splits job_error.splits)
  then show ?thesis
  proof cases
    case 1
    then show ?thesis using moves_raised [OF I] by blast
  next
    case 2
    have "phase_ok d2 hs job (Waiting n)" if "held d job r" "job_row_of d2 (jb_job_id job) = Some (changed_job (queued_change ev p) now r)" for r d2 now
      using that n 2 by (auto simp: permitted_def counts_def held_def changed_job_def job_ended_def)
    then show ?thesis using 2 by (intro marking_moves [OF I 2(2)]) simp_all
  next
    case 3
    then show ?thesis by (intro marking_moves [OF I 3]) simp_all
  next
    case 4
    have "succeeded_as hs (changed_job (succeeded_change v) now r)" if "held d job r" for r now
      using that n I(1) 4 by (auto simp: succeeded_as_def changed_job_def held_def counts_def keyed_jobs_def)
    then show ?thesis using 4 by (intro marking_moves [OF I 4(2)]) simp_all
  qed
qed

lemma thread_step_moves:
  assumes I: "keyed_jobs d" "good_rows U hs d" "thread_ok d hs (job, ph)"
    and t: "claimed_phase ph \<Longrightarrow> jb_execution_token job = Some t" "\<not> claimed_phase ph \<Longrightarrow> t = en_token en"
    and out: "thread_step (pg_repository fmt sha) en job ph q d = (q', d', next)"
  shows "moves U hs t job ph d (d', next)"
proof (cases "claimed_phase ph")
  case False
  then obtain c where "ph = Reserving c" by (cases ph) auto
  then show ?thesis using reserve_moves [OF I(1,2)] out t(2) by simp
next
  case True
  have own: "owned_job d job" and ok: "phase_ok d hs job ph" using True I(3) by (simp_all add: thread_ok_def)
  note tok = t(1) [OF True]
  note R = I(1,2) own tok
  have release: "touches (jb_job_id job) d (release_step (pg_repository fmt sha) en job d)"
    by (simp add: release_step_def faulty_touches pg_release_touches)
  note step = renewal_moves [OF R] running_moves [OF R] retry_moves [OF R] result_moves [OF R]
  show ?thesis
  proof (cases ph)
    case Exhausting
    then show ?thesis using out mark_moves [OF R, of _ Giving_up] tok
      by (auto simp: exhausted_step_def mark_failed_def)
  next
    case (Calling n)
    then show ?thesis
      using out moves_raised [OF R] moves_quiet [OF R, of "Calling n" "Returned n (en_answer en)"] ok
      by (auto simp: handler_step_def moved_to_def handler_call_def split: if_splits)
  next
    case (Failing e)
    then show ?thesis using out moves_quiet [OF R, of "Failing e"]
      by (auto simp: failure_lookup_step_def moved_to_def split: if_splits option.splits)
  next
    case (Failing_mark e)
    then show ?thesis using out mark_moves [OF R, of _ Ending] moves_quiet [OF R, of "Failing_mark e" Ending] tok
      by (auto simp: failure_mark_step_def mark_failed_def moved_to_def split: if_splits)
  next
    case Ending
    then show ?thesis using out moves_quiet [OF R, of Ending Releasing] by (simp add: moved_to_def)
  next
    case (Attempting n)
    show ?thesis using out ok unfolding Attempting by (intro step(1)) simp_all
  next
    case (Marking n)
    show ?thesis using out ok unfolding Marking by (intro step(2)) simp_all
  next
    case (Waiting n)
    show ?thesis using out ok unfolding Waiting by (intro step(3)) simp_all
  next
    case (Returned n a)
    show ?thesis using out ok unfolding Returned by (intro step(4)) simp_all
  qed (use True out moves_touch [OF R release] in auto)
qed

end
