(* ===== verification/Task_Permits.thy ===== *)
theory Task_Permits
  imports Task_Queue Scoped_Runs
begin

text \<open>
  The capacity of a process, over any job repository: a permit is taken for a thread before the thread
  exists and given back when it is done, so permits and threads always add up to the capacity; and
  each active job is the job of a running thread, so a page of a recovery pass is longer than the list
  of active jobs and the pass cannot be starved by them.
\<close>

type_synonym queue_call = "nat \<times> action \<times> environment"

section \<open>What a step does to the process\<close>

text \<open>A step of a thread that exists.\<close>

lemma advance_parts:
  obtains (idle) "advance_thread rp en i s = s"
    | (step) pre th post q d nxt where "qf_threads s = pre @ th # post" "th_process th < length (qf_queues s)"
        "thread_step rp en (th_job th) (th_phase th) (qf_queues s ! th_process th) (qf_db s) = (q, d, nxt)"
        "advance_thread rp en i s = s\<lparr>qf_db := d,
           qf_queues := (qf_queues s)[th_process th := (if nxt = None then add_permit q else q)],
           qf_threads := pre @ new_threads (th_process th) nxt @ post,
           qf_handled := qf_handled s @ handler_call (th_phase th) nxt\<rparr>"
proof (cases "i < length (qf_threads s) \<and> th_process (qf_threads s ! i) < length (qf_queues s)")
  case False
  then show thesis using idle by (auto simp: advance_thread_def)
next
  case True
  define th where "th = qf_threads s ! i"
  obtain q d nxt where run: "thread_step rp en (th_job th) (th_phase th) (qf_queues s ! th_process th) (qf_db s) = (q, d, nxt)"
    by (metis prod_cases3)
  have "qf_threads s = take i (qf_threads s) @ th # drop (Suc i) (qf_threads s)"
    using True by (simp add: th_def id_take_nth_drop)
  then show thesis using True run by (intro step) (simp_all add: advance_thread_def Let_def th_def)
qed

text \<open>The phases in which the job of a thread is among the active ones.\<close>

fun enlisted :: "phase \<Rightarrow> bool" where
  "enlisted (Reserving c) = False"
| "enlisted Exhausting = False"
| "enlisted Giving_up = False"
| "enlisted Releasing = False"
| "enlisted ph = True"

definition steady :: "task_queue \<Rightarrow> task_queue \<Rightarrow> bool" where
  "steady q q' =
     (tq_permits q' = tq_permits q \<and> tq_capacity_limit q' = tq_capacity_limit q
      \<and> tq_active_job_ids q' = tq_active_job_ids q)"

lemma steady_simps [simp]:
  "steady q q" "steady q (latch_execution_lost j t q)" "steady q (latch_execution_lost j t (q\<lparr>tq_owned := os\<rparr>))"
  by (simp_all add: steady_def latch_execution_lost_def)

text \<open>Where a step leads when it neither claims nor forgets a job.\<close>

definition stays :: "JobRecord \<Rightarrow> task_queue \<Rightarrow> task_queue \<times> 'd \<times> (JobRecord \<times> phase) option \<Rightarrow> bool" where
  "stays job q out = (steady q (fst out) \<and> (\<exists>ph'. snd (snd out) = Some (job, ph') \<and> enlisted ph'))"

lemma stays_raised [simp]: "steady q (fst s) \<Longrightarrow> stays job q (raised e job s)"
  by (cases e) (auto simp: stays_def raised_def guarded_raise_def steady_def latch_execution_lost_def)

lemma stays_moved [simp]: "enlisted ph \<Longrightarrow> steady q (fst s) \<Longrightarrow> stays job q (moved_to job ph s)"
  by (simp add: stays_def moved_to_def)

lemma stays_marking [simp]: "enlisted ph \<Longrightarrow> stays job q (marking out job ph q)"
  by (auto simp: marking_def split: prod.split sum.split)

lemma thread_step_stays:
  assumes "enlisted ph" "ph \<noteq> Unscheduled" "ph \<noteq> Ending"
  shows "stays job q (thread_step rp en job ph q d)"
  using assms
  by (cases ph)
     (auto simp: ensure_execution_lease_def mark_running_step_def handler_step_def result_step_def retry_step_def
        failure_lookup_step_def failure_mark_step_def split: prod.split sum.split bool.split option.split job_error.split)

lemma forget_simps [simp]:
  "tq_permits (forget job q) = tq_permits q" "tq_capacity_limit (forget job q) = tq_capacity_limit q"
  "set (tq_active_job_ids (forget job q)) = set (tq_active_job_ids q) - {jb_job_id job}"
  "distinct (tq_active_job_ids q) \<Longrightarrow> distinct (tq_active_job_ids (forget job q))"
  by (auto simp: forget_def)

lemma enlist_simps [simp]:
  "tq_permits (enlist job t q) = tq_permits q" "tq_capacity_limit (enlist job t q) = tq_capacity_limit q"
  "set (tq_active_job_ids (enlist job t q)) = insert (jb_job_id job) (set (tq_active_job_ids q))"
  "distinct (tq_active_job_ids q) \<Longrightarrow> distinct (tq_active_job_ids (enlist job t q))"
  by (auto simp: enlist_def)

definition running_ids :: "(JobRecord \<times> phase) option \<Rightarrow> string set" where
  "running_ids nxt = (case nxt of Some (job, ph) \<Rightarrow> if enlisted ph then {jb_job_id job} else {} | None \<Rightarrow> {})"

lemma thread_step_queue:
  assumes "thread_step rp en job ph q d = (q', d', nxt)" "distinct (tq_active_job_ids q)"
  shows "tq_permits q' = tq_permits q \<and> tq_capacity_limit q' = tq_capacity_limit q \<and> distinct (tq_active_job_ids q')
    \<and> set (tq_active_job_ids q') \<subseteq> set (tq_active_job_ids q) - (if enlisted ph then {jb_job_id job} else {}) \<union> running_ids nxt"
proof (cases "enlisted ph \<and> ph \<noteq> Unscheduled \<and> ph \<noteq> Ending")
  case True
  then have "stays job q (q', d', nxt)" using thread_step_stays [of ph job q rp en d] assms(1) by simp
  then show ?thesis using assms(2) by (auto simp: stays_def steady_def running_ids_def)
next
  case False
  then consider c where "ph = Reserving c" | "ph \<in> {Exhausting, Giving_up, Releasing}" | "ph \<in> {Unscheduled, Ending}"
    by (cases ph) auto
  then show ?thesis
  proof cases
    case 1
    then show ?thesis using assms
      by (auto simp: reserve_step_def running_ids_def split: if_splits prod.splits sum.splits option.splits)
  qed (use assms in \<open>auto simp: exhausted_step_def moved_to_def running_ids_def\<close>)
qed

lemma queue_action_queue:
  assumes "queue_action rp en act q d = (r, q', d', nxt)"
  shows "tq_capacity_limit q' = tq_capacity_limit q \<and> tq_active_job_ids q' = tq_active_job_ids q
    \<and> (if nxt = None then tq_permits q' = tq_permits q
       else 0 < tq_permits q \<and> tq_permits q' = tq_permits q - 1 \<and> running_ids nxt = {})"
proof (cases act)
  case (Submit a)
  then show ?thesis using assms
    by (auto simp: submit_task_def Let_def running_ids_def split: if_splits prod.splits sum.splits bool.splits option.splits)
next
  case (Dispatch name job_id)
  then show ?thesis using assms
    by (auto simp: handle_dispatch_message_def running_ids_def split: prod.splits if_splits sum.splits option.splits)
next
  case Renew_next
  then show ?thesis using assms
    by (auto simp: heartbeat_next_def latch_execution_lost_def split: prod.splits sum.splits bool.splits list.splits if_splits)
qed (use assms in \<open>auto simp: register_def recovery_scan_def recovery_next_def heartbeat_scan_def shutdown_def Let_def
       running_ids_def split: if_splits prod.splits sum.splits list.splits\<close>)

section \<open>Permits\<close>

definition threads_of :: "nat \<Rightarrow> thread list \<Rightarrow> thread list" where
  "threads_of p ths = filter (\<lambda>th. th_process th = p) ths"

definition ids_of :: "thread list \<Rightarrow> string set" where
  "ids_of ths = {jb_job_id (th_job th) | th. th \<in> set ths \<and> enlisted (th_phase th)}"

definition balanced :: "int \<Rightarrow> task_queue \<Rightarrow> thread list \<Rightarrow> bool" where
  "balanced limit q ths =
     (tq_capacity_limit q = limit \<and> 0 \<le> tq_permits q \<and> tq_permits q + int (length ths) = limit
      \<and> distinct (tq_active_job_ids q) \<and> set (tq_active_job_ids q) \<subseteq> ids_of ths)"

definition permits_inv :: "task_queue list \<Rightarrow> 'd queue_fleet \<Rightarrow> bool" where
  "permits_inv qs s =
     (length (qf_queues s) = length qs
      \<and> (\<forall>p < length qs. balanced (tq_capacity_limit (qs ! p)) (qf_queues s ! p) (threads_of p (qf_threads s))))"

lemma threads_of_simps [simp]:
  "threads_of p [] = []" "threads_of p (xs @ ys) = threads_of p xs @ threads_of p ys"
  "threads_of p (th # ths) = (if th_process th = p then [th] else []) @ threads_of p ths"
  "threads_of p (new_threads p' nxt) = (if p' = p then new_threads p nxt else [])"
  by (auto simp: threads_of_def new_threads_def split: option.split)

lemma ids_of_simps [simp]:
  "ids_of [] = {}" "ids_of (xs @ ys) = ids_of xs \<union> ids_of ys"
  "ids_of (th # ths) = (if enlisted (th_phase th) then {jb_job_id (th_job th)} else {}) \<union> ids_of ths"
  "ids_of (new_threads p nxt) = running_ids nxt"
  by (auto simp: ids_of_def running_ids_def new_threads_def split: option.split)

lemma length_new_threads [simp]: "length (new_threads p nxt) = (if nxt = None then 0 else 1)"
  by (auto simp: new_threads_def split: option.split)

lemma active_le:
  assumes "balanced limit q ths"
  shows "length (tq_active_job_ids q) \<le> length ths"
proof -
  have "ids_of ths \<subseteq> (\<lambda>th. jb_job_id (th_job th)) ` set ths" by (auto simp: ids_of_def)
  then have "card (set (tq_active_job_ids q)) \<le> card ((\<lambda>th. jb_job_id (th_job th)) ` set ths)"
    using assms by (intro card_mono) (auto simp: balanced_def)
  also have "\<dots> \<le> length ths" using card_image_le [of "set ths"] card_length [of ths] by (meson finite_set le_trans)
  finally show ?thesis using assms by (simp add: balanced_def distinct_card)
qed

lemma permits_advance:
  assumes inv: "permits_inv qs s"
  shows "permits_inv qs (advance_thread rp en i s)"
proof (cases rule: advance_parts [of rp en i s])
  case (step pre th post q d nxt)
  let ?p = "th_process th"
  have p: "balanced (tq_capacity_limit (qs ! ?p)) (qf_queues s ! ?p) (threads_of ?p pre @ th # threads_of ?p post)"
    using inv [unfolded permits_inv_def step(1), THEN conjunct2, rule_format, of ?p] inv step(2) by (simp add: permits_inv_def)
  have "balanced (tq_capacity_limit (qs ! ?p)) (if nxt = None then add_permit q else q)
      (threads_of ?p pre @ new_threads ?p nxt @ threads_of ?p post)"
    using p thread_step_queue [OF step(3)] by (auto simp: balanced_def add_permit_def split: if_splits)
  then show ?thesis using inv step(1,2) unfolding step(4) by (auto simp: permits_inv_def nth_list_update)
qed (use inv in simp)

lemma permits_step:
  assumes inv: "permits_inv qs s"
  shows "permits_inv qs (snd (queue_step rp c s))"
proof -
  obtain p act en where c: "c = (p, act, en)" by (metis prod_cases3)
  show ?thesis
  proof (cases "(\<exists>i. act = Advance i) \<or> length (qf_queues s) \<le> p")
    case True
    then show ?thesis using inv permits_advance [OF inv] by (cases act) (auto simp: c)
  next
    case False
    obtain r q d nxt where out: "queue_action rp en act (qf_queues s ! p) (qf_db s) = (r, q, d, nxt)"
      by (metis prod_cases4)
    have "balanced (tq_capacity_limit (qs ! p)) (qf_queues s ! p) (threads_of p (qf_threads s))"
      using inv False by (simp add: permits_inv_def)
    then have "balanced (tq_capacity_limit (qs ! p)) q (threads_of p (qf_threads s) @ new_threads p nxt)"
      using queue_action_queue [OF out] by (auto simp: balanced_def split: if_splits)
    then have "permits_inv qs (s\<lparr>qf_db := d, qf_queues := (qf_queues s)[p := q], qf_threads := qf_threads s @ new_threads p nxt\<rparr>)"
      using inv False by (auto simp: permits_inv_def nth_list_update)
    then show ?thesis using False out by (cases act) (auto simp: c)
  qed
qed

lemma permits_run:
  "permits_inv qs s \<Longrightarrow> permits_inv qs (snd (run_calls (queue_step rp) cs s))"
  by (induction cs arbitrary: s) (simp_all add: permits_step)

lemma new_task_queue_parts:
  assumes "new_task_queue workers waiting n delay lease poll durable = Inr q"
  shows "1 \<le> tq_capacity_limit q \<and> tq_capacity_limit q \<le> 9999 \<and> balanced (tq_capacity_limit q) q []"
  using assms by (auto simp: new_task_queue_def guarded_def balanced_def split: if_splits)

definition made :: "task_queue \<Rightarrow> bool" where
  "made q = (\<exists>workers waiting n delay lease poll durable. new_task_queue workers waiting n delay lease poll durable = Inr q)"

lemma permits_start: "\<forall>q \<in> set qs. made q \<Longrightarrow> permits_inv qs (start_queues d qs)"
  using new_task_queue_parts by (force simp: permits_inv_def start_queues_def made_def)

abbreviation queue_run :: "'d job_repository \<Rightarrow> 'd \<Rightarrow> task_queue list \<Rightarrow> queue_call list \<Rightarrow> 'd queue_fleet" where
  "queue_run rp d qs cs \<equiv> snd (run_calls (queue_step rp) cs (start_queues d qs))"

section \<open>A small fleet\<close>

definition small_queue :: task_queue where
  "small_queue =
     \<lparr>tq_handlers = [], tq_durable_dispatch = False, tq_default_max_attempts = 3, tq_retry_delay_seconds = 0,
      tq_lease_seconds = 30, tq_capacity_limit = 1, tq_permits = 1, tq_active_job_ids = [], tq_execution_tokens = [],
      tq_execution_fences = [], tq_shutdown = False, tq_page = [], tq_owned = []\<rparr>"

definition small_env :: "string \<Rightarrow> environment" where
  "small_env token =
     \<lparr>en_readings = \<lparr>rd_now = 0, rd_lease = 0, rd_stamp = 0, rd_event = 0\<rparr>, en_fault = None, en_token = token,
      en_pool_accepts = True, en_answer = Inr (JInt 7), en_saw_shutdown = False\<rparr>"

definition small_submission :: submission_args where
  "small_submission =
     \<lparr>sa_task_name = ''t'', sa_payload = [], sa_idempotency_key = Some ''k'', sa_request_id = ''r'',
      sa_max_attempts = None, sa_new_id = ''j'', sa_published = None\<rparr>"

text \<open>A task is registered and submitted, and its thread runs to the end; the task is submitted again.\<close>

definition small_calls :: "queue_call list" where
  "small_calls =
     [(0, Register ''t'', small_env ''a''), (0, Submit small_submission, small_env ''b''),
      (0, Advance 0, small_env ''c''), (0, Advance 0, small_env ''d''), (0, Advance 0, small_env ''e''),
      (0, Advance 0, small_env ''f''), (0, Advance 0, small_env ''g''), (0, Advance 0, small_env ''h''),
      (0, Advance 0, small_env ''i''), (0, Submit small_submission, small_env ''l'')]"

lemma small_queue_made: "made small_queue"
proof -
  have "new_task_queue 1 0 3 0 30 1 False = Inr small_queue"
    by (simp add: new_task_queue_def guarded_def small_queue_def)
  then show ?thesis unfolding made_def by blast
qed

lemma small_lease: "timedelta_micros 30 = 30000000"
  by code_simp

lemma strip_small: "py_strip ''t'' = ''t''" "py_strip ''k'' = ''k''" "py_strip ''c'' = ''c''"
  by code_simp+

lemmas queue_code = queue_step.simps advance_thread_def submit_task_def register_def reserve_step_def ensure_execution_lease_def
  mark_running_step_def handler_step_def result_step_def retry_step_def release_step_def marking_def raised_def moved_to_def
  faulty_def fence_lost_def enlist_def forget_def add_permit_def new_threads_def handler_call_def
  pg_create_or_get_job_def pg_claim_job_def pg_renew_job_lease_def pg_release_job_lease_def pg_transition_def
  mark_running_def mark_succeeded_def mark_failed_def holds_lease_def validate_lease_def unclaimed_def put_job_def append_job_event_def
  changed_job_def times_as_def new_job_row_def job_by_key_def validate_existing_job_def normalize_idempotency_key_def allowed_transitions_def
  job_ended_def

text \<open>
  C15. Permits are never lost, and capacity is never exceeded. Over any repository and any steps, the
  permits of a process are between zero and its capacity, together with its threads they are exactly
  the capacity it was made with (at most 9999), and there are never more active jobs than threads.
\<close>

theorem permits_are_never_lost:
  assumes "\<forall>q \<in> set qs. made q" "p < length qs"
  shows "0 \<le> tq_permits (qf_queues (queue_run rp d qs cs) ! p)
    \<and> tq_permits (qf_queues (queue_run rp d qs cs) ! p) + int (length (threads_of p (qf_threads (queue_run rp d qs cs))))
        = tq_capacity_limit (qs ! p)
    \<and> length (tq_active_job_ids (qf_queues (queue_run rp d qs cs) ! p)) \<le> length (threads_of p (qf_threads (queue_run rp d qs cs)))
    \<and> tq_capacity_limit (qs ! p) \<le> 9999"
proof -
  have "permits_inv qs (queue_run rp d qs cs)" by (intro permits_run permits_start assms)
  then have b: "balanced (tq_capacity_limit (qs ! p)) (qf_queues (queue_run rp d qs cs) ! p)
      (threads_of p (qf_threads (queue_run rp d qs cs)))"
    using assms(2) by (simp add: permits_inv_def)
  moreover have "tq_capacity_limit (qs ! p) \<le> 9999"
    using assms(1,2) new_task_queue_parts nth_mem unfolding made_def by blast
  ultimately show ?thesis using active_le [OF b] by (simp add: balanced_def)
qed

theorem permits_are_never_lost_witness:
  "0 \<le> tq_permits (qf_queues (queue_run (pg_repository (\<lambda>t. []) id) empty_jobs [small_queue] (take 4 small_calls)) ! 0)
    \<and> tq_permits (qf_queues (queue_run (pg_repository (\<lambda>t. []) id) empty_jobs [small_queue] (take 4 small_calls)) ! 0)
        + int (length (threads_of 0 (qf_threads (queue_run (pg_repository (\<lambda>t. []) id) empty_jobs [small_queue] (take 4 small_calls)))))
      = tq_capacity_limit ([small_queue] ! 0)"
  using permits_are_never_lost [where qs = "[small_queue]" and p = 0 and cs = "take 4 small_calls"
      and rp = "pg_repository (\<lambda>t. []) id" and d = empty_jobs] small_queue_made
  by simp

end
