(* ===== verification/Task_Runs.thy ===== *)
theory Task_Runs
  imports Task_Threads Task_Permits
begin

text \<open>
  What a fleet of task queues over one repository promises, whatever the interleaving of its steps,
  the failures of the repository and the clocks: every attempt of a job is handed to a handler
  once, ended jobs are final and hold what a handler answered, and permits are never lost.
\<close>

section \<open>The fleet\<close>

definition held_tokens :: "thread list \<Rightarrow> string list" where
  "held_tokens ths =
     concat (map (\<lambda>th. case jb_execution_token (th_job th) of
       Some t \<Rightarrow> if claimed_phase (th_phase th) then [t] else [] | None \<Rightarrow> []) ths)"

definition calling :: "thread list \<Rightarrow> (string \<times> int) list" where
  "calling ths =
     concat (map (\<lambda>th. case th_phase th of Calling n \<Rightarrow> [(jb_job_id (th_job th), n)] | _ \<Rightarrow> []) ths)"

abbreviation handled_pairs :: "handled list \<Rightarrow> (string \<times> int) list" where
  "handled_pairs hs \<equiv> map (\<lambda>h. (ha_job_id h, ha_attempt h)) hs"

definition queues_inv :: "string set \<Rightarrow> int job_db queue_fleet \<Rightarrow> bool" where
  "queues_inv U s =
     (keyed_jobs (qf_db s) \<and> good_rows U (qf_handled s) (qf_db s)
      \<and> (\<forall>th \<in> set (qf_threads s). thread_ok (qf_db s) (qf_handled s) (th_job th, th_phase th))
      \<and> set (held_tokens (qf_threads s)) \<subseteq> U \<and> distinct (held_tokens (qf_threads s))
      \<and> (\<forall>h \<in> set (qf_handled s). 1 \<le> ha_attempt h \<and> started (qf_db s) (ha_job_id h) (ha_attempt h))
      \<and> distinct (handled_pairs (qf_handled s) @ calling (qf_threads s)))"

lemma held_tokens_append: "held_tokens (xs @ ys) = held_tokens xs @ held_tokens ys"
  by (simp add: held_tokens_def)

lemma calling_append: "calling (xs @ ys) = calling xs @ calling ys"
  by (simp add: calling_def)

lemma held_token_of:
  "th \<in> set ths \<Longrightarrow> claimed_phase (th_phase th) \<Longrightarrow> jb_execution_token (th_job th) = Some t \<Longrightarrow> t \<in> set (held_tokens ths)"
  by (force simp: held_tokens_def)

lemma calling_started:
  "p \<in> set (calling ths) \<Longrightarrow> \<forall>th \<in> set ths. thread_ok d hs (th_job th, th_phase th) \<Longrightarrow> started d (fst p) (snd p)"
  by (auto simp: calling_def thread_ok_def split: phase.splits) (metis phase_ok.simps(3))

text \<open>A change of the repository that is not made by a thread.\<close>

lemma queues_inv_db:
  assumes inv: "queues_inv U s" and d: "frame None (qf_db s) d" "keyed_jobs d" "good_rows U (qf_handled s) d"
  shows "queues_inv U (s\<lparr>qf_db := d, qf_queues := qs\<rparr>)"
proof -
  have "thread_ok d (qf_handled s) (th_job th, th_phase th)" if "th \<in> set (qf_threads s)" for th
  proof -
    have ok: "thread_ok (qf_db s) (qf_handled s) (th_job th, th_phase th)" using inv that by (simp add: queues_inv_def)
    show ?thesis using ok by (intro thread_ok_frame [OF d(1) _ _ ok]) (auto simp: thread_ok_def owned_job_def)
  qed
  then show ?thesis using inv d started_frame [OF d(1)] by (auto simp: queues_inv_def)
qed

lemma queues_inv_reserving:
  "queues_inv U s \<Longrightarrow> queues_inv U (s\<lparr>qf_queues := qs, qf_threads := qf_threads s @ [\<lparr>th_process = p, th_job = job, th_phase = Reserving c\<rparr>]\<rparr>)"
  by (auto simp: queues_inv_def held_tokens_append calling_append held_tokens_def calling_def thread_ok_def split: option.splits)

lemma queues_inv_more: "queues_inv U s \<Longrightarrow> U \<subseteq> V \<Longrightarrow> queues_inv V s"
  unfolding queues_inv_def using good_rows_more [of U _ _ V] by blast

lemma handler_call_cases:
  assumes "thread_step rp en job ph q d = (q', d', nxt)"
  obtains (silent) "handler_call ph nxt = []" "\<And>n. ph = Calling n \<Longrightarrow> \<forall>m job'. nxt \<noteq> Some (job', Calling m)"
    | (call) n where "ph = Calling n" "d' = d" "nxt = Some (job, Returned n (en_answer en))"
        "handler_call ph nxt = [\<lparr>ha_job_id = jb_job_id job, ha_attempt = n, ha_answer = en_answer en\<rparr>]"
proof (cases "\<exists>n. ph = Calling n")
  case True
  then obtain n where n: "ph = Calling n" by blast
  then have "d' = d \<and> (nxt = Some (job, Returned n (en_answer en)) \<or> nxt = Some (job, Ending) \<or> (\<exists>e. nxt = Some (job, Failing e)))"
    using assms by (auto simp: handler_step_def moved_to_def dest: raised_parts split: if_splits)
  then show thesis using that n by (auto simp: handler_call_def)
qed (use that(1) in simp)

lemma moves_Some:
  assumes "moves U hs t job ph d (d', Some (job', ph'))"
  shows "thread_ok d' (hs @ handler_call ph (Some (job', ph'))) (job', ph')" "claimed_phase ph'"
    "jb_execution_token job' = Some t" "jb_job_id job' = jb_job_id job"
    "ph' = Calling n \<Longrightarrow> \<not> started d (jb_job_id job) n"
  using assms by (simp_all add: moves_def)

lemma held_new: "held_tokens (new_threads p nxt) = (case nxt of None \<Rightarrow> [] | Some (job, ph) \<Rightarrow>
    case jb_execution_token job of Some t \<Rightarrow> if claimed_phase ph then [t] else [] | None \<Rightarrow> [])"
  by (simp add: held_tokens_def new_threads_def split: option.split prod.split)

lemma calling_new: "calling (new_threads p nxt) =
    (case nxt of Some (job, Calling n) \<Rightarrow> [(jb_job_id job, n)] | _ \<Rightarrow> [])"
  by (simp add: calling_def new_threads_def split: option.split prod.split phase.split)

text \<open>A step of a thread that exists, in terms of what the thread may do.\<close>

lemma advance_cases:
  assumes inv: "queues_inv U s"
  obtains (idle) "advance_thread (pg_repository fmt sha) en i s = s"
    | (step) pre th post t q d nxt where "qf_threads s = pre @ th # post"
        "thread_step (pg_repository fmt sha) en (th_job th) (th_phase th) (qf_queues s ! th_process th) (qf_db s) = (q, d, nxt)"
        "advance_thread (pg_repository fmt sha) en i s = s\<lparr>qf_db := d,
           qf_queues := (qf_queues s)[th_process th := (if nxt = None then add_permit q else q)],
           qf_threads := pre @ new_threads (th_process th) nxt @ post,
           qf_handled := qf_handled s @ handler_call (th_phase th) nxt\<rparr>"
        "claimed_phase (th_phase th) \<Longrightarrow> jb_execution_token (th_job th) = Some t"
        "\<not> claimed_phase (th_phase th) \<Longrightarrow> t = en_token en"
        "moves U (qf_handled s) t (th_job th) (th_phase th) (qf_db s) (d, nxt)"
proof (cases rule: advance_parts [of "pg_repository fmt sha" en i s])
  case (step pre th post q d nxt)
  have ok: "thread_ok (qf_db s) (qf_handled s) (th_job th, th_phase th)"
    and I: "keyed_jobs (qf_db s)" "good_rows U (qf_handled s) (qf_db s)"
    using inv step(1) by (auto simp: queues_inv_def)
  define t where "t = (if claimed_phase (th_phase th) then the (jb_execution_token (th_job th)) else en_token en)"
  have tok: "jb_execution_token (th_job th) = Some t" if "claimed_phase (th_phase th)"
    using ok that by (auto simp: thread_ok_def owned_job_def t_def)
  have "moves U (qf_handled s) t (th_job th) (th_phase th) (qf_db s) (d, nxt)"
    using thread_step_moves [OF I ok tok _ step(3)] by (simp add: t_def)
  then show thesis using that(2) [OF step(1,3,4) tok] by (simp add: t_def)
qed (use that(1) in simp)

text \<open>The tokens of the threads after the step.\<close>

lemma moved_tokens:
  assumes mv: "moves U hs t job ph d (d', nxt)"
    and tok: "claimed_phase (th_phase th) \<Longrightarrow> jb_execution_token (th_job th) = Some t"
      "\<not> claimed_phase (th_phase th) \<Longrightarrow> t = a" and fresh: "a \<notin> V"
    and inv: "set (held_tokens (pre @ th # post)) \<subseteq> V" "distinct (held_tokens (pre @ th # post))"
  shows "t \<notin> set (held_tokens (pre @ post))" "t \<in> insert a V"
    "set (held_tokens (pre @ new_threads p nxt @ post)) \<subseteq> insert a V"
    "distinct (held_tokens (pre @ new_threads p nxt @ post))"
proof -
  have tokens: "held_tokens (pre @ th # post) = held_tokens pre @ (if claimed_phase (th_phase th) then [t] else []) @ held_tokens post"
    using tok by (simp add: held_tokens_append) (auto simp: held_tokens_def split: option.splits)
  show others: "t \<notin> set (held_tokens (pre @ post))" and t: "t \<in> insert a V"
    using inv fresh tok(2) unfolding tokens by (auto simp: held_tokens_append split: if_splits)
  have new: "held_tokens (new_threads p nxt) = [] \<or> held_tokens (new_threads p nxt) = [t]"
  proof (cases nxt)
    case (Some jp)
    then obtain job' ph' where jp: "nxt = Some (job', ph')" by (cases jp) simp
    show ?thesis using moves_Some(2,3) [OF mv [unfolded jp]] by (simp add: held_new jp)
  qed (simp add: held_new)
  show "set (held_tokens (pre @ new_threads p nxt @ post)) \<subseteq> insert a V"
    "distinct (held_tokens (pre @ new_threads p nxt @ post))"
    using new others inv t unfolding tokens by (auto simp: held_tokens_append split: if_splits)
qed

text \<open>The handler calls made and about to be made after the step.\<close>

lemma moved_calls:
  assumes mv: "moves U hs t (th_job th) (th_phase th) d (d', nxt)"
    and run: "thread_step rp en (th_job th) (th_phase th) q d = (q', d', nxt)"
    and ok: "\<forall>u \<in> set (pre @ th # post). thread_ok d hs (th_job u, th_phase u)"
    and handled: "\<forall>h \<in> set hs. 1 \<le> ha_attempt h \<and> started d (ha_job_id h) (ha_attempt h)"
    and pairs: "distinct (handled_pairs hs @ calling (pre @ th # post))"
  shows "(\<forall>h \<in> set (hs @ handler_call (th_phase th) nxt). 1 \<le> ha_attempt h \<and> started d' (ha_job_id h) (ha_attempt h))
    \<and> distinct (handled_pairs (hs @ handler_call (th_phase th) nxt) @ calling (pre @ new_threads p nxt @ post))"
proof -
  note fr = mv [unfolded moves_def fst_conv snd_conv, THEN conjunct1]
  have old: "started d (fst p) (snd p)" if "p \<in> set (handled_pairs hs @ calling (pre @ th # post))" for p
    using that handled calling_started [of p _ d hs] ok by auto
  have cth: "calling (th # post) = calling [th] @ calling post" using calling_append [of "[th]" post] by simp
  show ?thesis
    using run
  proof (cases rule: handler_call_cases)
    case silent
    have "(jb_job_id job', n) \<notin> set (handled_pairs hs @ calling (pre @ th # post))"
      if "nxt = Some (job', Calling n)" for job' n
      using old [of "(jb_job_id job', n)"] moves_Some(4,5) [OF mv [unfolded that]] by auto
    then show ?thesis
      using silent handled started_frame [OF fr] pairs
      by (cases nxt) (auto simp: calling_new calling_append cth split: phase.splits, metis (mono_tags, lifting) image_eqI)
  next
    case (call n)
    have "calling [th] = [(jb_job_id (th_job th), n)]" "permitted (th_job th) n" "started d (jb_job_id (th_job th)) n"
      using call(1) ok by (simp_all add: calling_def thread_ok_def)
    then show ?thesis
      using call handled pairs by (auto simp: calling_append calling_new cth permitted_def)
  qed
qed

text \<open>The places of the threads after the step.\<close>

lemma moved_threads:
  assumes mv: "moves U hs t job ph d (d', nxt)"
    and others: "t \<notin> set (held_tokens (pre @ post))"
    and ok: "\<forall>u \<in> set (pre @ post). thread_ok d hs (th_job u, th_phase u)"
    and mem: "u \<in> set (pre @ new_threads p nxt @ post)"
  shows "thread_ok d' (hs @ handler_call ph nxt) (th_job u, th_phase u)"
proof (cases "u \<in> set (pre @ post)")
  case True
  note fr = mv [unfolded moves_def fst_conv snd_conv, THEN conjunct1]
  have "t \<noteq> t'" if "claimed_phase (th_phase u)" "jb_execution_token (th_job u) = Some t'" for t'
    using held_token_of [OF True that] others by auto
  then show ?thesis using ok True thread_ok_frame [OF fr, of "(th_job u, th_phase u)" hs "hs @ handler_call ph nxt"]
    by (cases "jb_execution_token (th_job u)") auto
next
  case False
  then obtain job' ph' where jp: "nxt = Some (job', ph')" "u = \<lparr>th_process = p, th_job = job', th_phase = ph'\<rparr>"
    using mem by (auto simp: new_threads_def split: option.splits)
  show ?thesis using moves_Some(1) [OF mv [unfolded jp(1)]] jp by simp
qed

lemma advance_inv:
  assumes inv: "queues_inv U s" and fresh: "en_token en \<notin> U"
  shows "queues_inv (insert (en_token en) U) (advance_thread (pg_repository fmt sha) en i s)"
  using inv
proof (cases rule: advance_cases [where fmt = fmt and sha = sha and en = en and i = i])
  case idle
  then show ?thesis using queues_inv_more [OF inv] by auto
next
  case (step pre th post t q d nxt)
  let ?hs = "qf_handled s @ handler_call (th_phase th) nxt"
  note I = inv [unfolded queues_inv_def step(1)]
  have "set (held_tokens (pre @ th # post)) \<subseteq> U" "distinct (held_tokens (pre @ th # post))" using I by simp_all
  note tokens = moved_tokens [OF step(6) step(4) step(5) fresh this]
  have threads: "thread_ok d ?hs (th_job u, th_phase u)" if "u \<in> set (pre @ new_threads (th_process th) nxt @ post)" for u
    using I that by (intro moved_threads [OF step(6) tokens(1)]) auto
  have calls: "(\<forall>h \<in> set ?hs. 1 \<le> ha_attempt h \<and> started d (ha_job_id h) (ha_attempt h))
    \<and> distinct (handled_pairs ?hs @ calling (pre @ new_threads (th_process th) nxt @ post))"
    using I by (intro moved_calls [OF step(6,2)]) auto
  have "good_rows (insert (en_token en) U) ?hs d" "keyed_jobs d"
    using step(6) tokens(2) good_rows_more [of "insert t U" ?hs d "insert (en_token en) U" ?hs] by (auto simp: moves_def)
  then show ?thesis unfolding step(3) queues_inv_def using threads calls tokens by simp
qed

lemma advance_frame:
  assumes inv: "queues_inv U s"
  shows "\<exists>t. frame t (qf_db s) (qf_db (advance_thread (pg_repository fmt sha) en i s))"
  using inv
proof (cases rule: advance_cases [where fmt = fmt and sha = sha and en = en and i = i])
  case (step pre th post t q d nxt)
  then show ?thesis by (auto simp: moves_def)
qed auto

text \<open>The actions of a process leave the rows of the threads alone, and add at most a reservation.\<close>

definition reservation :: "(JobRecord \<times> phase) option \<Rightarrow> bool" where
  "reservation nxt = (case nxt of None \<Rightarrow> True | Some (job, ph) \<Rightarrow> \<not> claimed_phase ph)"

lemma reservation_simps [simp]: "reservation None" "reservation (Some (job, Reserving c))"
  by (simp_all add: reservation_def)

lemma submit_task_db:
  assumes I: "keyed_jobs d" "good_rows U hs d" and out: "submit_task (pg_repository fmt sha) en a q d = (r, q', d', nxt)"
  shows "frame None d d' \<and> keyed_jobs d' \<and> good_rows U hs d' \<and> reservation nxt"
proof -
  define attempts where "attempts = (case sa_max_attempts a of None \<Rightarrow> tq_default_max_attempts q | Some n \<Rightarrow> n)"
  define create where "create = pg_create_or_get_job fmt sha (py_strip (sa_task_name a)) (sa_payload a) (sa_idempotency_key a)
    attempts (sa_request_id a) (sa_new_id a) (en_readings en)"
  have "reservation nxt \<and> (d' = d \<or> 1 \<le> attempts \<and> d' = snd (faulty (en_fault en) create d))"
    using out unfolding submit_task_def Let_def attempts_def [symmetric]
    by (auto simp: create_def split: if_splits prod.splits sum.splits bool.splits option.splits)
  moreover have "frame None d e \<and> keyed_jobs e \<and> good_rows U hs e" if "create d = (x, e)" "1 \<le> attempts" for x e
    using that(1) unfolding create_def
  proof (cases rule: pg_create_cases)
    case (created row)
    have "good_row U hs row" using created(3-6) that(2) by (simp add: good_row_def)
    then show ?thesis
      using frame_new [OF created(1,7,3)] keyed_jobs_put [OF I(1) created(2,7)] good_rows_put [OF I(2) _ created(7)] by blast
  qed (use I in simp)
  moreover have "snd (faulty f create d) = d \<or> snd (faulty f create d) = snd (create d)" for f
    by (simp add: faulty_def split: option.split fault.split)
  ultimately show ?thesis using I by (metis frame_refl prod.collapse)
qed

lemma queue_action_db:
  assumes I: "keyed_jobs d" "good_rows U hs d" and out: "queue_action (pg_repository fmt sha) en act q d = (r, q', d', nxt)"
  shows "frame None d d' \<and> keyed_jobs d' \<and> good_rows U hs d' \<and> reservation nxt"
proof (cases act)
  case (Submit a)
  then show ?thesis using submit_task_db [OF I] out by simp
next
  case (Dispatch name job_id)
  then show ?thesis using out I
    by (auto simp: handle_dispatch_message_def split: prod.splits if_splits sum.splits option.splits)
next
  case Recover_next
  then show ?thesis using out I by (auto simp: recovery_next_def split: prod.splits list.splits if_splits)
next
  case Renew_next
  have "nxt = None \<and> (\<exists>j. touches j d d')"
  proof (cases "tq_owned q")
    case (Cons e rest)
    obtain j t where e: "e = (j, t)" by (cases e)
    have "d' = snd (faulty (en_fault en) (pg_renew_job_lease j t (tq_lease_seconds q) (en_readings en)) d)" "nxt = None"
      using out Renew_next Cons e by (auto simp: heartbeat_next_def split: prod.splits sum.splits bool.splits)
    then show ?thesis using faulty_touches [of j "pg_renew_job_lease j t (tq_lease_seconds q) (en_readings en)"] pg_renew_touches by auto
  qed (use out Renew_next in \<open>auto simp: heartbeat_next_def touches_def\<close>)
  then show ?thesis using touches_frame [OF I(1)] touches_good [OF _ I(2)] by auto
qed (use out I in \<open>auto split: prod.splits sum.splits\<close>)

lemma queue_step_inv:
  assumes inv: "queues_inv U s" and fresh: "en_token en \<notin> U"
  shows "queues_inv (insert (en_token en) U) (snd (queue_step (pg_repository fmt sha) (p, act, en) s))"
proof (cases "(\<exists>i. act = Advance i) \<or> length (qf_queues s) \<le> p")
  case True
  have "queues_inv (insert (en_token en) U) s" by (rule queues_inv_more [OF inv]) auto
  then show ?thesis using True advance_inv [OF inv fresh] by (cases act) auto
next
  case False
  obtain r q d nxt where out: "queue_action (pg_repository fmt sha) en act (qf_queues s ! p) (qf_db s) = (r, q, d, nxt)"
    by (metis prod_cases4)
  then have s': "snd (queue_step (pg_repository fmt sha) (p, act, en) s)
      = s\<lparr>qf_db := d, qf_queues := (qf_queues s)[p := q], qf_threads := qf_threads s @ new_threads p nxt\<rparr>"
    using False by (cases act) auto
  have db: "frame None (qf_db s) d" "keyed_jobs d" "good_rows U (qf_handled s) d" and nxt: "reservation nxt"
    using queue_action_db [OF _ _ out, of U "qf_handled s"] inv by (auto simp: queues_inv_def)
  note inv' = queues_inv_db [OF inv db, of "(qf_queues s)[p := q]"]
  have "queues_inv U (s\<lparr>qf_db := d, qf_queues := (qf_queues s)[p := q], qf_threads := qf_threads s @ new_threads p nxt\<rparr>)"
  proof (cases nxt)
    case (Some jp)
    then obtain job c where "nxt = Some (job, Reserving c)"
      using nxt by (auto simp: reservation_def split: prod.splits elim: claimed_phase.elims)
    then show ?thesis using queues_inv_reserving [OF inv', where qs = "(qf_queues s)[p := q]" and p = p and job = job and c = c] by (simp add: new_threads_def)
  qed (use inv' in \<open>simp add: new_threads_def\<close>)
  then show ?thesis using queues_inv_more s' by (metis subset_insertI)
qed

definition call_token :: "queue_call \<Rightarrow> string" where
  "call_token c = en_token (snd (snd c))"

abbreviation pg_run :: "(int \<Rightarrow> string) \<Rightarrow> (string \<Rightarrow> string) \<Rightarrow> task_queue list \<Rightarrow> queue_call list \<Rightarrow> int job_db queue_fleet" where
  "pg_run fmt sha \<equiv> queue_run (pg_repository fmt sha) empty_jobs"

lemma run_queues_inv:
  "queues_inv U s \<Longrightarrow> distinct (map call_token cs) \<Longrightarrow> set (map call_token cs) \<inter> U = {} \<Longrightarrow>
     queues_inv (set (map call_token cs) \<union> U) (snd (run_calls (queue_step (pg_repository fmt sha)) cs s))"
proof (induction cs arbitrary: U s)
  case (Cons c cs)
  obtain p act en where c: "c = (p, act, en)" by (metis prod_cases3)
  have "queues_inv (insert (call_token c) U) (snd (queue_step (pg_repository fmt sha) c s))"
    using queue_step_inv [OF Cons.prems(1), of en] Cons.prems(3) by (simp add: c call_token_def)
  from Cons.IH [OF this] show ?case using Cons.prems by simp
qed simp

lemma start_queues_inv: "queues_inv {} (start_queues empty_jobs qs)"
  by (simp add: queues_inv_def start_queues_def empty_jobs_def keyed_jobs_def good_rows_def held_tokens_def calling_def)

lemmas reachable_inv = run_queues_inv [OF start_queues_inv, simplified]

lemma queue_step_frame:
  assumes "queues_inv U s"
  shows "\<exists>t. frame t (qf_db s) (qf_db (snd (queue_step (pg_repository fmt sha) (p, act, en) s)))"
proof (cases "(\<exists>i. act = Advance i) \<or> length (qf_queues s) \<le> p")
  case True
  have "\<exists>t. frame t (qf_db s) (qf_db s)" using frame_refl by blast
  then show ?thesis using True advance_frame [OF assms] by (cases act) auto
next
  case False
  obtain r q d nxt where out: "queue_action (pg_repository fmt sha) en act (qf_queues s ! p) (qf_db s) = (r, q, d, nxt)"
    by (metis prod_cases4)
  have "frame None (qf_db s) d"
    using queue_action_db [OF _ _ out, of U "qf_handled s"] assms by (simp add: queues_inv_def)
  then show ?thesis using False out by (cases act) auto
qed

text \<open>Rows only grow over a run.\<close>

lemma row_grows_trans: "row_grows r r1 \<Longrightarrow> row_grows r1 r2 \<Longrightarrow> row_grows r r2"
  by (auto simp: row_grows_def)

lemma frame_row: "frame t d d' \<Longrightarrow> job_row_of d j = Some r \<Longrightarrow> \<exists>r'. job_row_of d' j = Some r' \<and> row_grows r r'"
  unfolding frame_def by blast

lemma run_rows_grow:
  assumes "queues_inv U s" "distinct (map call_token cs)" "set (map call_token cs) \<inter> U = {}" "job_row_of (qf_db s) j = Some r"
  shows "\<exists>r'. job_row_of (qf_db (snd (run_calls (queue_step (pg_repository fmt sha)) cs s))) j = Some r' \<and> row_grows r r'"
  using assms
proof (induction cs arbitrary: U s r)
  case (Cons c cs)
  obtain p act en where c: "c = (p, act, en)" by (metis prod_cases3)
  let ?s = "snd (queue_step (pg_repository fmt sha) c s)"
  obtain t where "frame t (qf_db s) (qf_db ?s)" using queue_step_frame [OF Cons.prems(1)] c by blast
  then obtain r1 where r1: "job_row_of (qf_db ?s) j = Some r1" "row_grows r r1"
    using frame_row [OF _ Cons.prems(4)] by blast
  have "queues_inv (insert (call_token c) U) ?s"
    using queue_step_inv [OF Cons.prems(1), of en] Cons.prems(3) by (simp add: c call_token_def)
  from Cons.IH [OF this _ _ r1(1)] r1(2) Cons.prems(2,3) show ?case
    by (auto intro: row_grows_trans)
qed simp

text \<open>
  C11. Every attempt runs once. However the steps of any number of processes interleave, with
  leases expiring, calls of the repository failing before or after their commit and threads stopping
  anywhere, no attempt of a job is handed to a handler twice, and a job's handler is called at most
  its maximum number of attempts. (Every claim draws a new token.)
\<close>

theorem attempts_run_once:
  assumes "distinct (map call_token cs)"
  shows "distinct (handled_pairs (qf_handled (pg_run fmt sha qs cs)))
    \<and> (\<forall>h \<in> set (qf_handled (pg_run fmt sha qs cs)). \<exists>r. job_row_of (qf_db (pg_run fmt sha qs cs)) (ha_job_id h) = Some r
         \<and> 1 \<le> ha_attempt h \<and> ha_attempt h \<le> jb_max_attempts r)"
proof -
  note inv = reachable_inv [OF assms, of fmt sha qs]
  have "\<exists>r. job_row_of (qf_db (pg_run fmt sha qs cs)) (ha_job_id h) = Some r \<and> 1 \<le> ha_attempt h \<and> ha_attempt h \<le> jb_max_attempts r"
    if "h \<in> set (qf_handled (pg_run fmt sha qs cs))" for h
    using inv that by (fastforce simp: queues_inv_def started_def good_rows_def good_row_def)
  then show ?thesis using inv by (simp add: queues_inv_def)
qed

lemma small_tokens: "distinct (map call_token small_calls)"
  by (simp add: small_calls_def small_env_def call_token_def)

lemma small_run:
  "qf_handled (pg_run (\<lambda>t. []) id [small_queue] (take 9 small_calls)) = [\<lparr>ha_job_id = ''j'', ha_attempt = 1, ha_answer = Inr (JInt 7)\<rparr>]"
  "\<exists>r. job_row_of (qf_db (pg_run (\<lambda>t. []) id [small_queue] (take 9 small_calls))) ''j'' = Some r \<and> jb_status r = SUCCEEDED"
  unfolding small_calls_def small_queue_def small_env_def small_submission_def start_queues_def empty_jobs_def
  by (simp_all add: queue_code small_lease strip_small Let_def rbind_def)

theorem attempts_run_once_witness:
  "distinct (handled_pairs (qf_handled (pg_run (\<lambda>t. []) id [small_queue] (take 9 small_calls))))
    \<and> (\<exists>r. job_row_of (qf_db (pg_run (\<lambda>t. []) id [small_queue] (take 9 small_calls))) ''j'' = Some r \<and> 1 \<le> jb_max_attempts r)"
proof -
  have "distinct (map call_token (take 9 small_calls))" using small_tokens by (simp add: take_map [symmetric] distinct_take)
  from attempts_run_once [OF this, of "\<lambda>t. []" id "[small_queue]"] show ?thesis by (auto simp: small_run(1))
qed

text \<open>
  C12. Ended jobs are final. Once a job has succeeded or failed its row never changes again, whatever
  the processes do; and a job that has succeeded holds the answer that its handler gave to the attempt
  the row counts.
\<close>

theorem ended_jobs_are_final:
  assumes "distinct (map call_token (cs @ later))"
    and "job_row_of (qf_db (pg_run fmt sha qs cs)) j = Some r" "job_ended (jb_status r)"
  shows "job_row_of (qf_db (pg_run fmt sha qs (cs @ later))) j = Some r
    \<and> (jb_status r = SUCCEEDED \<longrightarrow>
        (\<exists>h \<in> set (qf_handled (pg_run fmt sha qs cs)). ha_job_id h = j \<and> ha_attempt h = jb_attempt_count r
           \<and> ha_answer h = Inr (jb_result r)))"
proof -
  have inv: "queues_inv (set (map call_token cs)) (pg_run fmt sha qs cs)" using reachable_inv [of cs fmt sha qs] assms(1) by simp
  have "jb_status r = SUCCEEDED \<longrightarrow> succeeded_as (qf_handled (pg_run fmt sha qs cs)) r" "jb_job_id r = j"
    using inv assms(2) by (auto simp: queues_inv_def good_rows_def good_row_def keyed_jobs_def)
  moreover have "\<exists>r'. job_row_of (qf_db (pg_run fmt sha qs (cs @ later))) j = Some r' \<and> row_grows r r'"
    using run_rows_grow [OF inv _ _ assms(2), of later fmt sha] assms(1) by (simp add: run_calls_append Int_commute)
  ultimately show ?thesis using assms(3) by (force simp: row_grows_def succeeded_as_def)
qed

theorem ended_jobs_are_final_witness:
  "\<exists>r. job_row_of (qf_db (pg_run (\<lambda>t. []) id [small_queue] small_calls)) ''j'' = Some r
    \<and> (\<exists>h \<in> set (qf_handled (pg_run (\<lambda>t. []) id [small_queue] (take 9 small_calls))). ha_answer h = Inr (jb_result r))"
proof -
  obtain r where r: "job_row_of (qf_db (pg_run (\<lambda>t. []) id [small_queue] (take 9 small_calls))) ''j'' = Some r" "jb_status r = SUCCEEDED"
    using small_run(2) by blast
  have ended: "job_ended (jb_status r)" by (simp add: r(2) job_ended_def)
  have "distinct (map call_token (take 9 small_calls @ drop 9 small_calls))" using small_tokens by simp
  from ended_jobs_are_final [OF this r(1) ended] show ?thesis using r(2) by auto
qed

end
