(* ===== verification/Task_Tables.thy ===== *)
theory Task_Tables
  imports Task_Permits Job_Steps
begin

text \<open>
  What the calls of a fleet keep of the job table, stated as an interface: a property that every
  operation of a repository keeps holds of the table in every fleet over it. For the PostgreSQL
  repository the table only grows at its end, with new identifiers and new idempotency keys; from this
  follow that submissions are idempotent and that recovery passes find jobs.
\<close>

section \<open>Properties of a table that every operation keeps\<close>

locale guarded_table =
  fixes rp :: "'d job_repository"
    and P :: "'d \<Rightarrow> bool"
  assumes create_keeps: "P d \<Longrightarrow> P (snd (rp_create_or_get_job rp n p k m q j rd d))"
    and claim_keeps: "P d \<Longrightarrow> P (snd (rp_claim_job rp j t secs c rd d))"
    and renew_keeps: "P d \<Longrightarrow> P (snd (rp_renew_job_lease rp j t secs rd d))"
    and release_keeps: "P d \<Longrightarrow> P (snd (rp_release_job_lease rp j u rd d))"
    and transition_keeps: "P d \<Longrightarrow> P (snd (rp_transition rp j ch u rd d))"
begin

lemma faulty_keeps: "P d \<Longrightarrow> P (snd (operation d)) \<Longrightarrow> P (snd (faulty f operation d))"
  by (simp add: faulty_def split: option.split fault.split)

lemmas calls_keep = faulty_keeps [OF _ create_keeps] faulty_keeps [OF _ claim_keeps] faulty_keeps [OF _ renew_keeps]
  faulty_keeps [OF _ release_keeps] faulty_keeps [OF _ transition_keeps]

lemma marking_keeps: "P (snd out) \<Longrightarrow> P (fst (snd (marking out job ph q)))"
  by (auto simp: marking_def moved_to_def raised_def split: prod.split sum.split)

lemma raised_keeps: "P (snd s) \<Longrightarrow> P (fst (snd (raised e job s)))"
  by (simp add: raised_def split: prod.split)

lemma thread_step_keeps:
  assumes "P d"
  shows "P (fst (snd (thread_step rp en job ph q d)))"
proof (cases ph)
  case (Reserving c)
  have "P (snd (faulty (en_fault en) (rp_claim_job rp (jb_job_id job) (en_token en) (tq_lease_seconds q) c (en_readings en)) d))"
    using assms by (intro calls_keep)
  then show ?thesis using assms Reserving by (auto simp: reserve_step_def split: prod.split sum.split option.split)
next
  case (Attempting n)
  have "P (snd (faulty (en_fault en) (rp_renew_job_lease rp (jb_job_id job)
      (case jb_execution_token job of None \<Rightarrow> [] | Some t \<Rightarrow> t) (tq_lease_seconds q) (en_readings en)) d))"
    using assms by (intro calls_keep)
  then show ?thesis using assms Attempting raised_keeps
    by (auto simp: ensure_execution_lease_def moved_to_def split: prod.split sum.split bool.split)
qed (use assms in \<open>auto simp: exhausted_step_def release_step_def mark_running_step_def handler_step_def result_step_def
      retry_step_def failure_lookup_step_def failure_mark_step_def moved_to_def mark_running_def mark_failed_def
      mark_retry_scheduled_def mark_succeeded_def split: sum.split job_error.split intro!: calls_keep marking_keeps raised_keeps\<close>)

lemma queue_action_keeps:
  assumes "P d"
  shows "P (fst (snd (snd (queue_action rp en act q d))))"
proof (cases act)
  case (Submit a)
  have "P (snd (faulty (en_fault en) (rp_create_or_get_job rp n p k m r j (en_readings en)) d))" for n p k m r j
    using assms by (intro calls_keep)
  then have "P d'" if "faulty (en_fault en) (rp_create_or_get_job rp n p k m r j (en_readings en)) d = (x, d')" for n p k m r j x d'
    using that by (metis snd_conv)
  then show ?thesis using assms Submit
    by (auto simp: submit_task_def Let_def split: prod.split sum.split bool.split option.split)
next
  case Renew_next
  have "P (snd (faulty (en_fault en) (rp_renew_job_lease rp j t (tq_lease_seconds q) (en_readings en)) d))" for j t
    using assms by (intro calls_keep)
  then have "P d'" if "faulty (en_fault en) (rp_renew_job_lease rp j t (tq_lease_seconds q) (en_readings en)) d = (x, d')" for j t x d'
    using that by (metis snd_conv)
  then show ?thesis using assms Renew_next
    by (auto simp: heartbeat_next_def split: prod.split sum.split bool.split list.split)
qed (use assms in \<open>auto split: prod.split sum.split\<close>)

lemma table_step_keeps:
  assumes "P (qf_db s)"
  shows "P (qf_db (snd (queue_step rp c s)))"
proof -
  obtain p act en where c: "c = (p, act, en)" by (metis prod_cases3)
  show ?thesis
  proof (cases "\<exists>i. act = Advance i")
    case True
    then obtain i where i: "act = Advance i" by blast
    have "P (qf_db (advance_thread rp en i s))"
    proof (cases rule: advance_parts [of rp en i s])
      case (step pre th post q d nxt)
      then show ?thesis using thread_step_keeps [OF assms, of en "th_job th" "th_phase th" "qf_queues s ! th_process th"] by simp
    qed (use assms in simp)
    then show ?thesis by (simp add: c i)
  next
    case False
    then show ?thesis using assms queue_action_keeps [OF assms, of en act "qf_queues s ! p"]
      by (cases act) (auto simp: c simp del: queue_action.simps split: prod.split)
  qed
qed

lemma table_run_keeps: "P (qf_db s) \<Longrightarrow> P (qf_db (snd (run_calls (queue_step rp) cs s)))"
  by (induction cs arbitrary: s) (simp_all add: table_step_keeps)

end

section \<open>The PostgreSQL table only grows\<close>

text \<open>What never changes of a row: its identifier, idempotency key, task and payload.\<close>

type_synonym ident = "string \<times> string option \<times> string \<times> string"

definition ident_of :: "'t job_row \<Rightarrow> ident" where
  "ident_of r = (jb_job_id r, jb_idempotency_key r, jb_task_name r, jb_payload_fingerprint r)"

definition idents :: "'t job_db \<Rightarrow> (string \<times> ident) list" where
  "idents d = map (\<lambda>e. (fst e, ident_of (snd e))) (jd_jobs d)"

definition ident_key :: "string \<times> ident \<Rightarrow> string option" where
  "ident_key e = fst (snd (snd e))"

definition idents_ok :: "(string \<times> ident) list \<Rightarrow> bool" where
  "idents_ok xs =
     (distinct (map fst xs) \<and> (\<forall>e \<in> set xs. fst (snd e) = fst e)
      \<and> (\<forall>e1 \<in> set xs. \<forall>e2 \<in> set xs. ident_key e1 = ident_key e2 \<longrightarrow> ident_key e1 \<noteq> None \<longrightarrow> fst e1 = fst e2))"

definition grown_from :: "(string \<times> ident) list \<Rightarrow> 't job_db \<Rightarrow> bool" where
  "grown_from xs d = (idents_ok (idents d) \<and> (\<exists>ys. idents d = xs @ ys))"

lemma ident_simps [simp]:
  "ident_of (claimed_row c t a now r) = ident_of r" "ident_of (changed_job ch now r) = ident_of r"
  "ident_of (r\<lparr>jb_lease_expires_at := l, jb_updated_at := now\<rparr>) = ident_of r"
  "ident_of (r\<lparr>jb_execution_token := u, jb_lease_expires_at := l, jb_updated_at := now\<rparr>) = ident_of r"
  "ident_of (times_as f r) = ident_of r"
  by (simp_all add: ident_of_def claimed_row_def changed_job_def)

lemma dict_put_image:
  "dict_get d k = Some v \<Longrightarrow> f v' = f v \<Longrightarrow> map (\<lambda>e. (fst e, f (snd e))) (dict_put k v' d) = map (\<lambda>e. (fst e, f (snd e))) d"
  by (induction k v' d rule: dict_put.induct) (auto split: if_splits)

lemma ok_keyed:
  assumes "idents_ok (idents d)" "job_row_of d j = Some r"
  shows "jb_job_id r = j"
proof -
  have "(j, ident_of r) \<in> set (idents d)" using map_of_SomeD [OF assms(2)] by (force simp: idents_def)
  then show ?thesis using assms(1) by (auto simp: idents_ok_def ident_of_def)
qed

lemma grown_update:
  assumes "grown_from xs d" "job_row_of d j = Some r" "ident_of r' = ident_of r" "jd_jobs d' = dict_put (jb_job_id r) r' (jd_jobs d)"
  shows "grown_from xs d'"
proof -
  have "jb_job_id r = j" using ok_keyed [OF _ assms(2)] assms(1) by (simp add: grown_from_def)
  then have "idents d' = idents d" using dict_put_image [OF assms(2), of ident_of r'] assms(3,4) by (simp add: idents_def)
  then show ?thesis using assms(1) by (simp add: grown_from_def)
qed

lemma job_by_key_None: "job_by_key k d = None \<longleftrightarrow> (\<forall>e \<in> set (idents d). ident_key e \<noteq> Some k)"
  by (auto simp: job_by_key_def idents_def ident_of_def ident_key_def find_None_iff)

lemma job_by_key_Some:
  assumes "job_by_key k d = Some r" "idents_ok (idents d)"
  shows "(jb_job_id r, ident_of r) \<in> set (idents d)" "jb_idempotency_key r = Some k"
proof -
  have "r \<in> snd ` set (jd_jobs d)" and k: "jb_idempotency_key r = Some k"
    using assms(1) nth_mem by (fastforce simp: job_by_key_def find_Some_iff)+
  then obtain j where "(j, ident_of r) \<in> set (idents d)" by (force simp: idents_def)
  then show "(jb_job_id r, ident_of r) \<in> set (idents d)" "jb_idempotency_key r = Some k"
    using assms(2) k by (auto simp: idents_ok_def ident_of_def)
qed

lemma idents_ok_new:
  assumes "idents_ok xs" "fst e \<notin> fst ` set xs" "fst (snd e) = fst e"
    and new: "ident_key e \<noteq> None \<Longrightarrow> \<forall>e' \<in> set xs. ident_key e' \<noteq> ident_key e"
  shows "idents_ok (xs @ [e])"
proof -
  have old: "distinct (map fst xs)" "\<forall>e \<in> set xs. fst (snd e) = fst e"
    and keys: "\<And>e1 e2. e1 \<in> set xs \<Longrightarrow> e2 \<in> set xs \<Longrightarrow> ident_key e1 = ident_key e2 \<Longrightarrow> ident_key e1 \<noteq> None \<Longrightarrow> fst e1 = fst e2"
    using assms(1) unfolding idents_ok_def by blast+
  have "fst e1 = fst e2"
    if e: "e1 \<in> set (xs @ [e])" "e2 \<in> set (xs @ [e])" and same: "ident_key e1 = ident_key e2" "ident_key e1 \<noteq> None" for e1 e2
  proof (cases "e1 = e \<or> e2 = e")
    case True
    have "e1 \<in> set xs \<Longrightarrow> e2 \<noteq> e" "e2 \<in> set xs \<Longrightarrow> e1 \<noteq> e" using new same by metis+
    moreover have "e1 \<in> set xs \<or> e1 = e" "e2 \<in> set xs \<or> e2 = e" using e by auto
    ultimately show ?thesis using True by metis
  next
    case False
    then show ?thesis using keys [of e1 e2] e same by simp
  qed
  moreover have "distinct (map fst (xs @ [e]))" "\<forall>e' \<in> set (xs @ [e]). fst (snd e') = fst e'" using old assms(2,3) by auto
  ultimately show ?thesis unfolding idents_ok_def by blast
qed

lemma grown_new:
  assumes "grown_from xs d" "j \<notin> set (dict_keys (jd_jobs d))" "jb_job_id r = j"
    and "\<And>k. jb_idempotency_key r = Some k \<Longrightarrow> job_by_key k d = None" and "jd_jobs d' = dict_put j r (jd_jobs d)"
  shows "grown_from xs d'" "idents d' = idents d @ [(j, ident_of r)]"
proof -
  show new: "idents d' = idents d @ [(j, ident_of r)]"
    using assms(2,5) by (simp add: idents_def dict_put_new)
  have "fst ` set (idents d) = set (dict_keys (jd_jobs d))" by (force simp: idents_def)
  moreover have "\<forall>e \<in> set (idents d). ident_key e \<noteq> ident_key (j, ident_of r)" if keyed: "ident_key (j, ident_of r) \<noteq> None"
  proof -
    obtain key where "jb_idempotency_key r = Some key" using keyed by (auto simp: ident_key_def ident_of_def)
    then show ?thesis using assms(4) [of key] by (simp add: job_by_key_None) (simp add: ident_key_def ident_of_def)
  qed
  ultimately have "idents_ok (idents d')"
    using assms(1-3) unfolding new by (intro idents_ok_new) (simp_all add: grown_from_def ident_of_def)
  then show "grown_from xs d'" using assms(1) by (auto simp: grown_from_def new)
qed

lemma grown_touches:
  assumes "touches j d d'" "grown_from xs d"
  shows "grown_from xs d'"
proof (cases "d' = d")
  case False
  then obtain r r' where r: "job_row_of d j = Some r" "touched r r'" "jd_jobs d' = dict_put (jb_job_id r) r' (jd_jobs d)"
    using assms(1) by (auto simp: touches_def)
  have "ident_of r' = ident_of r" using r(2) by (simp add: touched_def ident_of_def)
  then show ?thesis by (rule grown_update [OF assms(2) r(1) _ r(3)])
qed (use assms in simp)

text \<open>Creating a job, in these terms.\<close>

lemma pg_create_grown:
  assumes grown: "grown_from xs d" and out: "pg_create_or_get_job fmt sha n p k m q j rd d = (x, d')"
  shows "grown_from xs d'"
    and "x = Inr (job, reused) \<Longrightarrow> normalize_idempotency_key k = Inr (Some key) \<Longrightarrow>
      (jb_job_id job, jb_job_id job, Some key, n, payload_fingerprint sha p) \<in> set (idents d')
      \<and> (\<not> reused \<longrightarrow> job_by_key key d = None)"
proof -
  have "grown_from xs d' \<and> (x = Inr (job, reused) \<longrightarrow> normalize_idempotency_key k = Inr (Some key) \<longrightarrow>
      (jb_job_id job, jb_job_id job, Some key, n, payload_fingerprint sha p) \<in> set (idents d')
      \<and> (\<not> reused \<longrightarrow> job_by_key key d = None))"
  proof (cases "normalize_idempotency_key k")
    case (Inr nk)
    show ?thesis
    proof (cases "Option.bind nk (\<lambda>k. job_by_key k d)")
      case (Some row)
      then obtain key' where key': "nk = Some key'" "job_by_key key' d = Some row" by (cases nk) auto
      have "d' = d" and x: "x = rbind (validate_existing_job (times_as fmt row) n (payload_fingerprint sha p)) (\<lambda>_. Inr (times_as fmt row, True))"
        using out Inr Some by (simp_all add: pg_create_or_get_job_def Let_def)
      then show ?thesis
        using job_by_key_Some [OF key'(2)] grown key'(1) Inr
        by (auto simp: grown_from_def rbind_def validate_existing_job_def ident_of_def split: if_splits)
    next
      case None
      define row where "row = new_job_row j n p nk (payload_fingerprint sha p) m q (rd_now rd)"
      show ?thesis
      proof (cases "j \<in> set (dict_keys (jd_jobs d))")
        case True
        then show ?thesis using out Inr None grown by (auto simp: pg_create_or_get_job_def Let_def)
      next
        case False
        have new: "jd_jobs d' = dict_put j row (jd_jobs d)" "x = Inr (times_as fmt row, False)"
          "jb_job_id row = j" "jb_idempotency_key row = nk"
          using out Inr None False
          by (auto simp: pg_create_or_get_job_def Let_def row_def append_job_event_def put_job_def new_job_row_def)
        have "job_by_key key' d = None" if "jb_idempotency_key row = Some key'" for key'
          using None that new(4) by simp
        note grown_new [OF grown False new(3) this new(1)]
        then show ?thesis using new Inr None by (auto simp: ident_of_def row_def new_job_row_def)
      qed
    qed
  qed (use out grown in \<open>simp add: pg_create_or_get_job_def\<close>)
  then show "grown_from xs d'"
    "x = Inr (job, reused) \<Longrightarrow> normalize_idempotency_key k = Inr (Some key) \<Longrightarrow>
      (jb_job_id job, jb_job_id job, Some key, n, payload_fingerprint sha p) \<in> set (idents d')
      \<and> (\<not> reused \<longrightarrow> job_by_key key d = None)" by blast+
qed

lemma pg_claim_grown:
  assumes "grown_from xs d"
  shows "grown_from xs (snd (pg_claim_job fmt j t secs c rd d))"
proof -
  obtain x d' where out: "pg_claim_job fmt j t secs c rd d = (x, d')" by (metis surj_pair)
  from out show ?thesis
  proof (cases rule: pg_claim_cases)
    case (granted r)
    then show ?thesis using grown_update [OF assms granted(1) _ granted(3)] out by simp
  qed (use assms out in simp)
qed

lemma pg_transition_grown:
  assumes "grown_from xs d"
  shows "grown_from xs (snd (pg_transition fmt j ch u rd d))"
proof (cases "job_row_of d j")
  case (Some r)
  let ?d = "append_job_event j (jc_event_type ch) (jc_event_payload ch) (rd_event rd) (put_job (changed_job ch (rd_stamp rd) r) d)"
  have "grown_from xs ?d"
    by (rule grown_update [OF assms Some, of "changed_job ch (rd_stamp rd) r"]) (simp_all add: append_job_event_def put_job_def)
  then show ?thesis using Some assms by (simp add: pg_transition_def Let_def)
qed (use assms in \<open>simp add: pg_transition_def\<close>)

interpretation pg_table: guarded_table "pg_repository fmt sha" "grown_from xs"
proof
  show "grown_from xs (snd (rp_create_or_get_job (pg_repository fmt sha) n p k m q j rd d))" if "grown_from xs d" for n p k m q j rd d
    using pg_create_grown(1) [OF that] by (metis prod.collapse pg_repository_simps(2))
qed (simp_all add: pg_claim_grown pg_transition_grown grown_touches [OF pg_renew_touches] grown_touches [OF pg_release_touches])

end
