(* ===== verification/Task_Submissions.thy ===== *)
theory Task_Submissions
  imports Task_Tables
begin

text \<open>
  What callers of a fleet over PostgreSQL may rely on: submissions with one idempotency key name one
  job, which is accepted at most once; and a recovery pass with a free permit takes a job that is
  waiting for it.
\<close>

section \<open>Idempotent submissions\<close>

text \<open>The key of a submission, the job an answer names, and whether it is a new one.\<close>

fun submission_key :: "queue_call \<Rightarrow> string option" where
  "submission_key (p, Submit a, en) =
     (case normalize_idempotency_key (sa_idempotency_key a) of Inl e \<Rightarrow> None | Inr key \<Rightarrow> key)"
| "submission_key c = None"

fun submitted_task :: "queue_call \<Rightarrow> string \<times> payload" where
  "submitted_task (p, Submit a, en) = (py_strip (sa_task_name a), sa_payload a)"
| "submitted_task c = ([], [])"

fun answered_job :: "reply \<Rightarrow> string option" where
  "answered_job (Reused job) = Some (jb_job_id job)"
| "answered_job (Accepted job) = Some (jb_job_id job)"
| "answered_job r = None"

fun newly_accepted :: "reply \<Rightarrow> bool" where
  "newly_accepted (Accepted job) = True"
| "newly_accepted r = False"

text \<open>An answer for a key names the row of the key, with the task and payload of the submission.\<close>

definition entry_for :: "(string \<Rightarrow> string) \<Rightarrow> string \<Rightarrow> string \<Rightarrow> queue_call \<Rightarrow> string \<times> ident" where
  "entry_for sha key j c =
     (j, j, Some key, fst (submitted_task c), payload_fingerprint sha (snd (submitted_task c)))"

lemma pg_find_entry:
  assumes "idents_ok (idents d)" "normalize_idempotency_key k = Inr (Some key)"
    and "pg_find_idempotent_job fmt sha n p k d = Inr (Some job)"
  shows "(jb_job_id job, jb_job_id job, Some key, n, payload_fingerprint sha p) \<in> set (idents d)"
proof -
  obtain row where row: "job_by_key key d = Some row" "job = times_as fmt row"
    "jb_task_name row = n" "jb_payload_fingerprint row = payload_fingerprint sha p"
    using assms(2,3)
    by (auto simp: pg_find_idempotent_job_def rbind_def validate_existing_job_def Let_def split: option.splits sum.splits if_splits)
  then show ?thesis using job_by_key_Some [OF row(1) assms(1)] by (simp add: ident_of_def)
qed

lemma submit_entry:
  assumes ok: "idents_ok (idents d)"
    and out: "submit_task (pg_repository fmt sha) en a q d = (r, q', d', nxt)"
    and key: "submission_key (p, Submit a, en) = Some key" and job: "answered_job r = Some j"
  shows "entry_for sha key j (p, Submit a, en) \<in> set (idents d')
    \<and> (newly_accepted r \<longrightarrow> job_by_key key d = None)"
proof -
  have nk: "normalize_idempotency_key (sa_idempotency_key a) = Inr (Some key)"
    using key by (auto split: sum.splits)
  have g: "grown_from (idents d) d" using ok by (simp add: grown_from_def)
  let ?create = "\<lambda>m. pg_create_or_get_job fmt sha (py_strip (sa_task_name a)) (sa_payload a) (sa_idempotency_key a)
    m (sa_request_id a) (sa_new_id a) (en_readings en)"
  consider job where "r = Reused job" "d' = d"
      "pg_find_idempotent_job fmt sha (py_strip (sa_task_name a)) (sa_payload a) (sa_idempotency_key a) d = Inr (Some job)"
    | job m where "r = Reused job" "faulty (en_fault en) (?create m) d = (Inr (job, True), d')"
    | job m where "r = Accepted job" "faulty (en_fault en) (?create m) d = (Inr (job, False), d')"
    using out job nk
    by (auto simp: submit_task_def capacity_refusal_def faulty_def Let_def
        split: if_splits option.splits prod.splits sum.splits bool.splits fault.splits)
  then show ?thesis
  proof cases
    case 1
    then show ?thesis using pg_find_entry [OF ok nk 1(3)] job by (simp add: entry_for_def)
  next
    case (2 job m)
    then have "?create m d = (Inr (job, True), d')" by (auto elim: faulty_cases)
    then show ?thesis using pg_create_grown(2) [OF g _ refl nk] 2(1) assms(4) by (auto simp: entry_for_def)
  next
    case (3 job m)
    then have "?create m d = (Inr (job, False), d')" by (auto elim: faulty_cases)
    then show ?thesis using pg_create_grown(2) [OF g _ refl nk] 3(1) assms(4) by (auto simp: entry_for_def)
  qed
qed

lemma step_entry:
  assumes ok: "idents_ok (idents (qf_db s))"
    and out: "queue_step (pg_repository fmt sha) c s = (r, s')"
    and key: "submission_key c = Some key" and job: "answered_job r = Some j"
  shows "entry_for sha key j c \<in> set (idents (qf_db s')) \<and> (newly_accepted r \<longrightarrow> job_by_key key (qf_db s) = None)"
proof -
  obtain p act en where c: "c = (p, act, en)" by (metis prod_cases3)
  then obtain a where a: "act = Submit a" using key by (cases act) auto
  obtain r1 q d nxt where sub: "submit_task (pg_repository fmt sha) en a (qf_queues s ! p) (qf_db s) = (r1, q, d, nxt)"
    by (metis prod_cases4)
  have "p < length (qf_queues s)" using out job by (auto simp: c a split: if_splits)
  then have "r = r1" "qf_db s' = d" using out sub by (auto simp: c a)
  then show ?thesis using submit_entry [OF ok sub] key job by (simp add: c a)
qed

text \<open>Over a run: what earlier answers named stays in the table.\<close>

definition entries_in :: "(string \<Rightarrow> string) \<Rightarrow> (queue_call \<times> reply) list \<Rightarrow> (string \<times> ident) list \<Rightarrow> bool" where
  "entries_in sha es xs =
     (\<forall>(c, r) \<in> set es. case (submission_key c, answered_job r) of
        (Some key, Some j) \<Rightarrow> entry_for sha key j c \<in> set xs | _ \<Rightarrow> True)"

abbreviation pg_events :: "(int \<Rightarrow> string) \<Rightarrow> (string \<Rightarrow> string) \<Rightarrow> task_queue list \<Rightarrow> queue_call list \<Rightarrow> (queue_call \<times> reply) list" where
  "pg_events fmt sha qs cs \<equiv> fst (run_calls (queue_step (pg_repository fmt sha)) cs (start_queues empty_jobs qs))"

definition accepted_for :: "string \<Rightarrow> (queue_call \<times> reply) list \<Rightarrow> (queue_call \<times> reply) list" where
  "accepted_for key es = filter (\<lambda>(c, r). submission_key c = Some key \<and> newly_accepted r) es"

lemma run_entries:
  assumes "idents_ok (idents (qf_db s))"
  shows "entries_in sha (fst (run_calls (queue_step (pg_repository fmt sha)) cs s))
      (idents (qf_db (snd (run_calls (queue_step (pg_repository fmt sha)) cs s))))
    \<and> length (accepted_for key (fst (run_calls (queue_step (pg_repository fmt sha)) cs s)))
        \<le> (if job_by_key key (qf_db s) = None then 1 else 0)"
  using assms
proof (induction cs arbitrary: s)
  case Nil
  then show ?case by (simp add: entries_in_def accepted_for_def)
next
  case (Cons c cs)
  let ?step = "queue_step (pg_repository fmt sha)"
  obtain r s' where out: "?step c s = (r, s')" by (metis surj_pair)
  have g: "grown_from (idents (qf_db s)) (qf_db s)" using Cons.prems by (simp add: grown_from_def)
  then have g1: "grown_from (idents (qf_db s)) (qf_db s')" using pg_table.table_step_keeps [OF g, where c = c and fmt = fmt and sha = sha] out by simp
  then have ok1: "idents_ok (idents (qf_db s'))" and sub1: "set (idents (qf_db s)) \<subseteq> set (idents (qf_db s'))"
    by (auto simp: grown_from_def)
  have g2: "grown_from (idents (qf_db s')) (qf_db s')" using ok1 by (simp add: grown_from_def)
  have sub2: "set (idents (qf_db s')) \<subseteq> set (idents (qf_db (snd (run_calls ?step cs s'))))"
    using pg_table.table_run_keeps [OF g2, where fmt = fmt and sha = sha and cs = cs] by (auto simp: grown_from_def)
  note IH = Cons.IH [OF ok1]
  have later: "entries_in sha (fst (run_calls ?step (c # cs) s)) (idents (qf_db (snd (run_calls ?step (c # cs) s))))"
    using IH sub2 step_entry [OF Cons.prems out] by (auto simp: entries_in_def out split: option.split)
  have keyed: "job_by_key key (qf_db s') \<noteq> None" if "job_by_key key (qf_db s) \<noteq> None"
    using that sub1 by (auto simp: job_by_key_None)
  have "job_by_key key (qf_db s) = None \<and> job_by_key key (qf_db s') \<noteq> None" if new: "submission_key c = Some key" "newly_accepted r"
  proof -
    obtain job where "r = Accepted job" using new(2) by (cases r) auto
    then have "entry_for sha key (jb_job_id job) c \<in> set (idents (qf_db s')) \<and> job_by_key key (qf_db s) = None"
      using step_entry [OF Cons.prems out new(1)] by simp
    moreover have "ident_key (entry_for sha key (jb_job_id job) c) = Some key" by (simp add: entry_for_def ident_key_def)
    ultimately show ?thesis using job_by_key_None by blast
  qed
  then have "length (accepted_for key (fst (run_calls ?step (c # cs) s))) \<le> (if job_by_key key (qf_db s) = None then 1 else 0)"
    using IH keyed by (auto simp: accepted_for_def out split: if_splits)
  then show ?case using later by simp
qed

text \<open>
  C13. Submissions are idempotent. Whatever the processes do and whatever fails, all submissions with one
  idempotency key that are answered with a job are answered with the same job and were made for the
  same task and a payload of the same digest; and at most one of them was accepted as new.
\<close>

theorem submissions_are_idempotent:
  assumes "(c1, r1) \<in> set (pg_events fmt sha qs cs)" "(c2, r2) \<in> set (pg_events fmt sha qs cs)"
    and "submission_key c1 = Some key" "submission_key c2 = Some key"
    and "answered_job r1 = Some j1" "answered_job r2 = Some j2"
  shows "j1 = j2 \<and> fst (submitted_task c1) = fst (submitted_task c2)
    \<and> payload_fingerprint sha (snd (submitted_task c1)) = payload_fingerprint sha (snd (submitted_task c2))
    \<and> length (accepted_for key (pg_events fmt sha qs cs)) \<le> 1"
proof -
  let ?xs = "idents (qf_db (snd (run_calls (queue_step (pg_repository fmt sha)) cs (start_queues empty_jobs qs))))"
  have start: "grown_from [] (qf_db (start_queues empty_jobs qs))"
    by (simp add: grown_from_def idents_ok_def idents_def start_queues_def empty_jobs_def)
  then have ok: "idents_ok (idents (qf_db (start_queues (empty_jobs :: int job_db) qs)))" by (simp add: grown_from_def)
  have end_ok: "idents_ok ?xs" using pg_table.table_run_keeps [OF start] by (simp add: grown_from_def)
  note run = run_entries [OF ok, of sha fmt cs key]
  have "entry_for sha key j1 c1 \<in> set ?xs" "entry_for sha key j2 c2 \<in> set ?xs"
    using run assms by (auto simp: entries_in_def)
  moreover from this have "j1 = j2"
    using end_ok unfolding idents_ok_def by (fastforce simp: entry_for_def ident_key_def)
  ultimately have "entry_for sha key j1 c1 = entry_for sha key j1 c2"
    using end_ok by (auto simp: idents_ok_def entry_for_def dest: eq_key_imp_eq_value)
  then show ?thesis using run \<open>j1 = j2\<close> by (auto simp: entry_for_def split: if_splits)
qed

text \<open>In the small fleet the second submission is answered with the job of the first.\<close>

lemma small_answers:
  "\<exists>job. (small_calls ! 1, Accepted job) \<in> set (pg_events (\<lambda>t. []) id [small_queue] small_calls) \<and> jb_job_id job = ''j''"
  "\<exists>job. (small_calls ! 9, Reused job) \<in> set (pg_events (\<lambda>t. []) id [small_queue] small_calls) \<and> jb_job_id job = ''j''"
  unfolding small_calls_def small_queue_def small_env_def small_submission_def start_queues_def empty_jobs_def
  by (simp_all add: queue_code small_lease strip_small Let_def rbind_def del: submission_key.simps)

theorem submissions_are_idempotent_witness:
  "\<exists>j1 j2. j1 = j2 \<and> j1 = ''j''
    \<and> length (accepted_for ''k'' (pg_events (\<lambda>t. []) id [small_queue] small_calls)) \<le> 1"
proof -
  obtain job1 job2 where
    jobs: "(small_calls ! 1, Accepted job1) \<in> set (pg_events (\<lambda>t. []) id [small_queue] small_calls)" "jb_job_id job1 = ''j''"
      "(small_calls ! 9, Reused job2) \<in> set (pg_events (\<lambda>t. []) id [small_queue] small_calls)" "jb_job_id job2 = ''j''"
    using small_answers by blast
  have "submission_key (small_calls ! 1) = Some ''k''" "submission_key (small_calls ! 9) = Some ''k''"
    by (simp_all add: small_calls_def small_submission_def normalize_idempotency_key_def strip_small)
  then show ?thesis using submissions_are_idempotent [OF jobs(1,3), of "''k''"] jobs(2,4) by auto
qed

section \<open>Recovery passes\<close>

text \<open>A pass skips the active jobs at the head of its page and takes the first other one.\<close>

lemma pass_takes:
  assumes "p < length (qf_queues s)" "tq_page (qf_queues s ! p) = pre @ job # rest"
    and "\<forall>r \<in> set pre. jb_job_id r \<in> set (tq_active_job_ids (qf_queues s ! p))"
    and "jb_job_id job \<notin> set (tq_active_job_ids (qf_queues s ! p))" "\<not> tq_shutdown (qf_queues s ! p)" "0 < tq_permits (qf_queues s ! p)"
  shows "qf_threads (snd (run_calls (queue_step rp) (replicate (Suc (length pre)) (p, Recover_next, en)) s))
    = qf_threads s @ [\<lparr>th_process = p, th_job = job, th_phase = Reserving True\<rparr>]"
  using assms
proof (induction pre arbitrary: s)
  case Nil
  then show ?case by (simp add: recovery_next_def new_threads_def)
next
  case (Cons r pre)
  define s1 where "s1 = snd (queue_step rp (p, Recover_next, en) s)"
  have s1: "s1 = s\<lparr>qf_queues := (qf_queues s)[p := (qf_queues s ! p)\<lparr>tq_page := pre @ job # rest\<rparr>]\<rparr>"
    using Cons.prems by (simp add: s1_def recovery_next_def new_threads_def)
  have "qf_threads (snd (run_calls (queue_step rp) (replicate (Suc (length pre)) (p, Recover_next, en)) s1))
      = qf_threads s1 @ [\<lparr>th_process = p, th_job = job, th_phase = Reserving True\<rparr>]"
    using Cons.prems by (intro Cons.IH) (simp_all add: s1)
  then show ?case
    unfolding length_Cons replicate_Suc [of "Suc (length pre)"] run_calls_Cons s1_def [symmetric] by (simp only: s1) simp
qed

definition recoverable :: "string \<Rightarrow> int \<Rightarrow> int job_row \<Rightarrow> bool" where
  "recoverable task now r = (jb_task_name r = task \<and> jb_status r \<in> {ACCEPTED, RUNNING} \<and> unclaimed now r)"

lemma distinct_jobs:
  assumes "idents_ok (idents d)"
  shows "distinct (map jb_job_id (map snd (jd_jobs d)))"
proof -
  have "map jb_job_id (map snd (jd_jobs d)) = map fst (idents d)"
    using assms by (auto simp: idents_ok_def idents_def ident_of_def)
  then show ?thesis using assms by (simp add: idents_ok_def)
qed

lemma row_of_member:
  assumes "idents_ok (idents d)" "r \<in> snd ` set (jd_jobs d)"
  shows "job_row_of d (jb_job_id r) = Some r"
proof -
  obtain j where j: "(j, r) \<in> set (jd_jobs d)" using assms(2) by auto
  have "distinct (dict_keys (jd_jobs d))" using assms(1) by (simp add: idents_ok_def idents_def comp_def)
  moreover have "(j, ident_of r) \<in> set (idents d)" using j by (force simp: idents_def)
  then have "jb_job_id r = j" using assms(1) by (auto simp: idents_ok_def ident_of_def)
  ultimately show ?thesis using j by simp
qed

text \<open>A list longer than the active jobs has a job that is not active.\<close>

lemma page_has_free:
  assumes "distinct (map jb_job_id rs)" "r \<in> set rs" "jb_job_id r \<notin> set active" "length active < n"
  shows "\<exists>r' \<in> set (take n rs). jb_job_id r' \<notin> set active"
proof (rule ccontr)
  assume none: "\<not> (\<exists>r' \<in> set (take n rs). jb_job_id r' \<notin> set active)"
  then have "take n rs \<noteq> rs" using assms(2,3) by metis
  then have len: "length (take n rs) = n" by (metis length_take min_def take_all)
  have "distinct (map jb_job_id (take n rs))" using assms(1) by (simp add: take_map [symmetric] distinct_take)
  then have "n = card (set (map jb_job_id (take n rs)))" using len by (metis distinct_card length_map)
  also have "\<dots> \<le> card (set active)" using none by (intro card_mono) auto
  also have "\<dots> \<le> length active" by (rule card_length)
  finally show False using assms(4) by simp
qed

text \<open>
  C14. Recovery is not starved. In any state that a fleet can reach, when a process that is not shutting
  down has a permit and some job of a task waits unclaimed and is not active in the process, an
  undisturbed recovery pass takes such a job within one more step than the process has capacity: the
  page it reads is longer than the list of active jobs.
\<close>

theorem recovery_is_not_starved:
  assumes made: "\<forall>q \<in> set qs. made q" "p < length qs"
    and s: "s = queue_run (pg_repository fmt sha) empty_jobs qs cs"
    and open_process: "\<not> tq_shutdown (qf_queues s ! p)" "0 < tq_permits (qf_queues s ! p)"
    and waiting: "job_row_of (qf_db s) j = Some r" "recoverable task (rd_now (en_readings en)) r"
      "j \<notin> set (tq_active_job_ids (qf_queues s ! p))"
    and read: "en_fault en = None"
  shows "\<exists>k \<le> nat (tq_capacity_limit (qs ! p)) + 1. \<exists>r' job. job_row_of (qf_db s) (jb_job_id job) = Some r'
    \<and> job = times_as fmt r' \<and> recoverable task (rd_now (en_readings en)) r'
    \<and> jb_job_id job \<notin> set (tq_active_job_ids (qf_queues s ! p))
    \<and> qf_threads (snd (run_calls (queue_step (pg_repository fmt sha))
          ((p, Scan_recoverable task, en) # replicate k (p, Recover_next, en)) s))
      = qf_threads s @ [\<lparr>th_process = p, th_job = job, th_phase = Reserving True\<rparr>]"
proof -
  let ?q = "qf_queues s ! p" and ?limit = "tq_capacity_limit (qs ! p)" and ?now = "rd_now (en_readings en)"
  have inv: "permits_inv qs s" unfolding s by (intro permits_run permits_start made)
  then have len: "p < length (qf_queues s)" and b: "balanced ?limit ?q (threads_of p (qf_threads s))"
    using made(2) by (simp_all add: permits_inv_def)
  have limit: "?limit \<le> 9999" using made new_task_queue_parts nth_mem unfolding made_def by blast
  define n where "n = nat ?limit + 1"
  have size: "page_size (tq_capacity_limit ?q + 1) 10000 = n" and act: "length (tq_active_job_ids ?q) < n"
    using b limit active_le [OF b] by (auto simp: n_def balanced_def page_size_def min_def max_def)
  have "grown_from [] (qf_db s)"
    unfolding s by (rule pg_table.table_run_keeps) (simp add: grown_from_def idents_ok_def idents_def start_queues_def empty_jobs_def)
  then have ok: "idents_ok (idents (qf_db s))" by (simp add: grown_from_def)
  define rs where "rs = sort_key jb_created_at (filter (recoverable task ?now) (map snd (jd_jobs (qf_db s))))"
  have rs_set: "set rs = {r \<in> snd ` set (jd_jobs (qf_db s)). recoverable task ?now r}" by (auto simp: rs_def)
  have "distinct (map jb_job_id rs)"
    using distinct_jobs [OF ok] by (simp add: rs_def distinct_map inj_on_def) blast
  moreover have "r \<in> set rs" using waiting(1,2) by (force simp: rs_set dest: map_of_SomeD)
  moreover have "jb_job_id r \<notin> set (tq_active_job_ids ?q)" using ok_keyed [OF ok waiting(1)] waiting(3) by simp
  ultimately have "\<exists>r' \<in> set (take n rs). jb_job_id r' \<notin> set (tq_active_job_ids ?q)"
    using act by (rule page_has_free)
  then obtain pre r' rest where page: "take n rs = pre @ r' # rest"
    and free: "jb_job_id r' \<notin> set (tq_active_job_ids ?q)" "\<forall>x \<in> set pre. jb_job_id x \<in> set (tq_active_job_ids ?q)"
    using split_list_first_prop [of "take n rs" "\<lambda>r. jb_job_id r \<notin> set (tq_active_job_ids ?q)"] by blast
  define s1 where "s1 = snd (queue_step (pg_repository fmt sha) (p, Scan_recoverable task, en) s)"
  have s1: "s1 = s\<lparr>qf_queues := (qf_queues s)[p := ?q\<lparr>tq_page := map (times_as fmt) pre @ times_as fmt r' # map (times_as fmt) rest\<rparr>]\<rparr>"
    using len open_process read size page
    by (simp add: s1_def recovery_scan_def pg_list_recoverable_jobs_def rs_def recoverable_def [abs_def] new_threads_def)
  have run: "qf_threads (snd (run_calls (queue_step (pg_repository fmt sha)) (replicate (Suc (length (map (times_as fmt) pre))) (p, Recover_next, en)) s1))
      = qf_threads s1 @ [\<lparr>th_process = p, th_job = times_as fmt r', th_phase = Reserving True\<rparr>]"
    using len free open_process by (intro pass_takes) (simp_all add: s1)
  have "Suc (length pre) \<le> n" using arg_cong [OF page, of length] by simp
  moreover have "r' \<in> set rs" using arg_cong [OF page, of set] set_take_subset [of n rs] by auto
  then have "job_row_of (qf_db s) (jb_job_id r') = Some r'" "recoverable task ?now r'"
    using row_of_member [OF ok] by (auto simp: rs_set)
  moreover have "qf_threads s1 = qf_threads s" by (simp add: s1)
  ultimately show ?thesis using run free(1)
    by (intro exI [of _ "Suc (length pre)"]) (auto simp: s1_def n_def)
qed

text \<open>A fleet in which the pool refused a job, which is then waiting for a recovery pass.\<close>

definition refused_calls :: "queue_call list" where
  "refused_calls =
     take 2 small_calls @ [(0, Advance 0, small_env ''c''\<lparr>en_pool_accepts := False\<rparr>), (0, Advance 0, small_env ''d'')]"

lemma refused_run:
  fixes s defines "s \<equiv> queue_run (pg_repository (\<lambda>t. []) id) empty_jobs [small_queue] refused_calls"
  shows "\<not> tq_shutdown (qf_queues s ! 0)" "0 < tq_permits (qf_queues s ! 0)" "''j'' \<notin> set (tq_active_job_ids (qf_queues s ! 0))"
    "\<exists>r. job_row_of (qf_db s) ''j'' = Some r \<and> recoverable ''t'' 0 r"
  unfolding s_def refused_calls_def small_calls_def small_queue_def small_env_def small_submission_def start_queues_def empty_jobs_def
  by (simp_all add: queue_code small_lease strip_small Let_def rbind_def recoverable_def)

theorem recovery_is_not_starved_witness:
  "\<exists>k \<le> nat (tq_capacity_limit ([small_queue] ! 0)) + 1. \<exists>job.
    qf_threads (snd (run_calls (queue_step (pg_repository (\<lambda>t. []) id))
        ((0, Scan_recoverable ''t'', small_env ''x'') # replicate k (0, Recover_next, small_env ''x''))
        (queue_run (pg_repository (\<lambda>t. []) id) empty_jobs [small_queue] refused_calls)))
      = qf_threads (queue_run (pg_repository (\<lambda>t. []) id) empty_jobs [small_queue] refused_calls)
          @ [\<lparr>th_process = 0, th_job = job, th_phase = Reserving True\<rparr>]"
proof -
  obtain r where r: "job_row_of (qf_db (queue_run (pg_repository (\<lambda>t. []) id) empty_jobs [small_queue] refused_calls)) ''j'' = Some r"
    "recoverable ''t'' (rd_now (en_readings (small_env ''x''))) r" using refused_run(4) by (auto simp: small_env_def)
  have "en_fault (small_env ''x'') = None" by (simp add: small_env_def)
  from recovery_is_not_starved [OF _ _ refl refused_run(1,2) r refused_run(3) this] show ?thesis
    using small_queue_made by fastforce
qed

end
