(* ===== verification/Task_Simulation.thy ===== *)
theory Task_Simulation
  imports Task_Permits Job_Steps
begin

text \<open>
  A fleet over any repository that keeps the contract is a fleet over PostgreSQL, with the table
  represented and the clocks read as the repository reads them: every answer, every handler call and
  every place of a thread is the same. SQLite keeps the contract, so what holds of the one fleet holds
  of the other while the clocks stay in the range of a \<^verbatim>\<open>datetime\<close>.
\<close>

section \<open>The same fleet over another repository\<close>

definition fleet_as :: "('d \<Rightarrow> 'e) \<Rightarrow> 'd queue_fleet \<Rightarrow> 'e queue_fleet" where
  "fleet_as f s =
     \<lparr>qf_db = f (qf_db s), qf_queues = qf_queues s, qf_threads = qf_threads s, qf_handled = qf_handled s\<rparr>"

definition moved_as :: "('d \<Rightarrow> 'e) \<Rightarrow> 'a \<times> 'd \<times> 'b \<Rightarrow> 'a \<times> 'e \<times> 'b" where
  "moved_as f m = (fst m, f (fst (snd m)), snd (snd m))"

definition clocked :: "(readings \<Rightarrow> readings) \<Rightarrow> environment \<Rightarrow> environment" where
  "clocked f en = en\<lparr>en_readings := f (en_readings en)\<rparr>"

definition clocked_call :: "(readings \<Rightarrow> readings) \<Rightarrow> nat \<times> action \<times> environment \<Rightarrow> nat \<times> action \<times> environment" where
  "clocked_call f c = (fst c, fst (snd c), clocked f (snd (snd c)))"

text \<open>The clocks of a call, with the leases of the processes, are in range.\<close>

definition call_in_range :: "rat list \<Rightarrow> nat \<times> action \<times> environment \<Rightarrow> bool" where
  "call_in_range leases c =
     (clock_ok (en_readings (snd (snd c))) \<and> list_all (lease_ok (en_readings (snd (snd c)))) leases)"

lemma moved_as_simps [simp]: "moved_as f (a, d, b) = (a, f d, b)"
  by (simp add: moved_as_def)

lemma clocked_simps [simp]:
  "en_readings (clocked f en) = f (en_readings en)" "en_fault (clocked f en) = en_fault en" "en_token (clocked f en) = en_token en"
  "en_pool_accepts (clocked f en) = en_pool_accepts en" "en_answer (clocked f en) = en_answer en"
  "en_saw_shutdown (clocked f en) = en_saw_shutdown en"
  by (simp_all add: clocked_def)

lemma fleet_as_simps [simp]:
  "qf_db (fleet_as f s) = f (qf_db s)" "qf_queues (fleet_as f s) = qf_queues s"
  "qf_threads (fleet_as f s) = qf_threads s" "qf_handled (fleet_as f s) = qf_handled s"
  by (simp_all add: fleet_as_def)

lemma raised_as: "raised e job (q, f d) = moved_as f (raised e job (q, d))"
  by (simp add: raised_def split: prod.split)

lemma moved_to_as: "moved_to job ph (q, f d) = moved_as f (moved_to job ph (q, d))"
  by (simp add: moved_to_def)

lemma marking_as: "marking (apsnd f out) job ph q = moved_as f (marking out job ph q)"
  by (cases out) (auto simp: marking_def raised_as moved_to_as split: sum.split)

lemma lease_seconds_kept:
  "tq_lease_seconds (latch_execution_lost j t q) = tq_lease_seconds q" "tq_lease_seconds (forget job q) = tq_lease_seconds q"
  "tq_lease_seconds (enlist job u q) = tq_lease_seconds q" "tq_lease_seconds (add_permit q) = tq_lease_seconds q"
  by (simp_all add: latch_execution_lost_def forget_def enlist_def add_permit_def)

lemma db_raised: "fst (snd (raised e job s)) = snd s"
  by (simp add: raised_def split: prod.split)

lemma db_moved_to: "fst (snd (moved_to job ph s)) = snd s"
  by (simp add: moved_to_def)

text \<open>No step changes how long leases last.\<close>

lemma raised_lease: "tq_lease_seconds (fst (raised e job s)) = tq_lease_seconds (fst s)"
  by (cases e) (simp_all add: raised_def guarded_raise_def lease_seconds_kept)

lemma marking_lease: "tq_lease_seconds (fst (marking out job ph q)) = tq_lease_seconds q"
  by (auto simp: marking_def raised_lease moved_to_def split: prod.split sum.split)

lemma thread_step_lease: "tq_lease_seconds (fst (thread_step rp en job ph q d)) = tq_lease_seconds q"
  by (cases ph)
     (auto simp: reserve_step_def exhausted_step_def ensure_execution_lease_def mark_running_step_def handler_step_def
        result_step_def retry_step_def failure_lookup_step_def failure_mark_step_def raised_lease marking_lease
        moved_to_def lease_seconds_kept split: prod.split sum.split bool.split option.split job_error.split)

lemma queue_action_lease: "tq_lease_seconds (fst (snd (queue_action rp en act q d))) = tq_lease_seconds q"
  by (cases act)
     (auto simp: submit_task_def handle_dispatch_message_def register_def recovery_scan_def recovery_next_def heartbeat_scan_def
        heartbeat_next_def shutdown_def Let_def lease_seconds_kept
        split: prod.split sum.split bool.split option.split list.split)

lemma list_update_map: "f q = f (xs ! p) \<Longrightarrow> map f (xs[p := q]) = map f xs"
  by (simp add: map_update) (metis list_update_id list_update_overwrite map_update)

lemma leases_kept: "map tq_lease_seconds (qf_queues (snd (queue_step rp c s))) = map tq_lease_seconds (qf_queues s)"
proof -
  obtain p act en where c: "c = (p, act, en)" by (metis prod_cases3)
  show ?thesis
  proof (cases "\<exists>i. act = Advance i")
    case True
    then obtain i where i: "act = Advance i" by blast
    show ?thesis
    proof (cases rule: advance_parts [of rp en i s])
      case (step pre th post q d nxt)
      have "tq_lease_seconds q = tq_lease_seconds (qf_queues s ! th_process th)"
        using thread_step_lease [of rp en "th_job th" "th_phase th" "qf_queues s ! th_process th" "qf_db s"] step(3) by simp
      then show ?thesis using step(4) by (simp add: c i list_update_map lease_seconds_kept)
    qed (simp add: c i)
  next
    case False
    then show ?thesis
      using queue_action_lease [of rp en act "qf_queues s ! p" "qf_db s"]
      by (cases act) (auto simp: c list_update_map simp del: queue_action.simps split: prod.split)
  qed
qed

context job_contract
begin

lemma claim_as:
  assumes "ok d" "lease_ok (en_readings en) secs"
  shows "faulty f (rp_claim_job rp j t secs c (en_readings en)) (rep d) = apsnd rep (faulty f (pg_claim_job fmt j t secs c (clocks (en_readings en))) d)"
    "ok (snd (faulty f (pg_claim_job fmt j t secs c (clocks (en_readings en))) d))"
  using claim_law [OF assms] assms(1) by (simp_all add: faulty_def split: option.split fault.split)

lemma renew_as:
  assumes "ok d" "lease_ok (en_readings en) secs"
  shows "faulty f (rp_renew_job_lease rp j t secs (en_readings en)) (rep d) = apsnd rep (faulty f (pg_renew_job_lease j t secs (clocks (en_readings en))) d)"
    "ok (snd (faulty f (pg_renew_job_lease j t secs (clocks (en_readings en))) d))"
  using renew_law [OF assms] assms(1) by (simp_all add: faulty_def split: option.split fault.split)

lemma release_as:
  assumes "ok d" "clock_ok (en_readings en)"
  shows "faulty f (rp_release_job_lease rp j u (en_readings en)) (rep d) = apsnd rep (faulty f (pg_release_job_lease j u (clocks (en_readings en))) d)"
    "ok (snd (faulty f (pg_release_job_lease j u (clocks (en_readings en))) d))"
  using release_law [OF assms] assms(1) by (simp_all add: faulty_def split: option.split fault.split)

lemma transition_as:
  assumes "ok d" "clock_ok (en_readings en)"
  shows "faulty f (rp_transition rp j ch u (en_readings en)) (rep d) = apsnd rep (faulty f (pg_transition fmt j ch u (clocks (en_readings en))) d)"
    "ok (snd (faulty f (pg_transition fmt j ch u (clocks (en_readings en))) d))"
  using transition_law [OF assms] assms(1) by (simp_all add: faulty_def split: option.split fault.split)

lemma create_as:
  assumes "ok d" "clock_ok (en_readings en)"
  shows "faulty f (rp_create_or_get_job rp n p k m q j (en_readings en)) (rep d) = apsnd rep (faulty f (pg_create_or_get_job fmt sha n p k m q j (clocks (en_readings en))) d)"
    "ok (snd (faulty f (pg_create_or_get_job fmt sha n p k m q j (clocks (en_readings en))) d))"
  using create_law [OF assms] assms(1) by (simp_all add: faulty_def split: option.split fault.split)

abbreviation pg :: "int job_db job_repository" where
  "pg \<equiv> pg_repository fmt sha"

lemma marks_as:
  assumes "ok d" "clock_ok (en_readings en)"
  shows "marking (faulty f (rp_transition rp j ch u (en_readings en)) (rep d)) job ph q
      = moved_as rep (marking (faulty f (pg_transition fmt j ch u (clocks (en_readings en))) d) job ph q)"
    "ok (fst (snd (marking (faulty f (pg_transition fmt j ch u (clocks (en_readings en))) d) job ph q)))"
proof -
  show "marking (faulty f (rp_transition rp j ch u (en_readings en)) (rep d)) job ph q
      = moved_as rep (marking (faulty f (pg_transition fmt j ch u (clocks (en_readings en))) d) job ph q)"
    by (simp add: transition_as [OF assms] marking_as)
  have "fst (snd (marking out job ph q)) = snd out" for out :: "JobRecord attempted \<times> int job_db"
    by (cases out) (auto simp: marking_def moved_to_def raised_def split: sum.split prod.split)
  then show "ok (fst (snd (marking (faulty f (pg_transition fmt j ch u (clocks (en_readings en))) d) job ph q)))"
    using transition_as(2) [OF assms] by simp
qed

lemma thread_step_as:
  assumes "ok d" "clock_ok (en_readings en)" "lease_ok (en_readings en) (tq_lease_seconds q)"
  shows "thread_step rp en job ph q (rep d) = moved_as rep (thread_step pg (clocked clocks en) job ph q d)
    \<and> ok (fst (snd (thread_step pg (clocked clocks en) job ph q d)))"
proof (cases ph)
  case (Reserving c)
  note claim = claim_as [OF assms(1,3), of "en_fault en" "jb_job_id job" "en_token en" c]
  show ?thesis
    using claim(2) assms(1) by (auto simp: Reserving reserve_step_def claim(1) apsnd_def map_prod_def split: prod.split sum.split option.split)
next
  case (Attempting n)
  note renew = renew_as [OF assms(1,3), of "en_fault en" "jb_job_id job" "case jb_execution_token job of None \<Rightarrow> [] | Some t \<Rightarrow> t"]
  show ?thesis
    using renew(2) assms(1)
    by (auto simp: Attempting ensure_execution_lease_def renew(1) apsnd_def map_prod_def raised_as [where f = rep] db_raised
        moved_to_def split: prod.split sum.split bool.split)
qed (use assms(1) in \<open>simp_all add: exhausted_step_def release_step_def mark_running_step_def handler_step_def result_step_def
      retry_step_def failure_lookup_step_def failure_mark_step_def mark_running_def mark_failed_def get_law
      mark_retry_scheduled_def mark_succeeded_def transition_as [OF assms(1,2)] release_as [OF assms(1,2)] marks_as [OF assms(1,2)] marking_as
      raised_as [where f = rep] moved_to_def db_raised split: sum.split job_error.split option.split\<close>)

lemma submit_as:
  assumes "ok d" "clock_ok (en_readings en)"
  shows "submit_task rp en a q (rep d) = apsnd (moved_as rep) (submit_task pg (clocked clocks en) a q d)
    \<and> ok (fst (snd (snd (submit_task pg (clocked clocks en) a q d))))"
proof -
  have find: "capacity_refusal rp a n f (rep d) = capacity_refusal pg a n f d" for n f
    by (auto simp: capacity_refusal_def faulty_def find_law Let_def split: option.split fault.split sum.split)
  have "ok d'" if "faulty f (pg_create_or_get_job fmt sha n p k m q j (clocks (en_readings en))) d = (x, d')" for f n p k m q j x d'
    using create_as(2) [OF assms, of f n p k m q j] that by simp
  then show ?thesis
    using assms(1)
    by (auto simp: submit_task_def Let_def find create_as(1) [OF assms] apsnd_def map_prod_def
        split: prod.split sum.split bool.split option.split)
qed

lemma queue_action_as:
  assumes "ok d" "clock_ok (en_readings en)" "lease_ok (en_readings en) (tq_lease_seconds q)"
  shows "queue_action rp en act q (rep d) = apsnd (moved_as rep) (queue_action pg (clocked clocks en) act q d)
    \<and> ok (fst (snd (snd (queue_action pg (clocked clocks en) act q d))))"
proof (cases act)
  case (Submit a)
  then show ?thesis using submit_as [OF assms(1,2)] by simp
next
  case (Dispatch name job_id)
  have "handle_dispatch_message rp en name job_id q (rep d) = handle_dispatch_message pg (clocked clocks en) name job_id q d"
    by (simp add: handle_dispatch_message_def faulty_def get_law split: option.split fault.split)
  then show ?thesis using assms(1) Dispatch by (simp split: prod.split)
next
  case (Scan_recoverable name)
  have "recovery_scan rp en name q (rep d) = recovery_scan pg (clocked clocks en) name q d"
    by (simp add: recovery_scan_def list_law assms(1,2))
  then show ?thesis using assms(1) Scan_recoverable by simp
next
  case Renew_next
  have "ok d'" if "faulty f (pg_renew_job_lease j t (tq_lease_seconds q) (clocks (en_readings en))) d = (x, d')" for f j t x d'
    using renew_as(2) [OF assms(1,3), of f j t] that by simp
  then show ?thesis
    using assms(1)
    by (auto simp: Renew_next heartbeat_next_def renew_as(1) [OF assms(1,3)] apsnd_def map_prod_def split: prod.split sum.split bool.split list.split)
qed (use assms(1) in \<open>auto split: prod.split sum.split\<close>)

lemma advance_as:
  assumes "ok (qf_db s)" "clock_ok (en_readings en)" "\<forall>q \<in> set (qf_queues s). lease_ok (en_readings en) (tq_lease_seconds q)"
  shows "advance_thread rp en i (fleet_as rep s) = fleet_as rep (advance_thread pg (clocked clocks en) i s)
    \<and> ok (qf_db (advance_thread pg (clocked clocks en) i s))"
proof (cases "i < length (qf_threads s) \<and> th_process (qf_threads s ! i) < length (qf_queues s)")
  case True
  let ?th = "qf_threads s ! i"
  obtain q d nxt where out: "thread_step pg (clocked clocks en) (th_job ?th) (th_phase ?th) (qf_queues s ! th_process ?th) (qf_db s) = (q, d, nxt)"
    by (metis prod_cases3)
  have "thread_step rp en (th_job ?th) (th_phase ?th) (qf_queues s ! th_process ?th) (rep (qf_db s)) = (q, rep d, nxt) \<and> ok d"
    using thread_step_as [OF assms(1,2), of "qf_queues s ! th_process ?th" "th_job ?th" "th_phase ?th"] True assms(3) out by simp
  then show ?thesis using True out by (simp add: advance_thread_def Let_def fleet_as_def)
qed (use assms(1) in \<open>auto simp: advance_thread_def\<close>)

lemma queue_step_as:
  assumes "ok (qf_db s)" "call_in_range (map tq_lease_seconds (qf_queues s)) c"
  shows "queue_step rp c (fleet_as rep s) = apsnd (fleet_as rep) (queue_step pg (clocked_call clocks c) s)
    \<and> ok (qf_db (snd (queue_step pg (clocked_call clocks c) s)))"
proof -
  obtain p act en where c: "c = (p, act, en)" by (metis prod_cases3)
  have clock: "clock_ok (en_readings en)" and lease: "\<forall>q \<in> set (qf_queues s). lease_ok (en_readings en) (tq_lease_seconds q)"
    using assms(2) by (simp_all add: c call_in_range_def list_all_iff)
  show ?thesis
  proof (cases "(\<exists>i. act = Advance i) \<or> length (qf_queues s) \<le> p")
    case True
    then show ?thesis using advance_as [OF assms(1) clock lease] assms(1) by (cases act) (auto simp: c clocked_call_def)
  next
    case False
    obtain r q d nxt where out: "queue_action pg (clocked clocks en) act (qf_queues s ! p) (qf_db s) = (r, q, d, nxt)"
      by (metis prod_cases4)
    have "queue_action rp en act (qf_queues s ! p) (rep (qf_db s)) = (r, q, rep d, nxt) \<and> ok d"
      using queue_action_as [OF assms(1) clock, of "qf_queues s ! p" act] lease False out by simp
    then show ?thesis using False out
      by (cases act) (auto simp: c clocked_call_def fleet_as_def simp del: queue_action.simps)
  qed
qed

lemma fleet_simulation:
  assumes "ok (qf_db s)" "list_all (call_in_range (map tq_lease_seconds (qf_queues s))) cs"
  shows "map snd (fst (run_calls (queue_step rp) cs (fleet_as rep s)))
      = map snd (fst (run_calls (queue_step pg) (map (clocked_call clocks) cs) s))
    \<and> snd (run_calls (queue_step rp) cs (fleet_as rep s)) = fleet_as rep (snd (run_calls (queue_step pg) (map (clocked_call clocks) cs) s))"
  using assms
proof (induction cs arbitrary: s)
  case (Cons c cs)
  have step: "queue_step rp c (fleet_as rep s) = apsnd (fleet_as rep) (queue_step pg (clocked_call clocks c) s)"
    "ok (qf_db (snd (queue_step pg (clocked_call clocks c) s)))"
    using queue_step_as [OF Cons.prems(1), of c] Cons.prems(2) by simp_all
  have "list_all (call_in_range (map tq_lease_seconds (qf_queues (snd (queue_step pg (clocked_call clocks c) s))))) cs"
    using Cons.prems(2) by (simp add: leases_kept)
  then show ?case using Cons.IH [OF step(2)] by (simp add: step(1))
qed simp

end

section \<open>A fleet over SQLite\<close>



end
