(* ===== verification/Spec2Isabelle.thy ===== *)
theory Spec2Isabelle
  imports Loop_Guard_Runs Provider_Resilience Budget_Runs Risk_Gate Run_Cancellation Hedge_Codec Hedge_Reads
    Hedge_Service Harness_Event_Log Task_Runs Task_Submissions Task_Simulation
begin

text \<open>
  Verification of three parts of a trading agent: the funding hedge
  (\<^verbatim>\<open>src/funding_fee_avoidance\<close>), which moves money, the workflow harness
  (\<^verbatim>\<open>src/market_agent/workflow_*.py\<close>), which records, governs and budgets what the agents do, and
  the background jobs (\<^verbatim>\<open>src/market_agent/backend/database.py\<close>, \<^verbatim>\<open>task_queue.py\<close>), which run the
  agents' tasks in several processes.

  \<^bold>\<open>The funding hedge.\<close> Before a funding settlement a second account takes the
  opposite of the primary position when that saves more than it costs, and gives it back
  afterwards. A polling iteration (\<^verbatim>\<open>service.py\<close>) loads the stored cycles, reads
  snapshots from the exchange (\<^verbatim>\<open>hyperliquid_adapter.py\<close>), and processes each of them: the coordinator (\<^verbatim>\<open>state_machine.py\<close>) reconciles the
  stored cycle with the snapshot, asks the policy (\<^verbatim>\<open>policy.py\<close>) for a decision and dispatches it
  to the executor (\<^verbatim>\<open>executor.py\<close>), writing the cycle ahead of every order
  (\<^verbatim>\<open>state_store.py\<close>).

  \<^item> \<open>Prelude\<close>: results with exceptions, guard lists, text, dictionaries, JSON values.
  \<^item> \<open>Decimal\<close>: the 28-digit decimal arithmetic of Python as rounding on rationals
    (locale \<open>rounding\<close> of its laws, interpreted on the context's precision).
  \<^item> \<open>Symbols\<close>, \<open>Hedge_Models\<close>: \<^verbatim>\<open>symbols.py\<close>, \<^verbatim>\<open>models.py\<close>, \<^verbatim>\<open>config.py\<close> as records with
    their constructors.
  \<^item> \<open>Hedge_Policy\<close>: the decision, and that openings are safe, exits only reduce, tracked hedges
    leave, and evaluations fail in two ways only.
  \<^item> \<open>Hedge_Store\<close>: transactions over the cycles, each flush an effect.
  \<^item> \<open>Text_Codec\<close>, \<open>Hedge_Codec\<close>: decimals and times as text, the JSON form of cycles and of the state
    file; what is written is read back.
  \<^item> \<open>Hedge_Adapter\<close>, \<open>Hedge_Reads\<close>: the reads of the exchange, each with its parsing, its errors and
    the record of what was asked; snapshots are sound, every symbol is read or reported, and an
    opening rests on answers of its load.
  \<^item> \<open>Hedge_Executor\<close>: orders against an SDK that is a parameter; the protocol of its calls.
  \<^item> \<open>Hedge_Coordinator\<close>, \<open>Hedge_Lifetime\<close>: one step and the life of a cycle over many steps that
    may be killed at any effect; write-ahead, evolution of cycles, identifiers never reused,
    and two defects.
  \<^item> \<open>Hedge_Service\<close>: the iteration and its report; invariants of an iteration as a locale with
    three interpretations, and one defect.

  \<^bold>\<open>The harness.\<close> A run of agents is a stream of events in SQLite
  (\<^verbatim>\<open>workflow_session.py\<close>). Each transition of the run, of a work item or of an attempt is validated
  against the folded view and its committed evidence (\<^verbatim>\<open>workflow_state_machine.py\<close>), and appended
  under optimistic counters and a lease.

  \<^item> \<open>Harness_Contracts\<close>: \<^verbatim>\<open>workflow_harness_contracts.py\<close>, every contract with its validators; the
    dependency search finds exactly the acyclic graphs and always finishes (its fuel is one
    more than the number of identifiers: a deeper recursion would revisit one).
  \<^item> \<open>Harness_State_Machine\<close>: tables, evidence, validation with its reasons, application.
  \<^item> \<open>Harness_Lifecycle\<close>: the three tables as instances of the locale \<open>lifecycle\<close>; the refinement of
    an abstract state machine; histories; the capacity of a session.
  \<^item> \<open>Harness_Session\<close>: events, folding, the store and its leases.
  \<^item> \<open>Harness_Event_Log\<close>: the store as an instance of the locale \<open>event_log\<close>; optimistic
    concurrency, fencing, tamper evidence, agreement of replay with the state machine.
  \<^item> \<open>Scoped_Runs\<close>: histories of calls on a component with separate parts (locale
    \<open>scoped_component\<close>: each part sees exactly its own calls), interpreted on the two next ones.
  \<^item> \<open>Loop_Guard\<close>, \<open>Loop_Guard_Runs\<close>: \<^verbatim>\<open>workflow_loop_guard.py\<close>; what cycle detection computes, that
    every value the guard builds is valid, that stalls and repetitions are stopped, that
    recoveries are granted once, and that scopes do not interfere.
  \<^item> \<open>Provider_Resilience\<close>: \<^verbatim>\<open>workflow_circuit_breaker.py\<close>, \<^verbatim>\<open>workflow_retry_policy.py\<close>,
    \<^verbatim>\<open>workflow_fallback.py\<close> and the loop over model tiers of \<^verbatim>\<open>workflow_agent_driver.py\<close>; when a
    circuit opens and probes, what bounds a retry, and that the loop ends in the first answer.
  \<^item> \<open>Model_Routing\<close>: \<^verbatim>\<open>workflow_model_routing.py\<close> and the prices of \<^verbatim>\<open>openai_usage.py\<close>.
  \<^item> \<open>Budget_Ledger\<close>, \<open>Budget_Accounts\<close>, \<open>Budget_Runs\<close>: \<^verbatim>\<open>workflow_budget.py\<close>; the accounts add up and
    stay within the caps, attempts are counted (locale \<open>attempt_counter\<close>, for the run, a node and a
    model of a node), reservations close once, and an overflow ends the spending.
  \<^item> \<open>Risk_Gate\<close>: \<^verbatim>\<open>workflow_risk_gate.py\<close> with the contracts of what it reads; exactly which decisions it
    accepts.
  \<^item> \<open>Run_Cancellation\<close>: \<^verbatim>\<open>workflow_cancellation.py\<close> over the SQL store of \<^verbatim>\<open>backend/cancellation_store.py\<close>
    (locale \<open>cancellation_authority\<close>); what a poll of any registry answers.

  \<^bold>\<open>Background jobs.\<close> A job is a row of a table in SQLite or PostgreSQL with a status, an attempt count
  and a lease held under a random token (\<^verbatim>\<open>backend/database.py\<close>). The task queue of each process
  (\<^verbatim>\<open>backend/task_queue.py\<close>) accepts submissions, takes dispatched and recoverable jobs as far as
  its permits reach, runs their handlers under the lease, and renews the leases.

  \<^item> \<open>Text_Order\<close>: texts of times are ordered as the times are.
  \<^item> \<open>Job_Store\<close>, \<open>Job_Postgres\<close>: the rows, and every operation of the two repositories.
  \<^item> \<open>Job_Repositories\<close>: the contract of a repository (locale \<open>job_contract\<close>), kept by both.
  \<^item> \<open>Task_Queue\<close>: the queue, the steps of a thread from one call of the repository to the next, and
    a fleet of processes whose steps interleave in any order, with failures before or after a commit.
  \<^item> \<open>Job_Steps\<close>, \<open>Task_Threads\<close>, \<open>Task_Runs\<close>: what a call may change of the table, what the place of a
    thread says about its row, and the invariant of a fleet: attempts run once, ended jobs are final.
  \<^item> \<open>Task_Permits\<close>: permits, threads and active jobs, over any repository.
  \<^item> \<open>Task_Tables\<close>, \<open>Task_Submissions\<close>: what every call keeps of the table (locale \<open>guarded_table\<close>);
    idempotent submissions, and recovery passes that are not starved.
  \<^item> \<open>Task_Simulation\<close>: a fleet over a repository that keeps the contract is a fleet over PostgreSQL.

  \<^bold>\<open>Reading the model.\<close> A class is a record, an enumeration a datatype, an
  exception a left value; state is passed explicitly. Python integers are \<open>int\<close>, decimals and floats
  that are only compared are \<open>rat\<close>, datetimes are microseconds. Texts are ASCII; a text field of
  a contract is taken as stripped. What is not in the repository is a parameter: SHA-256
  (\<open>digest\<close>, \<open>sha\<close>), the exchange SDK and the REST reader (a function of the request and of what was
  asked before), the environment variable of the tool price, the faults of the database, the
  clocks, and random identifiers. The service takes the snapshots and errors of each load as given.

  \<^bold>\<open>Not modelled.\<close> The command lines and file locking of the hedge, its reading of the
  environment and the JSON form of its reports; the check for legacy databases of the session; the
  runtime that drives the agents over the session, the agents, their prompts, memory, caches and
  evaluation; the live trading agent; the other backend services, the watchers and the web demo. Of the
  job store the connections, the migration and the health check, and of the task queue metrics, traces,
  published messages and the cache of ended jobs. All this is
  network and process I/O or works on untyped dictionaries around language models. Of the loop
  guard, the builders of fingerprints with their screening for secrets are left out: the guard only
  sees the digests. Next in line are the JSON form of the snapshots and the runtime of the harness.
\<close>

section \<open>Orders and positions\<close>

lemma submission_planned:
  assumes "process digest co s now execute disk st = (r, t', st')"
    and "x \<in> set (submissions (ct_effects t'))"
  obtains t reconciled d where "now = Aware t"
    and "evaluate (co_config co) s (Aware (evaluation_time co True t)) (only_active reconciled) = Inr d"
    and "planned_order digest (co_config co) s d reconciled = Some x"
  using assms(1)
proof (cases rule: process_cases)
  case idle
  then show thesis using assms(2) by simp
next
  case (run ex d t stored reconciled t1 t2)
  let ?d = "hold_if_settled reconciled d"
  have "hd_snapshot ?d = s" using evaluate_snapshot [OF run(8)] by simp
  from dispatch_carries [OF run(9) this]
  have "submissions (ct_effects t') = submissions (ct_effects t1)
      @ (case planned_order digest (co_config co) s ?d reconciled of None \<Rightarrow> [] | Some y \<Rightarrow> [y])"
    using run(10) by (simp add: carries_out_def)
  moreover have "submissions (ct_effects t1) = []"
    using run(7) by (auto simp: put_if_changed_def split: option.splits)
  ultimately have plan: "planned_order digest (co_config co) s ?d reconciled = Some x"
    using assms(2) by (auto split: option.splits)
  then have "?d = d"
    using hold_if_settled_cases [of reconciled d] by (auto simp: planned_order_def split: option.splits)
  then show thesis using that run(4,8) plan by simp
qed

definition justified :: "StrategyConfig \<Rightarrow> HedgeSnapshot \<Rightarrow> submission \<Rightarrow> bool" where
  "justified cfg s x =
     (case x of
        OpenOrder symbol sz cloid deadline \<Rightarrow>
          symbol = snapshot_symbol s \<and> hedge_size s = 0 \<and> sz * primary_size s < 0
          \<and> \<bar>sz\<bar> \<le> dabs (primary_size s)
          \<and> deadline = fo_next_funding_at (hs_funding s) - seconds (cf_latest_open_cutoff_seconds cfg)
      | CloseOrder symbol current sz cloid \<Rightarrow>
          symbol = snapshot_symbol s \<and> current = hedge_size s \<and> current \<noteq> 0 \<and> 0 < sz
          \<and> sz \<le> dabs current)"

text \<open>
  C1. Every order is justified by the positions it was decided on. Whatever the coordinator hands
  to the executor, an opening order goes against the primary position, is at most as large, is
  for a flat hedge and carries the cutoff as its deadline; every other order is for the current
  hedge position and at most closes it.
\<close>

theorem every_submission_is_justified:
  assumes cfg: "wf_config (co_config co)"
    and run: "process digest co s now execute disk st = (r, t', st')"
    and x: "x \<in> set (submissions (ct_effects t'))"
  shows "justified (co_config co) s x"
  using run x
proof (rule submission_planned)
  fix t reconciled d
  assume ev: "evaluate (co_config co) s (Aware (evaluation_time co True t)) (only_active reconciled) = Inr d"
    and plan: "planned_order digest (co_config co) s d reconciled = Some x"
  have abs: "\<bar>dabs y\<bar> = dabs y" "dabs y \<le> dabs z" if "\<bar>y\<bar> \<le> dabs z" for y z
    using that dec.rnd_mono [of "\<bar>y\<bar>" "dabs z"] by (simp_all add: dabs_ge0 dabs_def dec.rnd_idem dec.rnd_ge0)
  show ?thesis
    using plan open_sizes [OF cfg ev] exit_sizes [OF ev] abs
    by (auto simp: planned_order_def justified_def dabs_pos split: HedgeAction.splits option.splits if_splits)
qed

theorem every_submission_is_justified_witness:
  "\<exists>res t' st' x.
     process (\<lambda>_. []) example_coordinator example_snapshot (Aware example_now) True []
       example_connected = (Inr res, t', st')
     \<and> x \<in> set (submissions (ct_effects t')) \<and> justified example_config example_snapshot x"
proof -
  obtain res t' st' x where run: "process (\<lambda>_. []) example_coordinator example_snapshot
      (Aware example_now) True [] example_connected = (Inr res, t', st')"
    and x: "x \<in> set (submissions (ct_effects t'))"
    using example_process by fastforce
  have "co_config example_coordinator = example_config" by (simp add: example_coordinator_def)
  then have "justified example_config example_snapshot x"
    using every_submission_is_justified [OF _ run x] example_config_wf by simp
  then show ?thesis using run x by blast
qed

end
